(* ===== verification/Prelude.thy ===== *)
theory Prelude
  imports Main "HOL-Library.Word" "HOL-Library.Monad_Syntax"
begin

text \<open>
  Shared vocabulary of the development: the machine-integer types of the Rust sources, the
  handful of integer intrinsics they use (\<open>leading_zeros\<close>, \<open>count_ones\<close>, \<open>saturating_add\<close>,
  bit-field extraction of the \<open>bilge\<close> register types, masked register writes) and the
  lemmas about them that several components share.

  Conventions. Rust's \<open>x >> n\<close>, \<open>x << n\<close>, \<open>!x\<close> are \<open>drop_bit n x\<close>, \<open>push_bit n x\<close>,
  \<open>NOT x\<close>; \<open>as u8/u16/u32/u64\<close> is \<open>ucast\<close>; an arithmetic shift of an \<open>i32\<close> is
  \<open>signed_drop_bit\<close>. The build profile modelled is \<open>release\<close> (Cargo.toml): integer
  \<open>+\<close>, \<open>-\<close>, \<open>*\<close> wrap, while an out-of-range index, a division by zero and \<open>todo!()\<close>
  panic, and a panic aborts the process. An operation that can panic returns an \<open>option\<close>
  whose \<open>None\<close> is the abort.
\<close>

unbundle bit_operations_syntax

type_synonym u8 = "8 word"
type_synonym u16 = "16 word"
type_synonym u32 = "32 word"
type_synonym u64 = "64 word"

named_theorems reg_simps
named_theorems mem_simps
named_theorems cm_simps

section \<open>Integer intrinsics\<close>

definition leading_zeros :: "'a::len word \<Rightarrow> nat" where
  "leading_zeros w = length (takeWhile (\<lambda>i. \<not> bit w i) (rev [0..<LENGTH('a)]))"

definition count_ones :: "'a::len word \<Rightarrow> nat" where
  "count_ones w = length (filter (bit w) [0..<LENGTH('a)])"

definition saturating_add :: "'a::len word \<Rightarrow> 'a word \<Rightarrow> 'a word" where
  "saturating_add a b = (if unat a + unat b < 2 ^ LENGTH('a) then a + b else -1)"

text \<open>A bilge bit field of \<open>n\<close> bits starting at bit \<open>lo\<close>.\<close>

definition field :: "nat \<Rightarrow> nat \<Rightarrow> 'a::len word \<Rightarrow> 'a word" where
  "field lo n w = take_bit n (drop_bit lo w)"

text \<open>The masked register write \<open>(old & !mask) | (value & mask)\<close>.\<close>

definition masked :: "'a::len word \<Rightarrow> 'a word \<Rightarrow> 'a word \<Rightarrow> 'a word" where
  "masked old m v = (old AND NOT m) OR (v AND m)"

section \<open>Bits\<close>

lemma and_bit_eq_0_iff: "w AND push_bit n 1 = 0 \<longleftrightarrow> \<not> bit w n" for w :: "'a::len word"
  by (simp add: push_bit_eq_mult and_exp_eq_0_iff_not_bit)

lemma bit_masked: "bit (masked old m v) n = (if bit m n then bit v n else bit old n)"
proof (cases "n < LENGTH('a)")
  case True
  then show ?thesis by (simp add: masked_def bit_simps)
next
  case False
  then show ?thesis using bit_imp_le_length by (auto simp: masked_def bit_simps)
qed

lemma masked_full [simp]: "masked old (- 1) v = v"
  by (rule bit_word_eqI) (simp add: bit_masked)

lemma masked_none [simp]: "masked old 0 v = old"
  by (rule bit_word_eqI) (simp add: bit_masked)

lemma masked_idem [simp]: "masked (masked old m v) m v = masked old m v"
  by (rule bit_word_eqI) (simp add: bit_masked)

lemma unat_field_less: "n < LENGTH('a) \<Longrightarrow> unat (field lo n (w :: 'a::len word)) < 2 ^ n"
  by (simp add: field_def unsigned_take_bit_eq)

lemma unat_saturating_add:
  "unat (saturating_add a b) = min (unat a + unat b) (2 ^ LENGTH('a) - 1)"
  for a b :: "'a::len word"
proof (cases "unat a + unat b < 2 ^ LENGTH('a)")
  case True
  then show ?thesis by (simp add: saturating_add_def unat_word_ariths)
next
  case False
  then show ?thesis by (simp add: saturating_add_def unsigned_minus_1_eq_mask mask_eq_exp_minus_1)
qed

lemma le_saturating_add: "a \<le> saturating_add a b" for a b :: "'a::len word"
proof -
  have "unat a < 2 ^ LENGTH('a)" by simp
  then have "unat a \<le> 2 ^ LENGTH('a) - 1" by linarith
  then show ?thesis by (simp add: word_le_nat_alt unat_saturating_add)
qed

section \<open>Addresses\<close>

text \<open>Masked words as arithmetic on naturals.\<close>

lemma unat_of_nat_u32: "x < 2 ^ 32 \<Longrightarrow> unat (of_nat x :: u32) = x"
  by (simp add: unsigned_of_nat take_bit_nat_eq_self)

lemma unat_u32_bound: "unat (w :: u32) < 2 ^ 32"
  using unsigned_less [of w] by simp

lemma unat_and_mask: "unat (a AND mask n :: 'a::len word) = unat a mod 2 ^ n"
  unfolding take_bit_eq_mask [symmetric] unsigned_take_bit_eq by (rule take_bit_eq_mod)

lemma unat_and_split_gen:
  fixes a m w :: "'a::len word"
  assumes "m AND w = w"
  shows "unat (a AND m) = unat ((a AND NOT w) AND m) + unat (a AND w)"
proof -
  have m: "bit m n" if "bit w n" for n
    using that by (metis assms bit_and_iff)
  have "a AND m = ((a AND NOT w) AND m) OR (a AND w)"
    by (rule bit_word_eqI) (use m in \<open>auto simp: bit_and_iff bit_or_iff bit_not_iff\<close>)
  moreover have "((a AND NOT w) AND m) AND (a AND w) = 0"
    by (rule bit_word_eqI) (auto simp: bit_and_iff bit_not_iff)
  then have "unat ((a AND NOT w) AND m) AND unat (a AND w) = 0"
    by (metis unsigned_and_eq unsigned_0)
  ultimately show ?thesis by (simp add: unsigned_or_eq disjunctive_add_eq_or)
qed

lemma unat_and_not_mask: "unat (a AND NOT (mask n) :: 'a::len word) = unat a div 2 ^ n * 2 ^ n"
proof -
  have "unat a = unat (a AND NOT (mask n)) + unat a mod 2 ^ n"
    using unat_and_split_gen [of "- 1" "mask n" a] by (simp add: unat_and_mask)
  then show ?thesis by (metis add_right_cancel div_mult_mod_eq)
qed

lemma nibble_drop: "drop_bit 24 a AND 0xF = (of_nat (unat a div 0x1000000 mod 16) :: u32)"
proof -
  have "unat (drop_bit 24 a AND 0xF) = unat a div 0x1000000 mod 16"
    using unat_and_mask [of "drop_bit 24 a" 4]
    by (simp add: mask_eq_exp_minus_1 unat_drop_bit_eq drop_bit_eq_div [of 24 "unat a"] del: drop_bit_eq_div)
  then show ?thesis by (metis of_nat_unat ucast_id)
qed

lemma nibble_mask: "a AND 0x0F000000 = push_bit 24 (of_nat (unat a div 0x1000000 mod 16) :: u32)"
proof -
  have m: "(0x0F000000 :: u32) = push_bit 24 (mask 4)" "(0xF :: u32) = mask 4"
    by (simp_all add: mask_eq_exp_minus_1 push_bit_eq_mult)
  show ?thesis unfolding nibble_drop [symmetric] m
    by (rule bit_word_eqI) (auto simp: bit_and_iff bit_push_bit_iff bit_drop_bit_eq bit_mask_iff)
qed

text \<open>Blocks and pages.\<close>

lemma div_mod_add_within:
  assumes "a mod p + i < (p :: nat)"
  shows "(a + i) div p = a div p" "(a + i) mod p = a mod p + i"
proof -
  have "a + i = (a mod p + i) + p * (a div p)" by simp
  moreover have "0 < p" using assms by linarith
  ultimately show "(a + i) div p = a div p" "(a + i) mod p = a mod p + i"
    using assms by (metis add.commute add_0 div_less div_mult_self2 neq0_conv, metis mod_less mod_mult_self2)
qed

lemma mod_split_page: "(x div p * p) mod (p * q) + x mod p = x mod (p * q)" for x p q :: nat
proof -
  have "(x div p * p) mod (p * q) = p * (x div p mod q)" by (metis mult.commute mult_mod_right)
  then show ?thesis by (simp add: mod_mult2_eq)
qed

lemma div_split_page: "(x div p * p) div (p * q) = x div (p * q)" for x p q :: nat
  by (cases "p = 0") (simp_all add: div_mult2_eq)

lemma multiple_less:
  assumes "x mod p = 0" "y mod p = 0" "x < y" "r < p"
  shows "x + r < (y :: nat)"
proof -
  obtain u v where uv: "x = p * u" "y = p * v" using assms(1,2) by (auto simp: mod_eq_0_iff_dvd elim!: dvdE)
  then have "u < v" using assms(3) by simp
  then have "p * Suc u \<le> p * v" by (metis Suc_leI mult_le_mono2)
  then show ?thesis using assms(4) uv by simp
qed

lemma less_16_cases:
  "k < 16 \<Longrightarrow> k = 0 \<or> k = 1 \<or> k = 2 \<or> k = 3 \<or> k = 4 \<or> k = 5 \<or> k = 6 \<or> k = 7 \<or> k = 8 \<or> k = 9
     \<or> k = 10 \<or> k = 11 \<or> k = 12 \<or> k = 13 \<or> k = 14 \<or> k = 15" for k :: nat
  by presburger

end
