(* ===== verification/CycleManager.thy ===== *)
theory CycleManager
  imports Prelude
begin

text \<open>
  The event scheduler of \<open>src/src/core/cycle_manager.rs\<close>: the \<open>CycleManager\<close> struct, its
  scheduling operations, the leading-zeros scan over the active-event masks, and the three
  parts of \<open>cm_check_events\<close> that work on the scheduler alone (selection of the next due event,
  the recomputation of \<open>next_event_cycle\<close>, the rebasing of the clock). The event due times
  \<open>[u32; 7]\<close> are a function from the event index.
\<close>

section \<open>Event types\<close>

datatype imm_event_type = CpuInterrupt | ImmDma0 | ImmDma1 | ImmDma2 | ImmDma3

fun imm_index :: "imm_event_type \<Rightarrow> nat" where
  "imm_index CpuInterrupt = 0"
| "imm_index ImmDma0 = 1"
| "imm_index ImmDma1 = 2"
| "imm_index ImmDma2 = 3"
| "imm_index ImmDma3 = 4"

datatype event_type =
  GpuScanline240 | GpuScanline308 | Timer0 | Timer1 | Timer2 | Timer3 | ApuSample

fun event_index :: "event_type \<Rightarrow> nat" where
  "event_index GpuScanline240 = 0"
| "event_index GpuScanline308 = 1"
| "event_index Timer0 = 2"
| "event_index Timer1 = 3"
| "event_index Timer2 = 4"
| "event_index Timer3 = 5"
| "event_index ApuSample = 6"

text \<open>The constructors \<open>ImmEventType::dma\<close> and \<open>EventType::timer\<close>; channels are 0 to 3.\<close>

fun imm_dma :: "nat \<Rightarrow> imm_event_type" where
  "imm_dma c = (if c = 0 then ImmDma0 else if c = 1 then ImmDma1
                else if c = 2 then ImmDma2 else ImmDma3)"

fun event_timer :: "nat \<Rightarrow> event_type" where
  "event_timer c = (if c = 0 then Timer0 else if c = 1 then Timer1
                    else if c = 2 then Timer2 else Timer3)"

definition LAST_EVENT :: nat where "LAST_EVENT = 7"

section \<open>State and scheduling operations\<close>

record cycle_manager =
  cycle_count :: u32
  events :: "nat \<Rightarrow> u32"
  next_event_cycle :: u32
  active_events :: u32
  active_imm_events :: u32
  current_event_due :: u32

definition cm_new :: cycle_manager where
  "cm_new = \<lparr>cycle_count = 0, events = (\<lambda>_. 0), next_event_cycle = - 1,
             active_events = 0, active_imm_events = 0, current_event_due = 0\<rparr>"

definition add_cycles :: "u16 \<Rightarrow> cycle_manager \<Rightarrow> cycle_manager" where
  "add_cycles n c = c\<lparr>cycle_count := cycle_count c + ucast n\<rparr>"

definition schedule_imm :: "imm_event_type \<Rightarrow> cycle_manager \<Rightarrow> cycle_manager" where
  "schedule_imm e c =
     c\<lparr>active_imm_events := active_imm_events c OR push_bit (31 - imm_index e) 1\<rparr>"

text \<open>The tail shared by \<open>schedule\<close> and \<open>schedule_from_due\<close>: record the due cycle, mark the
  event active and lower \<open>next_event_cycle\<close>.\<close>

definition set_event :: "u32 \<Rightarrow> event_type \<Rightarrow> cycle_manager \<Rightarrow> cycle_manager" where
  "set_event event_cycle e c =
     c\<lparr>events := (events c)(event_index e := event_cycle),
       active_events := active_events c OR push_bit (31 - event_index e) 1,
       next_event_cycle := (if event_cycle < next_event_cycle c then event_cycle
                            else next_event_cycle c)\<rparr>"

definition schedule :: "u32 \<Rightarrow> event_type \<Rightarrow> cycle_manager \<Rightarrow> cycle_manager" where
  "schedule n e c =
     (let in_cycles = max n 1;
          in_cycles = (if - 1 - in_cycles < cycle_count c then - 1 - cycle_count c
                       else in_cycles)
      in set_event (cycle_count c + in_cycles) e c)"

definition schedule_from_due :: "u32 \<Rightarrow> event_type \<Rightarrow> cycle_manager \<Rightarrow> cycle_manager" where
  "schedule_from_due n e c = set_event (saturating_add (current_event_due c) n) e c"

definition jump_to_next_event :: "cycle_manager \<Rightarrow> cycle_manager" where
  "jump_to_next_event c =
     (if next_event_cycle c > cycle_count c
      then c\<lparr>cycle_count := next_event_cycle c\<rparr> else c)"

section \<open>Scanning the active masks\<close>

lemma leading_zeros_props:
  fixes w :: "'a::len word"
  assumes "w \<noteq> 0"
  shows "leading_zeros w < LENGTH('a)"
    and "bit w (LENGTH('a) - 1 - leading_zeros w)"
    and "i < leading_zeros w \<Longrightarrow> \<not> bit w (LENGTH('a) - 1 - i)"
proof -
  let ?xs = "rev [0..<LENGTH('a)]"
  let ?P = "\<lambda>i. \<not> bit w i"
  have nth: "?xs ! i = LENGTH('a) - 1 - i" if "i < LENGTH('a)" for i
    using that by (simp add: rev_nth)
  have "\<exists>i < LENGTH('a). bit w i"
    using assms by (metis bit_eq_iff bit_0_eq bot_apply bot_bool_def bit_imp_le_length)
  then have ex: "\<exists>x \<in> set ?xs. \<not> ?P x" by auto
  show lt: "leading_zeros w < LENGTH('a)"
    proof -
    have "length (takeWhile ?P ?xs) \<noteq> length ?xs"
      using ex takeWhile_eq_all_conv [of ?P ?xs] by (metis length_takeWhile_le takeWhile_eq_take take_all order_refl)
    with length_takeWhile_le [of ?P ?xs] show ?thesis by (simp add: leading_zeros_def)
  qed
  show "bit w (LENGTH('a) - 1 - leading_zeros w)"
    using nth_length_takeWhile [of ?P ?xs] lt nth [OF lt] by (simp add: leading_zeros_def)
  show "\<not> bit w (LENGTH('a) - 1 - i)" if i: "i < leading_zeros w"
  proof -
    have "takeWhile ?P ?xs ! i \<in> set (takeWhile ?P ?xs)"
      using i by (simp add: leading_zeros_def)
    then have "\<not> bit w (takeWhile ?P ?xs ! i)" by (blast dest: set_takeWhileD)
    then show ?thesis using i lt nth [of i] takeWhile_nth [of i ?P ?xs]
      by (simp add: leading_zeros_def)
  qed
qed

lemma bit_push_bit_u32: "bit (push_bit k w) i \<longleftrightarrow> k \<le> i \<and> i < 32 \<and> bit w (i - k)" for w :: u32
  by (simp add: bit_push_bit_iff)

lemma card_bits_push_less:
  fixes w :: u32
  assumes "w \<noteq> 0" and k: "k = leading_zeros w + 1"
  shows "card {i. bit (push_bit k w) i} < card {i. bit w i}"
proof -
  let ?B = "{i. bit w i}" and ?C = "{i. bit (push_bit k w) i}"
  have fin: "finite ?B"
    by (rule finite_subset [of _ "{..<32}"]) (auto dest: bit_imp_le_length)
  have inj: "inj_on (\<lambda>i. i - k) ?C"
    by (rule inj_onI) (auto simp: bit_push_bit_u32)
  have "k \<le> 32" using leading_zeros_props(1) [OF assms(1)] k by simp
  then have "32 - k \<notin> (\<lambda>i. i - k) ` ?C" by (auto simp: bit_push_bit_u32)
  moreover have "32 - k \<in> ?B"
    using leading_zeros_props(2) [OF assms(1)] k by simp
  moreover have "(\<lambda>i. i - k) ` ?C \<subseteq> ?B" by (auto simp: bit_push_bit_u32)
  ultimately have "(\<lambda>i. i - k) ` ?C \<subset> ?B" by blast
  with fin inj show ?thesis by (metis card_image psubset_card_mono)
qed

text \<open>
  The loop \<open>while active != 0 { zeros = active.leading_zeros(); .. zeros + offset ..;
  active <<= zeros + 1; offset += zeros + 1 }\<close> as the list of indices it visits. The
  masks only ever hold the bits 31 down to 25, so the shift amount stays below 32.
\<close>

function bit_scan :: "u32 \<Rightarrow> nat \<Rightarrow> nat list" where
  "bit_scan active offset =
     (if active = 0 then []
      else (let zeros = leading_zeros active
            in (zeros + offset) # bit_scan (push_bit (zeros + 1) active) (offset + zeros + 1)))"
  by pat_completeness auto
termination
  by (relation "measure (\<lambda>(a, _). card {i. bit a i})") 
    (auto simp: card_bits_push_less simp del: push_bit_Suc)

declare bit_scan.simps [simp del]

text \<open>\<open>cm_check_events\<close>, one round of the scan over the active events: the earliest event
  that is due, the lowest index among equals; \<open>None\<close> is \<open>best_index == usize::MAX\<close>.\<close>

definition better_event :: "cycle_manager \<Rightarrow> nat \<Rightarrow> nat option \<times> u32 \<Rightarrow> nat option \<times> u32" where
  "better_event c i best =
     (if events c i \<le> cycle_count c \<and> events c i < snd best then (Some i, events c i) else best)"

definition select_due :: "cycle_manager \<Rightarrow> nat option \<times> u32" where
  "select_due c = fold (better_event c) (bit_scan (active_events c) 0) (None, - 1)"

text \<open>Taking the selected event off the active mask before its handler runs.\<close>

definition begin_event :: "nat \<Rightarrow> u32 \<Rightarrow> cycle_manager \<Rightarrow> cycle_manager" where
  "begin_event best_index best_cycle c =
     c\<lparr>active_events := active_events c AND NOT (push_bit (31 - best_index) 1),
       current_event_due := best_cycle\<rparr>"

text \<open>The closing scan that recomputes \<open>next_event_cycle\<close>.\<close>

definition lower_next :: "cycle_manager \<Rightarrow> nat \<Rightarrow> u32 \<Rightarrow> u32" where
  "lower_next c i n = (if events c i < n then events c i else n)"

definition recompute_next :: "cycle_manager \<Rightarrow> cycle_manager" where
  "recompute_next c =
     c\<lparr>next_event_cycle := fold (lower_next c) (bit_scan (active_events c) 0) (next_event_cycle c)\<rparr>"

text \<open>The scheduler's part of \<open>cm_on_overflow_event\<close>: move the origin of the clock to now.\<close>

definition rebase :: "cycle_manager \<Rightarrow> cycle_manager" where
  "rebase c =
     c\<lparr>events := (\<lambda>i. if i < LAST_EVENT \<and> active_events c AND push_bit (31 - i) 1 \<noteq> 0
                     then events c i - cycle_count c else events c i),
       next_event_cycle := next_event_cycle c - cycle_count c,
       cycle_count := 0\<rparr>"

section \<open>The scan visits the set bits in index order\<close>

definition active_at :: "u32 \<Rightarrow> nat \<Rightarrow> bool" where
  "active_at a i \<longleftrightarrow> i < 32 \<and> bit a (31 - i)"

lemma filter_upt_eq_Cons:
  assumes "z < n" "P z" "\<And>i. i < z \<Longrightarrow> \<not> P i"
  shows "filter P [0..<n] = z # filter P [Suc z..<n]"
proof -
  have "[0..<n] = [0..<z] @ z # [Suc z..<n]"
    using assms(1) by (metis le_add_same_cancel1 less_imp_add_positive upt_add_eq_append upt_conv_Cons zero_le)
  then show ?thesis using assms(2,3) by simp
qed

lemma filter_active_shift:
  assumes "k \<le> 32"
  shows "map (\<lambda>i. i + k) (filter (active_at (push_bit k w)) [0..<32]) = filter (active_at w) [k..<32]"
proof -
  have split: "[0..<32] = [0..<32 - k] @ [32 - k..<32]"
    using upt_add_eq_append [of 0 "32 - k" k] assms by simp
  have hi: "filter (active_at (push_bit k w)) [32 - k..<32] = []"
    by (auto simp: filter_empty_conv active_at_def bit_push_bit_u32)
  have lo: "filter (active_at (push_bit k w)) [0..<32 - k]
      = filter (active_at w \<circ> (\<lambda>i. i + k)) [0..<32 - k]"
    using assms by (intro filter_cong) (auto simp: active_at_def bit_push_bit_u32 diff_diff_left add.commute)
  have "map (\<lambda>i. i + k) [0..<32 - k] = [k..<32]"
    using map_add_upt [of k "32 - k"] assms by simp
  then show ?thesis by (metis (no_types) append_Nil2 filter_append filter_map hi lo split)
qed

lemma bit_scan_eq: "bit_scan a off = map (\<lambda>i. i + off) (filter (active_at a) [0..<32])"
proof (induction a off rule: bit_scan.induct)
  case (1 a off)
  show ?case
  proof (cases "a = 0")
    case True
    then show ?thesis by (simp add: bit_scan.simps active_at_def)
  next
    case False
    let ?z = "leading_zeros a"
    note lz = leading_zeros_props [OF False]
    have "filter (active_at a) [0..<32] = ?z # filter (active_at a) [Suc ?z..<32]"
      using lz by (intro filter_upt_eq_Cons) (auto simp: active_at_def)
    moreover have "bit_scan (push_bit (?z + 1) a) (off + ?z + 1)
        = map (\<lambda>i. i + off) (filter (active_at a) [Suc ?z..<32])"
    proof -
      have "bit_scan (push_bit (?z + 1) a) (off + ?z + 1)
          = map (\<lambda>i. i + (off + ?z + 1)) (filter (active_at (push_bit (?z + 1) a)) [0..<32])"
        using "1.IH" [OF False refl] .
      also have "\<dots> = map (\<lambda>i. i + off) (map (\<lambda>i. i + (?z + 1)) (filter (active_at (push_bit (?z + 1) a)) [0..<32]))"
        by (simp add: ac_simps del: push_bit_Suc)
      also have "\<dots> = map (\<lambda>i. i + off) (filter (active_at a) [?z + 1..<32])"
        using lz(1) by (subst filter_active_shift) auto
      finally show ?thesis by simp
    qed
    ultimately show ?thesis using False by (subst bit_scan.simps) (simp add: Let_def del: push_bit_Suc)
  qed
qed

lemma set_bit_scan [simp]: "set (bit_scan a 0) = {i. active_at a i}"
  by (auto simp: bit_scan_eq active_at_def)

lemma sorted_bit_scan: "sorted_wrt (<) (bit_scan a 0)"
proof -
  have "sorted_wrt (<) (filter (active_at a) [0..<32])"
    by (rule sorted_wrt_filter) simp
  then show ?thesis by (simp add: bit_scan_eq)
qed

section \<open>Selection of the next due event\<close>

definition due_event :: "cycle_manager \<Rightarrow> nat \<Rightarrow> bool" where
  "due_event c i \<longleftrightarrow> active_at (active_events c) i \<and> events c i \<le> cycle_count c \<and> events c i < - 1"

lemma fold_better_event:
  assumes "sorted_wrt (<) xs" and "fold (better_event c) xs (None, - 1) = (b, d)"
  shows "case b of
      None \<Rightarrow> d = - 1 \<and> (\<forall>j \<in> set xs. \<not> (events c j \<le> cycle_count c \<and> events c j < - 1))
    | Some i \<Rightarrow> i \<in> set xs \<and> d = events c i \<and> d \<le> cycle_count c \<and> d < - 1
        \<and> (\<forall>j \<in> set xs. events c j \<le> cycle_count c \<longrightarrow> d < events c j \<or> d = events c j \<and> i \<le> j)"
  using assms
proof (induction xs arbitrary: b d rule: rev_induct)
  case Nil
  then show ?case by simp
next
  case (snoc x xs)
  obtain b' d' where p: "fold (better_event c) xs (None, - 1) = (b', d')" by fastforce
  from snoc.prems(1) have xs: "sorted_wrt (<) xs" and less: "\<forall>j \<in> set xs. j < x"
    by (auto simp: sorted_wrt_append)
  note IH = snoc.IH [OF xs p]
  from snoc.prems(2) p have step: "better_event c x (b', d') = (b, d)" by simp
  show ?case
  proof (cases "events c x \<le> cycle_count c \<and> events c x < d'")
    case True
    then have "b = Some x" "d = events c x" "d < d'" using step by (auto simp: better_event_def)
    with IH True show ?thesis
      by (cases b') (auto dest: order.strict_trans order.strict_trans1)
  next
    case False
    then have "b = b'" "d = d'" using step by (auto simp: better_event_def)
    with IH False less show ?thesis
      by (cases b') (auto simp: not_less order.order_iff_strict)
  qed
qed

lemma select_due_cases:
  obtains (none) "select_due c = (None, - 1)" "\<And>j. \<not> due_event c j"
  | (some) i where "select_due c = (Some i, events c i)" "due_event c i"
      "\<And>j. due_event c j \<Longrightarrow> events c i < events c j \<or> events c i = events c j \<and> i \<le> j"
proof -
  obtain b d where p: "fold (better_event c) (bit_scan (active_events c) 0) (None, - 1) = (b, d)"
    by fastforce
  from fold_better_event [OF sorted_bit_scan p] p none some show ?thesis
    by (cases b) (auto simp: select_due_def due_event_def)
qed

text \<open>
  One round of the dispatch loop of \<open>cm_check_events\<close> picks the earliest event that is
  active and due, and the one with the lowest index among events due at the same cycle; it
  picks none exactly when no active event is due.
\<close>

theorem select_due_earliest:
  "case fst (select_due c) of
     None \<Rightarrow> (\<forall>j. \<not> due_event c j)
   | Some i \<Rightarrow> due_event c i \<and> snd (select_due c) = events c i
       \<and> (\<forall>j. due_event c j \<longrightarrow> events c i < events c j \<or> events c i = events c j \<and> i \<le> j)"
  by (cases c rule: select_due_cases) auto

theorem select_due_earliest_witness:
  "let c = (schedule 5 Timer0 cm_new)\<lparr>cycle_count := 10\<rparr> in due_event c 2 \<and> fst (select_due c) \<noteq> None"
proof -
  let ?c = "(schedule 5 Timer0 cm_new)\<lparr>cycle_count := 10\<rparr>"
  have due: "due_event ?c 2" by code_simp
  then have "fst (select_due ?c) \<noteq> None"
    using select_due_earliest [of ?c] by (auto split: option.splits)
  with due show ?thesis by (simp add: Let_def)
qed

section \<open>Invariant of the scheduler\<close>

text \<open>\<open>next_event_cycle\<close> never lies beyond an active event, so the early return of
  \<open>cm_check_events\<close> cannot miss one, and only the seven events of the table are active.\<close>

definition cm_inv :: "cycle_manager \<Rightarrow> bool" where
  "cm_inv c \<longleftrightarrow> (\<forall>i. active_at (active_events c) i \<longrightarrow> i < LAST_EVENT \<and> next_event_cycle c \<le> events c i)"

lemma cm_invD: "cm_inv c \<Longrightarrow> active_at (active_events c) i \<Longrightarrow> next_event_cycle c \<le> events c i"
  by (simp add: cm_inv_def)

lemma event_index_less [simp]: "event_index e < LAST_EVENT"
  by (cases e) (simp_all add: LAST_EVENT_def)

lemma event_index_inject [simp]: "event_index e = event_index e' \<longleftrightarrow> e = e'"
  by (cases e; cases e') simp_all

lemma active_at_or [simp]:
  "k < 32 \<Longrightarrow> active_at (a OR 2 ^ (31 - k)) i \<longleftrightarrow> active_at a i \<or> i = k"
  by (auto simp: active_at_def bit_or_iff bit_exp_iff)

lemma active_at_clear [simp]:
  "k < 32 \<Longrightarrow> active_at (a AND NOT (2 ^ (31 - k))) i \<longleftrightarrow> active_at a i \<and> i \<noteq> k"
  by (auto simp: active_at_def bit_and_iff bit_not_iff bit_exp_iff)

lemma event_index_less_32 [simp]: "event_index e < 32"
  using event_index_less [of e] by (simp add: LAST_EVENT_def)

lemma cm_inv_new: "cm_inv cm_new"
  by (simp add: cm_inv_def cm_new_def active_at_def)

lemma cm_inv_set_event: "cm_inv c \<Longrightarrow> cm_inv (set_event d e c)"
  by (auto simp: cm_inv_def set_event_def not_less intro: order.trans less_imp_le)

lemma cm_inv_schedule: "cm_inv c \<Longrightarrow> cm_inv (schedule n e c)"
  by (simp add: schedule_def Let_def cm_inv_set_event)

lemma cm_inv_schedule_from_due: "cm_inv c \<Longrightarrow> cm_inv (schedule_from_due n e c)"
  by (simp add: schedule_from_due_def cm_inv_set_event)

lemma cm_inv_frame [simp]:
  "cm_inv (schedule_imm i c) = cm_inv c" "cm_inv (add_cycles n c) = cm_inv c"
  "cm_inv (jump_to_next_event c) = cm_inv c"
  by (simp_all add: cm_inv_def schedule_imm_def add_cycles_def jump_to_next_event_def)

lemma cm_inv_begin_event: "cm_inv c \<Longrightarrow> i < 32 \<Longrightarrow> cm_inv (begin_event i d c)"
  by (simp add: cm_inv_def begin_event_def)

lemma fold_lower_next: "fold (lower_next c) xs n \<le> n
   \<and> (\<forall>i \<in> set xs. fold (lower_next c) xs n \<le> events c i)
   \<and> (fold (lower_next c) xs n = n \<or> (\<exists>i \<in> set xs. fold (lower_next c) xs n = events c i))"
  by (induction xs arbitrary: n) (fastforce simp: lower_next_def intro: order.trans less_imp_le)+

lemma cm_inv_recompute_next:
  "(\<And>i. active_at (active_events c) i \<Longrightarrow> i < LAST_EVENT) \<Longrightarrow> cm_inv (recompute_next c)"
  using fold_lower_next by (auto simp: cm_inv_def recompute_next_def)

text \<open>
  C17: every scheduling operation keeps the invariant, and the closing scan of
  \<open>cm_check_events\<close> re-establishes it whatever \<open>next_event_cycle\<close> was.
\<close>

theorem cm_operations_keep_inv:
  assumes "cm_inv c"
  shows "cm_inv (schedule n e c) \<and> cm_inv (schedule_from_due n e c)
    \<and> cm_inv (schedule_imm im c) \<and> cm_inv (add_cycles k c)
    \<and> cm_inv (jump_to_next_event c) \<and> cm_inv (begin_event (event_index e) d c)
    \<and> cm_inv (recompute_next (c\<lparr>next_event_cycle := x\<rparr>))"
proof -
  have "cm_inv (recompute_next (c\<lparr>next_event_cycle := x\<rparr>))"
    by (rule cm_inv_recompute_next) (use assms in \<open>simp add: cm_inv_def\<close>)
  with assms show ?thesis
    by (simp add: cm_inv_schedule cm_inv_schedule_from_due cm_inv_begin_event)
qed

theorem cm_operations_keep_inv_witness:
  "cm_inv cm_new \<and> cm_inv (schedule 960 GpuScanline240 cm_new)"
  using cm_inv_new cm_operations_keep_inv [OF cm_inv_new, of 960 GpuScanline240] by simp

section \<open>Due times\<close>

definition due_of :: "cycle_manager \<Rightarrow> event_type \<Rightarrow> nat option" where
  "due_of c e = (if active_at (active_events c) (event_index e)
                 then Some (unat (events c (event_index e))) else None)"

definition dispatch_event :: "event_type \<Rightarrow> cycle_manager \<Rightarrow> cycle_manager" where
  "dispatch_event e c = begin_event (event_index e) (events c (event_index e)) c"

lemma due_of_set_event:
  "due_of (set_event d e c) e' = (if e' = e then Some (unat d) else due_of c e')"
  by (auto simp: due_of_def set_event_def)

lemma due_of_begin_event:
  "due_of (begin_event (event_index e) d c) e' = (if e' = e then None else due_of c e')"
  by (auto simp: due_of_def begin_event_def)

lemma unat_u32_le: "unat (w :: u32) \<le> 4294967295"
  using unsigned_less [of w, where ?'a = nat] by simp

lemma unat_minus_one_u32 [simp]: "unat (- 1 :: u32) = 4294967295"
  by (simp add: unsigned_minus_1_eq_mask mask_eq_exp_minus_1)

lemma due_of_schedule:
  "due_of (schedule n e c) e
   = Some (min (unat (cycle_count c) + max (unat n) 1) (2 ^ 32 - 1))"
proof -
  let ?n = "max n 1"
  have n: "unat ?n = max (unat n) 1" by (simp add: max_def word_le_nat_alt)
  have comp: "unat (- 1 - w) = 4294967295 - unat w" for w :: u32
    by (subst unat_sub) (simp_all add: word_le_nat_alt unat_u32_le)
  show ?thesis
  proof (cases "- 1 - ?n < cycle_count c")
    case True
    then have "4294967295 - max (unat n) 1 < unat (cycle_count c)"
      by (simp add: word_less_nat_alt comp n)
    then have "\<not> unat (cycle_count c) + max (unat n) 1 < 4294967295" by linarith
    then show ?thesis using True by (simp add: schedule_def due_of_set_event Let_def)
  next
    case False
    then have "unat (cycle_count c) + unat ?n \<le> 4294967295"
      using unat_u32_le [of ?n] by (simp add: word_less_nat_alt comp)
    then show ?thesis
      using False n by (simp add: schedule_def due_of_set_event Let_def unat_word_ariths min_def)
  qed
qed

lemma due_of_schedule_from_due:
  "due_of (schedule_from_due n e c) e'
   = (if e' = e then Some (min (unat (current_event_due c) + unat n) (2 ^ 32 - 1)) else due_of c e')"
  by (simp add: schedule_from_due_def due_of_set_event unat_saturating_add)

text \<open>
  An event scheduled \<open>n\<close> cycles ahead is due \<open>max n 1\<close> cycles from now, saturating at
  the largest cycle count, so it is never due at once while the clock has room; no other event
  moves, and \<open>next_event_cycle\<close> becomes the smaller of its old value and the new due cycle.
\<close>

theorem schedule_due:
  "(\<forall>e'. due_of (schedule n e c) e' =
     (if e' = e then Some (min (unat (cycle_count c) + max (unat n) 1) (2 ^ 32 - 1)) else due_of c e'))
   \<and> unat (next_event_cycle (schedule n e c)) =
     min (unat (next_event_cycle c)) (min (unat (cycle_count c) + max (unat n) 1) (2 ^ 32 - 1))"
proof -
  let ?d = "min (unat (cycle_count c) + max (unat n) 1) (2 ^ 32 - 1)"
  have other: "due_of (schedule n e c) e' = due_of c e'" if "e' \<noteq> e" for e'
    using that by (simp add: schedule_def due_of_set_event Let_def)
  have d: "unat (events (schedule n e c) (event_index e)) = ?d"
    using due_of_schedule [of n e c] by (simp add: due_of_def split: if_splits)
  have "next_event_cycle (schedule n e c)
      = min (next_event_cycle c) (events (schedule n e c) (event_index e))"
    by (auto simp: schedule_def Let_def set_event_def min_def)
  then have "unat (next_event_cycle (schedule n e c)) = min (unat (next_event_cycle c)) ?d"
    using d by (simp add: min_def word_le_nat_alt split: if_splits)
  with other due_of_schedule show ?thesis by simp
qed

section \<open>Periodic events\<close>

text \<open>
  What a periodic handler (scanline, timer, sample) relies on: taking an event off the queue
  and rescheduling it from its due cycle moves it by exactly its period, up to the end of the
  clock, and leaves the other events alone.
\<close>

locale periodic_queue =
  fixes due :: "'q \<Rightarrow> 'e \<Rightarrow> nat option"
    and take_event :: "'e \<Rightarrow> 'q \<Rightarrow> 'q"
    and reschedule :: "nat \<Rightarrow> 'e \<Rightarrow> 'q \<Rightarrow> 'q"
    and horizon :: nat
  assumes due_reschedule: "due q e = Some d \<Longrightarrow> d \<le> horizon \<Longrightarrow>
      due (reschedule p e (take_event e q)) e = Some (min (d + p) horizon)"
    and due_other: "e' \<noteq> e \<Longrightarrow> due (reschedule p e (take_event e q)) e' = due q e'"
begin

definition tick :: "nat \<Rightarrow> 'e \<Rightarrow> 'q \<Rightarrow> 'q" where
  "tick p e q = reschedule p e (take_event e q)"

lemma due_ticks: "due q e = Some d \<Longrightarrow> d \<le> horizon \<Longrightarrow>
    due ((tick p e ^^ n) q) e = Some (min (d + n * p) horizon)"
proof (induction n)
  case 0
  then show ?case by simp
next
  case (Suc n)
  then have "due ((tick p e ^^ n) q) e = Some (min (d + n * p) horizon)" by simp
  from due_reschedule [OF this, of p]
  have "due (tick p e ((tick p e ^^ n) q)) e = Some (min (min (d + n * p) horizon + p) horizon)"
    by (simp add: tick_def)
  also have "min (min (d + n * p) horizon + p) horizon = min (d + Suc n * p) horizon"
    by (simp add: min_def)
  finally show ?case by simp
qed

lemma due_ticks_other: "e' \<noteq> e \<Longrightarrow> due ((tick p e ^^ n) q) e' = due q e'"
  by (induction n) (simp_all add: tick_def due_other)

end

definition reschedule_nat :: "nat \<Rightarrow> event_type \<Rightarrow> cycle_manager \<Rightarrow> cycle_manager" where
  "reschedule_nat p e c = schedule_from_due (of_nat (min p (2 ^ 32 - 1))) e c"

interpretation cmq: periodic_queue due_of dispatch_event reschedule_nat "2 ^ 32 - 1"
proof
  fix q e d p
  assume "due_of q e = Some d" and d: "d \<le> 2 ^ 32 - 1"
  then have "unat (current_event_due (dispatch_event e q)) = d"
    by (auto simp: dispatch_event_def begin_event_def due_of_def split: if_splits)
  with d show "due_of (reschedule_nat p e (dispatch_event e q)) e = Some (min (d + p) (2 ^ 32 - 1))"
    by (simp add: reschedule_nat_def due_of_schedule_from_due unat_of_nat min_def)
next
  fix q and e e' :: event_type and p
  assume "e' \<noteq> e"
  then show "due_of (reschedule_nat p e (dispatch_event e q)) e' = due_of q e'"
    by (simp add: reschedule_nat_def due_of_schedule_from_due dispatch_event_def due_of_begin_event)
qed

text \<open>
  The event grid is drift-free. However late each dispatch is, an event that reschedules
  itself from its due cycle with period \<open>p\<close> is due at exactly \<open>d + n * p\<close> after \<open>n\<close>
  rounds, as long as that cycle is representable.
\<close>

theorem periodic_grid_drift_free:
  assumes "due_of c e = Some d" and "d + n * unat p < 2 ^ 32"
  shows "due_of (((\<lambda>q. schedule_from_due p e (dispatch_event e q)) ^^ n) c) e = Some (d + n * unat p)"
proof -
  have "d \<le> 2 ^ 32 - 1" using assms(2) by simp
  moreover have "(\<lambda>q. schedule_from_due p e (dispatch_event e q)) = cmq.tick (unat p) e"
    using unat_u32_le [of p] by (auto simp: cmq.tick_def reschedule_nat_def fun_eq_iff)
  ultimately show ?thesis using cmq.due_ticks [OF assms(1), where p = "unat p" and n = n] assms(2) by simp
qed

theorem periodic_grid_drift_free_witness:
  "due_of (((\<lambda>q. schedule_from_due 512 ApuSample (dispatch_event ApuSample q)) ^^ 100)
     (schedule 512 ApuSample cm_new)) ApuSample = Some 51712"
  using periodic_grid_drift_free [of "schedule 512 ApuSample cm_new" ApuSample 512 100 512]
  by (simp add: due_of_schedule) (simp add: cm_new_def)

section \<open>Rebasing the clock\<close>

lemma active_and_mask:
  "i < LAST_EVENT \<Longrightarrow> a AND push_bit (31 - i) 1 \<noteq> 0 \<longleftrightarrow> active_at a i"
  using and_bit_eq_0_iff [of a "31 - i"] by (simp add: active_at_def LAST_EVENT_def)

text \<open>Moving the origin keeps the time left to every event that is not yet due.\<close>

lemma rebase_due_of:
  assumes "\<And>i. active_at (active_events c) i \<Longrightarrow> cycle_count c \<le> events c i"
  shows "due_of (rebase c) e = map_option (\<lambda>d. d - unat (cycle_count c)) (due_of c e)"
  using active_and_mask [OF event_index_less, of "active_events c" e] assms [of "event_index e"]
  by (auto simp: due_of_def rebase_def unat_sub)

text \<open>It keeps the invariant when \<open>next_event_cycle\<close> has not been left behind.\<close>

lemma rebase_keeps_inv:
  assumes inv: "cm_inv c" and later: "cycle_count c \<le> next_event_cycle c"
  shows "cm_inv (rebase c)"
proof -
  have le: "cycle_count c \<le> events c i" if "active_at (active_events c) i" for i
    using cm_invD [OF inv that] later by simp
  have ev: "events (rebase c) i = events c i - cycle_count c"
    if "active_at (active_events c) i" "i < LAST_EVENT" for i
    using active_and_mask that by (simp add: rebase_def)
  have "next_event_cycle c - cycle_count c \<le> events c i - cycle_count c"
    if "active_at (active_events c) i" for i
    using cm_invD [OF inv that] later le [OF that] by (simp add: word_le_nat_alt unat_sub)
  then show ?thesis
    using inv ev by (simp add: cm_inv_def) (simp add: rebase_def)
qed

end
