(* ===== verification/Rtc.thy ===== *)
theory Rtc
  imports Prelude
begin

text \<open>
  The S3511 real-time clock on the cartridge GPIO pins, \<open>src/src/core/rtc.rs\<close>: the bit-serial
  transfer state machine, its registers and the GPIO data, direction and control ports.
  \<open>chrono::Local::now()\<close> and the environment variable that freezes the clock are not part of the
  program; a \<open>clock\<close> value is what the next call to \<open>update_date_time\<close> sees of them.
\<close>

section \<open>State\<close>

datatype clock =
    Frozen \<comment> \<open>\<open>ADVANCEDSLOP_RTC_FREEZE\<close> is set\<close>
  | Now (c_year: int) (c_month: u8) (c_day: u8) (c_weekday: u8) (c_hour: u8) (c_minute: u8) (c_second: u8)

record rtc =
  rtc_cs :: u8
  rtc_sck :: u8
  rtc_sio :: u8
  write_count :: u8
  command :: u8
  control :: u8
  date_time :: "u8 list"
  gp_direction :: u16
  gp_control :: u16

definition rtc_new :: rtc where
  "rtc_new = \<lparr>rtc_cs = 0, rtc_sck = 0, rtc_sio = 0, write_count = 0, command = 0, control = 0,
              date_time = replicate 7 0, gp_direction = 0, gp_control = 0\<rparr>"

section \<open>Registers\<close>

definition bcd :: "u8 \<Rightarrow> u8" where
  "bcd v = push_bit 4 (v div 10) OR (v mod 10)"

text \<open>The seven bytes \<open>update_date_time\<close> stores; \<open>now.year() % 100\<close> truncates towards zero.\<close>

definition clock_bytes :: "clock \<Rightarrow> u8 \<Rightarrow> u8 list" where
  "clock_bytes clk ctrl =
     (case clk of
        Frozen \<Rightarrow> [0x26, 0x07, 0x23, 0x04, 0x12, 0x00, 0x00]
      | Now year month day weekday hour minute second \<Rightarrow>
          (let y = word_of_int (sgn year * (\<bar>year\<bar> mod 100));
               pm = (12 \<le> hour);
               h = (if ctrl AND push_bit 6 1 = 0 then hour mod 12 else hour);
               dt = [bcd y, bcd month, bcd day, bcd weekday, bcd h, bcd minute, bcd second]
           in if pm then dt[4 := dt ! 4 OR push_bit 6 1] else dt))"

definition update_date_time :: "clock \<Rightarrow> rtc \<Rightarrow> rtc" where
  "update_date_time clk r = r\<lparr>date_time := clock_bytes clk (control r)\<rparr>"

text \<open>The indexed read \<open>(self.date_time[i] >> (write_count % 8)) & 1\<close>; out of range it panics.\<close>

definition date_time_bit :: "nat \<Rightarrow> rtc \<Rightarrow> u8 option" where
  "date_time_bit i r =
     (if i < length (date_time r)
      then Some (drop_bit (unat (write_count r) mod 8) (date_time r ! i) AND 1) else None)"

definition read_register :: "clock \<Rightarrow> u8 \<Rightarrow> rtc \<Rightarrow> (u8 \<times> rtc) option" where
  "read_register clk index r =
     (if index = 0 then Some (0, r\<lparr>control := 0\<rparr>)
      else if index = 1 then
        Some (drop_bit (unat (write_count r AND 7)) (control r) AND 1, r)
      else if index = 2 then
        (let r = (if write_count r = 8 then update_date_time clk r else r)
         in if unat (write_count r) div 8 = 0 then None
            else map_option (\<lambda>v. (v, r)) (date_time_bit (unat (write_count r) div 8 - 1) r))
      else if index = 3 then
        (let r = (if write_count r = 8 then update_date_time clk r else r)
         in map_option (\<lambda>v. (v, r)) (date_time_bit (unat (write_count r) div 8 + 4 - 1) r))
      else Some (0, r))"

definition write_register :: "u8 \<Rightarrow> u8 \<Rightarrow> rtc \<Rightarrow> rtc" where
  "write_register index v r =
     (let b = unat (write_count r AND 7)
      in if index = 1 \<and> push_bit b (1 :: u8) AND 0x6A \<noteq> 0
         then r\<lparr>control := (control r AND NOT (push_bit b 1)) OR push_bit b v\<rparr> else r)"

section \<open>Bit transfer\<close>

text \<open>One bit on the rising edge of SCK: the first eight bits form the command, later bits
  read or write the selected register. The result is the SIO level and the new state.\<close>

definition transfer_bit :: "clock \<Rightarrow> u8 \<Rightarrow> rtc \<Rightarrow> (u8 \<times> rtc) option" where
  "transfer_bit clk sio r =
     (if write_count r < 8 then
        (let cmd = command r OR push_bit (7 - unat (write_count r)) sio;
             cmd = (if write_count r = 7 \<and> cmd AND 0xF0 \<noteq> 0x60 then word_reverse cmd else cmd)
         in Some (sio, r\<lparr>command := cmd\<rparr>))
      else if command r AND 1 \<noteq> 0 then
        read_register clk (drop_bit 1 (command r) AND 7) r
      else
        Some (sio, write_register (drop_bit 1 (command r) AND 7) sio r))"

definition update_rtc :: "clock \<Rightarrow> u8 \<Rightarrow> u8 \<Rightarrow> u8 \<Rightarrow> rtc \<Rightarrow> rtc option" where
  "update_rtc clk cs sck sio r =
     (if cs \<noteq> 0 then
        (if rtc_sck r = 0 \<and> sck \<noteq> 0 then
           do { (sio, r) \<leftarrow> transfer_bit clk sio r;
                Some (r\<lparr>write_count := write_count r + 1,
                        rtc_cs := cs, rtc_sck := sck, rtc_sio := sio\<rparr>) }
         else Some (r\<lparr>rtc_cs := cs, rtc_sck := sck, rtc_sio := sio\<rparr>))
      else Some (r\<lparr>write_count := 0, command := 0,
                   rtc_cs := cs, rtc_sck := sck, rtc_sio := sio\<rparr>))"

section \<open>GPIO ports\<close>

definition write_gp_data :: "clock \<Rightarrow> u16 \<Rightarrow> u16 \<Rightarrow> rtc \<Rightarrow> rtc option" where
  "write_gp_data clk m v r =
     (if m AND 0xFF \<noteq> 0 then
        (let cs = (if gp_direction r AND push_bit 2 1 \<noteq> 0 then ucast (drop_bit 2 v AND 1) else rtc_cs r);
             sio = (if gp_direction r AND push_bit 1 1 \<noteq> 0 then ucast (drop_bit 1 v AND 1) else rtc_sio r);
             sck = (if gp_direction r AND 1 \<noteq> 0 then ucast (v AND 1) else rtc_sck r)
         in update_rtc clk cs sck sio r)
      else Some r)"

definition read_gp_data :: "rtc \<Rightarrow> u16" where
  "read_gp_data r =
     (let cs = (if gp_direction r AND push_bit 2 1 \<noteq> 0 then 0 else rtc_cs r);
          sio = (if gp_direction r AND push_bit 1 1 \<noteq> 0 then 0 else rtc_sio r);
          sck = (if gp_direction r AND 1 \<noteq> 0 then 0 else rtc_sck r)
      in push_bit 2 (ucast cs) OR push_bit 1 (ucast sio) OR ucast sck)"

definition write_gp_direction :: "u16 \<Rightarrow> u16 \<Rightarrow> rtc \<Rightarrow> rtc" where
  "write_gp_direction m v r = r\<lparr>gp_direction := masked (gp_direction r) (m AND 0xF) v\<rparr>"

definition write_gp_control :: "u16 \<Rightarrow> u16 \<Rightarrow> rtc \<Rightarrow> rtc" where
  "write_gp_control m v r = r\<lparr>gp_control := masked (gp_control r) (m AND 1) v\<rparr>"

section \<open>Well-formedness and panics\<close>

definition rtc_inv :: "rtc \<Rightarrow> bool" where
  "rtc_inv r \<longleftrightarrow> length (date_time r) = 7"

lemma length_clock_bytes [simp]: "length (clock_bytes clk c) = 7"
  by (cases clk) (simp_all add: clock_bytes_def Let_def)

lemma rtc_inv_new: "rtc_inv rtc_new"
  by (simp add: rtc_inv_def rtc_new_def)

lemma date_time_bit_None: "date_time_bit i r = None \<longleftrightarrow> length (date_time r) \<le> i"
  by (simp add: date_time_bit_def)

lemma read_register_inv: "rtc_inv r \<Longrightarrow> read_register clk i r = Some (v, r') \<Longrightarrow> rtc_inv r'"
  by (auto simp: read_register_def rtc_inv_def update_date_time_def Let_def split: if_splits)

lemma write_register_inv [simp]: "rtc_inv (write_register i v r) = rtc_inv r"
  by (simp add: write_register_def rtc_inv_def Let_def)

lemma rtc_inv_upd [simp]:
  "rtc_inv (r\<lparr>command := a\<rparr>) = rtc_inv r" "rtc_inv (r\<lparr>write_count := a\<rparr>) = rtc_inv r"
  "rtc_inv (r\<lparr>rtc_cs := a\<rparr>) = rtc_inv r" "rtc_inv (r\<lparr>rtc_sck := a\<rparr>) = rtc_inv r"
  "rtc_inv (r\<lparr>rtc_sio := a\<rparr>) = rtc_inv r"
  by (simp_all add: rtc_inv_def)

lemma transfer_bit_inv: "rtc_inv r \<Longrightarrow> transfer_bit clk sio r = Some (v, r') \<Longrightarrow> rtc_inv r'"
  by (auto simp: transfer_bit_def Let_def split: if_split_asm dest: read_register_inv)

lemma update_rtc_inv: "rtc_inv r \<Longrightarrow> update_rtc clk cs sck sio r = Some r' \<Longrightarrow> rtc_inv r'"
  by (auto simp: update_rtc_def split: if_split_asm bind_split_asm dest: transfer_bit_inv)

lemma write_gp_data_inv: "rtc_inv r \<Longrightarrow> write_gp_data clk m v r = Some r' \<Longrightarrow> rtc_inv r'"
  by (auto simp: write_gp_data_def Let_def split: if_split_asm dest: update_rtc_inv)

lemma read_register_None:
  assumes "rtc_inv r" and "8 \<le> write_count r"
  shows "read_register clk i r = None \<longleftrightarrow>
    i = 2 \<and> 64 \<le> write_count r \<or> i = 3 \<and> 32 \<le> write_count r"
proof -
  have wc: "8 \<le> unat (write_count r)" using assms(2) by (simp add: word_le_nat_alt)
  then have "unat (write_count r) div 8 \<noteq> 0" by simp
  moreover have "7 \<le> unat (write_count r) div 8 - 1 \<longleftrightarrow> 64 \<le> unat (write_count r)"
    using wc by presburger
  moreover have "7 \<le> unat (write_count r) div 8 + 3 \<longleftrightarrow> 32 \<le> unat (write_count r)"
    by presburger
  ultimately show ?thesis using assms(1)
    by (auto simp: read_register_def rtc_inv_def update_date_time_def date_time_bit_def
        Let_def word_le_nat_alt)
qed

text \<open>
  C40: the exact panic condition of a GPIO data write. With CS high, a rising edge of SCK
  reads past the seven date bytes, and so aborts the emulator, when a date-and-time read
  (register 2) has been clocked for eight bytes or more, or a time read (register 3) for four
  bytes or more; every other write succeeds and keeps the register file well formed.
\<close>

theorem update_rtc_panics_iff:
  assumes "rtc_inv r"
  shows "update_rtc clk cs sck sio r = None \<longleftrightarrow>
     cs \<noteq> 0 \<and> rtc_sck r = 0 \<and> sck \<noteq> 0 \<and> command r AND 1 \<noteq> 0
     \<and> (drop_bit 1 (command r) AND 7 = 2 \<and> 64 \<le> write_count r
        \<or> drop_bit 1 (command r) AND 7 = 3 \<and> 32 \<le> write_count r)"
proof -
  have "transfer_bit clk sio r = None \<longleftrightarrow> command r AND 1 \<noteq> 0
     \<and> (drop_bit 1 (command r) AND 7 = 2 \<and> 64 \<le> write_count r
        \<or> drop_bit 1 (command r) AND 7 = 3 \<and> 32 \<le> write_count r)"
  proof (cases "write_count r < 8")
    case True
    then have "\<not> 32 \<le> write_count r" "\<not> 64 \<le> write_count r"
      by (simp_all add: word_less_nat_alt word_le_nat_alt)
    with True show ?thesis by (simp add: transfer_bit_def Let_def)
  next
    case False
    with read_register_None [OF assms] show ?thesis by (simp add: transfer_bit_def Let_def not_less)
  qed
  then show ?thesis by (auto simp: update_rtc_def split: bind_split)
qed

definition rtc_overrun :: rtc where
  "rtc_overrun = rtc_new\<lparr>command := 0x65, write_count := 64\<rparr>"

theorem update_rtc_panics_iff_witness: "update_rtc Frozen 1 1 0 rtc_overrun = None"
proof -
  have "rtc_inv rtc_overrun" by (simp add: rtc_overrun_def rtc_inv_new)
  from update_rtc_panics_iff [OF this, of Frozen 1 1 0] show ?thesis
    by (simp add: rtc_overrun_def rtc_new_def)
qed

section \<open>Reading the date and time\<close>

text \<open>One clock pulse with CS high while the guest listens on SIO: SCK low, then SCK high.\<close>

definition rtc_pulse :: "clock \<Rightarrow> rtc \<Rightarrow> (u8 \<times> rtc) option" where
  "rtc_pulse clk r =
     do { r \<leftarrow> write_gp_data clk 0xFFFF 4 r;
          r \<leftarrow> write_gp_data clk 0xFFFF 5 r;
          Some (rtc_sio r, r) }"

fun rtc_pulses :: "clock \<Rightarrow> nat \<Rightarrow> rtc \<Rightarrow> (u8 list \<times> rtc) option" where
  "rtc_pulses clk 0 r = Some ([], r)"
| "rtc_pulses clk (Suc n) r =
     do { (b, r) \<leftarrow> rtc_pulse clk r; (bs, r) \<leftarrow> rtc_pulses clk n r; Some (b # bs, r) }"

text \<open>Bit \<open>k\<close> of a byte sequence, least significant bit of each byte first.\<close>

definition stream_bit :: "u8 list \<Rightarrow> nat \<Rightarrow> u8" where
  "stream_bit bs k = drop_bit (k mod 8) (bs ! (k div 8)) AND 1"

definition reading_date :: "rtc \<Rightarrow> bool" where
  "reading_date r \<longleftrightarrow> rtc_inv r \<and> command r = 0x65 \<and> gp_direction r = 5"

lemma rtc_pulse_date:
  assumes "reading_date r" and wc: "unat (write_count r) = k + 8" and "k < 56"
    and bytes: "k \<noteq> 0 \<Longrightarrow> date_time r = clock_bytes clk (control r)"
  obtains r' where "rtc_pulse clk r = Some (stream_bit (clock_bytes clk (control r)) k, r')"
    "reading_date r'" "unat (write_count r') = Suc k + 8" "control r' = control r"
    "date_time r' = clock_bytes clk (control r)"
proof -
  let ?bs = "clock_bytes clk (control r)"
  have wc8: "write_count r = 8 \<longleftrightarrow> k = 0"
    using wc by (auto simp: word_unat_eq_iff)
  have ge: "\<not> write_count r < 8" using wc by (simp add: word_less_nat_alt)
  have idx: "unat (write_count r) div 8 = Suc (k div 8)" "unat (write_count r) mod 8 = k mod 8"
    using wc by simp_all
  have lt: "k div 8 < 7" using assms(3) by presburger
  have suc: "unat (write_count r + 1) = Suc k + 8"
    using wc assms(3) by (simp add: unat_word_ariths)
  let ?low = "r\<lparr>rtc_cs := 1, rtc_sck := 0, rtc_sio := rtc_sio r\<rparr>"
  let ?v = "stream_bit ?bs k"
  let ?r = "?low\<lparr>date_time := ?bs, write_count := write_count r + 1, rtc_sck := 1, rtc_sio := ?v\<rparr>"
  have low: "write_gp_data clk 0xFFFF 4 r = Some ?low"
    using assms(1) by (simp add: write_gp_data_def update_rtc_def reading_date_def)
  have "read_register clk 2 ?low = Some (?v, ?low\<lparr>date_time := ?bs\<rparr>)"
    using bytes wc8 idx lt
    by (cases "k = 0") (simp_all add: read_register_def update_date_time_def date_time_bit_def stream_bit_def)
  then have "write_gp_data clk 0xFFFF 5 ?low = Some ?r"
    using assms(1) ge by (simp add: write_gp_data_def update_rtc_def transfer_bit_def reading_date_def Let_def)
  with low have "rtc_pulse clk r = Some (?v, ?r)" by (simp add: rtc_pulse_def)
  moreover have "reading_date ?r" using assms(1) by (simp add: reading_date_def rtc_inv_def)
  ultimately show thesis using suc by (intro that [of ?r]) simp_all
qed

lemma rtc_pulses_date:
  assumes "reading_date r" and "unat (write_count r) = k + 8" and "k + n \<le> 56"
    and "k \<noteq> 0 \<Longrightarrow> date_time r = clock_bytes clk (control r)"
  shows "\<exists>r'. rtc_pulses clk n r = Some (map (stream_bit (clock_bytes clk (control r))) [k..<k + n], r')
      \<and> reading_date r' \<and> unat (write_count r') = k + n + 8"
  using assms
proof (induction n arbitrary: r k)
  case 0
  then show ?case by simp
next
  case (Suc n)
  from Suc.prems have k: "k < 56" by simp
  from Suc.prems(1,2) k Suc.prems(4) obtain r' where
    p: "rtc_pulse clk r = Some (stream_bit (clock_bytes clk (control r)) k, r')"
    and r': "reading_date r'" "unat (write_count r') = Suc k + 8" "control r' = control r"
      "date_time r' = clock_bytes clk (control r)"
    by (rule rtc_pulse_date)
  have "\<exists>r''. rtc_pulses clk n r' = Some (map (stream_bit (clock_bytes clk (control r'))) [Suc k..<Suc k + n], r'')
      \<and> reading_date r'' \<and> unat (write_count r'') = Suc k + n + 8"
    using Suc.prems(3) r' by (intro Suc.IH) simp_all
  moreover have "[k..<k + Suc n] = k # [Suc k..<Suc k + n]" by (simp add: upt_conv_Cons)
  ultimately show ?case using p r'(3) by auto
qed

lemma rtc_pulses_add:
  "rtc_pulses clk (m + n) r =
     do { (bs, r) \<leftarrow> rtc_pulses clk m r; (cs, r) \<leftarrow> rtc_pulses clk n r; Some (bs @ cs, r) }"
proof (induction m arbitrary: r)
  case 0
  then show ?case by (cases "rtc_pulses clk n r") auto
next
  case (Suc m)
  show ?case
  proof (cases "rtc_pulse clk r")
    case None
    then show ?thesis by simp
  next
    case (Some p)
    obtain b r' where p: "p = (b, r')" by fastforce
    have "rtc_pulses clk (Suc m + n) r = do { (bs, r) \<leftarrow> rtc_pulses clk (m + n) r'; Some (b # bs, r) }"
      using Some p by simp
    then show ?thesis using Some p
      by (cases "rtc_pulses clk m r'") (auto simp: Suc split: bind_split option.splits)
  qed
qed

text \<open>
  After the command \<open>0x65\<close> (read date and time) the 56 following clock pulses deliver the
  seven bytes of the host clock, BCD coded, least significant bit first, and none of them
  panics; the 57th pulse does.
\<close>

theorem rtc_read_date_time:
  assumes "reading_date r" and "write_count r = 8"
  shows "map_option fst (rtc_pulses clk 56 r) = Some (map (stream_bit (clock_bytes clk (control r))) [0..<56])
    \<and> rtc_pulses clk 57 r = None"
proof -
  have wc: "unat (write_count r) = 0 + 8" using assms(2) by simp
  from rtc_pulses_date [OF assms(1) wc, of 56 clk] obtain r' where
    r': "rtc_pulses clk 56 r = Some (map (stream_bit (clock_bytes clk (control r))) [0..<56], r')"
    "reading_date r'" "unat (write_count r') = 64" by auto
  let ?low = "r'\<lparr>rtc_cs := 1, rtc_sck := 0, rtc_sio := rtc_sio r'\<rparr>"
  have low: "write_gp_data clk 0xFFFF 4 r' = Some ?low"
    using r'(2) by (simp add: write_gp_data_def update_rtc_def reading_date_def)
  have "update_rtc clk 1 1 (rtc_sio r') ?low = None"
    using r'(2,3) by (subst update_rtc_panics_iff) (simp_all add: reading_date_def word_le_nat_alt)
  then have "rtc_pulse clk r' = None"
    using r'(2) low by (simp add: rtc_pulse_def write_gp_data_def reading_date_def)
  moreover have "rtc_pulses clk 57 r =
      do { (bs, r) \<leftarrow> rtc_pulses clk 56 r; (cs, r) \<leftarrow> rtc_pulses clk 1 r; Some (bs @ cs, r) }"
    using rtc_pulses_add [of clk 56 1 r] by (simp del: rtc_pulses.simps)
  ultimately show ?thesis using r'(1) by simp
qed

definition rtc_reading :: rtc where
  "rtc_reading = rtc_new\<lparr>command := 0x65, write_count := 8, gp_direction := 5\<rparr>"

theorem rtc_read_date_time_witness:
  "map_option (take 8 \<circ> fst) (rtc_pulses Frozen 56 rtc_reading) = Some [0, 1, 1, 0, 0, 1, 0, 0]"
proof -
  have "reading_date rtc_reading" "write_count rtc_reading = 8"
    by (simp_all add: reading_date_def rtc_reading_def rtc_inv_new) (simp_all add: rtc_inv_def rtc_new_def)
  then have "map_option fst (rtc_pulses Frozen 56 rtc_reading)
      = Some (map (stream_bit (clock_bytes Frozen (control rtc_reading))) [0..<56])"
    using rtc_read_date_time [of rtc_reading Frozen] by blast
  then have "map_option (take 8) (map_option fst (rtc_pulses Frozen 56 rtc_reading))
      = map_option (take 8) (Some (map (stream_bit (clock_bytes Frozen (control rtc_reading))) [0..<56]))"
    by (rule arg_cong)
  also have "\<dots> = Some (map (stream_bit [0x26, 7, 0x23, 4, 0x12, 0, 0]) [0..<8])"
    by (simp add: take_map clock_bytes_def)
  also have "\<dots> = Some [0, 1, 1, 0, 0, 1, 0, 0]"
    by (simp add: upt_conv_Cons stream_bit_def)
  finally show ?thesis by (simp add: option.map_comp comp_def)
qed

end
