(* ===== verification/Cartridge.thy ===== *)
theory Cartridge
  imports Prelude
begin

text \<open>
  The cartridge's save chips: \<open>src/src/core/memory/cartridge.rs\<close> (SRAM window, the flash command
  state machine, the bit-serial EEPROM) over the save buffer of \<open>src/src/cartridge_io.rs\<close>.
  The \<open>RwLock\<close>-protected byte vector is a list; file paths and the save file itself are host
  state and not modelled, \<open>save_dirty\<close> records that the file is stale.
\<close>

section \<open>Save buffer (cartridge_io.rs)\<close>

datatype save_type = SaveNone | SaveEeprom | SaveSram | SaveFlash64k | SaveFlash128k

fun initial_size :: "save_type \<Rightarrow> nat" where
  "initial_size SaveNone = 0"
| "initial_size SaveEeprom = 8 * 1024"
| "initial_size SaveSram = 32 * 1024"
| "initial_size SaveFlash64k = 64 * 1024"
| "initial_size SaveFlash128k = 128 * 1024"

record flash_state =
  cmd_stage :: u8
  id_mode :: bool
  erase_mode :: bool
  write_mode :: bool
  bank_mode :: bool
  bank :: u8

definition flash_default :: flash_state where
  "flash_default = \<lparr>cmd_stage = 0, id_mode = False, erase_mode = False, write_mode = False,
                    bank_mode = False, bank = 0\<rparr>"

record eeprom_state =
  ee_count :: u16
  ee_cmd :: u16
  ee_data :: u64
  ee_done :: bool
  ee_size :: u32

definition eeprom_default :: eeprom_state where
  "eeprom_default = \<lparr>ee_count = 0, ee_cmd = 0, ee_data = 0, ee_done = False, ee_size = 0\<rparr>"

record cartridge =
  rom_len :: u32
  rom_mask :: u32
  save_ty :: save_type
  has_rtc :: bool
  save_buf :: "u8 list"
  save_dirty :: bool
  flash :: flash_state
  eeprom :: eeprom_state

definition cartridge_new :: cartridge where
  "cartridge_new = \<lparr>rom_len = 0, rom_mask = 0, save_ty = SaveNone, has_rtc = False, save_buf = [],
                    save_dirty = False, flash = flash_default, eeprom = eeprom_default\<rparr>"

text \<open>Rom string scan with a 4-byte stride; the last aligned position is not tried, as in the code.\<close>

definition find_string :: "u8 list \<Rightarrow> u8 list \<Rightarrow> bool" where
  "find_string rom needle =
     (if length rom < length needle then False
      else list_ex (\<lambda>i. i mod 4 = 0 \<and> take (length needle) (drop i rom) = needle)
             [0..<length rom - length needle])"

definition ascii :: "string \<Rightarrow> u8 list" where
  "ascii s = map (\<lambda>ch. of_nat (of_char ch)) s"

text \<open>The save-type and RTC detection of \<open>detect_and_load_save\<close>; \<open>file\<close> is the content of the
  save file, \<open>None\<close> when it cannot be read.\<close>

definition detect_save_type :: "u8 list \<Rightarrow> save_type" where
  "detect_save_type rom =
     (if find_string rom (ascii ''EEPROM_V'') then SaveEeprom
      else if find_string rom (ascii ''SRAM_V'') then SaveSram
      else if find_string rom (ascii ''FLASH1M_V'') then SaveFlash128k
      else if find_string rom (ascii ''FLASH_V'') \<or> find_string rom (ascii ''FLASH512_V'')
        then SaveFlash64k
      else SaveNone)"

definition detect_and_load_save :: "u8 list \<Rightarrow> u8 list option \<Rightarrow> cartridge \<Rightarrow> cartridge" where
  "detect_and_load_save rom file c =
     (let ty = detect_save_type rom;
          buf = replicate (initial_size ty) 0xFF;
          buf = (case file of
                   None \<Rightarrow> buf
                 | Some content \<Rightarrow>
                     (if content = [] then buf
                      else if length buf < length content then content
                      else content @ drop (length content) buf))
      in c\<lparr>save_ty := ty, has_rtc := find_string rom (ascii ''SIIRTC_V''), save_buf := buf\<rparr>)"

definition read_save_buf :: "cartridge \<Rightarrow> u32 \<Rightarrow> u8" where
  "read_save_buf c addr =
     (if save_buf c = [] then 0xFF
      else save_buf c ! (unat addr AND (length (save_buf c) - 1)))"

definition write_save_buf :: "u32 \<Rightarrow> u8 \<Rightarrow> cartridge \<Rightarrow> cartridge" where
  "write_save_buf addr v c =
     (if save_buf c = [] then c
      else c\<lparr>save_buf := (save_buf c)[unat addr AND (length (save_buf c) - 1) := v],
             save_dirty := True\<rparr>)"

definition resize_save_buf :: "nat \<Rightarrow> cartridge \<Rightarrow> cartridge" where
  "resize_save_buf n c =
     c\<lparr>save_buf := take n (save_buf c) @ replicate (n - length (save_buf c)) 0xFF,
       save_dirty := True\<rparr>"

section \<open>SRAM window and flash\<close>

definition cartridge_read_sram :: "cartridge \<Rightarrow> u32 \<Rightarrow> u8" where
  "cartridge_read_sram c addr =
     (let offset = addr AND 0xFFFF in
      case save_ty c of
        SaveNone \<Rightarrow> 0xFF
      | SaveEeprom \<Rightarrow> 0xFF
      | SaveSram \<Rightarrow> read_save_buf c (offset AND 0x7FFF)
      | _ \<Rightarrow>
         (if id_mode (flash c) then
            (if offset = 0 then 0xC2
             else if offset = 1 then (if save_ty c = SaveFlash128k then 0x09 else 0x1C)
             else 0xFF)
          else read_save_buf c (ucast (bank (flash c)) * 0x10000 + offset)))"

text \<open>The last arm of the command match: an erase command, or a mode command.\<close>

definition flash_command :: "bool \<Rightarrow> u8 \<Rightarrow> cartridge \<Rightarrow> cartridge" where
  "flash_command is_128k v c =
     (let f = flash c in
      if v = 0x90 then c\<lparr>flash := f\<lparr>id_mode := True\<rparr>\<rparr>
      else if v = 0xF0 then c\<lparr>flash := f\<lparr>id_mode := False\<rparr>\<rparr>
      else if v = 0xA0 then c\<lparr>flash := f\<lparr>write_mode := True\<rparr>\<rparr>
      else if v = 0x80 then c\<lparr>flash := f\<lparr>erase_mode := True\<rparr>\<rparr>
      else if v = 0xB0 \<and> is_128k then c\<lparr>flash := f\<lparr>bank_mode := True\<rparr>\<rparr>
      else c)"

definition erase_range :: "u32 \<Rightarrow> nat \<Rightarrow> cartridge \<Rightarrow> cartridge" where
  "erase_range base n c = fold (\<lambda>i. write_save_buf (base + of_nat i) 0xFF) [0..<n] c"

definition cartridge_write_flash :: "u32 \<Rightarrow> u8 \<Rightarrow> cartridge \<Rightarrow> cartridge" where
  "cartridge_write_flash offset v c =
     (let is_128k = (save_ty c = SaveFlash128k); f = flash c in
      if write_mode f then
        write_save_buf (ucast (bank f) * 0x10000 + offset) v
          (c\<lparr>flash := f\<lparr>write_mode := False\<rparr>\<rparr>)
      else if bank_mode f \<and> offset = 0 then
        c\<lparr>flash := f\<lparr>bank := v AND of_bool is_128k, bank_mode := False\<rparr>\<rparr>
      else if cmd_stage f = 0 then
        (if offset = 0x5555 \<and> v = 0xAA then c\<lparr>flash := f\<lparr>cmd_stage := 1\<rparr>\<rparr> else c)
      else if cmd_stage f = 1 then
        c\<lparr>flash := f\<lparr>cmd_stage := (if offset = 0x2AAA \<and> v = 0x55 then 2 else 0)\<rparr>\<rparr>
      else
        (let f = f\<lparr>cmd_stage := 0\<rparr> in
         if erase_mode f then
           (let f = f\<lparr>erase_mode := False\<rparr>; c = c\<lparr>flash := f\<rparr> in
            if offset = 0x5555 \<and> v = 0x10 then erase_range 0 (length (save_buf c)) c
            else if v = 0x30 then
              erase_range (ucast (bank f) * 0x10000 + (offset AND 0xF000)) 0x1000 c
            else flash_command is_128k v c)
         else flash_command is_128k v (c\<lparr>flash := f\<rparr>)))"

definition cartridge_write_sram :: "u32 \<Rightarrow> u8 \<Rightarrow> cartridge \<Rightarrow> cartridge" where
  "cartridge_write_sram addr v c =
     (let offset = addr AND 0xFFFF in
      case save_ty c of
        SaveNone \<Rightarrow> c
      | SaveEeprom \<Rightarrow> c
      | SaveSram \<Rightarrow> write_save_buf (offset AND 0x7FFF) v c
      | _ \<Rightarrow> cartridge_write_flash offset v c)"

section \<open>EEPROM\<close>

definition cartridge_is_eeprom :: "cartridge \<Rightarrow> u32 \<Rightarrow> bool" where
  "cartridge_is_eeprom c addr =
     (if save_ty c \<noteq> SaveEeprom then False
      else if rom_len c > 16 * 1024 * 1024 then 0x0DFFFF00 \<le> addr
      else 0x0D000000 \<le> addr \<and> addr < 0x0E000000)"

definition eeprom_addr :: "eeprom_state \<Rightarrow> u32" where
  "eeprom_addr e =
     ucast (if ee_size e = 0x200 then drop_bit 8 (ee_cmd e AND 0x3F00) else ee_cmd e AND 0x03FF)"

definition eeprom_len :: "eeprom_state \<Rightarrow> u16" where
  "eeprom_len e = (if ee_size e = 0x200 then 8 else 16)"

definition cartridge_read_eeprom :: "cartridge \<Rightarrow> u16 \<times> cartridge" where
  "cartridge_read_eeprom c0 =
     (let c = (if ee_size (eeprom c0) = 0 then
                 (let n = (if ee_count (eeprom c0) = 9 then 0x200 else 0x2000)
                  in resize_save_buf (unat n) (c0\<lparr>eeprom := (eeprom c0)\<lparr>ee_size := n\<rparr>\<rparr>))
               else c0);
          e = eeprom c; len = eeprom_len e in
      if drop_bit 14 (ee_cmd e AND 0xC000) = 3 \<and> len + 1 \<le> ee_count e then
        (let e = e\<lparr>ee_count := ee_count e + 1\<rparr>; c = c\<lparr>eeprom := e\<rparr> in
         if len + 6 \<le> ee_count e then
           (let b = (word_of_int (63 - (uint (ee_count e) - (uint len + 6))) :: u32);
                v = drop_bit (unat (b mod 8)) (read_save_buf c (eeprom_addr e * 8 + b div 8)) AND 1;
                c = (if len + 69 \<le> ee_count e
                     then c\<lparr>eeprom := eeprom_default\<lparr>ee_size := ee_size e\<rparr>\<rparr> else c)
            in (ucast v, c))
         else (0, c))
      else if ee_done e then (1, c)
      else (0, c))"

definition cartridge_write_eeprom :: "u16 \<Rightarrow> cartridge \<Rightarrow> cartridge" where
  "cartridge_write_eeprom v c0 =
     (let e = (eeprom c0)\<lparr>ee_done := False\<rparr>; c = c0\<lparr>eeprom := e\<rparr>; len = eeprom_len e in
      if ee_count e < len then
        (let n = ee_count e + 1
         in c\<lparr>eeprom := e\<lparr>ee_count := n, ee_cmd := ee_cmd e OR push_bit (unat (16 - n)) (v AND 1)\<rparr>\<rparr>)
      else if drop_bit 14 (ee_cmd e AND 0xC000) = 3 then
        (if ee_count e < len + 1 then c\<lparr>eeprom := e\<lparr>ee_count := ee_count e + 1\<rparr>\<rparr> else c)
      else if drop_bit 14 (ee_cmd e AND 0xC000) = 2 then
        (let n = ee_count e + 1;
             e = e\<lparr>ee_count := n,
                   ee_data := (if n \<le> len + 64
                               then ee_data e OR push_bit (unat (len + 64 - n)) (ucast (v AND 1))
                               else ee_data e)\<rparr>;
             c = c\<lparr>eeprom := e\<rparr>
         in if len + 65 \<le> n then
              (let c = (if ee_size e = 0
                        then resize_save_buf 0x2000 (c\<lparr>eeprom := e\<lparr>ee_size := 0x2000\<rparr>\<rparr>) else c);
                   e = eeprom c;
                   c = fold (\<lambda>i. write_save_buf (eeprom_addr e * 8 + of_nat i)
                                   (ucast (drop_bit (i * 8) (ee_data e)))) [0..<8] c
               in c\<lparr>eeprom := eeprom_default\<lparr>ee_size := ee_size e, ee_done := True\<rparr>\<rparr>)
            else c)
      else c)"

text \<open>\<open>cartridge_savestate_post_load\<close>: the buffer follows the detected EEPROM size.\<close>

definition cartridge_savestate_post_load :: "cartridge \<Rightarrow> cartridge" where
  "cartridge_savestate_post_load c =
     (let n = unat (ee_size (eeprom c))
      in if n \<noteq> 0 \<and> length (save_buf c) \<noteq> n then resize_save_buf n c else c)"

section \<open>The save buffer as an array\<close>

definition save_size_ok :: "cartridge \<Rightarrow> bool" where
  "save_size_ok c = (\<exists>n \<le> 31. length (save_buf c) = 2 ^ n)"

lemma save_size_ok_index:
  assumes "save_size_ok c"
  shows "m AND (length (save_buf c) - Suc 0) = m mod length (save_buf c)"
proof -
  obtain n where "length (save_buf c) = 2 ^ n" using assms by (auto simp: save_size_ok_def)
  then have "length (save_buf c) - Suc 0 = mask n" by (simp add: mask_eq_exp_minus_1)
  with \<open>length (save_buf c) = 2 ^ n\<close> show ?thesis
    by (metis take_bit_eq_mask take_bit_eq_mod)
qed

lemma save_size_ok_nonempty: "save_size_ok c \<Longrightarrow> save_buf c \<noteq> []"
  by (auto simp: save_size_ok_def)

lemma save_buf_eqs:
  assumes "save_size_ok c" "unat a < length (save_buf c)"
  shows "read_save_buf c a = save_buf c ! unat a"
    and "write_save_buf a v c = c\<lparr>save_buf := (save_buf c)[unat a := v], save_dirty := True\<rparr>"
  using assms save_size_ok_nonempty
  by (auto simp: read_save_buf_def write_save_buf_def save_size_ok_index)

lemma write_save_buf_frame [simp]:
  "save_ty (write_save_buf a v c) = save_ty c" "flash (write_save_buf a v c) = flash c"
  "eeprom (write_save_buf a v c) = eeprom c" "length (save_buf (write_save_buf a v c)) = length (save_buf c)"
  "rom_len (write_save_buf a v c) = rom_len c" "has_rtc (write_save_buf a v c) = has_rtc c"
  by (simp_all add: write_save_buf_def)

lemma save_size_ok_cong: "length (save_buf c') = length (save_buf c) \<Longrightarrow> save_size_ok c' = save_size_ok c"
  by (simp add: save_size_ok_def)

lemma write_range_nth:
  assumes "save_size_ok c" "unat base + n \<le> length (save_buf c)" "j < length (save_buf c)"
  shows "save_buf (fold (\<lambda>i. write_save_buf (base + of_nat i) (f i)) [0..<n] c) ! j =
         (if unat base \<le> j \<and> j < unat base + n then f (j - unat base) else save_buf c ! j)
    \<and> length (save_buf (fold (\<lambda>i. write_save_buf (base + of_nat i) (f i)) [0..<n] c)) = length (save_buf c)"
  using assms(2)
proof (induction n)
  case (Suc n)
  let ?c = "fold (\<lambda>i. write_save_buf (base + of_nat i) (f i)) [0..<n] c"
  have L: "length (save_buf c) \<le> 2 ^ 31"
    using assms(1) power_increasing [of _ 31 "2::nat"] by (auto simp: save_size_ok_def)
  have IH: "save_buf ?c ! j = (if unat base \<le> j \<and> j < unat base + n then f (j - unat base) else save_buf c ! j)"
    "length (save_buf ?c) = length (save_buf c)" using Suc by auto
  have idx: "unat (base + of_nat n) = unat base + n"
    using Suc.prems L by (simp add: unat_word_ariths unat_of_nat take_bit_eq_mod)
  have ok: "save_size_ok ?c" using IH(2) assms(1) by (simp add: save_size_ok_def)
  show ?case using IH Suc.prems assms(3) idx save_buf_eqs(2) [OF ok, of "base + of_nat n"]
    by (auto simp: nth_list_update)
qed auto

lemma fold_write_frame [simp]:
  "save_ty (fold (\<lambda>i. write_save_buf (g i) (f i)) xs c) = save_ty c"
  "flash (fold (\<lambda>i. write_save_buf (g i) (f i)) xs c) = flash c"
  "eeprom (fold (\<lambda>i. write_save_buf (g i) (f i)) xs c) = eeprom c"
  "length (save_buf (fold (\<lambda>i. write_save_buf (g i) (f i)) xs c)) = length (save_buf c)"
  by (induction xs arbitrary: c) simp_all

lemma erase_range_frame [simp]:
  "save_ty (erase_range b n c) = save_ty c" "flash (erase_range b n c) = flash c"
  "length (save_buf (erase_range b n c)) = length (save_buf c)"
  by (simp_all add: erase_range_def)

lemma erase_range_nth:
  assumes "save_size_ok c" "unat base + n \<le> length (save_buf c)" "j < length (save_buf c)"
  shows "save_buf (erase_range base n c) ! j =
         (if unat base \<le> j \<and> j < unat base + n then 0xFF else save_buf c ! j)"
  using write_range_nth [OF assms, of "\<lambda>_. 0xFF"] by (simp add: erase_range_def)

section \<open>Flash command sequences\<close>

definition is_flash :: "cartridge \<Rightarrow> bool" where
  "is_flash c = (save_ty c = SaveFlash64k \<or> save_ty c = SaveFlash128k)"

text \<open>The flash chip's invariant: the buffer has the size of the part, and the bank register
  addresses inside it.\<close>

definition flash_ok :: "cartridge \<Rightarrow> bool" where
  "flash_ok c = (is_flash c \<and> length (save_buf c) = initial_size (save_ty c)
     \<and> (bank (flash c) = 0 \<or> save_ty c = SaveFlash128k \<and> bank (flash c) = 1))"

text \<open>Idle: no command sequence under way.\<close>

definition flash_idle :: "cartridge \<Rightarrow> bool" where
  "flash_idle c = (cmd_stage (flash c) = 0 \<and> \<not> id_mode (flash c) \<and> \<not> erase_mode (flash c)
     \<and> \<not> write_mode (flash c) \<and> \<not> bank_mode (flash c))"

definition flash_writes :: "(u32 \<times> u8) list \<Rightarrow> cartridge \<Rightarrow> cartridge" where
  "flash_writes ws c = fold (\<lambda>(a, v). cartridge_write_sram a v) ws c"

definition flash_index :: "cartridge \<Rightarrow> u32 \<Rightarrow> nat" where
  "flash_index c offset = unat (bank (flash c)) * 65536 + unat offset"

lemma flash_ok_size: "flash_ok c \<Longrightarrow> save_size_ok c"
  unfolding flash_ok_def is_flash_def save_size_ok_def
  by (auto intro: exI [of _ 16] exI [of _ 17])

lemma flash_index_unat:
  assumes "flash_ok c" "unat offset < 65536"
  shows "unat (ucast (bank (flash c)) * 0x10000 + offset :: u32) = flash_index c offset"
    and "flash_index c offset < length (save_buf c)"
  using assms by (auto simp: flash_ok_def is_flash_def flash_index_def unat_word_ariths)

lemma and_FFFF_id: "unat (a :: u32) < 65536 \<Longrightarrow> a AND 0xFFFF = a"
proof -
  assume "unat a < 65536"
  then have "take_bit 16 a = a" by (simp add: word_unat_eq_iff unsigned_take_bit_eq take_bit_nat_eq_self)
  then show ?thesis by (simp add: take_bit_eq_mask mask_eq_exp_minus_1)
qed

lemma flash_unlock:
  assumes "flash_ok c" "flash_idle c"
  shows "flash_writes [(0x5555, 0xAA), (0x2AAA, 0x55)] c = c\<lparr>flash := (flash c)\<lparr>cmd_stage := 2\<rparr>\<rparr>"
  using assms unfolding flash_writes_def cartridge_write_sram_def
  by (auto simp: flash_ok_def is_flash_def flash_idle_def cartridge_write_flash_def Let_def)

lemma flash_writes_append: "flash_writes (xs @ ys) c = flash_writes ys (flash_writes xs c)"
  by (simp add: flash_writes_def)

lemma flash_idle_eq:
  assumes "flash_idle c"
  shows "c\<lparr>flash := (flash c)\<lparr>cmd_stage := 0\<rparr>\<rparr> = c"
    "c\<lparr>flash := (flash c)\<lparr>cmd_stage := 0, write_mode := False\<rparr>\<rparr> = c"
    "c\<lparr>flash := (flash c)\<lparr>cmd_stage := 0, erase_mode := False\<rparr>\<rparr> = c"
  using assms by (cases c; cases "flash c"; simp add: flash_idle_def)+

lemma flash_program_eq:
  assumes "flash_ok c" "flash_idle c" "unat a < 65536"
  shows "flash_writes [(0x5555, 0xAA), (0x2AAA, 0x55), (0x5555, 0xA0), (a, v)] c =
         c\<lparr>save_buf := (save_buf c)[flash_index c a := v], save_dirty := True\<rparr>"
proof -
  let ?c = "c\<lparr>flash := (flash c)\<lparr>cmd_stage := 0, write_mode := True\<rparr>\<rparr>"
  have 1: "flash_writes [(0x5555, 0xA0)] (c\<lparr>flash := (flash c)\<lparr>cmd_stage := 2\<rparr>\<rparr>) = ?c"
    using assms(1,2) unfolding flash_writes_def cartridge_write_sram_def
    by (auto simp: flash_ok_def is_flash_def flash_idle_def cartridge_write_flash_def Let_def
          flash_command_def)
  have 2: "flash_writes [(a, v)] ?c = write_save_buf (ucast (bank (flash c)) * 0x10000 + a) v c"
    using assms and_FFFF_id [OF assms(3)] unfolding flash_writes_def cartridge_write_sram_def
    by (auto simp: flash_idle_eq(2) [OF assms(2)] flash_ok_def is_flash_def flash_idle_def cartridge_write_flash_def Let_def)
  show ?thesis
    using flash_writes_append [of "[(0x5555, 0xAA), (0x2AAA, 0x55)]" "[(0x5555, 0xA0)] @ [(a, v)]" c]
      flash_writes_append [of "[(0x5555, 0xA0)]" "[(a, v)]"] flash_unlock [OF assms(1,2)] 1 2 flash_index_unat [OF assms(1,3)]
      save_buf_eqs(2) [OF flash_ok_size [OF assms(1)]]
    by (simp only: append.simps)
qed

lemma flash_enter_erase:
  assumes "flash_ok c" "flash_idle c"
  shows "flash_writes [(0x5555, 0xAA), (0x2AAA, 0x55), (0x5555, 0x80), (0x5555, 0xAA), (0x2AAA, 0x55)] c =
         c\<lparr>flash := (flash c)\<lparr>cmd_stage := 2, erase_mode := True\<rparr>\<rparr>"
proof -
  let ?u = "[(0x5555, 0xAA), (0x2AAA, 0x55)] :: (u32 \<times> u8) list"
  let ?c = "c\<lparr>flash := (flash c)\<lparr>cmd_stage := 0, erase_mode := True\<rparr>\<rparr>"
  have 1: "flash_writes [(0x5555, 0x80)] (c\<lparr>flash := (flash c)\<lparr>cmd_stage := 2\<rparr>\<rparr>) = ?c"
    using assms(1,2) unfolding flash_writes_def cartridge_write_sram_def
    by (auto simp: flash_ok_def is_flash_def flash_idle_def cartridge_write_flash_def Let_def
          flash_command_def)
  have 2: "flash_writes ?u ?c = c\<lparr>flash := (flash c)\<lparr>cmd_stage := 2, erase_mode := True\<rparr>\<rparr>"
    using assms unfolding flash_writes_def cartridge_write_sram_def
    by (auto simp: flash_ok_def is_flash_def flash_idle_def cartridge_write_flash_def Let_def)
  show ?thesis
    using flash_writes_append [of ?u "[(0x5555, 0x80)] @ ?u" c]
      flash_writes_append [of "[(0x5555, 0x80)]" ?u] flash_unlock [OF assms] 1 2
    by (simp only: append.simps)
qed

lemma flash_sector_erase_eq:
  assumes "flash_ok c" "flash_idle c" "unat a < 65536"
  shows "flash_writes [(0x5555, 0xAA), (0x2AAA, 0x55), (0x5555, 0x80),
           (0x5555, 0xAA), (0x2AAA, 0x55), (a, 0x30)] c =
         erase_range (ucast (bank (flash c)) * 0x10000 + (a AND 0xF000)) 0x1000 c"
proof -
  let ?es = "[(0x5555, 0xAA), (0x2AAA, 0x55), (0x5555, 0x80), (0x5555, 0xAA), (0x2AAA, 0x55)]"
  have 1: "flash_writes [(a, 0x30)] (c\<lparr>flash := (flash c)\<lparr>cmd_stage := 2, erase_mode := True\<rparr>\<rparr>) =
           erase_range (ucast (bank (flash c)) * 0x10000 + (a AND 0xF000)) 0x1000 c"
    using assms and_FFFF_id [OF assms(3)] unfolding flash_writes_def cartridge_write_sram_def
    by (auto simp: flash_idle_eq(3) [OF assms(2)] flash_ok_def is_flash_def flash_idle_def
        cartridge_write_flash_def Let_def)
  show ?thesis
    using flash_writes_append [of ?es "[(a, 0x30)]" c] flash_enter_erase [OF assms(1,2)] 1
    by (simp only: append.simps)
qed

lemma sector_base:
  assumes "unat (a :: u32) < 65536"
  shows "unat (a AND 0xF000) = unat a div 4096 * 4096"
proof -
  have F: "(0xF000 :: nat) = push_bit 12 (mask 4)" by (simp add: mask_eq_exp_minus_1 push_bit_eq_mult)
  have "unat a AND 0xF000 = push_bit 12 (take_bit 4 (drop_bit 12 (unat a)))"
    unfolding F by (rule bit_eqI) (auto simp: bit_simps)
  moreover have "take_bit 4 (drop_bit 12 (unat a)) = unat a div 4096"
    using assms by (simp add: take_bit_eq_mod drop_bit_eq_div)
  ultimately show ?thesis by (simp add: unsigned_and_eq push_bit_eq_mult)
qed

text \<open>
  The four-write program sequence stores the byte at the selected bank's offset, leaves every
  other byte and the whole command state as they were, and the byte is read back through the
  SRAM window.
\<close>

theorem flash_program:
  assumes "flash_ok c" "flash_idle c" "unat a < 65536"
  shows "let c' = flash_writes [(0x5555, 0xAA), (0x2AAA, 0x55), (0x5555, 0xA0), (a, v)] c
    in c' = c\<lparr>save_buf := (save_buf c)[flash_index c a := v], save_dirty := True\<rparr>
      \<and> flash_ok c' \<and> flash_idle c' \<and> cartridge_read_sram c' a = v"
proof -
  define c' where "c' = flash_writes [(0x5555, 0xAA), (0x2AAA, 0x55), (0x5555, 0xA0), (a, v)] c"
  have c': "c' = c\<lparr>save_buf := (save_buf c)[flash_index c a := v], save_dirty := True\<rparr>"
    unfolding c'_def by (rule flash_program_eq [OF assms(1-3)])
  have ok: "flash_ok c'" and idle: "flash_idle c'"
    using assms(1,2) by (simp_all add: c' flash_ok_def flash_idle_def is_flash_def)
  have "cartridge_read_sram c' a = read_save_buf c' (ucast (bank (flash c')) * 0x10000 + a)"
    using ok idle and_FFFF_id [OF assms(3)]
    by (auto simp: cartridge_read_sram_def flash_ok_def is_flash_def flash_idle_def)
  also have "\<dots> = save_buf c' ! flash_index c' a"
    using save_buf_eqs(1) [OF flash_ok_size [OF ok]] flash_index_unat [OF ok assms(3)] by simp
  also have "\<dots> = v" using flash_index_unat(2) [OF assms(1,3)] by (simp add: c' flash_index_def)
  finally have "cartridge_read_sram c' a = v" .
  then show ?thesis using c' ok idle unfolding Let_def c'_def [symmetric] by blast
qed

text \<open>
  The six-write sector-erase sequence sets exactly the 4 KiB sector of the selected bank that
  contains the address to 0xFF, and keeps every other byte and the command state.
\<close>

theorem flash_sector_erase:
  assumes "flash_ok c" "flash_idle c" "unat a < 65536"
  shows "let c' = flash_writes [(0x5555, 0xAA), (0x2AAA, 0x55), (0x5555, 0x80),
                               (0x5555, 0xAA), (0x2AAA, 0x55), (a, 0x30)] c
    in flash_ok c' \<and> flash c' = flash c
      \<and> save_buf c' = map (\<lambda>j. if j div 4096 = flash_index c a div 4096 then 0xFF else save_buf c ! j)
                       [0..<length (save_buf c)]"
proof -
  define c' where "c' = flash_writes [(0x5555, 0xAA), (0x2AAA, 0x55), (0x5555, 0x80),
                               (0x5555, 0xAA), (0x2AAA, 0x55), (a, 0x30)] c"
  let ?b = "ucast (bank (flash c)) * 0x10000 + (a AND 0xF000) :: u32"
  have le: "unat a div 4096 * 4096 \<le> unat a" "unat a div 4096 < 16" using assms(3) by (auto simp: less_mult_imp_div_less)
  have s: "unat (a AND 0xF000) < 65536" using sector_base [OF assms(3)] le(1) assms(3) by linarith
  have sect: "(k * 4096 \<le> j \<and> j < k * 4096 + 4096) = (j div 4096 = k)" for j k :: nat
    by (auto intro: div_nat_eqI)
  have dm: "(x * 65536 + y) div 4096 * 4096 = x * 65536 + y div 4096 * 4096" for x y :: nat
    using div_mult_self3 [of "4096 :: nat" "16 * x" y] by (simp add: mult.commute)
  have b: "unat ?b = flash_index c a div 4096 * 4096"
    unfolding flash_index_def dm using flash_index_unat(1) [OF assms(1) s] sector_base [OF assms(3)]
    by (simp add: flash_index_def)
  have fit: "unat ?b + 4096 \<le> length (save_buf c)"
    unfolding flash_index_unat(1) [OF assms(1) s] flash_index_def sector_base [OF assms(3)]
    using assms(1) le(2) by (auto simp: flash_ok_def is_flash_def)
  have c': "c' = erase_range ?b 0x1000 c" unfolding c'_def by (rule flash_sector_erase_eq [OF assms(1-3)])
  have fr: "save_ty c' = save_ty c" "flash c' = flash c" "length (save_buf c') = length (save_buf c)"
    by (simp_all add: c')
  have "save_buf c' = map (\<lambda>j. if j div 4096 = flash_index c a div 4096 then 0xFF else save_buf c ! j)
                     [0..<length (save_buf c)]"
  proof (rule nth_equalityI)
    fix j assume "j < length (save_buf c')"
    then have j: "j < length (save_buf c)" using fr(3) by simp
    have "(unat ?b \<le> j \<and> j < unat ?b + 4096) = (j div 4096 = flash_index c a div 4096)"
      unfolding b by (rule sect)
    then show "save_buf c' ! j = map (\<lambda>j. if j div 4096 = flash_index c a div 4096 then 0xFF else save_buf c ! j)
                     [0..<length (save_buf c)] ! j"
      using erase_range_nth [OF flash_ok_size [OF assms(1)] fit j] j by (simp add: c')
  qed (simp add: fr)
  then show ?thesis using fr assms(1)
    unfolding Let_def c'_def [symmetric] by (simp add: flash_ok_def is_flash_def)
qed

definition flash_sample :: cartridge where
  "flash_sample = cartridge_new\<lparr>save_ty := SaveFlash128k, save_buf := replicate 131072 0x5A,
                                flash := flash_default\<lparr>bank := 1\<rparr>\<rparr>"

lemma flash_sample_ok: "flash_ok flash_sample" "flash_idle flash_sample"
  by (simp_all add: flash_sample_def flash_ok_def flash_idle_def is_flash_def flash_default_def)

theorem flash_program_witness:
  "flash_ok flash_sample \<and> flash_idle flash_sample \<and> unat (0x1234 :: u32) < 65536
   \<and> cartridge_read_sram (flash_writes [(0x5555, 0xAA), (0x2AAA, 0x55), (0x5555, 0xA0), (0x1234, 0x42)]
        flash_sample) 0x1234 = 0x42"
proof -
  have a: "unat (0x1234 :: u32) < 65536" by simp
  show ?thesis using flash_program [OF flash_sample_ok a, of "0x42", unfolded Let_def] flash_sample_ok a
    by blast
qed

theorem flash_sector_erase_witness:
  "flash_ok flash_sample \<and> flash_idle flash_sample \<and> unat (0x1234 :: u32) < 65536
   \<and> save_buf (flash_writes [(0x5555, 0xAA), (0x2AAA, 0x55), (0x5555, 0x80),
        (0x5555, 0xAA), (0x2AAA, 0x55), (0x1234, 0x30)] flash_sample) ! 70000 = 0xFF"
proof -
  have "flash_index flash_sample 0x1234 = 70196"
    by (simp add: flash_index_def flash_sample_def)
  moreover have "length (save_buf flash_sample) = 131072" by (simp add: flash_sample_def)
  ultimately show ?thesis
    using flash_sector_erase [OF flash_sample_ok, where a = "0x1234"] flash_sample_ok
    by (simp add: Let_def)
qed

lemma and_of_bool_cases: "(v AND of_bool b :: u8) = 0 \<or> b \<and> v AND of_bool b = 1"
  by (cases b) (auto simp: and_one_eq)

lemma flash_command_frame [simp]:
  "save_ty (flash_command b v c) = save_ty c" "save_buf (flash_command b v c) = save_buf c"
  "bank (flash (flash_command b v c)) = bank (flash c)"
  by (simp_all add: flash_command_def Let_def)

lemma write_flash_frame:
  "save_ty (cartridge_write_flash offset v c) = save_ty c
   \<and> length (save_buf (cartridge_write_flash offset v c)) = length (save_buf c)
   \<and> (bank (flash (cartridge_write_flash offset v c)) = bank (flash c)
      \<or> bank (flash (cartridge_write_flash offset v c)) = v AND of_bool (save_ty c = SaveFlash128k))"
  by (simp add: cartridge_write_flash_def Let_def)

text \<open>
  No write to the cartridge's SRAM window breaks the flash chip's invariant: the buffer keeps
  the size of the part and the bank register stays inside it.
\<close>

theorem write_sram_keeps_flash_ok:
  assumes "flash_ok c"
  shows "flash_ok (cartridge_write_sram a v c)"
proof -
  have "cartridge_write_sram a v c = cartridge_write_flash (a AND 0xFFFF) v c"
    using assms by (auto simp: cartridge_write_sram_def flash_ok_def is_flash_def)
  then show ?thesis
    using assms write_flash_frame [where c = c and v = v and offset = "a AND 0xFFFF"]
      and_of_bool_cases [of v "save_ty c = SaveFlash128k"]
    by (auto simp: flash_ok_def is_flash_def)
qed

theorem write_sram_keeps_flash_ok_witness:
  "flash_ok flash_sample \<and> flash_ok (cartridge_write_sram 0x0E000000 1 flash_sample)"
  using write_sram_keeps_flash_ok [OF flash_sample_ok(1)] flash_sample_ok(1) by blast

section \<open>EEPROM round trip\<close>

text \<open>The bits of \<open>w\<close> from position \<open>n - 1\<close> down to \<open>n - k\<close>, as they are sent.\<close>

definition msb_bits :: "nat \<Rightarrow> nat \<Rightarrow> 'a::len word \<Rightarrow> bool list" where
  "msb_bits n k w = map (\<lambda>i. bit w (n - 1 - i)) [0..<k]"

definition ee_send :: "bool list \<Rightarrow> cartridge \<Rightarrow> cartridge" where
  "ee_send bs c = fold (\<lambda>b. cartridge_write_eeprom (of_bool b)) bs c"

fun ee_recv :: "nat \<Rightarrow> cartridge \<Rightarrow> u16 list \<times> cartridge" where
  "ee_recv 0 c = ([], c)"
| "ee_recv (Suc k) c =
     (let (v, c) = cartridge_read_eeprom c; (vs, c) = ee_recv k c in (v # vs, c))"

definition high_bits :: "nat \<Rightarrow> nat \<Rightarrow> 'a::len word \<Rightarrow> 'a word" where
  "high_bits n k w = push_bit (n - k) (drop_bit (n - k) w)"

lemma high_bits_0: "LENGTH('a) \<le> n \<Longrightarrow> high_bits n 0 (w :: 'a::len word) = 0"
  by (rule bit_word_eqI) (auto simp: high_bits_def bit_simps)

lemma high_bits_full [simp]: "high_bits n n w = w"
  by (simp add: high_bits_def)

lemma high_bits_Suc:
  assumes "k < n"
  shows "high_bits n (Suc k) w = high_bits n k w OR push_bit (n - Suc k) (of_bool (bit w (n - Suc k)))"
proof (rule bit_word_eqI)
  fix i assume "i < LENGTH('a)"
  have e: "n - k = Suc (n - Suc k)" using assms by simp
  show "bit (high_bits n (Suc k) w) i =
        bit (high_bits n k w OR push_bit (n - Suc k) (of_bool (bit w (n - Suc k)))) i"
    unfolding high_bits_def e using \<open>i < _\<close>
    by (cases "i = n - Suc k") (auto simp: bit_simps simp del: push_bit_Suc drop_bit_Suc)
qed

lemma ee_send_snoc: "ee_send (bs @ [b]) c = cartridge_write_eeprom (of_bool b) (ee_send bs c)"
  by (simp add: ee_send_def)

lemma ee_send_append: "ee_send (bs @ bs') c = ee_send bs' (ee_send bs c)"
  by (simp add: ee_send_def)

lemma msb_bits_Suc: "msb_bits n (Suc k) w = msb_bits n k w @ [bit w (n - 1 - k)]"
  by (simp add: msb_bits_def)

definition ee_idle :: "cartridge \<Rightarrow> bool" where
  "ee_idle c = (save_ty c = SaveEeprom \<and> ee_count (eeprom c) = 0 \<and> ee_cmd (eeprom c) = 0
     \<and> ee_data (eeprom c) = 0 \<and> (ee_size (eeprom c) = 0x200 \<or> ee_size (eeprom c) = 0x2000)
     \<and> length (save_buf c) = unat (ee_size (eeprom c)))"

definition ee_bits :: "cartridge \<Rightarrow> nat" where
  "ee_bits c = (if ee_size (eeprom c) = 0x200 then 8 else 16)"

lemma eeprom_len_bits: "eeprom_len (eeprom c) = of_nat (ee_bits c)" "ee_bits c \<le> 16" "8 \<le> ee_bits c"
  by (simp_all add: eeprom_len_def ee_bits_def)

lemma u16_small [simp]:
  assumes "j < 65536"
  shows "unat (of_nat j :: u16) = j"
  using assms by (simp add: unat_of_nat take_bit_nat_eq_self)

lemma ee_bits_cong: "ee_size (eeprom c') = ee_size (eeprom c) \<Longrightarrow> ee_bits c' = ee_bits c"
  by (simp add: ee_bits_def)

lemma ee_write_command_bit:
  assumes "ee_count (eeprom c) = of_nat k" "k < ee_bits c"
  shows "cartridge_write_eeprom (of_bool b) c =
         c\<lparr>eeprom := (eeprom c)\<lparr>ee_done := False, ee_count := of_nat (Suc k),
             ee_cmd := ee_cmd (eeprom c) OR push_bit (16 - Suc k) (of_bool b)\<rparr>\<rparr>"
proof -
  have k: "k < 16" using assms(2) eeprom_len_bits(2) [of c] by simp
  have lt: "(of_nat k :: u16) < eeprom_len ((eeprom c)\<lparr>ee_done := False\<rparr>)"
    using k assms(2) eeprom_len_bits(2) [of c] by (auto simp: word_less_nat_alt eeprom_len_def ee_bits_def split: if_splits)
  have sh: "unat (16 - (of_nat k + 1) :: u16) = 16 - Suc k"
    using k by (simp add: unat_sub word_le_nat_alt unat_word_ariths)
  have b: "(of_bool b AND 1 :: u16) = of_bool b" by simp
  show ?thesis unfolding cartridge_write_eeprom_def Let_def
    using lt sh b assms(1) by (simp add: ac_simps)
qed

lemma ee_send_command:
  assumes "ee_count (eeprom c) = 0" "ee_cmd (eeprom c) = 0" "k \<le> ee_bits c" "0 < k"
  shows "ee_send (msb_bits 16 k w) c =
         c\<lparr>eeprom := (eeprom c)\<lparr>ee_done := False, ee_count := of_nat k, ee_cmd := high_bits 16 k w\<rparr>\<rparr>"
  using assms(3,4)
proof (induction k)
  case (Suc k)
  have k: "k < 16" "k < ee_bits c" using Suc.prems eeprom_len_bits(2) [of c] by auto
  show ?case
  proof (cases k)
    case 0
    have "high_bits 16 (Suc 0) w = 0 OR push_bit (16 - Suc 0) (of_bool (bit w (16 - Suc 0)))"
      using high_bits_Suc [of 0 16 w] high_bits_0 [of 16 w] by (simp only: zero_less_numeral) simp
    then show ?thesis using 0 ee_write_command_bit [of c 0] assms(1,2) k
      by (simp add: msb_bits_def ee_send_def)
  next
    case (Suc j)
    let ?c = "c\<lparr>eeprom := (eeprom c)\<lparr>ee_done := False, ee_count := of_nat k, ee_cmd := high_bits 16 k w\<rparr>\<rparr>"
    have "ee_send (msb_bits 16 k w) c = ?c" using Suc.IH Suc k by simp
    then show ?thesis
      using ee_bits_cong [of ?c c] ee_write_command_bit [of ?c k "bit w (15 - k)"] high_bits_Suc [OF k(1), of w] k
      by (simp add: msb_bits_Suc ee_send_snoc del: of_nat_Suc)
  qed
qed simp

lemma ee_write_data_bit:
  assumes "ee_count (eeprom c) = of_nat (ee_bits c + k)" "k < 64" "drop_bit 14 (ee_cmd (eeprom c) AND 0xC000) = 2"
  shows "cartridge_write_eeprom (of_bool b) c =
         c\<lparr>eeprom := (eeprom c)\<lparr>ee_done := False, ee_count := of_nat (ee_bits c + Suc k),
             ee_data := ee_data (eeprom c) OR push_bit (64 - Suc k) (of_bool b)\<rparr>\<rparr>"
proof -
  let ?e = "(eeprom c)\<lparr>ee_done := False\<rparr>" and ?n = "of_nat (ee_bits c + k) :: u16"
  have L: "eeprom_len ?e = of_nat (ee_bits c)" by (simp add: eeprom_len_def ee_bits_def)
  have B: "ee_bits c \<le> 16" by (rule eeprom_len_bits)
  have c1: "\<not> ?n < eeprom_len ?e" unfolding L word_less_nat_alt using assms(2) B by (simp del: of_nat_add)
  have N: "?n + 1 = of_nat (ee_bits c + Suc k)" by simp
  have L64: "eeprom_len ?e + 64 = of_nat (ee_bits c + 64)" "eeprom_len ?e + 65 = of_nat (ee_bits c + 65)"
    unfolding L by simp_all
  have c2: "?n + 1 \<le> eeprom_len ?e + 64" "\<not> eeprom_len ?e + 65 \<le> ?n + 1"
    unfolding L64 N word_le_nat_alt using assms(2) B by (simp_all del: of_nat_add of_nat_Suc add_Suc_right)
  have sh: "unat (eeprom_len ?e + 64 - (?n + 1)) = 64 - Suc k"
  proof -
    have "?n + 1 \<le> eeprom_len ?e + 64" by (rule c2)
    then have "unat (eeprom_len ?e + 64 - (?n + 1)) = unat (eeprom_len ?e + 64) - unat (?n + 1)"
      by (rule unat_sub)
    then show ?thesis unfolding L64 N using assms(2) B by (simp del: of_nat_add of_nat_Suc add_Suc_right)
  qed
  have b: "ucast (of_bool b AND 1 :: u16) = (of_bool b :: u64)" by (cases b) simp_all
  show ?thesis unfolding cartridge_write_eeprom_def Let_def
    using c1 c2 sh b N assms(1,3) by (simp del: of_nat_Suc of_nat_add)
qed

lemma ee_send_data:
  assumes "ee_count (eeprom c) = of_nat (ee_bits c)" "ee_data (eeprom c) = 0"
    "drop_bit 14 (ee_cmd (eeprom c) AND 0xC000) = 2" "\<not> ee_done (eeprom c)" "k \<le> 64"
  shows "ee_send (msb_bits 64 k w) c =
         c\<lparr>eeprom := (eeprom c)\<lparr>ee_count := of_nat (ee_bits c + k), ee_data := high_bits 64 k w\<rparr>\<rparr>"
  using assms(5)
proof (induction k)
  case 0
  have "high_bits 64 0 w = 0" using high_bits_0 [of 64 w] by simp
  moreover have "(eeprom c)\<lparr>ee_count := of_nat (ee_bits c), ee_data := 0\<rparr> = eeprom c"
    using assms(1,2) by (cases "eeprom c") simp
  ultimately show ?case by (simp add: ee_send_def msb_bits_def)
next
  case (Suc k)
  let ?c = "c\<lparr>eeprom := (eeprom c)\<lparr>ee_count := of_nat (ee_bits c + k), ee_data := high_bits 64 k w\<rparr>\<rparr>"
  have k: "k < 64" using Suc.prems by simp
  have IH: "ee_send (msb_bits 64 k w) c = ?c" using Suc by simp
  have B: "ee_bits ?c = ee_bits c" by (simp add: ee_bits_def)
  have d: "(eeprom c)\<lparr>ee_done := False\<rparr> = eeprom c" using assms(4) by (cases "eeprom c") simp
  show ?case
    using ee_write_data_bit [of ?c k "bit w (63 - k)"] high_bits_Suc [OF k, of w] k assms(3) IH d
    unfolding msb_bits_Suc ee_send_snoc IH B
    by (cases "eeprom c") (simp del: of_nat_Suc of_nat_add add_Suc_right)
qed

text \<open>The stop bit of a write command commits the 64 data bits as eight bytes.\<close>

definition ee_store :: "u32 \<Rightarrow> u64 \<Rightarrow> cartridge \<Rightarrow> cartridge" where
  "ee_store blk w c = fold (\<lambda>i. write_save_buf (blk * 8 + of_nat i) (ucast (drop_bit (i * 8) w))) [0..<8] c"

lemma ee_store_frame [simp]:
  "save_ty (ee_store b w c) = save_ty c" "eeprom (ee_store b w c) = eeprom c"
  "length (save_buf (ee_store b w c)) = length (save_buf c)"
  unfolding ee_store_def by (simp_all del: upt_rec_numeral)

lemma ee_store_eeprom_swap: "(ee_store b w (c\<lparr>eeprom := e\<rparr>)) = (ee_store b w c)\<lparr>eeprom := e\<rparr>"
proof -
  have w: "write_save_buf a v (c\<lparr>eeprom := e\<rparr>) = (write_save_buf a v c)\<lparr>eeprom := e\<rparr>" for a v c
    by (simp add: write_save_buf_def)
  have "fold (\<lambda>i. write_save_buf (g i) (f i)) xs (c\<lparr>eeprom := e\<rparr>) =
        (fold (\<lambda>i. write_save_buf (g i) (f i)) xs c)\<lparr>eeprom := e\<rparr>" for f g and xs :: "nat list"
    by (induction xs arbitrary: c) (simp_all add: w)
  then show ?thesis unfolding ee_store_def .
qed

lemma ee_write_commit:
  assumes "ee_count (eeprom c) = of_nat (ee_bits c + 64)" "drop_bit 14 (ee_cmd (eeprom c) AND 0xC000) = 2"
    "ee_size (eeprom c) \<noteq> 0"
  shows "cartridge_write_eeprom v c =
         (ee_store (eeprom_addr (eeprom c)) (ee_data (eeprom c)) c)
           \<lparr>eeprom := eeprom_default\<lparr>ee_size := ee_size (eeprom c), ee_done := True\<rparr>\<rparr>"
proof -
  let ?e = "(eeprom c)\<lparr>ee_done := False\<rparr>" and ?n = "of_nat (ee_bits c + 64) :: u16"
  have L: "eeprom_len ?e = of_nat (ee_bits c)" by (simp add: eeprom_len_def ee_bits_def)
  have B: "ee_bits c \<le> 16" by (rule eeprom_len_bits)
  have c1: "\<not> ?n < eeprom_len ?e" unfolding L word_less_nat_alt using B by (simp del: of_nat_add)
  have N: "?n + 1 = of_nat (ee_bits c + 65)" by simp
  have L64: "eeprom_len ?e + 64 = of_nat (ee_bits c + 64)" "eeprom_len ?e + 65 = of_nat (ee_bits c + 65)"
    unfolding L by simp_all
  have c2: "\<not> ?n + 1 \<le> eeprom_len ?e + 64" "eeprom_len ?e + 65 \<le> ?n + 1"
    unfolding L64 N word_le_nat_alt using B by (simp_all del: of_nat_add)
  have A: "eeprom_addr (eeprom c\<lparr>ee_done := x, ee_count := y\<rparr>) = eeprom_addr (eeprom c)" for x y
    by (simp add: eeprom_addr_def)
  show ?thesis
    unfolding cartridge_write_eeprom_def Let_def ee_store_def [symmetric]
    using c1 c2 assms
    by (simp add: ee_store_eeprom_swap ee_store_def [symmetric] A del: of_nat_Suc of_nat_add upt_rec_numeral)
qed

lemma u32_div8:
  assumes "b < 2 ^ 32"
  shows "(of_nat b :: u32) mod 8 = of_nat (b mod 8)" "(of_nat b :: u32) div 8 = of_nat (b div 8)"
    "unat (of_nat (b mod 8) :: u32) = b mod 8"
proof -
  have u: "unat (of_nat x :: u32) = x" if "x \<le> b" for x
    using assms that by (simp add: unat_of_nat take_bit_nat_eq_self)
  show "(of_nat b :: u32) mod 8 = of_nat (b mod 8)" "(of_nat b :: u32) div 8 = of_nat (b div 8)"
    unfolding word_unat_eq_iff unat_mod unat_div by (simp_all add: u mod_le_divisor div_le_dividend)
  show "unat (of_nat (b mod 8) :: u32) = b mod 8" by (rule u) (rule mod_less_eq_dividend)
qed

lemma ee_read_bit:
  assumes "ee_count (eeprom c) = of_nat (ee_bits c + Suc k)" "k < 68"
    "drop_bit 14 (ee_cmd (eeprom c) AND 0xC000) = 3" "ee_size (eeprom c) \<noteq> 0"
  defines "b \<equiv> 67 - k"
  shows "cartridge_read_eeprom c =
     (if k < 4 then 0
      else of_bool (bit (read_save_buf c (eeprom_addr (eeprom c) * 8 + of_nat (b div 8))) (b mod 8)),
      c\<lparr>eeprom := (if k = 67 then eeprom_default\<lparr>ee_size := ee_size (eeprom c)\<rparr>
                  else (eeprom c)\<lparr>ee_count := of_nat (ee_bits c + Suc (Suc k))\<rparr>)\<rparr>)"
proof -
  let ?e = "eeprom c" and ?n = "of_nat (ee_bits c + Suc k) :: u16"
  have L: "eeprom_len ?e = of_nat (ee_bits c)" by (simp add: eeprom_len_def ee_bits_def)
  have L': "eeprom_len (?e\<lparr>ee_count := x\<rparr>) = eeprom_len ?e"
    "eeprom_addr (?e\<lparr>ee_count := x\<rparr>) = eeprom_addr ?e" for x
    by (simp_all add: eeprom_len_def eeprom_addr_def)
  have R: "read_save_buf (c\<lparr>eeprom := x\<rparr>) a = read_save_buf c a" for x a by (simp add: read_save_buf_def)
  have B: "ee_bits c \<le> 16" by (rule eeprom_len_bits)
  have N: "?n + 1 = of_nat (ee_bits c + Suc (Suc k))" by simp
  have Ls: "eeprom_len ?e + 1 = of_nat (ee_bits c + 1)" "eeprom_len ?e + 6 = of_nat (ee_bits c + 6)"
      "eeprom_len ?e + 69 = of_nat (ee_bits c + 69)"
    unfolding L by simp_all
  have c1: "eeprom_len ?e + 1 \<le> ?n" unfolding Ls word_le_nat_alt using assms(2) B
    by (simp del: of_nat_add of_nat_Suc add_Suc_right)
  have c2: "eeprom_len ?e + 6 \<le> ?n + 1 \<longleftrightarrow> \<not> k < 4" "eeprom_len ?e + 69 \<le> ?n + 1 \<longleftrightarrow> k = 67"
    unfolding Ls N word_le_nat_alt using assms(2) B by (auto simp del: of_nat_add of_nat_Suc add_Suc_right)
  have u: "uint (?n + 1) = int (ee_bits c + Suc (Suc k))" "uint (eeprom_len ?e) = int (ee_bits c)"
    unfolding N L uint_nat using assms(2) B by (simp_all del: of_nat_add of_nat_Suc add_Suc_right)
  have b: "word_of_int (63 - (uint (?n + 1) - (uint (eeprom_len ?e) + 6))) = (of_nat b :: u32)" if "\<not> k < 4"
  proof -
    have "63 - (uint (?n + 1) - (uint (eeprom_len ?e) + 6)) = int b"
      unfolding u b_def using that assms(2) by simp
    then show ?thesis by simp
  qed
  have "b < 2 ^ 32" by (simp add: b_def)
  note b8 = u32_div8 [OF this]
  have v: "ucast (drop_bit j x AND 1) = (of_bool (bit x j) :: u16)" for j and x :: u8
    by (cases "bit x j") (simp_all add: and_one_eq mod_2_eq_odd bit_iff_odd_drop_bit)
  show ?thesis
  proof (cases "k < 4")
    case True
    then show ?thesis unfolding cartridge_read_eeprom_def Let_def
      using c1 c2 assms(1,3,4) N by (simp del: of_nat_Suc of_nat_add add_Suc_right)
  next
    case False
    note rd = c1 c2 assms(1,3,4) b [OF False] b8 N
    show ?thesis unfolding cartridge_read_eeprom_def Let_def
      using False rd by (simp add: L' R v del: of_nat_Suc of_nat_add add_Suc_right)
  qed
qed

text \<open>What the device shifts out after a read command: four idle bits, then the block.\<close>

definition ee_out :: "cartridge \<Rightarrow> nat \<Rightarrow> u16" where
  "ee_out c k = (if k < 4 then 0
     else of_bool (bit (read_save_buf c (eeprom_addr (eeprom c) * 8 + of_nat ((67 - k) div 8))) ((67 - k) mod 8)))"

lemma ee_recv_from:
  assumes "ee_count (eeprom c) = of_nat (ee_bits c + Suc k)" "k + Suc j = 68"
    "drop_bit 14 (ee_cmd (eeprom c) AND 0xC000) = 3" "ee_size (eeprom c) \<noteq> 0"
  shows "ee_recv (Suc j) c =
         (map (ee_out c) [k..<68], c\<lparr>eeprom := eeprom_default\<lparr>ee_size := ee_size (eeprom c)\<rparr>\<rparr>)"
  using assms
proof (induction j arbitrary: k c)
  case 0
  then show ?case using ee_read_bit [of c k] by (simp add: ee_out_def upt_rec_numeral)
next
  case (Suc j)
  let ?c = "c\<lparr>eeprom := (eeprom c)\<lparr>ee_count := of_nat (ee_bits c + Suc (Suc k))\<rparr>\<rparr>"
  have k: "k < 67" using Suc.prems(2) by simp
  have B: "ee_bits ?c = ee_bits c" by (simp add: ee_bits_def)
  have O: "ee_out ?c = ee_out c"
    by (rule ext) (simp add: ee_out_def read_save_buf_def eeprom_addr_def)
  have r: "cartridge_read_eeprom c = (ee_out c k, ?c)"
    using ee_read_bit [OF Suc.prems(1) _ Suc.prems(3,4)] k by (simp add: ee_out_def)
  have IH: "ee_recv (Suc j) ?c = (map (ee_out c) [Suc k..<68], c\<lparr>eeprom := eeprom_default\<lparr>ee_size := ee_size (eeprom c)\<rparr>\<rparr>)"
    using Suc.IH [of ?c "Suc k"] Suc.prems B O by simp
  have "ee_recv (Suc (Suc j)) c = (ee_out c k # map (ee_out c) [Suc k..<68], c\<lparr>eeprom := eeprom_default\<lparr>ee_size := ee_size (eeprom c)\<rparr>\<rparr>)"
    unfolding ee_recv.simps(2) [of "Suc j" c] r using IH by (simp del: ee_recv.simps)
  then show ?case using k by (simp add: upt_conv_Cons del: ee_recv.simps)
qed

text \<open>The command word of a write (\<open>rd = False\<close>) or read of block \<open>blk\<close>; its leading
  \<open>ee_bits c\<close> bits are what is sent.\<close>

definition ee_command :: "cartridge \<Rightarrow> bool \<Rightarrow> u16 \<Rightarrow> u16" where
  "ee_command c rd blk = 0x8000 OR (if rd then 0x4000 else 0)
     OR (if ee_size (eeprom c) = 0x200 then push_bit 8 blk else blk)"

definition ee_block_ok :: "cartridge \<Rightarrow> u16 \<Rightarrow> bool" where
  "ee_block_ok c blk = (unat blk < (if ee_size (eeprom c) = 0x200 then 64 else 1024))"

lemma bit_small: "unat (w :: u16) < 2 ^ n \<Longrightarrow> n \<le> i \<Longrightarrow> \<not> bit w i"
  by (metis bit_take_bit_iff linorder_not_less take_bit_nat_eq_self unsigned_take_bit_eq word_unat_eq_iff)

lemma bit_range16: "bit (push_bit n (mask k) :: u16) i \<longleftrightarrow> n \<le> i \<and> i < n + k \<and> i < 16"
  by (auto simp: bit_push_bit_iff bit_mask_iff)

lemma numeral_bits16:
  "bit (0x8000 :: u16) i \<longleftrightarrow> i = 15"
  "bit (0x4000 :: u16) i \<longleftrightarrow> i = 14"
  "bit (0xC000 :: u16) i \<longleftrightarrow> 14 \<le> i \<and> i < 16"
  "bit (0x03FF :: u16) i \<longleftrightarrow> i < 10"
  "bit (0x3F00 :: u16) i \<longleftrightarrow> 8 \<le> i \<and> i < 14"
  "bit (0x3F :: u16) i \<longleftrightarrow> i < 6"
  "bit (3 :: u16) i \<longleftrightarrow> i < 2"
  "bit (2 :: u16) i \<longleftrightarrow> i = 1"
proof -
  show "bit (0x8000 :: u16) i \<longleftrightarrow> i = 15"
    using bit_range16 [of 15 1 i] by (auto simp: mask_eq_exp_minus_1 push_bit_eq_mult simp del: bit_numeral_word_iff)
  show "bit (0x4000 :: u16) i \<longleftrightarrow> i = 14"
    using bit_range16 [of 14 1 i] by (auto simp: mask_eq_exp_minus_1 push_bit_eq_mult simp del: bit_numeral_word_iff)
  show "bit (0xC000 :: u16) i \<longleftrightarrow> 14 \<le> i \<and> i < 16"
    using bit_range16 [of 14 2 i] by (auto simp: mask_eq_exp_minus_1 push_bit_eq_mult simp del: bit_numeral_word_iff)
  show "bit (0x03FF :: u16) i \<longleftrightarrow> i < 10"
    using bit_range16 [of 0 10 i] by (auto simp: mask_eq_exp_minus_1 push_bit_eq_mult simp del: bit_numeral_word_iff)
  show "bit (0x3F00 :: u16) i \<longleftrightarrow> 8 \<le> i \<and> i < 14"
    using bit_range16 [of 8 6 i] by (auto simp: mask_eq_exp_minus_1 push_bit_eq_mult simp del: bit_numeral_word_iff)
  show "bit (0x3F :: u16) i \<longleftrightarrow> i < 6"
    using bit_range16 [of 0 6 i] by (auto simp: mask_eq_exp_minus_1 push_bit_eq_mult simp del: bit_numeral_word_iff)
  show "bit (3 :: u16) i \<longleftrightarrow> i < 2"
    using bit_range16 [of 0 2 i] by (auto simp: mask_eq_exp_minus_1 push_bit_eq_mult simp del: bit_numeral_word_iff)
  show "bit (2 :: u16) i \<longleftrightarrow> i = 1"
    using bit_range16 [of 1 1 i] by (auto simp: mask_eq_exp_minus_1 push_bit_eq_mult simp del: bit_numeral_word_iff)
qed

lemma ee_command_decode:
  assumes "ee_block_ok c blk" "ee_cmd e = high_bits 16 (ee_bits c) (ee_command c rd blk)"
    "ee_size e = ee_size (eeprom c)"
  shows "drop_bit 14 (ee_cmd e AND 0xC000) = (if rd then 3 else 2)"
    and "eeprom_addr e = ucast blk"
proof -
  have blk: "bit blk i \<Longrightarrow> i < (if ee_size (eeprom c) = 0x200 then 6 else 10)" for i
    using assms(1) bit_small [of blk 6 i] bit_small [of blk 10 i]
    by (auto simp: ee_block_ok_def split: if_splits) (meson linorder_not_less)+
  have bits: "bit (ee_cmd e) i \<longleftrightarrow> i < 16 \<and> (i = 15 \<or> rd \<and> i = 14
      \<or> (if ee_size (eeprom c) = 0x200 then 8 \<le> i \<and> bit blk (i - 8) else bit blk i))" for i
    unfolding assms(2) high_bits_def ee_command_def ee_bits_def
    by (auto simp: bit_or_iff bit_push_bit_iff bit_drop_bit_eq numeral_bits16 simp del: bit_numeral_word_iff dest: bit_imp_le_length)
  show "drop_bit 14 (ee_cmd e AND 0xC000) = (if rd then 3 else 2)"
    by (cases rd; intro bit_word_eqI) (auto dest!: blk simp: bit_and_iff bit_or_iff bit_push_bit_iff bit_drop_bit_eq
        bit_unsigned_iff bit_of_bool_iff bit_1_iff bits numeral_bits16 split: if_splits simp del: bit_numeral_word_iff)
  show "eeprom_addr e = ucast blk"
    unfolding eeprom_addr_def assms(3)
    by (intro bit_word_eqI) (auto dest: blk simp: bit_and_iff bit_or_iff bit_push_bit_iff bit_drop_bit_eq
        bit_unsigned_iff bit_of_bool_iff bit_1_iff bits numeral_bits16 split: if_splits simp del: bit_numeral_word_iff)
qed

lemma ee_write_block:
  assumes "ee_idle c" "ee_block_ok c blk"
  shows "ee_send (msb_bits 16 (ee_bits c) (ee_command c False blk) @ msb_bits 64 64 (d :: u64) @ [stop]) c =
         (ee_store (ucast blk) d c)\<lparr>eeprom := eeprom_default\<lparr>ee_size := ee_size (eeprom c), ee_done := True\<rparr>\<rparr>"
proof -
  let ?w = "high_bits 16 (ee_bits c) (ee_command c False blk)"
  let ?e1 = "(eeprom c)\<lparr>ee_done := False, ee_count := of_nat (ee_bits c), ee_cmd := ?w\<rparr>"
  let ?c1 = "c\<lparr>eeprom := ?e1\<rparr>"
  let ?e2 = "?e1\<lparr>ee_count := of_nat (ee_bits ?c1 + 64), ee_data := high_bits 64 64 d\<rparr>"
  have B: "ee_bits ?c1 = ee_bits c" "ee_bits (c\<lparr>eeprom := ?e2\<rparr>) = ee_bits c" by (simp_all add: ee_bits_def)
  have 1: "ee_send (msb_bits 16 (ee_bits c) (ee_command c False blk)) c = ?c1"
    using assms(1) eeprom_len_bits(3) [of c] by (intro ee_send_command) (auto simp: ee_idle_def)
  note dec = ee_command_decode [OF assms(2)]
  have 2: "ee_send (msb_bits 64 64 d) ?c1 = c\<lparr>eeprom := ?e2\<rparr>"
    using ee_send_data [of ?c1 64 d] dec(1) [of ?e1 False] assms(1) B by (simp add: ee_idle_def)
  have 3: "ee_send [stop] (c\<lparr>eeprom := ?e2\<rparr>) =
      (ee_store (ucast blk) d c)\<lparr>eeprom := eeprom_default\<lparr>ee_size := ee_size (eeprom c), ee_done := True\<rparr>\<rparr>"
    using ee_write_commit [of "c\<lparr>eeprom := ?e2\<rparr>" "of_bool stop"] dec [of ?e2 False] assms(1) B
    by (auto simp: ee_idle_def ee_send_def ee_store_eeprom_swap)
  show ?thesis unfolding ee_send_append 1 2 3 ..
qed

lemma ee_read_request:
  assumes "ee_idle c" "ee_block_ok c blk"
  shows "ee_send (msb_bits 16 (ee_bits c) (ee_command c True blk) @ [stop]) c =
     c\<lparr>eeprom := (eeprom c)\<lparr>ee_done := False, ee_count := of_nat (ee_bits c + 1),
                        ee_cmd := high_bits 16 (ee_bits c) (ee_command c True blk)\<rparr>\<rparr>"
proof -
  let ?w = "high_bits 16 (ee_bits c) (ee_command c True blk)"
  let ?e1 = "(eeprom c)\<lparr>ee_done := False, ee_count := of_nat (ee_bits c), ee_cmd := ?w\<rparr>"
  let ?c1 = "c\<lparr>eeprom := ?e1\<rparr>"
  have 1: "ee_send (msb_bits 16 (ee_bits c) (ee_command c True blk)) c = ?c1"
    using assms(1) eeprom_len_bits(3) [of c] by (intro ee_send_command) (auto simp: ee_idle_def)
  have 2: "ee_send [stop] ?c1 = ?c1\<lparr>eeprom := ?e1\<lparr>ee_count := of_nat (ee_bits c + 1)\<rparr>\<rparr>"
    using ee_command_decode(1) [OF assms(2), of ?e1 True]
    by (cases "ee_size (eeprom c) = 0x200")
      (simp_all add: ee_send_def cartridge_write_eeprom_def Let_def eeprom_len_def ee_bits_def)
  show ?thesis unfolding ee_send_append 1 2 by simp
qed

lemma ee_store_block:
  assumes "ee_idle c" "ee_block_ok c blk"
  shows "j < length (save_buf c) \<Longrightarrow> save_buf (ee_store (ucast blk) d c) ! j =
     (if j div 8 = unat blk then ucast (drop_bit (8 * (j mod 8)) d) else save_buf c ! j)"
    and "i < 8 \<Longrightarrow> read_save_buf (ee_store (ucast blk) d c) (ucast blk * 8 + of_nat i) = ucast (drop_bit (8 * i) d)"
proof -
  let ?b = "ucast blk * 8 :: u32"
  have ok: "save_size_ok c" using assms(1) unfolding ee_idle_def save_size_ok_def
    by (auto intro: exI [of _ 9] exI [of _ 13])
  have "unat blk < 2 ^ LENGTH(16)" by (rule unsigned_less)
  then have "unat (ucast blk :: u32) = unat blk"
    by (simp add: unsigned_ucast_eq take_bit_nat_eq_self)
  then have b: "unat ?b = unat blk * 8"
    using assms by (auto simp: ee_idle_def ee_block_ok_def unat_word_ariths)
  have fit: "unat ?b + 8 \<le> length (save_buf c)"
    unfolding b using assms by (auto simp: ee_idle_def ee_block_ok_def)
  have nth: "save_buf (ee_store (ucast blk) d c) ! j =
     (if j div 8 = unat blk then ucast (drop_bit (8 * (j mod 8)) d) else save_buf c ! j)"
    if j: "j < length (save_buf c)" for j
  proof -
    have "(unat blk * 8 \<le> j \<and> j < unat blk * 8 + 8) = (j div 8 = unat blk)" by auto
    moreover have "j - unat blk * 8 = j mod 8" if "j div 8 = unat blk"
      using that minus_div_mult_eq_mod [of j 8] by simp
    ultimately show ?thesis
      using write_range_nth [OF ok fit j, of "\<lambda>i. ucast (drop_bit (i * 8) d)"] b
      unfolding ee_store_def [symmetric] by (auto simp: mult.commute)
  qed
  show "j < length (save_buf c) \<Longrightarrow> save_buf (ee_store (ucast blk) d c) ! j =
     (if j div 8 = unat blk then ucast (drop_bit (8 * (j mod 8)) d) else save_buf c ! j)" by (rule nth)
  assume i: "i < 8"
  have u: "unat (?b + of_nat i) = unat blk * 8 + i"
    using i b fit assms by (auto simp: unat_word_ariths unat_of_nat take_bit_nat_eq_self ee_idle_def ee_block_ok_def)
  have ok': "save_size_ok (ee_store (ucast blk) d c)" using ok by (simp add: save_size_ok_def)
  show "read_save_buf (ee_store (ucast blk) d c) (?b + of_nat i) = ucast (drop_bit (8 * i) d)"
    using save_buf_eqs(1) [OF ok', of "?b + of_nat i"] fit i nth [of "unat blk * 8 + i"] u b by simp
qed

text \<open>
  C37: an EEPROM block written through the bit-serial protocol and then read back yields the 64
  bits that were sent, most significant first after four idle bits; the write reports completion,
  changes no other block, and the device is idle again afterwards.
\<close>

theorem eeprom_round_trip:
  assumes "ee_idle c" "ee_block_ok c blk"
  shows "let c1 = ee_send (msb_bits 16 (ee_bits c) (ee_command c False blk) @ msb_bits 64 64 (d :: u64) @ [stop]) c;
             c2 = ee_send (msb_bits 16 (ee_bits c) (ee_command c True blk) @ [stop]) c1;
             (out, c3) = ee_recv 68 c2
    in fst (cartridge_read_eeprom c1) = 1
     \<and> (\<forall>j. j < length (save_buf c) \<and> j div 8 \<noteq> unat blk \<longrightarrow> save_buf c3 ! j = save_buf c ! j)
     \<and> out = replicate 4 0 @ map of_bool (msb_bits 64 64 d) \<and> ee_idle c3"
proof -
  let ?s = "ee_store (ucast blk) d c"
  let ?c1 = "?s\<lparr>eeprom := eeprom_default\<lparr>ee_size := ee_size (eeprom c), ee_done := True\<rparr>\<rparr>"
  let ?w = "high_bits 16 (ee_bits c) (ee_command c True blk)"
  let ?c2 = "?s\<lparr>eeprom := eeprom_default\<lparr>ee_size := ee_size (eeprom c),
                ee_count := of_nat (ee_bits c + 1), ee_cmd := ?w\<rparr>\<rparr>"
  have i1: "ee_idle ?c1" "ee_block_ok ?c1 blk" using assms by (auto simp: ee_idle_def ee_block_ok_def eeprom_default_def)
  have E: "ee_bits ?c1 = ee_bits c" "ee_command ?c1 True blk = ee_command c True blk" "ee_bits ?c2 = ee_bits c"
    by (simp_all add: ee_bits_def ee_command_def)
  have 2: "ee_send (msb_bits 16 (ee_bits c) (ee_command c True blk) @ [stop]) ?c1 = ?c2"
    using ee_read_request [OF i1] unfolding E by (simp add: eeprom_default_def)
  note dec = ee_command_decode [OF assms(2), of "eeprom ?c2" True]
  have 3: "ee_recv 68 ?c2 = (map (ee_out ?c2) [0..<68], ?s\<lparr>eeprom := eeprom_default\<lparr>ee_size := ee_size (eeprom c)\<rparr>\<rparr>)"
    using ee_recv_from [of ?c2 0 67] dec(1) E assms(1) by (auto simp: ee_idle_def)
  have out: "ee_out ?c2 k = (if k < 4 then 0 else of_bool (bit d (67 - k)))" if "k < 68" for k
  proof (cases "k < 4")
    case False
    have R: "read_save_buf ?c2 a = read_save_buf ?s a" for a by (simp add: read_save_buf_def)
    have "(67 - k) div 8 < 8" using False that by auto
    then have "read_save_buf ?c2 (eeprom_addr (eeprom ?c2) * 8 + of_nat ((67 - k) div 8)) =
               ucast (drop_bit (8 * ((67 - k) div 8)) d)"
      unfolding R using ee_store_block(2) [OF assms] dec(2) by simp
    then show ?thesis using False by (simp add: ee_out_def bit_simps mult_div_mod_eq)
  qed (simp add: ee_out_def)
  have "map (ee_out ?c2) [0..<68] = replicate 4 0 @ map of_bool (msb_bits 64 64 d)"
  proof -
    have "map (ee_out ?c2) [0..<68] = map (\<lambda>k. if k < 4 then 0 else of_bool (bit d (67 - k))) [0..<68]"
      by (rule map_cong [OF refl], rule out) simp
    also have "\<dots> = replicate 4 0 @ map of_bool (msb_bits 64 64 d)"
      by (rule nth_equalityI) (auto simp: nth_append msb_bits_def simp del: upt_rec_numeral)
    finally show ?thesis .
  qed
  moreover have "fst (cartridge_read_eeprom ?c1) = 1"
    using assms(1) by (auto simp: cartridge_read_eeprom_def Let_def eeprom_default_def ee_idle_def eeprom_len_def)
  moreover have "ee_idle (?s\<lparr>eeprom := eeprom_default\<lparr>ee_size := ee_size (eeprom c)\<rparr>\<rparr>)"
    using assms(1) by (auto simp: ee_idle_def eeprom_default_def)
  ultimately show ?thesis
    unfolding Let_def ee_write_block [OF assms] 2 3 using ee_store_block(1) [OF assms] by simp
qed

definition eeprom_sample :: cartridge where
  "eeprom_sample = cartridge_new\<lparr>save_ty := SaveEeprom, save_buf := replicate 512 0xFF,
                                 eeprom := eeprom_default\<lparr>ee_size := 0x200\<rparr>\<rparr>"

theorem eeprom_round_trip_witness:
  "ee_idle eeprom_sample \<and> ee_block_ok eeprom_sample 5
   \<and> fst (ee_recv 68 (ee_send (msb_bits 16 8 (0xC500 :: u16) @ [False])
        (ee_send (msb_bits 16 8 (0x8500 :: u16) @ msb_bits 64 64 (0x123456789ABCDEF0 :: u64) @ [False]) eeprom_sample)))
     = replicate 4 0 @ map of_bool (msb_bits 64 64 (0x123456789ABCDEF0 :: u64))"
proof -
  have i: "ee_idle eeprom_sample" "ee_block_ok eeprom_sample 5"
    by (simp_all add: eeprom_sample_def ee_idle_def ee_block_ok_def eeprom_default_def)
  have b: "ee_bits eeprom_sample = 8" "ee_command eeprom_sample True 5 = 0xC500"
      "ee_command eeprom_sample False 5 = 0x8500"
    by (simp_all add: eeprom_sample_def ee_bits_def ee_command_def push_bit_eq_mult)
  show ?thesis
    using eeprom_round_trip [OF i, of "0x123456789ABCDEF0" False] i
    unfolding b Let_def split_beta by blast
qed

end
