(* ===== verification/Apu.thy ===== *)
theory Apu
  imports Prelude "HOL-Library.Signed_Division"
begin

text \<open>
  The sound unit of \<open>src/src/core/apu.rs\<close>: the \<open>Apu\<close> register file with its write masks and
  restart logic, the two DirectSound FIFOs (32-byte rings), and \<open>run_sample\<close>, which steps the
  four PSG channels and mixes one stereo sample. The \<open>i32\<close> counters are \<open>int\<close>; the invariant
  \<open>apu_inv\<close> bounds them far inside the 32-bit range, so no wrap-around is lost. FIFO samples are
  bytes whose signed reading is \<open>sint\<close>. Rust's truncating \<open>/\<close> is \<open>sdiv\<close>. The host-side
  \<open>SoundSampler\<close> queues belong to the audio thread and are not part of this state.
\<close>

section \<open>State and registers\<close>

record apu =
  sound_bias :: u16
  a_cnt_l :: "nat \<Rightarrow> u8"
  a_cnt_h :: "nat \<Rightarrow> u16"
  a_cnt_x :: "nat \<Rightarrow> u16"
  main_cnt_l :: u16
  main_cnt_h :: u16
  main_cnt_x :: u8
  sound_timers :: "nat \<Rightarrow> int"
  envelopes :: "nat \<Rightarrow> u8"
  env_timers :: "nat \<Rightarrow> int"
  sweep_timer :: int
  wave_digit :: u8
  noise_value :: u16
  wave_ram :: "nat \<Rightarrow> nat \<Rightarrow> u8"
  frame_sequencer :: u16
  fifo :: "nat \<Rightarrow> nat \<Rightarrow> u8"
  fifo_head :: "nat \<Rightarrow> u8"
  fifo_len :: "nat \<Rightarrow> u8"
  sample_ab :: "nat \<Rightarrow> u8"

definition apu_new :: apu where
  "apu_new = \<lparr>sound_bias = 0, a_cnt_l = (\<lambda>_. 0), a_cnt_h = (\<lambda>_. 0), a_cnt_x = (\<lambda>_. 0),
     main_cnt_l = 0, main_cnt_h = 0, main_cnt_x = 0, sound_timers = (\<lambda>_. 0), envelopes = (\<lambda>_. 0),
     env_timers = (\<lambda>_. 0), sweep_timer = 0, wave_digit = 0, noise_value = 0,
     wave_ram = (\<lambda>_ _. 0), frame_sequencer = 0, fifo = (\<lambda>_ _. 0), fifo_head = (\<lambda>_. 0),
     fifo_len = (\<lambda>_. 0), sample_ab = (\<lambda>_. 0)\<rparr>"

definition master_enabled :: "apu \<Rightarrow> bool" where
  "master_enabled a = (main_cnt_x a AND 0x80 \<noteq> 0)"

definition read_cnt_l :: "apu \<Rightarrow> nat \<Rightarrow> u8" where
  "read_cnt_l a channel = a_cnt_l a (channel div 2)"

definition read_cnt_h :: "apu \<Rightarrow> nat \<Rightarrow> u16" where
  "read_cnt_h a channel = a_cnt_h a channel AND NOT (if channel = 2 then 0x00FF else 0x003F)"

definition read_cnt_x :: "apu \<Rightarrow> nat \<Rightarrow> u16" where
  "read_cnt_x a channel = a_cnt_x a channel AND NOT (if channel = 3 then 0x0000 else 0x07FF)"

text \<open>\<open>(cnt_l[1] as usize >> 6) & 1 ^ 1\<close>: the wave bank that is not playing.\<close>

definition inactive_bank :: "apu \<Rightarrow> nat" where
  "inactive_bank a = (unat (drop_bit 6 (a_cnt_l a 1)) AND 1) XOR 1"

definition read_wave_ram :: "apu \<Rightarrow> nat \<Rightarrow> u8" where
  "read_wave_ram a index = wave_ram a (inactive_bank a) index"

definition write_cnt_l :: "nat \<Rightarrow> u8 \<Rightarrow> apu \<Rightarrow> apu" where
  "write_cnt_l channel v a =
     (if \<not> master_enabled a then a
      else (let m = (if channel = 0 then 0x7F else 0xE0); slot = channel div 2
            in a\<lparr>a_cnt_l := (a_cnt_l a)(slot := masked (a_cnt_l a slot) m v)\<rparr>))"

definition write_cnt_h :: "nat \<Rightarrow> u16 \<Rightarrow> u16 \<Rightarrow> apu \<Rightarrow> apu" where
  "write_cnt_h channel m v a =
     (if \<not> master_enabled a then a
      else (let m = (if channel = 2 then m AND 0xE0FF else if channel = 3 then m AND 0xFF3F else m)
            in a\<lparr>a_cnt_h := (a_cnt_h a)(channel := masked (a_cnt_h a channel) m v)\<rparr>))"

text \<open>The noise period \<open>divisor << shift\<close> and the tone/wave period \<open>2048 - frequency\<close>.\<close>

definition noise_period :: "u16 \<Rightarrow> int" where
  "noise_period x =
     (let divisor = uint (x AND 0x0007) * 16;
          divisor = (if divisor = 0 then 8 else divisor)
      in push_bit (unat (drop_bit 4 (x AND 0x00F0))) divisor)"

definition tone_period :: "u16 \<Rightarrow> int" where
  "tone_period x = 2048 - uint (x AND 0x07FF)"

definition sweep_period :: "u8 \<Rightarrow> int" where
  "sweep_period l = uint (drop_bit 4 (l AND 0x70))"

definition env_period :: "u16 \<Rightarrow> int" where
  "env_period h = uint (drop_bit 8 (h AND 0x0700))"

definition env_volume :: "u16 \<Rightarrow> u8" where
  "env_volume h = ucast (drop_bit 12 (h AND 0xF000))"

definition restart_channel :: "nat \<Rightarrow> apu \<Rightarrow> apu" where
  "restart_channel channel a =
     (if channel = 0 \<or> channel = 1 then
        a\<lparr>sweep_timer := (if channel = 0 then sweep_period (a_cnt_l a 0) else sweep_timer a),
          envelopes := (envelopes a)(channel := env_volume (a_cnt_h a channel)),
          env_timers := (env_timers a)(channel := env_period (a_cnt_h a channel)),
          sound_timers := (sound_timers a)(channel := tone_period (a_cnt_x a channel))\<rparr>
      else if channel = 2 then
        a\<lparr>wave_digit := 0, sound_timers := (sound_timers a)(2 := tone_period (a_cnt_x a 2))\<rparr>
      else
        a\<lparr>noise_value := (if a_cnt_h a 3 AND push_bit 3 1 \<noteq> 0 then 0x40 else 0x4000),
          envelopes := (envelopes a)(2 := env_volume (a_cnt_h a 3)),
          env_timers := (env_timers a)(2 := env_period (a_cnt_h a 3)),
          sound_timers := (sound_timers a)(3 := noise_period (a_cnt_x a 3))\<rparr>)"

definition write_cnt_x :: "nat \<Rightarrow> u16 \<Rightarrow> u16 \<Rightarrow> apu \<Rightarrow> apu" where
  "write_cnt_x channel m v a =
     (if \<not> master_enabled a then a
      else (let m = m AND (if channel = 3 then 0x40FF else 0x47FF);
                a = a\<lparr>a_cnt_x := (a_cnt_x a)(channel := masked (a_cnt_x a channel) m v)\<rparr>
            in if v AND push_bit 15 1 = 0 then a
               else restart_channel channel (a\<lparr>main_cnt_x := main_cnt_x a OR push_bit channel 1\<rparr>)))"

definition write_main_cnt_l :: "u16 \<Rightarrow> u16 \<Rightarrow> apu \<Rightarrow> apu" where
  "write_main_cnt_l m v a =
     (if \<not> master_enabled a then a
      else a\<lparr>main_cnt_l := masked (main_cnt_l a) (m AND 0xFF77) v\<rparr>)"

definition reset_fifo :: "nat \<Rightarrow> apu \<Rightarrow> apu" where
  "reset_fifo f a = a\<lparr>fifo_len := (fifo_len a)(f := 0), fifo_head := (fifo_head a)(f := 0)\<rparr>"

definition write_main_cnt_h :: "u16 \<Rightarrow> u16 \<Rightarrow> apu \<Rightarrow> apu" where
  "write_main_cnt_h m v a =
     (let a = a\<lparr>main_cnt_h := masked (main_cnt_h a) (m AND 0x770F) v\<rparr>;
          a = (if v AND push_bit 11 1 \<noteq> 0 then reset_fifo 0 a else a)
      in if v AND push_bit 15 1 \<noteq> 0 then reset_fifo 1 a else a)"

definition write_main_cnt_x :: "u8 \<Rightarrow> apu \<Rightarrow> apu" where
  "write_main_cnt_x v a =
     (let a = a\<lparr>main_cnt_x := (main_cnt_x a AND NOT 0x80) OR (v AND 0x80)\<rparr>
      in if \<not> master_enabled a
         then a\<lparr>a_cnt_l := (\<lambda>_. 0), a_cnt_h := (\<lambda>_. 0), a_cnt_x := (\<lambda>_. 0), main_cnt_l := 0,
                main_cnt_x := main_cnt_x a AND NOT 0x0F, frame_sequencer := 0\<rparr>
         else a)"

definition write_sound_bias :: "u16 \<Rightarrow> u16 \<Rightarrow> apu \<Rightarrow> apu" where
  "write_sound_bias m v a = a\<lparr>sound_bias := masked (sound_bias a) (m AND 0xC3FE) v\<rparr>"

definition write_wave_ram :: "nat \<Rightarrow> u8 \<Rightarrow> apu \<Rightarrow> apu" where
  "write_wave_ram index v a =
     a\<lparr>wave_ram := (wave_ram a)(inactive_bank a := (wave_ram a (inactive_bank a))(index := v))\<rparr>"

section \<open>DirectSound FIFOs\<close>

definition fifo_push :: "nat \<Rightarrow> u8 \<Rightarrow> apu \<Rightarrow> apu" where
  "fifo_push f v a =
     (let tail = (fifo_head a f + fifo_len a f) mod 32
      in a\<lparr>fifo := (fifo a)(f := (fifo a f)(unat tail := v)),
           fifo_len := (fifo_len a)(f := fifo_len a f + 1)\<rparr>)"

definition write_fifo :: "nat \<Rightarrow> u32 \<Rightarrow> u32 \<Rightarrow> apu \<Rightarrow> apu" where
  "write_fifo f m v a =
     fold (\<lambda>i a. if fifo_len a f < 32 \<and> m AND push_bit i 0xFF \<noteq> 0
                 then fifo_push f (ucast (drop_bit i v)) a else a) [0, 8, 16, 24] a"

definition fifo_pop :: "nat \<Rightarrow> apu \<Rightarrow> u8 option \<times> apu" where
  "fifo_pop f a =
     (if fifo_len a f = 0 then (None, a)
      else (Some (fifo a f (unat (fifo_head a f))),
            a\<lparr>fifo_head := (fifo_head a)(f := (fifo_head a f + 1) mod 32),
              fifo_len := (fifo_len a)(f := fifo_len a f - 1)\<rparr>))"

section \<open>One sample\<close>

text \<open>The reload loops \<open>while timer <= 0\<close>. Every period is positive, so they end.\<close>

lemma tone_period_range: "0 < tone_period x \<and> tone_period x \<le> 2048"
proof -
  have "x AND 0x07FF = take_bit 11 x" by (simp add: take_bit_eq_mask mask_eq_exp_minus_1)
  then have "uint (x AND 0x07FF) = take_bit 11 (uint x)" by (simp add: unsigned_take_bit_eq)
  then show ?thesis using take_bit_int_less_exp [of 11 "uint x"] take_bit_nonnegative [of 11 "uint x"]
    by (simp add: tone_period_def)
qed

lemma tone_period_pos: "0 < tone_period x"
  using tone_period_range by simp

lemma noise_period_pos: "0 < noise_period x"
proof -
  have p: "0 < push_bit n (if d * 16 = 0 then 8 else d * 16)" if "0 \<le> d" for n and d :: int
    using that by (cases "d = 0") (simp_all add: push_bit_eq_mult)
  show ?thesis unfolding noise_period_def Let_def by (rule p) (rule unsigned_greater_eq)
qed

function reload_tone :: "u16 \<Rightarrow> int \<Rightarrow> int" where
  "reload_tone x t = (if t \<le> 0 then reload_tone x (t + tone_period x) else t)"
  by auto
termination
  using tone_period_pos by (relation "measure (\<lambda>(x, t). nat (1 - t))") auto

function reload_wave :: "u16 \<Rightarrow> int \<times> u8 \<Rightarrow> int \<times> u8" where
  "reload_wave x (t, digit) =
     (if t \<le> 0 then reload_wave x (t + tone_period x, (digit + 1) mod 64) else (t, digit))"
  by auto
termination
  using tone_period_pos by (relation "measure (\<lambda>(x, t, d). nat (1 - t))") auto

definition noise_step :: "u16 \<Rightarrow> u16 \<Rightarrow> u16" where
  "noise_step cnt_h n =
     (let n = n AND NOT (push_bit 15 1)
      in if n AND 1 \<noteq> 0
         then push_bit 15 1 OR (drop_bit 1 n XOR (if cnt_h AND push_bit 3 1 \<noteq> 0 then 0x60 else 0x6000))
         else drop_bit 1 n)"

function reload_noise :: "u16 \<Rightarrow> u16 \<Rightarrow> int \<times> u16 \<Rightarrow> int \<times> u16" where
  "reload_noise x h (t, n) =
     (if t \<le> 0 then reload_noise x h (t + noise_period x, noise_step h n) else (t, n))"
  by auto
termination
  using noise_period_pos by (relation "measure (\<lambda>(x, h, t, n). nat (1 - t))") auto

declare reload_tone.simps [simp del] reload_wave.simps [simp del] reload_noise.simps [simp del]

text \<open>The frequency sweeper of the first tone channel; the flag is the \<open>continue\<close> of an overflow.\<close>

definition sweep_step :: "apu \<Rightarrow> bool \<times> apu" where
  "sweep_step a =
     (let a = a\<lparr>sweep_timer := sweep_timer a - 1\<rparr>
      in if sweep_timer a \<le> 0 then
           (let frequency = uint (a_cnt_x a 0 AND 0x07FF);
                sweep = drop_bit (unat (a_cnt_l a 0 AND 0x07)) frequency;
                sweep = (if a_cnt_l a 0 AND push_bit 3 1 \<noteq> 0 then - sweep else sweep);
                frequency = frequency + sweep
            in if frequency < 0x800
               then (False, a\<lparr>a_cnt_x := (a_cnt_x a)(0 := (a_cnt_x a 0 AND NOT 0x07FF) OR word_of_int frequency),
                              sweep_timer := sweep_period (a_cnt_l a 0)\<rparr>)
               else (True, a\<lparr>main_cnt_x := main_cnt_x a AND NOT (push_bit 0 1)\<rparr>))
         else (False, a))"

text \<open>The 256 Hz length counter of channel \<open>ch\<close>, whose length field is \<open>lm\<close>.\<close>

definition length_step :: "nat \<Rightarrow> u16 \<Rightarrow> apu \<Rightarrow> apu" where
  "length_step ch lm a =
     (if frame_sequencer a mod 128 = 0 \<and> a_cnt_x a ch AND push_bit 14 1 \<noteq> 0 \<and> a_cnt_h a ch AND lm \<noteq> 0
      then (let a = a\<lparr>a_cnt_h := (a_cnt_h a)(ch := (a_cnt_h a ch AND NOT lm) OR ((a_cnt_h a ch AND lm) - 1))\<rparr>
            in if a_cnt_h a ch AND lm = 0
               then a\<lparr>main_cnt_x := main_cnt_x a AND NOT (push_bit ch 1)\<rparr> else a)
      else a)"

text \<open>The 64 Hz envelope of channel \<open>ch\<close>, whose envelope slot is \<open>slot\<close>.\<close>

definition envelope_step :: "nat \<Rightarrow> nat \<Rightarrow> apu \<Rightarrow> apu" where
  "envelope_step ch slot a =
     (if frame_sequencer a = 448 then
        (let a = a\<lparr>env_timers := (env_timers a)(slot := env_timers a slot - 1)\<rparr>
         in if env_timers a slot \<le> 0 then
              (let h = a_cnt_h a ch; e = envelopes a slot;
                   e' = (if env_timers a slot = 0 then
                           (if h AND push_bit 11 1 \<noteq> 0 \<and> e < 15 then e + 1
                            else if h AND push_bit 11 1 = 0 \<and> 0 < e then e - 1 else e)
                         else env_volume h)
               in a\<lparr>envelopes := (envelopes a)(slot := e'),
                    env_timers := (env_timers a)(slot := env_period h)\<rparr>)
            else a)
      else a)"

definition duty_point :: "u16 \<Rightarrow> int \<Rightarrow> int" where
  "duty_point h period =
     (let d = drop_bit 6 (h AND 0x00C0)
      in if d = 0 then period * 7 sdiv 8 else if d = 1 then period * 6 sdiv 8
         else if d = 2 then period * 4 sdiv 8 else period * 2 sdiv 8)"

definition tone_channel :: "nat \<Rightarrow> apu \<Rightarrow> int \<times> apu" where
  "tone_channel i a =
     (if main_cnt_x a AND push_bit i 1 = 0 then (0, a)
      else (let (stop, a) =
                  (if i = 0 \<and> frame_sequencer a mod 256 = 128 \<and> a_cnt_l a 0 AND 0x70 \<noteq> 0
                   then sweep_step a else (False, a))
            in if stop then (0, a)
               else (let t = reload_tone (a_cnt_x a i) (sound_timers a i - 4);
                         a = a\<lparr>sound_timers := (sound_timers a)(i := t)\<rparr>;
                         v = (if t < duty_point (a_cnt_h a i) (tone_period (a_cnt_x a i)) then - 0x80 else 0x80);
                         a = envelope_step i i (length_step i 0x003F a)
                     in (v * uint (envelopes a i) sdiv 15, a))))"

definition wave_channel :: "apu \<Rightarrow> int \<times> apu" where
  "wave_channel a =
     (if main_cnt_x a AND push_bit 2 1 = 0 \<or> a_cnt_l a 1 AND push_bit 7 1 = 0 then (0, a)
      else (let (t, digit) = reload_wave (a_cnt_x a 2) (sound_timers a 2 - 64, wave_digit a);
                a = a\<lparr>sound_timers := (sound_timers a)(2 := t), wave_digit := digit\<rparr>;
                bank = unat (drop_bit 6 (a_cnt_l a 1) AND 1);
                bank = (if a_cnt_l a 1 AND push_bit 5 1 \<noteq> 0 \<and> 32 \<le> digit then bank XOR 1 else bank);
                byte = uint (wave_ram a bank (unat digit mod 32 div 2));
                v = (if digit AND 1 \<noteq> 0 then byte AND 0x0F else drop_bit 4 byte);
                a = length_step 2 0x00FF a;
                s = drop_bit 13 (a_cnt_h a 2 AND 0xE000);
                v = (if s = 0 then drop_bit 4 v else if s = 1 then v else if s = 2 then drop_bit 1 v
                     else if s = 3 then drop_bit 2 v else v * 3 sdiv 4)
            in (v * 0x100 sdiv 0xF, a)))"

definition noise_channel :: "apu \<Rightarrow> int \<times> apu" where
  "noise_channel a =
     (if main_cnt_x a AND push_bit 3 1 = 0 then (0, a)
      else (let (t, n) = reload_noise (a_cnt_x a 3) (a_cnt_h a 3) (sound_timers a 3 - 16, noise_value a);
                a = a\<lparr>sound_timers := (sound_timers a)(3 := t), noise_value := n\<rparr>;
                v = (if n AND push_bit 15 1 \<noteq> 0 then 0x80 else - 0x80);
                a = envelope_step 3 2 (length_step 3 0x003F a)
            in (v * uint (envelopes a 2) sdiv 15, a)))"

text \<open>The PSG and FIFO mixers: each adds to the running left and right sums.\<close>

definition mix_psg :: "apu \<Rightarrow> int list \<Rightarrow> int \<times> int \<Rightarrow> int \<times> int" where
  "mix_psg a data lr =
     fold (\<lambda>(i, value) (l, r).
       (let m = main_cnt_h a AND 0x0003;
            value = drop_bit (if m = 0 then 2 else if m = 1 then 1 else 0) value;
            l = (if main_cnt_l a AND push_bit (12 + i) 1 \<noteq> 0
                 then l + (value * uint (drop_bit 4 (main_cnt_l a AND 0x0070)) sdiv 7) else l);
            r = (if main_cnt_l a AND push_bit (8 + i) 1 \<noteq> 0
                 then r + (value * uint (main_cnt_l a AND 0x0007) sdiv 7) else r)
        in (l, r))) (enumerate 0 data) lr"

definition mix_fifo :: "apu \<Rightarrow> int \<times> int \<Rightarrow> int \<times> int" where
  "mix_fifo a lr =
     (let h = main_cnt_h a;
          va = push_bit (if h AND push_bit 2 1 \<noteq> 0 then 2 else 1) (sint (sample_ab a 0));
          vb = push_bit (if h AND push_bit 3 1 \<noteq> 0 then 2 else 1) (sint (sample_ab a 1));
          (l, r) = lr;
          l = (if h AND push_bit 9 1 \<noteq> 0 then l + va else l);
          r = (if h AND push_bit 8 1 \<noteq> 0 then r + va else r);
          l = (if h AND push_bit 13 1 \<noteq> 0 then l + vb else l);
          r = (if h AND push_bit 12 1 \<noteq> 0 then r + vb else r)
      in (l, r))"

definition clip_sample :: "apu \<Rightarrow> int \<Rightarrow> int" where
  "clip_sample a v = push_bit 6 (max 0 (min 0x3FF (v + uint (sound_bias a AND 0x3FF))) - 0x200)"

definition run_sample :: "apu \<Rightarrow> u32 \<times> apu" where
  "run_sample a0 =
     (let ((l, r), a) =
        (if master_enabled a0 then
           (let (d0, a) = tone_channel 0 a0;
                (d1, a) = tone_channel 1 a;
                (d2, a) = wave_channel a;
                (d3, a) = noise_channel a;
                lr = mix_fifo a (mix_psg a [d0, d1, d2, d3] (0, 0))
            in (lr, a\<lparr>frame_sequencer := (frame_sequencer a + 1) mod 512\<rparr>))
         else ((0, 0), a0));
          left = word_of_int (clip_sample a l) :: u16;
          right = word_of_int (clip_sample a r) :: u16
      in (ucast left OR push_bit 16 (ucast right), a))"

section \<open>The FIFOs are bounded queues\<close>

text \<open>The bytes queued in FIFO \<open>f\<close>, oldest first.\<close>

definition fifo_contents :: "apu \<Rightarrow> nat \<Rightarrow> u8 list" where
  "fifo_contents a f = map (\<lambda>i. fifo a f ((unat (fifo_head a f) + i) mod 32)) [0..<unat (fifo_len a f)]"

definition fifo_ok :: "apu \<Rightarrow> nat \<Rightarrow> bool" where
  "fifo_ok a f = (fifo_head a f < 32 \<and> fifo_len a f \<le> 32)"

lemma fifo_len_contents [simp]: "length (fifo_contents a f) = unat (fifo_len a f)"
  by (simp add: fifo_contents_def)

lemma fifo_push_contents:
  assumes "fifo_ok a f" "fifo_len a f < 32"
  shows "fifo_ok (fifo_push f v a) f \<and> fifo_contents (fifo_push f v a) f = fifo_contents a f @ [v]"
proof -
  let ?h = "unat (fifo_head a f)" and ?n = "unat (fifo_len a f)"
  have b: "?h < 32" "?n < 32" using assms by (auto simp: fifo_ok_def word_less_nat_alt)
  have s: "unat (fifo_len a f + 1) = Suc ?n" "unat (fifo_head a f + fifo_len a f) = ?h + ?n"
    using b by (simp_all add: unat_word_ariths)
  then have t: "unat ((fifo_head a f + fifo_len a f) mod 32) = (?h + ?n) mod 32" by (simp add: unat_mod)
  have ne: "(?h + i) mod 32 \<noteq> (?h + ?n) mod 32" if "i < ?n" for i
  proof
    assume "(?h + i) mod 32 = (?h + ?n) mod 32"
    then have "32 dvd ?n - i" using mod_eq_dvd_iff_nat [of "?h + i" "?h + ?n" 32] that by simp
    then show False using that b dvd_imp_le [of 32 "?n - i"] by simp
  qed
  have "fifo_contents (fifo_push f v a) f = fifo_contents a f @ [v]"
    using ne by (simp add: fifo_contents_def fifo_push_def Let_def s t)
  moreover have "fifo_ok (fifo_push f v a) f"
    using assms s b by (simp add: fifo_ok_def fifo_push_def Let_def word_le_nat_alt)
  ultimately show ?thesis by blast
qed

lemma fifo_pop_contents:
  assumes "fifo_ok a f"
  shows "case fifo_pop f a of (v, a') \<Rightarrow> fifo_ok a' f
    \<and> v = (if fifo_contents a f = [] then None else Some (hd (fifo_contents a f)))
    \<and> fifo_contents a' f = tl (fifo_contents a f)"
proof (cases "fifo_len a f = 0")
  case True
  then show ?thesis using assms by (simp add: fifo_pop_def fifo_contents_def)
next
  case False
  let ?h = "unat (fifo_head a f)" and ?n = "unat (fifo_len a f)"
  have b: "?h < 32" "?n \<le> 32" "0 < ?n"
    using assms False by (auto simp: fifo_ok_def word_less_nat_alt word_le_nat_alt unat_gt_0)
  have s: "unat ((fifo_head a f + 1) mod 32) = Suc ?h mod 32" "unat (fifo_len a f - 1) = ?n - 1"
    using b by (simp_all add: unat_mod unat_word_ariths unat_minus_one False)
  have "fifo_contents a f = fifo a f ?h # map (\<lambda>i. fifo a f ((?h + i) mod 32)) [1..<?n]"
    using b by (simp add: fifo_contents_def upt_conv_Cons)
  moreover have "map (\<lambda>i. fifo a f ((?h + i) mod 32)) [1..<?n] =
      map (\<lambda>i. fifo a f ((Suc ?h mod 32 + i) mod 32)) [0..<?n - 1]"
    using b by (intro nth_equalityI) (auto simp: mod_simps)
  moreover have "fifo_ok (snd (fifo_pop f a)) f"
    using b s False by (simp add: fifo_pop_def fifo_ok_def word_less_nat_alt word_le_nat_alt unat_mod)
  ultimately show ?thesis using False s by (simp add: fifo_pop_def fifo_contents_def)
qed

fun drain :: "('s \<Rightarrow> 'v option \<times> 's) \<Rightarrow> nat \<Rightarrow> 's \<Rightarrow> 'v option list" where
  "drain pop_op 0 s = []"
| "drain pop_op (Suc n) s = (let (v, s) = pop_op s in v # drain pop_op n s)"

locale bounded_queue =
  fixes cont :: "'s \<Rightarrow> 'v list"
    and ok :: "'s \<Rightarrow> bool"
    and push :: "'v \<Rightarrow> 's \<Rightarrow> 's"
    and pop_op :: "'s \<Rightarrow> 'v option \<times> 's"
    and capacity :: nat
  assumes push_law: "ok s \<Longrightarrow> length (cont s) < capacity \<Longrightarrow> ok (push v s) \<and> cont (push v s) = cont s @ [v]"
    and pop_law: "ok s \<Longrightarrow> case pop_op s of (r, s') \<Rightarrow> ok s'
      \<and> r = (if cont s = [] then None else Some (hd (cont s))) \<and> cont s' = tl (cont s)"
begin

lemma push_all:
  "ok s \<Longrightarrow> length (cont s) + length vs \<le> capacity \<Longrightarrow>
   ok (fold push vs s) \<and> cont (fold push vs s) = cont s @ vs"
  using push_law by (induction vs arbitrary: s) auto

lemma drain_all: "ok s \<Longrightarrow> drain pop_op (length (cont s)) s = map Some (cont s)"
proof (induction "cont s" arbitrary: s)
  case Nil
  then show ?case by simp
next
  case (Cons v vs)
  obtain r s' where p: "pop_op s = (r, s')" by fastforce
  have *: "ok s'" "r = Some v" "cont s' = vs" "cont s = v # vs"
    using pop_law [OF Cons.prems] p Cons.hyps(2) [symmetric] by auto
  have "drain pop_op (length (cont s')) s' = map Some (cont s')"
    using Cons.hyps(1) [of s'] * by blast
  then show ?case using p * by simp
qed

lemma push_then_drain:
  assumes "ok s" "length (cont s) + length vs \<le> capacity"
  shows "drain pop_op (length (cont s) + length vs) (fold push vs s) = map Some (cont s @ vs)"
  using push_all [OF assms] drain_all [of "fold push vs s"] by simp

end

interpretation dsf: bounded_queue "\<lambda>a. fifo_contents a f" "\<lambda>a. fifo_ok a f" "fifo_push f" "fifo_pop f" 32
  for f
proof
  fix a v
  assume "fifo_ok a f" "length (fifo_contents a f) < 32"
  then show "fifo_ok (fifo_push f v a) f \<and> fifo_contents (fifo_push f v a) f = fifo_contents a f @ [v]"
    by (intro fifo_push_contents) (auto simp: word_less_nat_alt)
qed (rule fifo_pop_contents)

text \<open>The bytes a masked 32-bit FIFO write delivers, lowest first.\<close>

definition fifo_bytes :: "u32 \<Rightarrow> u32 \<Rightarrow> u8 list" where
  "fifo_bytes m v = map (\<lambda>i. ucast (drop_bit i v)) (filter (\<lambda>i. m AND push_bit i 0xFF \<noteq> 0) [0, 8, 16, 24])"

lemma write_fifo_steps:
  assumes "fifo_ok a f"
  shows "let a' = fold (\<lambda>i a. if fifo_len a f < 32 \<and> P i then fifo_push f (g i) a else a) xs a
    in fifo_ok a' f \<and> fifo_contents a' f = take 32 (fifo_contents a f @ map g (filter P xs))"
  using assms
proof (induction xs arbitrary: a)
  case Nil
  then show ?case by (simp add: fifo_ok_def word_le_nat_alt)
next
  case (Cons i xs)
  show ?case
  proof (cases "fifo_len a f < 32 \<and> P i")
    case True
    then show ?thesis using Cons.IH [of "fifo_push f (g i) a"] Cons.prems fifo_push_contents [of a f "g i"]
      by (simp del: take_append)
  next
    case False
    have "length (fifo_contents a f) = 32" if "P i"
      using that False Cons.prems by (auto simp: fifo_ok_def word_le_nat_alt word_less_nat_alt)
    then show ?thesis using Cons.IH [OF Cons.prems] False by (auto simp: Let_def)
  qed
qed

text \<open>
  C38: the sound FIFOs are 32-byte queues. A write appends exactly the byte lanes the mask enables,
  lowest first, and drops what does not fit; popping returns the bytes in the order they were
  queued and \<open>None\<close> on an empty FIFO, leaving the last sample latched.
\<close>

theorem fifo_is_queue:
  assumes "fifo_ok a f"
  shows "let a' = write_fifo f m v a in fifo_ok a' f
    \<and> fifo_contents a' f = take 32 (fifo_contents a f @ fifo_bytes m v)
    \<and> drain (fifo_pop f) (length (fifo_contents a' f)) a' = map Some (fifo_contents a' f)
    \<and> (fifo_len a' f = 0 \<longrightarrow> fifo_pop f a' = (None, a'))"
proof -
  let ?a = "write_fifo f m v a"
  have *: "fifo_ok ?a f \<and> fifo_contents ?a f = take 32 (fifo_contents a f @ fifo_bytes m v)"
    using write_fifo_steps [OF assms, of "\<lambda>i. m AND push_bit i 0xFF \<noteq> 0" "\<lambda>i. ucast (drop_bit i v)" "[0, 8, 16, 24]"]
    unfolding write_fifo_def fifo_bytes_def Let_def .
  then have "drain (fifo_pop f) (length (fifo_contents ?a f)) ?a = map Some (fifo_contents ?a f)"
    by (intro dsf.drain_all) blast
  moreover have "fifo_len ?a f = 0 \<longrightarrow> fifo_pop f ?a = (None, ?a)" by (simp add: fifo_pop_def)
  ultimately show ?thesis unfolding Let_def using * by blast
qed

theorem fifo_is_queue_witness:
  "fifo_ok apu_new 0 \<and> fifo_contents (write_fifo 0 0xFFFFFFFF 0x44332211 apu_new) 0 = [0x11, 0x22, 0x33, 0x44]"
proof -
  have ok: "fifo_ok apu_new 0" by (simp add: fifo_ok_def apu_new_def)
  have "fifo_contents apu_new 0 = []" by (simp add: fifo_contents_def apu_new_def)
  moreover have "fifo_bytes 0xFFFFFFFF 0x44332211 = [0x11, 0x22, 0x33, 0x44]"
    by (simp add: fifo_bytes_def push_bit_eq_mult drop_bit_eq_div)
  ultimately show ?thesis
    using fifo_is_queue [OF ok, of "0xFFFFFFFF" "0x44332211"] ok by (simp add: Let_def)
qed

section \<open>Counter bounds\<close>

text \<open>The ranges of the APU's counters. \<open>sound_timers\<close> stays below \<open>2 ^ 22\<close>, so the \<open>i32\<close>
  arithmetic of \<open>run_sample\<close> never overflows.\<close>

definition apu_inv :: "apu \<Rightarrow> bool" where
  "apu_inv a = ((\<forall>i. 0 \<le> sound_timers a i \<and> sound_timers a i \<le> 2 ^ 22)
     \<and> (\<forall>i. 0 \<le> env_timers a i \<and> env_timers a i \<le> 7)
     \<and> (\<forall>i. envelopes a i \<le> 15)
     \<and> - 1 \<le> sweep_timer a \<and> sweep_timer a \<le> 7 \<and> (bit (main_cnt_x a) 0 \<longrightarrow> 0 \<le> sweep_timer a)
     \<and> wave_digit a < 64 \<and> frame_sequencer a < 512
     \<and> (\<forall>f. fifo_head a f < 32 \<and> fifo_len a f \<le> 32))"

lemma env_period_range: "0 \<le> env_period h \<and> env_period h \<le> 7"
proof -
  have "drop_bit 8 (h AND 0x0700) = take_bit 3 (drop_bit 8 h)"
    by (simp add: take_bit_eq_mask mask_eq_exp_minus_1)
  then have "uint (drop_bit 8 (h AND 0x0700)) = take_bit 3 (uint (drop_bit 8 h))"
    by (simp add: unsigned_take_bit_eq)
  then show ?thesis using take_bit_int_less_exp [of 3 "uint (drop_bit 8 h)"] by (simp add: env_period_def)
qed

lemma sweep_period_range: "0 \<le> sweep_period h \<and> sweep_period h \<le> 7"
proof -
  have "drop_bit 4 (h AND 0x70) = take_bit 3 (drop_bit 4 h)"
    by (simp add: take_bit_eq_mask mask_eq_exp_minus_1)
  then have "uint (drop_bit 4 (h AND 0x70)) = take_bit 3 (uint (drop_bit 4 h))"
    by (simp add: unsigned_take_bit_eq)
  then show ?thesis using take_bit_int_less_exp [of 3 "uint (drop_bit 4 h)"] by (simp add: sweep_period_def)
qed

lemma env_volume_range: "env_volume h \<le> 15"
proof -
  have "drop_bit 12 (h AND 0xF000) = take_bit 4 (drop_bit 12 h)"
    by (simp add: take_bit_eq_mask mask_eq_exp_minus_1)
  moreover have "unat (ucast (take_bit 4 (drop_bit 12 h)) :: u8) < 2 ^ 4"
    using take_bit_nat_less_exp [of 4 "unat (drop_bit 12 h)"] by (simp add: unsigned_ucast_eq unsigned_take_bit_eq)
  ultimately show ?thesis by (simp add: env_volume_def word_le_nat_alt)
qed

lemma noise_period_range: "0 < noise_period x \<and> noise_period x \<le> 2 ^ 22"
proof -
  let ?s = "unat (drop_bit 4 (x AND 0x00F0))"
  have "drop_bit 4 (x AND 0x00F0) = take_bit 4 (drop_bit 4 x)" "x AND 7 = take_bit 3 x"
    by (simp_all add: take_bit_eq_mask mask_eq_exp_minus_1)
  then have s: "?s = take_bit 4 (unat (drop_bit 4 x))" and d: "uint (x AND 7) = take_bit 3 (uint x)"
    by (simp_all add: unsigned_take_bit_eq)
  have "?s < 16" using take_bit_nat_less_exp [of 4 "unat (drop_bit 4 x)"] s by simp
  then have p: "(2::int) ^ ?s \<le> 2 ^ 15" by (intro power_increasing) auto
  have d7: "0 \<le> uint (x AND 7)" "uint (x AND 7) \<le> 7"
    using d take_bit_int_less_exp [of 3 "uint x"] by simp_all
  have "noise_period x \<le> 112 * 2 ^ ?s"
    unfolding noise_period_def Let_def push_bit_eq_mult using d7
    by (intro mult_right_mono) auto
  also have "\<dots> \<le> 112 * 2 ^ 15" using p by simp
  finally show ?thesis using noise_period_pos by simp
qed

lemma reload_tone_range: "0 < reload_tone x t \<and> reload_tone x t \<le> max t 2048"
proof (induction x t rule: reload_tone.induct)
  case (1 x t)
  then show ?case using tone_period_range [of x] reload_tone.simps [of x t] by (cases "t \<le> 0") auto
qed

lemma reload_wave_range:
  "d < 64 \<Longrightarrow> 0 < fst (reload_wave x (t, d)) \<and> fst (reload_wave x (t, d)) \<le> max t 2048 \<and> snd (reload_wave x (t, d)) < 64"
proof (induction x "(t, d)" arbitrary: t d rule: reload_wave.induct)
  case (1 x t d)
  have "(d + 1) mod 64 < 64" by (simp add: word_mod_less_divisor)
  then show ?case using 1 tone_period_range [of x] reload_wave.simps [of x t d] by (cases "t \<le> 0") auto
qed

lemma reload_noise_range:
  "0 < fst (reload_noise x h (t, n)) \<and> fst (reload_noise x h (t, n)) \<le> max t (2 ^ 22)"
proof (induction x h "(t, n)" arbitrary: t n rule: reload_noise.induct)
  case (1 x h t n)
  then show ?case using noise_period_range [of x] reload_noise.simps [of x h t n] by (cases "t \<le> 0") auto
qed

lemma length_step_inv: "apu_inv a \<Longrightarrow> apu_inv (length_step ch lm a)"
  by (simp add: apu_inv_def length_step_def Let_def bit_and_iff)

lemma length_step_frame [simp]:
  "sound_timers (length_step ch lm a) = sound_timers a" "envelopes (length_step ch lm a) = envelopes a"
  by (simp_all add: length_step_def Let_def)

lemma envelope_step_inv:
  assumes "apu_inv a"
  shows "apu_inv (envelope_step ch slot a)"
proof -
  have e: "e < 15 \<Longrightarrow> e + 1 \<le> 15" "e \<le> 15 \<Longrightarrow> 0 < e \<Longrightarrow> e - 1 \<le> 15" for e :: u8
    by (simp_all add: word_less_nat_alt word_le_nat_alt unat_word_ariths unat_minus_one)
       (metis One_nat_def diff_le_self le_trans less_irrefl_nat unat_eq_zero unat_minus_one)
  have t: "env_timers a slot \<le> 7" using assms by (simp add: apu_inv_def)
  then have "env_timers a slot \<le> 8" by simp
  with t show ?thesis
    using assms e env_period_range env_volume_range
    unfolding apu_inv_def envelope_step_def Let_def
    by simp
qed

lemma sweep_step_inv:
  assumes "apu_inv a" "bit (main_cnt_x a) 0"
  shows "apu_inv (snd (sweep_step a))"
  using assms sweep_period_range [of "a_cnt_l a 0"]
  unfolding apu_inv_def sweep_step_def Let_def
  by (simp add: bit_and_iff bit_not_iff)

lemma tone_channel_inv:
  assumes "apu_inv a"
  shows "apu_inv (snd (tone_channel i a))"
proof -
  define sw where "sw = (if i = 0 \<and> frame_sequencer a mod 256 = 128 \<and> a_cnt_l a 0 AND 0x70 \<noteq> 0
    then sweep_step a else (False, a))"
  have timer: "apu_inv (b\<lparr>sound_timers := (sound_timers b)(i := reload_tone x (sound_timers b i - 4))\<rparr>)" if "apu_inv b" for b x
    using that reload_tone_range [of x "sound_timers b i - 4"]
    unfolding apu_inv_def by auto (smt (verit) max_def)+
  have "apu_inv (snd sw)" if "main_cnt_x a AND push_bit i 1 \<noteq> 0"
    using that assms sweep_step_inv [OF assms] unfolding and_bit_eq_0_iff by (auto simp: sw_def)
  then show ?thesis
    using assms timer length_step_inv envelope_step_inv
    unfolding tone_channel_def sw_def [symmetric]
    by (simp add: Let_def split_beta)
qed

lemma wave_channel_inv:
  assumes "apu_inv a"
  shows "apu_inv (snd (wave_channel a))"
proof -
  define tw where "tw = reload_wave (a_cnt_x a 2) (sound_timers a 2 - 64, wave_digit a)"
  have "0 < fst tw \<and> fst tw \<le> max (sound_timers a 2 - 64) 2048 \<and> snd tw < 64"
    unfolding tw_def using assms by (intro reload_wave_range) (simp add: apu_inv_def)
  moreover have "sound_timers a 2 \<le> 2 ^ 22" using assms by (simp add: apu_inv_def)
  ultimately have "0 \<le> fst tw \<and> fst tw \<le> 2 ^ 22 \<and> snd tw < 64" by (simp add: max_def split: if_splits)
  then have "apu_inv (a\<lparr>sound_timers := (sound_timers a)(2 := fst tw), wave_digit := snd tw\<rparr>)"
    using assms by (simp add: apu_inv_def)
  then show ?thesis using assms length_step_inv
    unfolding wave_channel_def tw_def [symmetric] by (simp add: Let_def split_beta)
qed

lemma noise_channel_inv:
  assumes "apu_inv a"
  shows "apu_inv (snd (noise_channel a))"
proof -
  define tn where "tn = reload_noise (a_cnt_x a 3) (a_cnt_h a 3) (sound_timers a 3 - 16, noise_value a)"
  have "0 < fst tn \<and> fst tn \<le> max (sound_timers a 3 - 16) (2 ^ 22)"
    unfolding tn_def by (rule reload_noise_range)
  moreover have "sound_timers a 3 \<le> 2 ^ 22" using assms by (simp add: apu_inv_def)
  ultimately have "0 \<le> fst tn \<and> fst tn \<le> 2 ^ 22" by (simp add: max_def split: if_splits)
  then have "apu_inv (a\<lparr>sound_timers := (sound_timers a)(3 := fst tn), noise_value := snd tn\<rparr>)"
    using assms by (simp add: apu_inv_def)
  then show ?thesis using assms length_step_inv envelope_step_inv
    unfolding noise_channel_def tn_def [symmetric] by (simp add: Let_def split_beta)
qed

lemma run_sample_inv:
  assumes "apu_inv a"
  shows "apu_inv (snd (run_sample a))"
proof -
  have fs: "apu_inv (b\<lparr>frame_sequencer := (frame_sequencer b + 1) mod 512\<rparr>)" if "apu_inv b" for b
    using that by (simp add: apu_inv_def word_mod_less_divisor)
  show ?thesis
    using assms fs tone_channel_inv wave_channel_inv noise_channel_inv
    unfolding run_sample_def by (simp add: Let_def split_beta)
qed

lemma restart_channel_inv:
  assumes "apu_inv (a\<lparr>sweep_timer := 0\<rparr>)" "channel \<noteq> 0 \<Longrightarrow> apu_inv a"
  shows "apu_inv (restart_channel channel a)"
proof -
  have "tone_period x \<le> 2 ^ 22" "0 \<le> tone_period x" "0 \<le> noise_period x"
    "- 1 \<le> sweep_period l" for x l
    using tone_period_range [of x] noise_period_range [of x] sweep_period_range [of l] by simp_all
  then show ?thesis
    using assms noise_period_range env_period_range env_volume_range sweep_period_range
    unfolding apu_inv_def restart_channel_def by (cases "channel = 0") simp_all
qed

lemma write_cnt_x_inv:
  assumes "apu_inv a"
  shows "apu_inv (write_cnt_x channel m v a)"
proof -
  let ?a = "\<lambda>x. a\<lparr>a_cnt_x := x, main_cnt_x := main_cnt_x a OR push_bit channel 1\<rparr>"
  have "apu_inv ((?a x)\<lparr>sweep_timer := 0\<rparr>)" "channel \<noteq> 0 \<Longrightarrow> apu_inv (?a x)" for x
    using assms by (simp_all add: apu_inv_def bit_or_iff bit_exp_iff)
  then have "apu_inv (restart_channel channel (?a x))" for x by (intro restart_channel_inv)
  moreover have "apu_inv (a\<lparr>a_cnt_x := x\<rparr>)" for x using assms by (simp add: apu_inv_def)
  ultimately show ?thesis using assms unfolding write_cnt_x_def Let_def by simp
qed

lemma write_fifo_inv:
  assumes "apu_inv a"
  shows "apu_inv (write_fifo f m v a)"
proof -
  have p: "apu_inv (fifo_push f b a)" if "apu_inv a" "fifo_len a f < 32" for a b
  proof -
    have "fifo_len a f + 1 \<le> 32" using that(2) by (simp add: word_less_nat_alt word_le_nat_alt unat_word_ariths)
    then show ?thesis using that(1) by (simp add: apu_inv_def fifo_push_def Let_def)
  qed
  then show ?thesis using assms unfolding write_fifo_def by (simp del: push_bit_numeral)
qed

lemma fifo_pop_inv:
  assumes "apu_inv a"
  shows "apu_inv (snd (fifo_pop f a))"
proof -
  have "fifo_len a f - 1 \<le> 32" if "fifo_len a f \<noteq> 0"
  proof -
    have "unat (fifo_len a f) \<le> 32" using assms by (simp add: apu_inv_def word_le_nat_alt)
    then show ?thesis using that by (simp add: word_le_nat_alt unat_minus_one)
  qed
  then show ?thesis using assms by (simp add: apu_inv_def fifo_pop_def word_mod_less_divisor)
qed

text \<open>
  C39: every counter of the APU stays in range: the channel timers below \<open>2 ^ 22\<close>, envelopes within
  4 bits, the wave position within its 64 digits, the FIFO indices within their rings; and the two
  halves of every sample are 10-bit DAC values, scaled by 64, that fit an \<open>i16\<close> exactly. Each
  reload loop ends.
\<close>

theorem apu_counters_bounded:
  assumes "apu_inv a"
  shows "apu_inv (snd (run_sample a)) \<and> apu_inv (write_cnt_x ch m v a) \<and> apu_inv (write_main_cnt_x b a)
    \<and> apu_inv (write_main_cnt_h m v a) \<and> apu_inv (write_fifo f w x a) \<and> apu_inv (snd (fifo_pop f a))
    \<and> (\<exists>l r. - 512 \<le> l \<and> l \<le> 511 \<and> - 512 \<le> r \<and> r \<le> 511
         \<and> sint (ucast (fst (run_sample a)) :: u16) = 64 * l
         \<and> sint (ucast (drop_bit 16 (fst (run_sample a))) :: u16) = 64 * r)"
proof -
  have clip: "\<exists>k. - 512 \<le> k \<and> k \<le> 511 \<and> clip_sample b x = 64 * k" for b x
    by (rule exI [of _ "max 0 (min 0x3FF (x + uint (sound_bias b AND 0x3FF))) - 0x200"])
      (simp add: clip_sample_def push_bit_eq_mult mult.commute)
  have half: "\<exists>k. - 512 \<le> k \<and> k \<le> 511 \<and> sint (word_of_int (clip_sample b x) :: u16) = 64 * k" for b x
  proof -
    obtain k where k: "- 512 \<le> k" "k \<le> 511" "clip_sample b x = 64 * k" using clip by blast
    have "sint (word_of_int (64 * k) :: u16) = 64 * k"
      using k by (simp only: signed_of_int) (simp add: signed_take_bit_int_eq_self)
    then show ?thesis using k by auto
  qed
  obtain l r :: u16 where lr: "fst (run_sample a) = ucast l OR push_bit 16 (ucast r)"
    and "\<exists>k. - 512 \<le> k \<and> k \<le> 511 \<and> sint l = 64 * k" "\<exists>k. - 512 \<le> k \<and> k \<le> 511 \<and> sint r = 64 * k"
    using half unfolding run_sample_def by (simp add: Let_def split_beta)
  moreover have "ucast (ucast l OR push_bit 16 (ucast r) :: u32) = l"
      "ucast (drop_bit 16 (ucast l OR push_bit 16 (ucast r) :: u32)) = r"
    by (rule bit_word_eqI; auto simp: bit_simps dest: bit_imp_le_length)+
  moreover have "apu_inv (write_main_cnt_x b a)"
    using assms unfolding apu_inv_def write_main_cnt_x_def Let_def by (simp add: bit_simps)
  moreover have "apu_inv (write_main_cnt_h m v a)"
    using assms unfolding apu_inv_def write_main_cnt_h_def reset_fifo_def Let_def by simp
  ultimately show ?thesis
    using run_sample_inv [OF assms] write_cnt_x_inv [OF assms] write_fifo_inv [OF assms] fifo_pop_inv [OF assms]
    by metis
qed

theorem apu_counters_bounded_witness:
  "apu_inv apu_new \<and> apu_inv (snd (run_sample apu_new))"
proof -
  have "apu_inv apu_new" by (simp add: apu_inv_def apu_new_def)
  then show ?thesis using apu_counters_bounded [of apu_new] by blast
qed

end
