(* ===== verification/JitMemory.thy ===== *)
theory JitMemory
  imports Prelude
begin

text \<open>
  The bookkeeping of compiled guest code: the mirror-collapsing maps of
  \<open>src/src/jit/jit_memory_map.rs\<close> and the self-modifying-code tracking of
  \<open>src/src/jit/jit_memory.rs\<close> (live ranges, hotness counters, sticky pages, invalidation).
  A host pointer into one of the per-region arrays is the pair of the region and the index in
  its array; a null map entry is \<open>None\<close>. Dereferencing a null pointer is undefined behaviour in
  the source and the value \<open>None\<close> of the operation here. Emission of host code is outside this
  theory: a compiled entry is an opaque host address.
\<close>

section \<open>Address maps (jit_memory_map.rs)\<close>

datatype code_region = CEwram | CIwram | CRom | CBios

fun entries_len :: "code_region \<Rightarrow> nat" where
  "entries_len CEwram = 256 * 1024 div 2"
| "entries_len CIwram = 32 * 1024 div 2"
| "entries_len CRom = 32 * 1024 * 1024 div 2"
| "entries_len CBios = 1"

fun live_ranges_len :: "code_region \<Rightarrow> nat" where
  "live_ranges_len CEwram = 256 * 1024 div 256 div 8"
| "live_ranges_len CIwram = 32 * 1024 div 256 div 8"
| "live_ranges_len _ = 0"

definition code_region_of :: "u32 \<Rightarrow> code_region option" where
  "code_region_of addr =
     (let n = addr AND 0x0F000000 in
      if n = 0x02000000 then Some CEwram else if n = 0x03000000 then Some CIwram
      else if 0x08000000 \<le> n \<and> n < 0x0E000000 then Some CRom else None)"

definition BLOCK_SIZE :: nat where "BLOCK_SIZE = 8192"

text \<open>\<open>map[i]\<close> and \<open>exec_counts_map[i]\<close> as \<open>JitMemoryMap::new\<close> fills them.\<close>

definition map_block :: "nat \<Rightarrow> (code_region \<times> nat) option" where
  "map_block i =
     (let addr = i * BLOCK_SIZE * 2 in
      case code_region_of (of_nat addr) of
        Some r \<Rightarrow> Some (r, addr div 2 mod entries_len r)
      | None \<Rightarrow> if i = 0xFF00000 div BLOCK_SIZE div 2 then Some (CBios, 0) else None)"

definition exec_counts_block :: "nat \<Rightarrow> (code_region \<times> nat) option" where
  "exec_counts_block i =
     (let addr = i * BLOCK_SIZE * 2 in
      map_option (\<lambda>r. (r, addr div 2 mod entries_len r)) (code_region_of (of_nat addr)))"

definition halfword_index :: "u32 \<Rightarrow> nat" where
  "halfword_index addr = unat (drop_bit 1 (addr AND 0x0FFFFFFF))"

definition get_jit_entry :: "u32 \<Rightarrow> (code_region \<times> nat) option" where
  "get_jit_entry addr =
     (let a = halfword_index addr
      in map_option (\<lambda>(r, b). (r, b + a mod BLOCK_SIZE)) (map_block (a div BLOCK_SIZE)))"

definition get_exec_count :: "u32 \<Rightarrow> (code_region \<times> nat) option" where
  "get_exec_count addr =
     (let a = halfword_index addr
      in map_option (\<lambda>(r, b). (r, b + a mod BLOCK_SIZE)) (exec_counts_block (a div BLOCK_SIZE)))"

definition get_live_range :: "u32 \<Rightarrow> (code_region \<times> nat) option" where
  "get_live_range addr =
     (let i = unat addr div 2 ^ 11; n = (of_nat (i * 2 ^ 11) :: u32) AND 0xFF000000 in
      if n = 0x02000000 then Some (CEwram, i mod live_ranges_len CEwram)
      else if n = 0x03000000 then Some (CIwram, i mod live_ranges_len CIwram)
      else None)"

section \<open>State\<close>

datatype jit_entry = DefaultJitEntry | JitCode nat

record jit_memory =
  jit_entries :: "code_region \<Rightarrow> nat \<Rightarrow> jit_entry"
  jit_live_ranges :: "code_region \<Rightarrow> nat \<Rightarrow> u8"
  jit_exec_counts :: "code_region \<Rightarrow> nat \<Rightarrow> u8"
  sticky_smc_ewram :: "nat \<Rightarrow> u8"
  sticky_smc_iwram :: "nat \<Rightarrow> u8"
  sticky_pages :: u32
  jit_funcs :: "(u32 \<times> u32) list"

definition jit_init :: jit_memory where
  "jit_init = \<lparr>jit_entries = (\<lambda>_ _. DefaultJitEntry), jit_live_ranges = (\<lambda>_ _. 0),
     jit_exec_counts = (\<lambda>_ _. 0), sticky_smc_ewram = (\<lambda>_. 0), sticky_smc_iwram = (\<lambda>_. 0),
     sticky_pages = 0, jit_funcs = []\<rparr>"

definition fill_slots :: "(code_region \<Rightarrow> nat \<Rightarrow> 'a) \<Rightarrow> code_region \<Rightarrow> nat \<Rightarrow> nat \<Rightarrow> 'a \<Rightarrow> code_region \<Rightarrow> nat \<Rightarrow> 'a" where
  "fill_slots e r lo n v = (\<lambda>r' k. if r' = r \<and> lo \<le> k \<and> k < lo + n then v else e r' k)"

definition align_up :: "nat \<Rightarrow> nat \<Rightarrow> nat" where
  "align_up n a = (n + a - 1) div a * a"

text \<open>The loop of \<open>write_jit_entries\<close> over halfword index \<open>a\<close> and remaining slots \<open>sz\<close>.\<close>

function write_entries_loop ::
  "nat \<Rightarrow> nat \<Rightarrow> jit_entry \<Rightarrow> (code_region \<Rightarrow> nat \<Rightarrow> jit_entry) \<Rightarrow> (code_region \<Rightarrow> nat \<Rightarrow> jit_entry) option" where
  "write_entries_loop a sz v e =
     (if sz = 0 then Some e
      else (case map_block (a div BLOCK_SIZE) of
              None \<Rightarrow> None
            | Some (r, b) \<Rightarrow>
                (let off = a mod BLOCK_SIZE; n = min (BLOCK_SIZE - off) sz
                 in write_entries_loop (align_up a BLOCK_SIZE) (sz - n) v (fill_slots e r (b + off) n v))))"
  by pat_completeness auto
termination
  by (relation "measure (\<lambda>(a, sz, v, e). sz)") (auto simp: BLOCK_SIZE_def)

declare write_entries_loop.simps [simp del]

definition write_jit_entries :: "u32 \<Rightarrow> nat \<Rightarrow> jit_entry \<Rightarrow> jit_memory \<Rightarrow> jit_memory option" where
  "write_jit_entries addr sz v j =
     map_option (\<lambda>e. j\<lparr>jit_entries := e\<rparr>)
       (write_entries_loop (halfword_index addr) (sz div 2) v (jit_entries j))"

definition live_bit :: "u32 \<Rightarrow> nat" where
  "live_bit addr = unat (drop_bit 8 addr AND 7)"

definition has_jit_block :: "jit_memory \<Rightarrow> u32 \<Rightarrow> bool" where
  "has_jit_block j addr =
     (case get_live_range addr of
        None \<Rightarrow> False
      | Some (r, i) \<Rightarrow> jit_live_ranges j r i AND push_bit (live_bit addr) 1 \<noteq> 0)"

section \<open>Self-modifying code (jit_memory.rs)\<close>

definition STICKY_SMC_THRESHOLD :: u8 where "STICKY_SMC_THRESHOLD = 4"

definition sticky_index :: "u32 \<Rightarrow> u32 \<Rightarrow> nat" where
  "sticky_index addr sz = unat (drop_bit 12 (addr AND (sz - 1)))"

text \<open>The counter update of \<open>invalidate!\<close>: \<open>sticky_counter\<close> saturates and the page count moves when
  the threshold is reached.\<close>

definition bump_sticky :: "u32 \<Rightarrow> jit_memory \<Rightarrow> jit_memory" where
  "bump_sticky addr j =
     (let n = addr AND 0x0F000000 in
      if n = 0x02000000 then
        (let i = sticky_index addr 0x40000; new = saturating_add (sticky_smc_ewram j i) 1
         in j\<lparr>sticky_smc_ewram := (sticky_smc_ewram j)(i := new),
              sticky_pages := (if new = STICKY_SMC_THRESHOLD then sticky_pages j + 1 else sticky_pages j)\<rparr>)
      else if n = 0x03000000 then
        (let i = sticky_index addr 0x8000; new = saturating_add (sticky_smc_iwram j i) 1
         in j\<lparr>sticky_smc_iwram := (sticky_smc_iwram j)(i := new),
              sticky_pages := (if new = STICKY_SMC_THRESHOLD then sticky_pages j + 1 else sticky_pages j)\<rparr>)
      else j)"

definition is_sticky_smc :: "jit_memory \<Rightarrow> u32 \<Rightarrow> bool" where
  "is_sticky_smc j addr =
     (if sticky_pages j = 0 then False
      else (let n = addr AND 0x0F000000 in
            if n = 0x02000000 then STICKY_SMC_THRESHOLD \<le> sticky_smc_ewram j (sticky_index addr 0x40000)
            else if n = 0x03000000 then STICKY_SMC_THRESHOLD \<le> sticky_smc_iwram j (sticky_index addr 0x8000)
            else False))"

text \<open>Zero the hotness counters of the 256-byte page at \<open>addr\<close>, when it has any.\<close>

definition clear_counts :: "u32 \<Rightarrow> jit_memory \<Rightarrow> jit_memory" where
  "clear_counts addr j =
     (case get_exec_count addr of
        None \<Rightarrow> j
      | Some (r, i) \<Rightarrow> j\<lparr>jit_exec_counts := fill_slots (jit_exec_counts j) r i 128 0\<rparr>)"

definition page_addrs :: "u32 \<Rightarrow> u32 \<Rightarrow> u32 list" where
  "page_addrs lo hi = map (\<lambda>k. lo + of_nat (256 * k)) [0..<(unat hi - unat lo + 255) div 256]"

definition overlapping_spans :: "jit_memory \<Rightarrow> u32 \<Rightarrow> (u32 \<times> u32) list" where
  "overlapping_spans j addr =
     take 8 (filter (\<lambda>(s, e). s \<le> addr \<and> addr < e)
              (map (\<lambda>(pc, pc_end). (pc AND NOT 1, pc_end AND NOT 1)) (jit_funcs j)))"

definition kill_span :: "u32 \<times> u32 \<Rightarrow> jit_memory \<Rightarrow> jit_memory option" where
  "kill_span se j =
     (case se of (s, e) \<Rightarrow>
        map_option (fold clear_counts (page_addrs (s AND NOT 0xFF) e))
          (write_jit_entries s (unat (e - s)) DefaultJitEntry j))"

fun kill_spans :: "(u32 \<times> u32) list \<Rightarrow> jit_memory \<Rightarrow> jit_memory option" where
  "kill_spans [] j = Some j"
| "kill_spans (se # ses) j = Option.bind (kill_span se j) (kill_spans ses)"

definition invalidate_overlapping_blocks :: "u32 \<Rightarrow> jit_memory \<Rightarrow> jit_memory option" where
  "invalidate_overlapping_blocks addr j = kill_spans (overlapping_spans j addr) j"

text \<open>The macro \<open>invalidate!\<close> at one address; the flag is \<open>hit\<close>.\<close>

definition invalidate_at :: "u32 \<Rightarrow> jit_memory \<Rightarrow> (bool \<times> jit_memory) option" where
  "invalidate_at addr j =
     (case get_live_range addr of
        None \<Rightarrow> None
      | Some (r, i) \<Rightarrow>
          (if jit_live_ranges j r i AND push_bit (live_bit addr) 1 \<noteq> 0 then
             do {
               let j = j\<lparr>jit_live_ranges := (jit_live_ranges j)(r := (jit_live_ranges j r)(i :=
                         jit_live_ranges j r i AND NOT (push_bit (live_bit addr) 1)))\<rparr>;
               let start = addr AND NOT 0xFF;
               j \<leftarrow> write_jit_entries start 256 DefaultJitEntry j;
               j \<leftarrow> invalidate_overlapping_blocks addr (bump_sticky addr (clear_counts start j));
               Some (True, j)
             }
           else Some (False, j)))"

definition invalidate_block :: "u32 \<Rightarrow> nat \<Rightarrow> jit_memory \<Rightarrow> (bool \<times> jit_memory) option" where
  "invalidate_block addr sz j =
     do {
       (h1, j) \<leftarrow> invalidate_at addr j;
       (h2, j) \<leftarrow> invalidate_at (addr + of_nat sz - 1) j;
       Some (h1 \<or> h2, j)
     }"

definition clear_live :: "u32 \<Rightarrow> jit_memory \<Rightarrow> jit_memory" where
  "clear_live addr j =
     (case get_live_range addr of
        None \<Rightarrow> j
      | Some (r, i) \<Rightarrow> j\<lparr>jit_live_ranges := (jit_live_ranges j)(r := (jit_live_ranges j r)(i := 0))\<rparr>)"

definition invalidate_mmu_page :: "u32 \<Rightarrow> jit_memory \<Rightarrow> jit_memory option" where
  "invalidate_mmu_page addr j =
     (let base = addr AND NOT 0xFFF
      in map_option (fold (\<lambda>a j. clear_counts a (clear_live a j)) (page_addrs base (base + 0x1000)))
           (write_jit_entries base 0x1000 DefaultJitEntry j))"

definition invalidate_ram_blocks :: "jit_memory \<Rightarrow> jit_memory" where
  "invalidate_ram_blocks j =
     (let ram = (\<lambda>r. r = CEwram \<or> r = CIwram) in
      j\<lparr>jit_entries := (\<lambda>r i. if ram r then DefaultJitEntry else jit_entries j r i),
        jit_live_ranges := (\<lambda>r i. if ram r then 0 else jit_live_ranges j r i),
        jit_exec_counts := (\<lambda>r i. if ram r then 0 else jit_exec_counts j r i),
        sticky_smc_ewram := (\<lambda>_. 0), sticky_smc_iwram := (\<lambda>_. 0), sticky_pages := 0\<rparr>)"

text \<open>\<open>jit_set_live_range\<close> and the bookkeeping of \<open>jit_insert_block\<close> for a block compiled to host
  address \<open>code\<close> (its write protection is \<open>jit_protect_region\<close>, on the mmu tables).\<close>

definition set_live :: "u32 \<Rightarrow> jit_memory \<Rightarrow> jit_memory" where
  "set_live addr j =
     (case get_live_range addr of
        None \<Rightarrow> j
      | Some (r, i) \<Rightarrow> j\<lparr>jit_live_ranges := (jit_live_ranges j)(r := (jit_live_ranges j r)(i :=
                         jit_live_ranges j r i OR push_bit (live_bit addr) 1))\<rparr>)"

definition jit_set_live_range :: "u32 \<Rightarrow> u32 \<Rightarrow> bool \<Rightarrow> jit_memory \<Rightarrow> jit_memory" where
  "jit_set_live_range pc pc_end thumb j =
     (let last = pc_end - (if thumb then 2 else 4)
      in fold set_live (map (\<lambda>i. of_nat (i * 256)) [unat pc div 256..<Suc (unat last div 256)]) j)"

definition jit_insert_block :: "nat \<Rightarrow> u32 \<Rightarrow> u32 \<Rightarrow> bool \<Rightarrow> jit_memory \<Rightarrow> jit_memory option" where
  "jit_insert_block code pc pc_end thumb j =
     do {
       j \<leftarrow> write_jit_entries pc (unat (pc_end - pc)) (JitCode code) j;
       let j = j\<lparr>jit_funcs := jit_funcs j @ [(pc OR of_bool thumb, pc_end OR of_bool thumb)]\<rparr>;
       Some (jit_set_live_range pc pc_end thumb j)
     }"

section \<open>Writing entries\<close>

text \<open>The slot of the halfword with index \<open>h\<close>; \<open>get_jit_entry\<close> reads the same slot.\<close>

definition entry_slot :: "nat \<Rightarrow> (code_region \<times> nat) option" where
  "entry_slot h = map_option (\<lambda>(r, b). (r, b + h mod BLOCK_SIZE)) (map_block (h div BLOCK_SIZE))"

lemma get_jit_entry_slot: "get_jit_entry addr = entry_slot (halfword_index addr)"
  by (simp add: get_jit_entry_def entry_slot_def Let_def)

definition fill_range :: "nat \<Rightarrow> nat \<Rightarrow> 'a \<Rightarrow> (code_region \<Rightarrow> nat \<Rightarrow> 'a) \<Rightarrow> code_region \<Rightarrow> nat \<Rightarrow> 'a" where
  "fill_range a n v e = (\<lambda>r k. if \<exists>i < n. entry_slot (a + i) = Some (r, k) then v else e r k)"

lemma slot_in_block:
  assumes "map_block (a div BLOCK_SIZE) = mb" "a mod BLOCK_SIZE + i < BLOCK_SIZE"
  shows "entry_slot (a + i) = map_option (\<lambda>(r, b). (r, b + a mod BLOCK_SIZE + i)) mb"
proof -
  have "(a + i) div BLOCK_SIZE = a div BLOCK_SIZE" "(a + i) mod BLOCK_SIZE = a mod BLOCK_SIZE + i"
    using div_mod_add_within [OF assms(2)] .
  then show ?thesis using assms(1) by (simp add: entry_slot_def add.assoc)
qed

lemma fill_slots_range:
  assumes "map_block (a div BLOCK_SIZE) = Some (r, b)" "n \<le> BLOCK_SIZE - a mod BLOCK_SIZE"
  shows "fill_slots e r (b + a mod BLOCK_SIZE) n v = fill_range a n v e"
proof -
  have s: "entry_slot (a + i) = Some (r, b + a mod BLOCK_SIZE + i)" if "i < n" for i
    using slot_in_block [OF assms(1), of i] that assms(2) by simp
  show ?thesis
  proof (intro ext)
    fix r' k
    have "(r' = r \<and> b + a mod BLOCK_SIZE \<le> k \<and> k < b + a mod BLOCK_SIZE + n)
        = (\<exists>i<n. entry_slot (a + i) = Some (r', k))" (is "?l = ?r")
    proof
      assume ?l
      then show ?r using s [of "k - (b + a mod BLOCK_SIZE)"]
        by (intro exI [of _ "k - (b + a mod BLOCK_SIZE)"]) auto
    qed (use s in auto)
    then show "fill_slots e r (b + a mod BLOCK_SIZE) n v r' k = fill_range a n v e r' k"
      by (simp add: fill_slots_def fill_range_def)
  qed
qed

lemma fill_range_append: "fill_range (a + n) m v (fill_range a n v e) = fill_range a (n + m) v e"
proof (intro ext)
  fix r k
  have "(\<exists>i < n + m. entry_slot (a + i) = Some (r, k))
      = ((\<exists>i < n. entry_slot (a + i) = Some (r, k)) \<or> (\<exists>i < m. entry_slot (a + n + i) = Some (r, k)))" (is "?l = ?r")
  proof
    assume ?l
    then obtain i where i: "i < n + m" "entry_slot (a + i) = Some (r, k)" by blast
    show ?r
    proof (cases "i < n")
      case False
      then have "i - n < m" "a + n + (i - n) = a + i" using i(1) by simp_all
      then show ?thesis using i(2) by metis
    qed (use i in blast)
  next
    assume ?r
    then show ?l
    proof
      assume "\<exists>i < m. entry_slot (a + n + i) = Some (r, k)"
      then obtain i where "i < m" "entry_slot (a + (n + i)) = Some (r, k)" by (auto simp: add.assoc)
      then show ?l by (metis nat_add_left_cancel_less)
    qed (auto intro: less_trans trans_less_add1)
  qed
  then show "fill_range (a + n) m v (fill_range a n v e) r k = fill_range a (n + m) v e r k"
    by (auto simp: fill_range_def)
qed

text \<open>Within one map block.\<close>

lemma write_entries_block:
  assumes "n \<le> BLOCK_SIZE - a mod BLOCK_SIZE"
  shows "write_entries_loop a n v e =
    (if \<forall>i < n. entry_slot (a + i) \<noteq> None then Some (fill_range a n v e) else None)"
proof (cases "n = 0")
  case True
  then show ?thesis by (simp add: write_entries_loop.simps [of a 0] fill_range_def)
next
  case n: False
  then have some: "(\<forall>i < n. entry_slot (a + i) \<noteq> None) = (map_block (a div BLOCK_SIZE) \<noteq> None)"
    using assms slot_in_block [of a "map_block (a div BLOCK_SIZE)"] by (auto intro: exI [of _ 0])
  have m: "min (BLOCK_SIZE - a mod BLOCK_SIZE) n = n" using assms by simp
  show ?thesis
  proof (cases "map_block (a div BLOCK_SIZE)")
    case None
    then show ?thesis using n some by (subst write_entries_loop.simps) auto
  next
    case (Some rb)
    obtain r b where rb: "rb = (r, b)" by (cases rb)
    have "write_entries_loop a n v e = write_entries_loop (align_up a BLOCK_SIZE) 0 v
            (fill_slots e r (b + a mod BLOCK_SIZE) n v)"
      using n Some rb m by (subst write_entries_loop.simps) (simp add: Let_def)
    then show ?thesis
      using some Some rb fill_slots_range [of a r b n e v] assms
      by (simp add: write_entries_loop.simps [of _ 0])
  qed
qed


lemma align_up_next:
  assumes "a mod p \<noteq> 0" "0 < p"
  shows "align_up a p = a + (p - a mod p)"
proof -
  have p: "0 < p" "a mod p < p" using assms by simp_all
  have "0 < a" using assms(1) by (cases a) simp_all
  have e: "a + p - 1 = (a mod p - 1) + p * (a div p + 1)" using assms p \<open>0 < a\<close> by (simp add: algebra_simps)
  have "(a + p - 1) div p = a div p + 1"
    unfolding e using p assms by (subst div_mult_self2) (simp_all add: div_less less_imp_diff_less)
  then have "align_up a p = a div p * p + p" by (simp add: align_up_def)
  also have "\<dots> = a + (p - a mod p)" using p div_mult_mod_eq [of a p] by linarith
  finally show ?thesis .
qed

lemma write_entries_loop_exact:
  assumes "n \<le> BLOCK_SIZE"
  shows "write_entries_loop a n v e =
    (if \<forall>i < n. entry_slot (a + i) \<noteq> None then Some (fill_range a n v e) else None)"
proof (cases "n \<le> BLOCK_SIZE - a mod BLOCK_SIZE")
  case False
  let ?m = "BLOCK_SIZE - a mod BLOCK_SIZE"
  have B: "a mod BLOCK_SIZE < BLOCK_SIZE" by (simp add: BLOCK_SIZE_def)
  have "a mod BLOCK_SIZE \<noteq> 0" using False assms by auto
  with B have next_block: "align_up a BLOCK_SIZE = a + ?m" by (intro align_up_next) auto
  have "(a + ?m) mod BLOCK_SIZE = 0"
    using B by (metis le_add_diff_inverse less_imp_le mod_add_left_eq mod_self)
  then have rest: "write_entries_loop (a + ?m) (n - ?m) v e' =
      (if \<forall>i < n - ?m. entry_slot (a + ?m + i) \<noteq> None then Some (fill_range (a + ?m) (n - ?m) v e') else None)" for e'
    using assms by (intro write_entries_block) simp
  have first: "(\<forall>i < ?m. entry_slot (a + i) \<noteq> None) = (map_block (a div BLOCK_SIZE) \<noteq> None)"
    using B slot_in_block [of a "map_block (a div BLOCK_SIZE)"] by (auto intro: exI [of _ 0])
  have all: "(\<forall>i < n. entry_slot (a + i) \<noteq> None)
      = ((\<forall>i < ?m. entry_slot (a + i) \<noteq> None) \<and> (\<forall>i < n - ?m. entry_slot (a + ?m + i) \<noteq> None))" (is "?l = ?r")
  proof
    assume ?r
    show ?l
    proof (intro allI impI)
      fix i assume "i < n"
      then show "entry_slot (a + i) \<noteq> None"
        using \<open>?r\<close> by (cases "i < ?m") (auto dest!: spec [of _ "i - ?m"] simp: add.assoc)
    qed
  qed (use False in \<open>auto simp: add.assoc\<close>)
  have step: "write_entries_loop a n v e =
      (case map_block (a div BLOCK_SIZE) of None \<Rightarrow> None
       | Some (r, b) \<Rightarrow> write_entries_loop (a + ?m) (n - ?m) v (fill_slots e r (b + a mod BLOCK_SIZE) ?m v))"
    using False next_block B by (subst write_entries_loop.simps) (auto simp: Let_def min_def split: option.splits)
  show ?thesis
  proof (cases "map_block (a div BLOCK_SIZE)")
    case None
    then show ?thesis using step first all by simp
  next
    case (Some rb)
    obtain r b where rb: "rb = (r, b)" by (cases rb)
    show ?thesis
      unfolding step Some rb option.case prod.case rest all first
      using Some rb fill_slots_range [of a r b ?m e v] fill_range_append [of a ?m "n - ?m" v e] False
      by simp
  qed
qed (rule write_entries_block)

text \<open>The halfwords of EWRAM and IWRAM, in every mirror below \<open>0x04000000\<close>, have slots.\<close>

lemma code_region_ram:
  assumes "0x2000000 \<le> x" "x < 0x4000000"
  shows "code_region_of (of_nat x) \<noteq> None"
proof -
  have u: "unat (of_nat x :: u32) = x" using assms by (intro unat_of_nat_u32) simp
  consider "x div 0x1000000 = 2" | "x div 0x1000000 = 3"
    using assms by (cases "x < 0x3000000") (auto intro!: div_nat_eqI)
  then show ?thesis by cases (simp_all add: code_region_of_def nibble_mask u Let_def push_bit_eq_mult)
qed

lemma slot_ram:
  assumes "0x1000000 \<le> h" "h < 0x2000000"
  shows "entry_slot h \<noteq> None"
proof -
  let ?x = "h div BLOCK_SIZE * BLOCK_SIZE * 2"
  have "h div BLOCK_SIZE * BLOCK_SIZE \<le> h" by (rule div_times_less_eq_dividend)
  moreover have "0x1000000 div BLOCK_SIZE \<le> h div BLOCK_SIZE" using assms(1) by (rule div_le_mono)
  then have "0x1000000 div BLOCK_SIZE * BLOCK_SIZE \<le> h div BLOCK_SIZE * BLOCK_SIZE" by (rule mult_le_mono1)
  ultimately have x: "0x2000000 \<le> ?x" "?x < 0x4000000" using assms by (simp_all add: BLOCK_SIZE_def)
  from code_region_ram [OF this] show ?thesis by (auto simp: entry_slot_def map_block_def Let_def)
qed

lemma slot_iwram:
  assumes "0x1800000 \<le> h" "h < 0x1804000"
  shows "entry_slot h = Some (CIwram, h - 0x1800000)"
proof -
  have m: "map_block 0xC00 = Some (CIwram, 0)" "map_block 0xC01 = Some (CIwram, 0x2000)"
    by (simp_all add: map_block_def Let_def BLOCK_SIZE_def code_region_of_def)
  have e: "h div BLOCK_SIZE * BLOCK_SIZE + h mod BLOCK_SIZE = h" by simp
  show ?thesis
  proof (cases "h < 0x1802000")
    case True
    then have "h div BLOCK_SIZE = 0xC00" using assms by (intro div_nat_eqI) (simp_all add: BLOCK_SIZE_def)
    moreover from this have "h mod BLOCK_SIZE = h - 0x1800000" using e by (simp add: BLOCK_SIZE_def)
    ultimately show ?thesis by (simp add: entry_slot_def m)
  next
    case False
    then have "h div BLOCK_SIZE = 0xC01" using assms by (intro div_nat_eqI) (simp_all add: BLOCK_SIZE_def)
    moreover from this have "0x2000 + h mod BLOCK_SIZE = h - 0x1800000" using e by (simp add: BLOCK_SIZE_def)
    ultimately show ?thesis by (simp add: entry_slot_def m)
  qed
qed

text \<open>
  \<open>write_jit_entries\<close> is exact for ranges of at most 16 KiB, although it works in map blocks and
  moves between them by rounding up: it sets the slots of the halfwords of the range (as
  \<open>get_jit_entry\<close> finds them, so in every mirror) and no other, and dereferences a null block
  exactly if some halfword of the range has no slot.
\<close>

theorem write_jit_entries_exact:
  assumes "sz \<le> 0x4000"
  shows "write_jit_entries addr sz v j =
    (if \<forall>i < sz div 2. entry_slot (halfword_index addr + i) \<noteq> None
     then Some (j\<lparr>jit_entries := (\<lambda>r k. if \<exists>i < sz div 2. entry_slot (halfword_index addr + i) = Some (r, k) then v
                                   else jit_entries j r k)\<rparr>)
     else None)"
proof -
  have "sz div 2 \<le> BLOCK_SIZE" using assms by (simp add: BLOCK_SIZE_def)
  then show ?thesis by (simp add: write_jit_entries_def write_entries_loop_exact fill_range_def)
qed

theorem write_jit_entries_exact_witness:
  "\<exists>j. write_jit_entries 0x0200FFFC 8 (JitCode 7) jit_init = Some j"
proof -
  have "entry_slot (halfword_index 0x0200FFFC + i) \<noteq> None" if "i < 4" for i
    by (rule slot_ram) (use that in \<open>simp_all add: halfword_index_def\<close>)
  then show ?thesis by (subst write_jit_entries_exact) simp_all
qed

section \<open>Invalidation\<close>

text \<open>The blocks of the list are short and lie in regions that hold code.\<close>

definition span_ok :: "u32 \<times> u32 \<Rightarrow> bool" where
  "span_ok se = (case se of (s, e) \<Rightarrow>
     unat (e - s) \<le> 0x4000 \<and> (\<forall>i < unat (e - s) div 2. entry_slot (halfword_index s + i) \<noteq> None))"

definition jit_ok :: "jit_memory \<Rightarrow> bool" where
  "jit_ok j = (\<forall>(pc, pc_end) \<in> set (jit_funcs j). span_ok (pc AND NOT 1, pc_end AND NOT 1))"

text \<open>Every halfword of the span has the default entry.\<close>

definition dead_span :: "jit_memory \<Rightarrow> nat \<Rightarrow> nat \<Rightarrow> bool" where
  "dead_span j h n = (\<forall>i < n. \<forall>r k. entry_slot (h + i) = Some (r, k) \<longrightarrow> jit_entries j r k = DefaultJitEntry)"

text \<open>Killing entries never revives one.\<close>

definition kills :: "jit_memory \<Rightarrow> jit_memory \<Rightarrow> bool" where
  "kills j j' = (jit_live_ranges j' = jit_live_ranges j \<and> jit_funcs j' = jit_funcs j
     \<and> (\<forall>r k. jit_entries j' r k \<in> {jit_entries j r k, DefaultJitEntry}))"

lemma kills_refl [simp]: "kills j j" by (simp add: kills_def)

lemma kills_trans [trans]: "kills a b \<Longrightarrow> kills b c \<Longrightarrow> kills a c"
  unfolding kills_def by (metis insert_iff singletonD)

lemma kills_dead: "kills a b \<Longrightarrow> dead_span a h n \<Longrightarrow> dead_span b h n"
  unfolding kills_def dead_span_def by (metis insert_iff singletonD)

lemma clear_counts_frame [simp]:
  "jit_entries (clear_counts a j) = jit_entries j" "jit_live_ranges (clear_counts a j) = jit_live_ranges j"
  "jit_funcs (clear_counts a j) = jit_funcs j"
  by (simp_all add: clear_counts_def split: option.splits prod.splits)

lemma fold_clear_counts_frame [simp]:
  "jit_entries (fold clear_counts as j) = jit_entries j"
  "jit_live_ranges (fold clear_counts as j) = jit_live_ranges j"
  "jit_funcs (fold clear_counts as j) = jit_funcs j"
  by (induction as arbitrary: j) simp_all

lemma bump_sticky_frame [simp]:
  "jit_entries (bump_sticky a j) = jit_entries j" "jit_live_ranges (bump_sticky a j) = jit_live_ranges j"
  "jit_funcs (bump_sticky a j) = jit_funcs j"
  by (simp_all add: bump_sticky_def Let_def)

lemma write_default_kills:
  assumes "span_ok (s, e)"
  obtains j' where "write_jit_entries s (unat (e - s)) DefaultJitEntry j = Some j'" "kills j j'"
    "dead_span j' (halfword_index s) (unat (e - s) div 2)"
proof -
  have "unat (e - s) \<le> 2 * BLOCK_SIZE" using assms by (simp add: span_ok_def BLOCK_SIZE_def)
  then have "unat (e - s) div 2 \<le> BLOCK_SIZE" by linarith
  then have "write_jit_entries s (unat (e - s)) DefaultJitEntry j = Some (j\<lparr>jit_entries :=
      fill_range (halfword_index s) (unat (e - s) div 2) DefaultJitEntry (jit_entries j)\<rparr>)"
    using assms by (simp add: write_jit_entries_def write_entries_loop_exact span_ok_def)
  then show ?thesis by (rule that) (auto simp: kills_def dead_span_def fill_range_def)
qed

lemma kill_spans_dead:
  assumes "\<forall>se \<in> set ses. span_ok se"
  obtains j' where "kill_spans ses j = Some j'" "kills j j'"
    "\<forall>(s, e) \<in> set ses. dead_span j' (halfword_index s) (unat (e - s) div 2)"
  using assms
proof (induction ses arbitrary: j thesis)
  case Nil
  then show ?case by simp
next
  case (Cons se ses)
  obtain s e where se: "se = (s, e)" by (cases se)
  have "span_ok (s, e)" using Cons.prems(2) se by simp
  then obtain j1 where j1: "write_jit_entries s (unat (e - s)) DefaultJitEntry j = Some j1" "kills j j1"
    "dead_span j1 (halfword_index s) (unat (e - s) div 2)" by (rule write_default_kills)
  let ?j2 = "fold clear_counts (page_addrs (s AND NOT 0xFF) e) j1"
  have j2: "kills j1 ?j2" by (simp add: kills_def)
  obtain j' where j': "kill_spans ses ?j2 = Some j'" "kills ?j2 j'"
    "\<forall>(s, e) \<in> set ses. dead_span j' (halfword_index s) (unat (e - s) div 2)"
    using Cons.IH [of ?j2] Cons.prems(2) by auto
  have "kills j1 j'" using j2 j'(2) by (rule kills_trans)
  then show ?case
    using Cons.prems(1) [of j'] j1 j' kills_trans [OF j1(2)] kills_dead by (auto simp: se kill_span_def)
qed


lemma live_range_ram:
  assumes "get_live_range addr = Some ri"
  shows "0x02000000 \<le> unat addr" "unat addr < 0x04000000"
proof -
  let ?i = "unat addr div 2 ^ 11"
  have le: "?i * 2 ^ 11 \<le> unat addr" by (rule div_times_less_eq_dividend)
  then have u: "unat (of_nat (?i * 2 ^ 11) :: u32) = ?i * 2 ^ 11"
    using unat_u32_bound [of addr] by (intro unat_of_nat_u32) linarith
  have m: "(0xFF000000 :: u32) = NOT (mask 24)" by (simp add: mask_eq_exp_minus_1)
  have "(of_nat (?i * 2 ^ 11) :: u32) AND 0xFF000000 \<in> {0x02000000, 0x03000000}"
    using assms by (auto simp: get_live_range_def Let_def split: if_splits)
  then have "unat ((of_nat (?i * 2 ^ 11) :: u32) AND NOT (mask 24)) \<in> {2 * 2 ^ 24, 3 * 2 ^ 24}"
    unfolding m by auto
  then have t: "?i * 2 ^ 11 div 2 ^ 24 \<in> {2, 3}" unfolding unat_and_not_mask u by auto
  moreover have "?i * 2 ^ 11 div 2 ^ 24 = unat addr div 2 ^ 24"
    using div_split_page [of "unat addr" "2 ^ 11" "2 ^ 13"] by simp
  ultimately have "unat addr div 2 ^ 24 \<in> {2, 3}" by simp
  then show "0x02000000 \<le> unat addr" "unat addr < 0x04000000"
    using div_mult_mod_eq [of "unat addr" "2 ^ 24"] mod_less_divisor [of "2 ^ 24" "unat addr"] by auto
qed


lemma unat_live_page: "unat (addr AND NOT 0xFF :: u32) = unat addr div 256 * 256"
  using unat_and_not_mask [of addr 8] by (simp add: mask_eq_exp_minus_1)

lemma halfword_index_eq: "halfword_index addr = unat addr mod 0x10000000 div 2"
  unfolding halfword_index_def unat_drop_bit_eq drop_bit_eq_div [of 1 "unat _"]
  using unat_and_mask [of addr 28] by (simp add: mask_eq_exp_minus_1)

lemma live_page_slots:
  assumes "get_live_range addr = Some ri" "i < 128"
  shows "entry_slot (halfword_index (addr AND NOT 0xFF) + i) \<noteq> None"
proof -
  let ?p = "unat addr div 256"
  have "0x2000000 div 256 \<le> ?p" using live_range_ram(1) [OF assms(1)] by (rule div_le_mono)
  moreover have "?p < 0x4000000 div 256" using live_range_ram(2) [OF assms(1)] by (intro less_mult_imp_div_less) simp
  ultimately show ?thesis
    unfolding halfword_index_eq unat_live_page using assms(2) by (intro slot_ram) simp_all
qed

text \<open>The live bit belongs to the 256-byte page.\<close>

lemma live_bit_eq: "live_bit addr = unat addr div 256 mod 8"
  using unat_and_mask [of "drop_bit 8 addr" 3]
  by (simp add: live_bit_def mask_eq_exp_minus_1 unat_drop_bit_eq drop_bit_eq_div [of 8 "unat _"] del: drop_bit_eq_div)

lemma same_live_page:
  assumes "unat a div 256 = unat b div 256"
  shows "live_bit a = live_bit b" "get_live_range a = get_live_range b"
proof -
  show "live_bit a = live_bit b" using assms by (simp add: live_bit_eq)
  have "unat a div 2 ^ 11 = unat b div 2 ^ 11"
    using assms div_mult2_eq [of "unat a" 256 8] div_mult2_eq [of "unat b" 256 8] by simp
  then show "get_live_range a = get_live_range b" by (simp only: get_live_range_def)
qed

lemma has_jit_block_bit:
  "get_live_range a = Some (r, i) \<Longrightarrow> has_jit_block j a = bit (jit_live_ranges j r i) (live_bit a)"
  by (simp add: has_jit_block_def and_exp_eq_0_iff_not_bit)

lemma invalidate_at_miss:
  assumes "get_live_range a = Some ri" "\<not> has_jit_block j a"
  shows "invalidate_at a j = Some (False, j)"
proof -
  obtain r i where ri: "ri = (r, i)" by (cases ri)
  then show ?thesis using assms has_jit_block_bit [of a r i j] by (simp add: invalidate_at_def and_exp_eq_0_iff_not_bit)
qed

text \<open>The blocks whose code contains the address.\<close>

definition block_over :: "u32 \<Rightarrow> u32 \<times> u32 \<Rightarrow> bool" where
  "block_over addr = (\<lambda>(pc, pc_end). pc AND NOT 1 \<le> addr \<and> addr < pc_end AND NOT 1)"

lemma overlapping_spans_eq:
  "overlapping_spans j addr =
     take 8 (map (\<lambda>(pc, pc_end). (pc AND NOT 1, pc_end AND NOT 1)) (filter (block_over addr) (jit_funcs j)))"
  by (simp add: overlapping_spans_def block_over_def filter_map o_def split_def)

lemma invalidate_at_hit:
  assumes ok: "jit_ok j" and live: "get_live_range a = Some ri" "has_jit_block j a"
  obtains j' where "invalidate_at a j = Some (True, j')" "\<not> has_jit_block j' a" "jit_funcs j' = jit_funcs j"
    "dead_span j' (halfword_index (a AND NOT 0xFF)) 128"
    "\<forall>(s, e) \<in> set (overlapping_spans j a). dead_span j' (halfword_index s) (unat (e - s) div 2)"
proof -
  obtain r i where ri: "ri = (r, i)" by (cases ri)
  let ?w = "jit_live_ranges j r i AND NOT (push_bit (live_bit a) 1)"
  let ?j0 = "j\<lparr>jit_live_ranges := (jit_live_ranges j)(r := (jit_live_ranges j r)(i := ?w))\<rparr>"
  let ?j1 = "?j0\<lparr>jit_entries := fill_range (halfword_index (a AND NOT 0xFF)) 128 DefaultJitEntry (jit_entries j)\<rparr>"
  let ?j2 = "bump_sticky a (clear_counts (a AND NOT 0xFF) ?j1)"
  have w: "write_jit_entries (a AND NOT 0xFF) 256 DefaultJitEntry ?j0 = Some ?j1"
    using live_page_slots [OF live(1)]
    by (simp add: write_jit_entries_def write_entries_loop_exact BLOCK_SIZE_def)
  have block_over: "overlapping_spans ?j2 a = overlapping_spans j a" by (simp add: overlapping_spans_def)
  have "\<forall>se \<in> set (overlapping_spans j a). span_ok se"
    using ok by (auto simp: overlapping_spans_eq jit_ok_def dest!: in_set_takeD)
  then obtain j' where j': "kill_spans (overlapping_spans j a) ?j2 = Some j'" "kills ?j2 j'"
    "\<forall>(s, e) \<in> set (overlapping_spans j a). dead_span j' (halfword_index s) (unat (e - s) div 2)"
    by (rule kill_spans_dead)
  show ?thesis
  proof (rule that)
    show "invalidate_at a j = Some (True, j')"
      using live j'(1) w block_over has_jit_block_bit [of a r i j]
      by (simp add: invalidate_at_def ri and_exp_eq_0_iff_not_bit Let_def invalidate_overlapping_blocks_def)
    have "jit_live_ranges j' r i = ?w" using j'(2) by (simp add: kills_def)
    then show "\<not> has_jit_block j' a"
      using live(1) ri by (simp add: has_jit_block_bit bit_and_iff bit_not_iff bit_exp_iff)
    show "jit_funcs j' = jit_funcs j" using j'(2) by (simp add: kills_def)
    have "dead_span ?j2 (halfword_index (a AND NOT 0xFF)) 128" by (auto simp: dead_span_def fill_range_def)
    then show "dead_span j' (halfword_index (a AND NOT 0xFF)) 128" by (rule kills_dead [OF j'(2)])
  qed (rule j'(3))
qed


lemma invalidate_block_effect:
  assumes "jit_ok j" "get_live_range a \<noteq> None" "unat (a + of_nat sz - 1) div 256 = unat a div 256"
  shows "if has_jit_block j a then
     (\<exists>j'. invalidate_block a sz j = Some (True, j') \<and> \<not> has_jit_block j' a \<and> jit_ok j'
       \<and> dead_span j' (halfword_index (a AND NOT 0xFF)) 128
       \<and> (length (filter (block_over a) (jit_funcs j)) \<le> 8 \<longrightarrow>
           (\<forall>(pc, pc_end) \<in> set (jit_funcs j). block_over a (pc, pc_end) \<longrightarrow>
              dead_span j' (halfword_index (pc AND NOT 1)) (unat ((pc_end AND NOT 1) - (pc AND NOT 1)) div 2))))
   else invalidate_block a sz j = Some (False, j)"
proof -
  let ?b = "a + of_nat sz - 1"
  from assms(2) obtain ri where ri: "get_live_range a = Some ri" by auto
  note page = same_live_page [OF assms(3)]
  have has_b: "has_jit_block q ?b = has_jit_block q a" for q by (simp only: has_jit_block_def page)
  have ri_b: "get_live_range ?b = Some ri" using ri by (simp only: page)
  show ?thesis
  proof (cases "has_jit_block j a")
    case True
    from invalidate_at_hit [OF assms(1) ri True] obtain j' where
      j': "invalidate_at a j = Some (True, j')" "\<not> has_jit_block j' a" "jit_funcs j' = jit_funcs j"
        "dead_span j' (halfword_index (a AND NOT 0xFF)) 128"
        "\<forall>(s, e) \<in> set (overlapping_spans j a). dead_span j' (halfword_index s) (unat (e - s) div 2)" .
    have "invalidate_at ?b j' = Some (False, j')"
      by (rule invalidate_at_miss [OF ri_b]) (use j'(2) has_b in simp)
    then have "invalidate_block a sz j = Some (True, j')" using j'(1) by (simp add: invalidate_block_def)
    moreover have "jit_ok j'" using assms(1) j'(3) by (simp add: jit_ok_def)
    moreover have "\<forall>(pc, pc_end) \<in> set (jit_funcs j). block_over a (pc, pc_end) \<longrightarrow>
        dead_span j' (halfword_index (pc AND NOT 1)) (unat ((pc_end AND NOT 1) - (pc AND NOT 1)) div 2)"
      if "length (filter (block_over a) (jit_funcs j)) \<le> 8"
      using j'(5) that by (auto simp: overlapping_spans_eq)
    ultimately show ?thesis using True j' by auto
  next
    case False
    have "invalidate_at ?b j = Some (False, j)"
      by (rule invalidate_at_miss [OF ri_b]) (use False has_b in simp)
    then show ?thesis using False invalidate_at_miss [OF ri False] by (simp add: invalidate_block_def)
  qed
qed

text \<open>
  C20: a store into a page that holds compiled code is detected and, with at most eight blocks over
  the address, no stale code stays reachable: every entry of the 256-byte page and every entry of
  every block whose code contains the address goes back to the default, the page's live bit is
  cleared, and no pointer is null. A store into a page without the live bit changes nothing.
\<close>

theorem invalidate_block_kills:
  assumes "jit_ok j" "get_live_range a \<noteq> None" "unat (a + of_nat sz - 1) div 256 = unat a div 256"
  shows "if has_jit_block j a then
     (\<exists>j'. invalidate_block a sz j = Some (True, j') \<and> \<not> has_jit_block j' a \<and> jit_ok j'
       \<and> dead_span j' (halfword_index (a AND NOT 0xFF)) 128
       \<and> (length (filter (block_over a) (jit_funcs j)) \<le> 8 \<longrightarrow>
           (\<forall>(pc, pc_end) \<in> set (jit_funcs j). block_over a (pc, pc_end) \<longrightarrow>
              dead_span j' (halfword_index (pc AND NOT 1)) (unat ((pc_end AND NOT 1) - (pc AND NOT 1)) div 2))))
   else invalidate_block a sz j = Some (False, j)"
  using assms by (rule invalidate_block_effect)

text \<open>Two blocks of IWRAM code; the first reaches into the page that holds the second.\<close>

definition two_blocks :: "jit_memory option" where
  "two_blocks =
     do {
       j \<leftarrow> jit_insert_block 1 0x030000F0 0x03000110 False jit_init;
       jit_insert_block 2 0x03000180 0x03000190 False j
     }"


lemma write_iwram_entries:
  assumes "addr = 0x03000000 + of_nat d" "d + sz \<le> 0x8000" "sz \<le> 0x4000" "d mod 2 = 0"
  shows "write_jit_entries addr sz v j = Some (j\<lparr>jit_entries :=
           fill_slots (jit_entries j) CIwram (d div 2) (sz div 2) v\<rparr>)"
proof -
  have "addr = of_nat (0x03000000 + d)" using assms(1) by simp
  then have "unat addr = 0x03000000 + d" using unat_of_nat_u32 [of "0x03000000 + d"] assms(2) by simp
  then have h: "halfword_index addr = 0x1800000 + d div 2" using assms(2) by (simp add: halfword_index_eq)
  have b: "sz div 2 \<le> BLOCK_SIZE" using assms(3) by (simp add: BLOCK_SIZE_def)
  have sl: "entry_slot (halfword_index addr + i) = Some (CIwram, d div 2 + i)" if "i < sz div 2" for i
    using slot_iwram [of "halfword_index addr + i"] that assms(2) h by simp
  have "fill_range (halfword_index addr) (sz div 2) v e = fill_slots e CIwram (d div 2) (sz div 2) v" for e
  proof (intro ext)
    fix r k
    have "(\<exists>i < sz div 2. entry_slot (halfword_index addr + i) = Some (r, k))
        = (r = CIwram \<and> d div 2 \<le> k \<and> k < d div 2 + sz div 2)" (is "?l = ?r")
    proof
      assume ?r
      then show ?l using sl [of "k - d div 2"] by (intro exI [of _ "k - d div 2"]) auto
    qed (use sl in auto)
    then show "fill_range (halfword_index addr) (sz div 2) v e r k = fill_slots e CIwram (d div 2) (sz div 2) v r k"
      by (simp add: fill_range_def fill_slots_def)
  qed
  then show ?thesis using sl by (simp add: write_jit_entries_def write_entries_loop_exact [OF b])
qed

lemma two_blocks_eq:
  "two_blocks = Some (jit_init\<lparr>
     jit_entries := fill_slots (fill_slots (\<lambda>_ _. DefaultJitEntry) CIwram 0x78 16 (JitCode 1)) CIwram 0xC0 8 (JitCode 2),
     jit_live_ranges := (\<lambda>_ _. 0)(CIwram := (\<lambda>_. 0)(0 := 3)),
     jit_funcs := [(0x030000F0, 0x03000110), (0x03000180, 0x03000190)]\<rparr>)"
  by (simp add: two_blocks_def jit_insert_block_def write_iwram_entries [where d = "0xF0"] write_iwram_entries [where d = "0x180"]
      jit_init_def jit_set_live_range_def Let_def set_live_def get_live_range_def live_bit_def fun_eq_iff)


theorem invalidate_block_kills_witness:
  "\<exists>j j'. two_blocks = Some j \<and> jit_ok j \<and> has_jit_block j 0x03000184
     \<and> invalidate_block 0x03000184 4 j = Some (True, j') \<and> \<not> has_jit_block j' 0x03000184"
proof -
  obtain j where j: "two_blocks = Some j" by (simp add: two_blocks_eq)
  have f: "jit_funcs j = [(0x030000F0, 0x03000110), (0x03000180, 0x03000190)]"
    using j by (auto simp: two_blocks_eq)
  have "entry_slot (h + i) \<noteq> None" if "h \<in> {0x1800078, 0x18000C0}" "i < 16" for h i
    using that by (intro slot_ram) auto
  then have ok: "jit_ok j" by (simp add: jit_ok_def f span_ok_def halfword_index_def)
  have live: "get_live_range 0x03000184 = Some (CIwram, 0)" by (simp add: get_live_range_def Let_def)
  then have has: "has_jit_block j 0x03000184"
    using j by (auto simp: two_blocks_eq has_jit_block_def live_bit_def)
  show ?thesis
    using invalidate_block_kills [OF ok, of "0x03000184" 4] live has j ok by auto
qed

text \<open>
  C21: invalidation is incomplete across neighbouring blocks. The first of two blocks reaches into
  the 256-byte page that holds the second. A store into the second clears the page's live bit, and
  a later store into the code of the first is then not noticed: its entry still leads to the
  translation of the overwritten code.
\<close>

theorem stale_block_after_neighbour_store:
  "\<exists>j. Option.bind two_blocks (\<lambda>j. Option.bind (invalidate_block 0x03000184 4 j)
         (\<lambda>(hit, j). map_option (\<lambda>(hit', j). (hit, hit', j)) (invalidate_block 0x03000104 4 j)))
       = Some (True, False, j)
     \<and> (0x030000F0, 0x03000110) \<in> set (jit_funcs j) \<and> block_over 0x03000104 (0x030000F0, 0x03000110)
     \<and> map_option (\<lambda>(r, k). jit_entries j r k) (get_jit_entry 0x030000F0) = Some (JitCode 1)"
proof -
  have e: "get_jit_entry 0x030000F0 = Some (CIwram, 0x78)"
    unfolding get_jit_entry_slot by (simp add: halfword_index_def slot_iwram)
  have l: "get_live_range 0x03000184 = Some (CIwram, 0)" "get_live_range 0x03000187 = Some (CIwram, 0)"
    "get_live_range 0x03000104 = Some (CIwram, 0)" "get_live_range 0x03000107 = Some (CIwram, 0)"
    by (simp_all add: get_live_range_def Let_def)
  show ?thesis
    unfolding e
    by (simp add: two_blocks_eq invalidate_block_def invalidate_at_def l live_bit_def Let_def
        write_iwram_entries [where d = "0x100"] write_iwram_entries [where d = "0x180"]
        invalidate_overlapping_blocks_def overlapping_spans_eq block_over_def kill_span_def jit_init_def fill_slots_def)
qed

end
