(* ===== verification/EmuState.thy ===== *)
theory EmuState
  imports CycleManager Rtc Cartridge Apu JitMemory
begin

text \<open>
  The whole emulator state: the \<open>Emu\<close> struct of \<open>src/src/core/emu.rs\<close> with the structs of its
  components, the global \<open>ThreadRegs\<close> (\<open>src/src/core/thread_regs.rs\<close>) and the runtime counters of
  \<open>JitAsm\<close>. Fixed-size arrays are functions from the index. The host-side virtual memory map,
  the settings, the rewind ring and the file handles are not guest state and are left out; the
  host clock and the host key map, which the core reads, and the host addresses one path stores are
  fields the host may set.
\<close>

section \<open>CPU registers (thread_regs.rs, cpu_regs.rs)\<close>

record user_regs =
  u_gp_regs :: "nat \<Rightarrow> u32"
  u_sp :: u32
  u_lr :: u32

record fiq_regs =
  f_gp_regs :: "nat \<Rightarrow> u32"
  f_sp :: u32
  f_lr :: u32
  f_spsr :: u32

record other_mode_regs =
  m_sp :: u32
  m_lr :: u32
  m_spsr :: u32

record thread_regs =
  gp_regs :: "nat \<Rightarrow> u32"
  reg_sp :: u32
  reg_lr :: u32
  reg_pc :: u32
  cpsr :: u32
  spsr :: u32
  ime :: u8
  ie :: u32
  irf :: u32
  user :: user_regs
  fiq :: fiq_regs
  svc :: other_mode_regs
  abt :: other_mode_regs
  irq :: other_mode_regs
  und :: other_mode_regs

definition other_mode_default :: other_mode_regs where
  "other_mode_default = \<lparr>m_sp = 0, m_lr = 0, m_spsr = 0\<rparr>"

definition thread_regs_default :: thread_regs where
  "thread_regs_default = \<lparr>gp_regs = (\<lambda>_. 0), reg_sp = 0, reg_lr = 0, reg_pc = 0, cpsr = 0, spsr = 0,
     ime = 0, ie = 0, irf = 0, user = \<lparr>u_gp_regs = (\<lambda>_. 0), u_sp = 0, u_lr = 0\<rparr>,
     fiq = \<lparr>f_gp_regs = (\<lambda>_. 0), f_sp = 0, f_lr = 0, f_spsr = 0\<rparr>,
     svc = other_mode_default, abt = other_mode_default, irq = other_mode_default, und = other_mode_default\<rparr>"

record cpu_regs =
  post_flg :: u8
  halt_cnt :: u8
  halt :: u8
  bios_wait_flags :: u32
  wait_cnt :: u16
  bios_open_bus :: u32

definition cpu_regs_new :: cpu_regs where
  "cpu_regs_new = \<lparr>post_flg = 0, halt_cnt = 0, halt = 0, bios_wait_flags = 0, wait_cnt = 0,
                   bios_open_bus = 0xE129F000\<rparr>"

section \<open>Timers, DMA, input\<close>

record timer_channel =
  t_cnt_l :: u16
  t_cnt_h :: u16
  current_value :: u16
  current_shift :: u8
  scheduled_cycle :: u32

definition timer_default :: timer_channel where
  "timer_default = \<lparr>t_cnt_l = 0, t_cnt_h = 0, current_value = 0, current_shift = 0, scheduled_cycle = 0\<rparr>"

record dma_channel =
  d_cnt :: u32
  sad :: u32
  dad :: u32
  current_src :: u32
  current_dest :: u32
  current_count :: u32

definition dma_default :: dma_channel where
  "dma_default = \<lparr>d_cnt = 0, sad = 0, dad = 0, current_src = 0, current_dest = 0, current_count = 0\<rparr>"

record input_state =
  key_input :: u16
  key_cnt :: u16
  key_map :: u32
  prev_keypad_irq :: bool

definition input_new :: input_state where
  "input_new = \<lparr>key_input = 0x3FF, key_cnt = 0, key_map = 0x3FF, prev_keypad_irq = False\<rparr>"

section \<open>Display registers and renderer hand-off (gpu.rs, ppu.rs, gpu_mem_buf.rs)\<close>

record ppu_regs =
  bg_cnt :: "nat \<Rightarrow> u16"
  bg_h_ofs :: "nat \<Rightarrow> u16"
  bg_v_ofs :: "nat \<Rightarrow> u16"
  bg_pa :: "nat \<Rightarrow> u16"
  bg_pb :: "nat \<Rightarrow> u16"
  bg_pc :: "nat \<Rightarrow> u16"
  bg_pd :: "nat \<Rightarrow> u16"
  bg_x :: "nat \<Rightarrow> u32"
  bg_y :: "nat \<Rightarrow> u32"
  internal_x :: "nat \<Rightarrow> u32"
  internal_y :: "nat \<Rightarrow> u32"
  win_h :: "nat \<Rightarrow> u16"
  win_v :: "nat \<Rightarrow> u16"
  win_in :: u16
  win_out :: u16
  mosaic :: u16
  bld_cnt :: u16
  bld_alpha :: u16
  bld_y :: u16

definition ppu_regs_new :: ppu_regs where
  "ppu_regs_new = \<lparr>bg_cnt = (\<lambda>_. 0), bg_h_ofs = (\<lambda>_. 0), bg_v_ofs = (\<lambda>_. 0), bg_pa = (\<lambda>_. 0x100),
     bg_pb = (\<lambda>_. 0), bg_pc = (\<lambda>_. 0), bg_pd = (\<lambda>_. 0x100), bg_x = (\<lambda>_. 0), bg_y = (\<lambda>_. 0),
     internal_x = (\<lambda>_. 0), internal_y = (\<lambda>_. 0), win_h = (\<lambda>_. 0), win_v = (\<lambda>_. 0), win_in = 0,
     win_out = 0, mosaic = 0, bld_cnt = 0, bld_alpha = 0, bld_y = 0\<rparr>"

text \<open>One slot's snapshot of video memory.\<close>

record gpu_mem_buf =
  buf_vram :: "nat \<Rightarrow> u8"
  buf_pal :: "nat \<Rightarrow> u8"
  buf_oam :: "nat \<Rightarrow> u8"

record renderer =
  sync_slots :: "nat \<Rightarrow> u8"
  slot_dirty :: "nat \<Rightarrow> u8"
  write_slot :: nat
  capture_regs :: "nat \<Rightarrow> u16 \<times> ppu_regs"
  slot_regs :: "nat \<Rightarrow> nat \<Rightarrow> u16 \<times> ppu_regs"
  slot_mem :: "nat \<Rightarrow> gpu_mem_buf"

record gpu =
  disp_stat :: u16
  disp_cnt :: u16
  green_swap :: u16
  v_count :: u16
  ppu :: ppu_regs
  rend :: renderer

section \<open>Memory and the emulator\<close>

record memory =
  shm :: "nat \<Rightarrow> u8"
  mmu_read :: "nat \<Rightarrow> nat"
  mmu_write :: "nat \<Rightarrow> nat"
  gpu_mem_dirty :: u8

text \<open>
  Addresses in the host process, 32 bits on both targets of \<open>.cargo/config.toml\<close>. The guest should
  never see one, but \<open>mem_write_fixed_slice\<close> stores one: where the shared memory is mapped
  (\<open>Shm::ptr\<close>), where the allocator has put the scratch vector of the transfers once it has grown to a
  given length (\<open>Dma::src_buf\<close>), and the stack array of a sound transfer. Like the clock they are
  chosen by the host.
\<close>

record host_layout =
  shm_ptr :: u32
  src_buf_ptr :: "nat \<Rightarrow> u32"
  values_ptr :: u32

text \<open>The part of \<open>JitAsm::runtime_data\<close> the core updates.\<close>

record runtime_data =
  accumulated_cycles :: u16
  pre_cycle_count_sum :: u16

record emu =
  cart :: cartridge
  gpus :: gpu
  cm :: cycle_manager
  cpu :: cpu_regs
  inp :: input_state
  mem :: memory
  apus :: apu
  rtcs :: rtc
  dmas :: "nat \<Rightarrow> dma_channel"
  tmrs :: "nat \<Rightarrow> timer_channel"
  jit :: jit_memory
  breakout_imm :: bool
  regs :: thread_regs
  rt :: runtime_data
  host_clock :: clock
  src_buf_len :: nat
  host :: host_layout

definition MAX_BRANCH_LOOP_CYCLE_COUNT :: u16 where
  "MAX_BRANCH_LOOP_CYCLE_COUNT = 128"

text \<open>\<open>Emu::new\<close>, with no cartridge inserted.\<close>

definition emu_new :: emu where
  "emu_new = \<lparr>cart = cartridge_new,
     gpus = \<lparr>disp_stat = 0, disp_cnt = 0, green_swap = 0, v_count = 0, ppu = ppu_regs_new,
       rend = \<lparr>sync_slots = (\<lambda>_. 0), slot_dirty = (\<lambda>_. 0xF), write_slot = 0, capture_regs = (\<lambda>_. (0, ppu_regs_new)),
         slot_regs = (\<lambda>_ _. (0, ppu_regs_new)),
         slot_mem = (\<lambda>_. \<lparr>buf_vram = (\<lambda>_. 0), buf_pal = (\<lambda>_. 0), buf_oam = (\<lambda>_. 0)\<rparr>)\<rparr>\<rparr>,
     cm = cm_new, cpu = cpu_regs_new, inp = input_new,
     mem = \<lparr>shm = (\<lambda>_. 0), mmu_read = (\<lambda>_. 0), mmu_write = (\<lambda>_. 0), gpu_mem_dirty = 0xF\<rparr>,
     apus = apu_new, rtcs = rtc_new, dmas = (\<lambda>_. dma_default), tmrs = (\<lambda>_. timer_default), jit = jit_init,
     breakout_imm = False, regs = thread_regs_default,
     rt = \<lparr>accumulated_cycles = 0, pre_cycle_count_sum = 0\<rparr>, host_clock = Frozen,
     src_buf_len = 0, host = \<lparr>shm_ptr = 0, src_buf_ptr = (\<lambda>_. 0), values_ptr = 0\<rparr>\<rparr>"

text \<open>Updates of one component, so that an operation reads like its source.\<close>

definition upd_regs :: "(thread_regs \<Rightarrow> thread_regs) \<Rightarrow> emu \<Rightarrow> emu" where
  "upd_regs f s = s\<lparr>regs := f (regs s)\<rparr>"

definition upd_cm :: "(cycle_manager \<Rightarrow> cycle_manager) \<Rightarrow> emu \<Rightarrow> emu" where
  "upd_cm f s = s\<lparr>cm := f (cm s)\<rparr>"

definition upd_cpu :: "(cpu_regs \<Rightarrow> cpu_regs) \<Rightarrow> emu \<Rightarrow> emu" where
  "upd_cpu f s = s\<lparr>cpu := f (cpu s)\<rparr>"

definition upd_gpu :: "(gpu \<Rightarrow> gpu) \<Rightarrow> emu \<Rightarrow> emu" where
  "upd_gpu f s = s\<lparr>gpus := f (gpus s)\<rparr>"

definition upd_ppu :: "(ppu_regs \<Rightarrow> ppu_regs) \<Rightarrow> emu \<Rightarrow> emu" where
  "upd_ppu f s = s\<lparr>gpus := (gpus s)\<lparr>ppu := f (ppu (gpus s))\<rparr>\<rparr>"

definition upd_apu :: "(apu \<Rightarrow> apu) \<Rightarrow> emu \<Rightarrow> emu" where
  "upd_apu f s = s\<lparr>apus := f (apus s)\<rparr>"

definition upd_mem :: "(memory \<Rightarrow> memory) \<Rightarrow> emu \<Rightarrow> emu" where
  "upd_mem f s = s\<lparr>mem := f (mem s)\<rparr>"

definition upd_timer :: "nat \<Rightarrow> (timer_channel \<Rightarrow> timer_channel) \<Rightarrow> emu \<Rightarrow> emu" where
  "upd_timer n f s = s\<lparr>tmrs := (tmrs s)(n := f (tmrs s n))\<rparr>"

definition upd_dma :: "nat \<Rightarrow> (dma_channel \<Rightarrow> dma_channel) \<Rightarrow> emu \<Rightarrow> emu" where
  "upd_dma n f s = s\<lparr>dmas := (dmas s)(n := f (dmas s n))\<rparr>"

lemmas upd_defs [reg_simps] =
  upd_regs_def upd_cm_def upd_cpu_def upd_gpu_def upd_ppu_def upd_apu_def upd_mem_def
  upd_timer_def upd_dma_def

end
