(* ===== verification/Cpu.thy ===== *)
theory Cpu
  imports EmuState
begin

text \<open>
  The interrupt controller of \<open>src/src/core/cpu_regs.rs\<close> and the banked register file of
  \<open>src/src/core/thread_regs.rs\<close>. Delivery of an interrupt (\<open>cpu_on_interrupt_event\<close>) enters the
  HLE BIOS and is in theory Bios.
\<close>

section \<open>Interrupt controller (cpu_regs.rs)\<close>

datatype interrupt_flag =
  LcdVBlank | LcdHBlank | LcdVCounterMatch | Timer0Overflow | Timer1Overflow | Timer2Overflow
  | Timer3Overflow | RtcIrq | Dma0 | Dma1 | Dma2 | Dma3 | Keypad | GbaSlot

fun flag_index :: "interrupt_flag \<Rightarrow> nat" where
  "flag_index LcdVBlank = 0"
| "flag_index LcdHBlank = 1"
| "flag_index LcdVCounterMatch = 2"
| "flag_index Timer0Overflow = 3"
| "flag_index Timer1Overflow = 4"
| "flag_index Timer2Overflow = 5"
| "flag_index Timer3Overflow = 6"
| "flag_index RtcIrq = 7"
| "flag_index Dma0 = 8"
| "flag_index Dma1 = 9"
| "flag_index Dma2 = 10"
| "flag_index Dma3 = 11"
| "flag_index Keypad = 12"
| "flag_index GbaSlot = 13"

text \<open>\<open>InterruptFlag::from(Timer0Overflow + n)\<close> and \<open>InterruptFlag::from(Dma0 + n)\<close>.\<close>

definition timer_flag :: "nat \<Rightarrow> interrupt_flag" where
  "timer_flag n = (if n = 0 then Timer0Overflow else if n = 1 then Timer1Overflow
                   else if n = 2 then Timer2Overflow else Timer3Overflow)"

definition dma_flag :: "nat \<Rightarrow> interrupt_flag" where
  "dma_flag n = (if n = 0 then Dma0 else if n = 1 then Dma1 else if n = 2 then Dma2 else Dma3)"

text \<open>The \<open>Cpsr\<close> bit fields.\<close>

definition cpsr_mode :: "u32 \<Rightarrow> u32" where "cpsr_mode w = field 0 5 w"
definition cpsr_thumb :: "u32 \<Rightarrow> bool" where "cpsr_thumb w = bit w 5"
definition cpsr_irq_disable :: "u32 \<Rightarrow> bool" where "cpsr_irq_disable w = bit w 7"

definition irq_pending :: "thread_regs \<Rightarrow> bool" where
  "irq_pending r = (ime r \<noteq> 0 \<and> ie r AND irf r \<noteq> 0 \<and> \<not> cpsr_irq_disable (cpsr r))"

definition cpu_schedule_interrupt :: "emu \<Rightarrow> emu" where
  "cpu_schedule_interrupt s = upd_cm (schedule_imm CpuInterrupt) s"

definition cpu_check_for_interrupt :: "emu \<Rightarrow> emu" where
  "cpu_check_for_interrupt s =
     (if irq_pending (regs s) then
        (let s = cpu_schedule_interrupt s
         in if accumulated_cycles (rt s) < MAX_BRANCH_LOOP_CYCLE_COUNT
            then s\<lparr>rt := (rt s)\<lparr>accumulated_cycles := MAX_BRANCH_LOOP_CYCLE_COUNT\<rparr>\<rparr> else s)
      else s)"

definition cpu_set_ime :: "u8 \<Rightarrow> emu \<Rightarrow> emu" where
  "cpu_set_ime v s = cpu_check_for_interrupt (upd_regs (\<lambda>r. r\<lparr>ime := v AND 1\<rparr>) s)"

definition cpu_set_ie :: "u32 \<Rightarrow> u32 \<Rightarrow> emu \<Rightarrow> emu" where
  "cpu_set_ie m v s =
     cpu_check_for_interrupt (upd_regs (\<lambda>r. r\<lparr>ie := masked (ie r) (m AND 0x3FFF) v\<rparr>) s)"

definition cpu_set_irf :: "u32 \<Rightarrow> u32 \<Rightarrow> emu \<Rightarrow> emu" where
  "cpu_set_irf m v s = upd_regs (\<lambda>r. r\<lparr>irf := irf r AND NOT (v AND m)\<rparr>) s"

definition cpu_set_post_flg :: "u8 \<Rightarrow> emu \<Rightarrow> emu" where
  "cpu_set_post_flg v s = upd_cpu (\<lambda>c. c\<lparr>post_flg := post_flg c OR (v AND 1)\<rparr>) s"

definition cpu_halt :: "nat \<Rightarrow> emu \<Rightarrow> emu" where
  "cpu_halt b s = upd_cpu (\<lambda>c. c\<lparr>halt := halt c OR push_bit b 1\<rparr>) s"

definition cpu_unhalt :: "nat \<Rightarrow> emu \<Rightarrow> emu" where
  "cpu_unhalt b s = upd_cpu (\<lambda>c. c\<lparr>halt := halt c AND NOT (push_bit b 1)\<rparr>) s"

definition cpu_is_halted :: "emu \<Rightarrow> bool" where
  "cpu_is_halted s = (halt (cpu s) \<noteq> 0)"

definition cpu_send_interrupt :: "interrupt_flag \<Rightarrow> emu \<Rightarrow> emu" where
  "cpu_send_interrupt flag s =
     (let s = upd_regs (\<lambda>r. r\<lparr>irf := irf r OR push_bit (flag_index flag) 1\<rparr>) s; r = regs s
      in if ie r AND irf r \<noteq> 0 then
           (if ime r \<noteq> 0 \<and> \<not> cpsr_irq_disable (cpsr r) then cpu_check_for_interrupt s
            else cpu_unhalt 0 s)
         else s)"

definition cpu_set_halt_cnt :: "u8 \<Rightarrow> emu \<Rightarrow> emu" where
  "cpu_set_halt_cnt v s = cpu_halt 0 (upd_cpu (\<lambda>c. c\<lparr>halt_cnt := v AND 0xC0\<rparr>) s)"

section \<open>Register file (thread_regs.rs)\<close>

text \<open>\<open>thread_get_reg\<close> offsets a pointer to \<open>gp_regs[0]\<close>; the struct is \<open>repr(C)\<close>, so 13 to 17 are
  \<open>sp\<close>, \<open>lr\<close>, \<open>pc\<close>, \<open>cpsr\<close> and \<open>spsr\<close>.\<close>

definition get_reg :: "nat \<Rightarrow> thread_regs \<Rightarrow> u32" where
  "get_reg n r = (if n < 13 then gp_regs r n else if n = 13 then reg_sp r else if n = 14 then reg_lr r
     else if n = 15 then reg_pc r else if n = 16 then cpsr r else spsr r)"

definition set_reg :: "nat \<Rightarrow> u32 \<Rightarrow> thread_regs \<Rightarrow> thread_regs" where
  "set_reg n v r = (if n < 13 then r\<lparr>gp_regs := (gp_regs r)(n := v)\<rparr> else if n = 13 then r\<lparr>reg_sp := v\<rparr>
     else if n = 14 then r\<lparr>reg_lr := v\<rparr> else if n = 15 then r\<lparr>reg_pc := v\<rparr>
     else if n = 16 then r\<lparr>cpsr := v\<rparr> else r\<lparr>spsr := v\<rparr>)"

definition get_reg_usr :: "nat \<Rightarrow> thread_regs \<Rightarrow> u32" where
  "get_reg_usr n r = (if 8 \<le> n \<and> n \<le> 12 then u_gp_regs (user r) (n - 8)
     else if n = 13 then u_sp (user r) else if n = 14 then u_lr (user r) else get_reg n r)"

definition set_reg_usr :: "nat \<Rightarrow> u32 \<Rightarrow> thread_regs \<Rightarrow> thread_regs" where
  "set_reg_usr n v r =
     (if 8 \<le> n \<and> n \<le> 12 then r\<lparr>user := (user r)\<lparr>u_gp_regs := (u_gp_regs (user r))(n - 8 := v)\<rparr>\<rparr>
      else if n = 13 then r\<lparr>user := (user r)\<lparr>u_sp := v\<rparr>\<rparr>
      else if n = 14 then r\<lparr>user := (user r)\<lparr>u_lr := v\<rparr>\<rparr> else set_reg n v r)"

definition thread_is_thumb :: "emu \<Rightarrow> bool" where
  "thread_is_thumb s = cpsr_thumb (cpsr (regs s))"

definition is_user_mode :: "u32 \<Rightarrow> bool" where
  "is_user_mode m = (m = 0x10 \<or> m = 0x1F)"

definition thread_is_user_mode :: "emu \<Rightarrow> bool" where
  "thread_is_user_mode s = is_user_mode (cpsr_mode (cpsr (regs s)))"

definition thread_is_fiq_mode :: "emu \<Rightarrow> bool" where
  "thread_is_fiq_mode s = (cpsr_mode (cpsr (regs s)) = 0x11)"

text \<open>The copies between \<open>gp_regs[8..13]\<close> and a five-register bank.\<close>

definition save_high :: "thread_regs \<Rightarrow> (nat \<Rightarrow> u32) \<Rightarrow> nat \<Rightarrow> u32" where
  "save_high r b = (\<lambda>i. if i < 5 then gp_regs r (i + 8) else b i)"

definition load_high :: "(nat \<Rightarrow> u32) \<Rightarrow> thread_regs \<Rightarrow> thread_regs" where
  "load_high b r = r\<lparr>gp_regs := (\<lambda>i. if 8 \<le> i \<and> i < 13 then b (i - 8) else gp_regs r i)\<rparr>"

definition save_user_high :: "thread_regs \<Rightarrow> thread_regs" where
  "save_user_high r = r\<lparr>user := (user r)\<lparr>u_gp_regs := save_high r (u_gp_regs (user r))\<rparr>\<rparr>"

definition save_other :: "thread_regs \<Rightarrow> other_mode_regs" where
  "save_other r = \<lparr>m_sp = reg_sp r, m_lr = reg_lr r, m_spsr = spsr r\<rparr>"

definition load_other :: "other_mode_regs \<Rightarrow> thread_regs \<Rightarrow> thread_regs" where
  "load_other b r = (load_high (u_gp_regs (user r)) r)\<lparr>reg_sp := m_sp b, reg_lr := m_lr b, spsr := m_spsr b\<rparr>"

text \<open>The first and the second match of \<open>thread_set_cpsr_mode_slow\<close>.\<close>

definition save_mode :: "u32 \<Rightarrow> thread_regs \<Rightarrow> thread_regs" where
  "save_mode m r =
     (if is_user_mode m then
        r\<lparr>user := \<lparr>u_gp_regs = save_high r (u_gp_regs (user r)), u_sp = reg_sp r, u_lr = reg_lr r\<rparr>\<rparr>
      else if m = 0x11 then
        r\<lparr>fiq := \<lparr>f_gp_regs = save_high r (f_gp_regs (fiq r)), f_sp = reg_sp r, f_lr = reg_lr r, f_spsr = spsr r\<rparr>\<rparr>
      else if m = 0x12 then (save_user_high r)\<lparr>irq := save_other r\<rparr>
      else if m = 0x13 then (save_user_high r)\<lparr>svc := save_other r\<rparr>
      else if m = 0x17 then (save_user_high r)\<lparr>abt := save_other r\<rparr>
      else if m = 0x1B then (save_user_high r)\<lparr>und := save_other r\<rparr>
      else r)"

definition load_mode :: "u32 \<Rightarrow> thread_regs \<Rightarrow> thread_regs" where
  "load_mode m r =
     (if is_user_mode m then
        (load_high (u_gp_regs (user r)) r)\<lparr>reg_sp := u_sp (user r), reg_lr := u_lr (user r)\<rparr>
      else if m = 0x11 then
        (load_high (f_gp_regs (fiq r)) r)\<lparr>reg_sp := f_sp (fiq r), reg_lr := f_lr (fiq r), spsr := f_spsr (fiq r)\<rparr>
      else if m = 0x12 then load_other (irq r) r
      else if m = 0x13 then load_other (svc r) r
      else if m = 0x17 then load_other (abt r) r
      else if m = 0x1B then load_other (und r) r
      else r)"

definition thread_set_cpsr_mode_slow :: "u32 \<Rightarrow> u32 \<Rightarrow> thread_regs \<Rightarrow> thread_regs" where
  "thread_set_cpsr_mode_slow current_mode new_mode r = load_mode new_mode (save_mode current_mode r)"

definition switch_mode :: "u32 \<Rightarrow> u32 \<Rightarrow> thread_regs \<Rightarrow> thread_regs" where
  "switch_mode current_mode new_mode r =
     (if current_mode = new_mode then r
      else if is_user_mode current_mode \<and> new_mode = 0x12 then
        r\<lparr>user := (user r)\<lparr>u_sp := reg_sp r, u_lr := reg_lr r\<rparr>, reg_sp := m_sp (irq r), reg_lr := m_lr (irq r)\<rparr>
      else if current_mode = 0x12 \<and> is_user_mode new_mode then
        r\<lparr>irq := (irq r)\<lparr>m_sp := reg_sp r, m_lr := reg_lr r\<rparr>, reg_sp := u_sp (user r), reg_lr := u_lr (user r)\<rparr>
      else thread_set_cpsr_mode_slow current_mode new_mode r)"

definition thread_set_cpsr :: "u32 \<Rightarrow> bool \<Rightarrow> emu \<Rightarrow> emu" where
  "thread_set_cpsr v save s =
     cpu_check_for_interrupt
       (upd_regs (\<lambda>r. let r = switch_mode (cpsr_mode (cpsr r)) (cpsr_mode v) r;
                          r = (if save then r\<lparr>spsr := cpsr r\<rparr> else r)
                      in r\<lparr>cpsr := v\<rparr>) s)"

text \<open>The byte-lane loops of \<open>thread_set_cpsr_with_flags\<close> and \<open>thread_set_spsr_with_flags\<close>.\<close>

definition lane_mask :: "nat \<Rightarrow> u32" where
  "lane_mask i = push_bit (8 * i) 0xFF"

definition set_lanes :: "nat list \<Rightarrow> u8 \<Rightarrow> u32 \<Rightarrow> u32 \<Rightarrow> u32" where
  "set_lanes is flags v w =
     fold (\<lambda>i w. if flags AND push_bit i 1 \<noteq> 0 then masked w (lane_mask i) v else w) is w"

definition thread_set_cpsr_with_flags :: "u32 \<Rightarrow> u8 \<Rightarrow> emu \<Rightarrow> emu" where
  "thread_set_cpsr_with_flags v flags s =
     (let s = (if flags AND 1 = 1 then
                 (let m = (if cpsr_mode (cpsr (regs s)) = 0x10 then 0xE0 else 0xFF)
                  in thread_set_cpsr (masked (cpsr (regs s)) m v) False s)
               else s)
      in upd_regs (\<lambda>r. r\<lparr>cpsr := set_lanes [1, 2, 3] flags v (cpsr r)\<rparr>) s)"

definition thread_set_spsr_with_flags :: "u32 \<Rightarrow> u8 \<Rightarrow> emu \<Rightarrow> emu" where
  "thread_set_spsr_with_flags v flags s =
     upd_regs (\<lambda>r. r\<lparr>spsr := set_lanes [0, 1, 2, 3] flags v (spsr r)\<rparr>) s"

definition thread_restore_spsr :: "emu \<Rightarrow> emu" where
  "thread_restore_spsr s =
     (if thread_is_user_mode s then s else thread_set_cpsr (spsr (regs s)) False s)"

definition thread_restore_thumb_mode :: "emu \<Rightarrow> emu" where
  "thread_restore_thumb_mode s =
     upd_regs (\<lambda>r. r\<lparr>reg_pc := (reg_pc r AND NOT 1) OR of_bool (cpsr_thumb (cpsr r))\<rparr>) s"

definition thread_force_pc_arm_mode :: "emu \<Rightarrow> emu" where
  "thread_force_pc_arm_mode s = upd_regs (\<lambda>r. r\<lparr>reg_pc := reg_pc r AND NOT 1\<rparr>) s"

definition thread_force_pc_thumb_mode :: "emu \<Rightarrow> emu" where
  "thread_force_pc_thumb_mode s = upd_regs (\<lambda>r. r\<lparr>reg_pc := reg_pc r OR 1\<rparr>) s"

definition thread_set_thumb :: "bool \<Rightarrow> emu \<Rightarrow> emu" where
  "thread_set_thumb thumb s =
     upd_regs (\<lambda>r. r\<lparr>cpsr := (cpsr r AND NOT (push_bit 5 1)) OR push_bit 5 (of_bool thumb)\<rparr>) s"

section \<open>Register access\<close>

lemma get_set_reg [reg_simps]:
  "i \<le> 17 \<Longrightarrow> j \<le> 17 \<Longrightarrow> get_reg i (set_reg j v r) = (if i = j then v else get_reg i r)"
  by (simp add: get_reg_def set_reg_def)

lemma get_set_reg_usr:
  "i \<le> 15 \<Longrightarrow> j \<le> 15 \<Longrightarrow> get_reg_usr i (set_reg_usr j v r) = (if i = j then v else get_reg_usr i r)"
  by (auto simp: get_reg_usr_def set_reg_usr_def get_reg_def set_reg_def)

section \<open>Banked registers\<close>

definition valid_mode :: "u32 \<Rightarrow> bool" where
  "valid_mode m = (m \<in> {0x10, 0x11, 0x12, 0x13, 0x17, 0x1B, 0x1F})"

definition same_bank :: "u32 \<Rightarrow> u32 \<Rightarrow> bool" where
  "same_bank m m' = (m = m' \<or> is_user_mode m \<and> is_user_mode m')"

definition saved_reg :: "u32 \<Rightarrow> nat \<Rightarrow> thread_regs \<Rightarrow> u32" where
  "saved_reg m n r =
     (if n \<le> 12 then (if m = 0x11 then f_gp_regs (fiq r) (n - 8) else u_gp_regs (user r) (n - 8))
      else if is_user_mode m then (if n = 13 then u_sp (user r) else u_lr (user r))
      else if m = 0x11 then (if n = 13 then f_sp (fiq r) else f_lr (fiq r))
      else (let b = (if m = 0x12 then irq r else if m = 0x13 then svc r else if m = 0x17 then abt r else und r)
            in if n = 13 then m_sp b else m_lr b))"

text \<open>The abstract register file: what register \<open>n\<close> (8 to 14) is in mode \<open>m\<close>, when the CPU is in
  mode \<open>cur\<close>: the live register where the two modes share it, the saved one otherwise.\<close>

definition shares_reg :: "nat \<Rightarrow> u32 \<Rightarrow> u32 \<Rightarrow> bool" where
  "shares_reg n m m' = (if n \<le> 12 then (m = 0x11) = (m' = 0x11) else same_bank m m')"

definition banked :: "u32 \<Rightarrow> thread_regs \<Rightarrow> u32 \<Rightarrow> nat \<Rightarrow> u32" where
  "banked cur r m n = (if shares_reg n m cur then get_reg n r else saved_reg m n r)"

lemmas mode_defs = saved_reg_def shares_reg_def same_bank_def is_user_mode_def
  save_high_def load_high_def save_user_high_def save_other_def load_other_def get_reg_def

lemma n_cases: "8 \<le> n \<Longrightarrow> n \<le> 14 \<Longrightarrow> 8 \<le> n \<and> n \<le> 12 \<or> n = 13 \<or> n = (14 :: nat)"
  by auto

lemma save_mode_high:
  assumes "valid_mode cur" "8 \<le> n" "n \<le> 12"
  shows "saved_reg m n (save_mode cur r) = (if (m = 0x11) = (cur = 0x11) then gp_regs r n else saved_reg m n r)"
proof -
  have "n - 8 < 5" using assms by simp
  then show ?thesis
    using assms unfolding valid_mode_def insert_iff empty_iff
    by (elim disjE) (simp_all add: saved_reg_def save_mode_def save_high_def save_user_high_def is_user_mode_def)
qed

lemma user_mode_numerals [simp]:
  "is_user_mode 0x10" "is_user_mode 0x1F" "\<not> is_user_mode 0x11" "\<not> is_user_mode 0x12"
  "\<not> is_user_mode 0x13" "\<not> is_user_mode 0x17" "\<not> is_user_mode 0x1B"
  by (simp_all add: is_user_mode_def)

text \<open>What saving the current mode does to each bank's stack pointer and link register.\<close>

lemma save_mode_banks:
  "m_sp (irq (save_mode c r)) = (if c = 0x12 then reg_sp r else m_sp (irq r))"
  "m_lr (irq (save_mode c r)) = (if c = 0x12 then reg_lr r else m_lr (irq r))"
  "m_sp (svc (save_mode c r)) = (if c = 0x13 then reg_sp r else m_sp (svc r))"
  "m_lr (svc (save_mode c r)) = (if c = 0x13 then reg_lr r else m_lr (svc r))"
  "m_sp (abt (save_mode c r)) = (if c = 0x17 then reg_sp r else m_sp (abt r))"
  "m_lr (abt (save_mode c r)) = (if c = 0x17 then reg_lr r else m_lr (abt r))"
  "m_sp (und (save_mode c r)) = (if c = 0x1B then reg_sp r else m_sp (und r))"
  "m_lr (und (save_mode c r)) = (if c = 0x1B then reg_lr r else m_lr (und r))"
  "f_sp (fiq (save_mode c r)) = (if c = 0x11 then reg_sp r else f_sp (fiq r))"
  "f_lr (fiq (save_mode c r)) = (if c = 0x11 then reg_lr r else f_lr (fiq r))"
  "u_sp (user (save_mode c r)) = (if is_user_mode c then reg_sp r else u_sp (user r))"
  "u_lr (user (save_mode c r)) = (if is_user_mode c then reg_lr r else u_lr (user r))"
  by (auto simp: save_mode_def save_user_high_def save_other_def)

lemma save_mode_banked:
  assumes "valid_mode cur" "valid_mode m" "8 \<le> n" "n \<le> 14"
  shows "saved_reg m n (save_mode cur r) = banked cur r m n"
proof -
  have m: "is_user_mode m \<or> m = 0x11 \<or> m = 0x12 \<or> m = 0x13 \<or> m = 0x17 \<or> m = 0x1B"
    using assms(2) by (auto simp: valid_mode_def is_user_mode_def)
  show ?thesis
  proof (cases "n \<le> 12")
    case True
    then show ?thesis using save_mode_high [OF assms(1,3)] by (simp add: banked_def shares_reg_def get_reg_def)
  next
    case False
    then have "n = 13 \<or> n = 14" using assms(4) by auto
    then show ?thesis using m
      by (elim disjE) (auto simp: saved_reg_def save_mode_banks banked_def shares_reg_def same_bank_def get_reg_def)
  qed
qed

lemma load_mode_live:
  assumes "valid_mode new" "8 \<le> n" "n \<le> 14"
  shows "get_reg n (load_mode new r) = saved_reg new n r"
  using assms(1) n_cases [OF assms(2,3)] unfolding valid_mode_def insert_iff empty_iff
  by (elim disjE) (simp_all add: mode_defs load_mode_def)

lemma load_mode_saved: "saved_reg m n (load_mode new r) = saved_reg m n r"
  by (simp add: saved_reg_def load_mode_def load_other_def load_high_def Let_def)

lemma saved_shared:
  "valid_mode m \<Longrightarrow> valid_mode m' \<Longrightarrow> shares_reg n m m' \<Longrightarrow> saved_reg m n r = saved_reg m' n r"
  by (auto simp: mode_defs)

lemma slow_banked:
  assumes "valid_mode cur" "valid_mode new" "valid_mode m" "8 \<le> n" "n \<le> 14"
  shows "banked new (thread_set_cpsr_mode_slow cur new r) m n = banked cur r m n"
proof -
  let ?r = "save_mode cur r"
  have "banked new (load_mode new ?r) m n = saved_reg m n ?r"
    using assms saved_shared [of m new n ?r] by (simp add: banked_def load_mode_live load_mode_saved)
  then show ?thesis
    using save_mode_banked [OF assms(1,3,4,5)] by (simp add: thread_set_cpsr_mode_slow_def)
qed

lemma switch_mode_banked:
  assumes "valid_mode cur" "valid_mode new" "valid_mode m" "8 \<le> n" "n \<le> 14"
  shows "banked new (switch_mode cur new r) m n = banked cur r m n"
proof -
  consider "cur = new" | "is_user_mode cur" "new = 0x12" | "cur = 0x12" "is_user_mode new"
    | "switch_mode cur new r = thread_set_cpsr_mode_slow cur new r"
    unfolding switch_mode_def by argo
  then show ?thesis
  proof cases
    case 1
    then show ?thesis by (simp add: switch_mode_def)
  next
    case 2
    then show ?thesis using n_cases [OF assms(4,5)]
      by (auto simp: switch_mode_def banked_def mode_defs)
  next
    case 3
    then show ?thesis using n_cases [OF assms(4,5)]
      by (auto simp: switch_mode_def banked_def mode_defs)
  next
    case 4
    then show ?thesis using slow_banked [OF assms] by simp
  qed
qed

lemma switch_mode_frame [simp]:
  "cpsr (switch_mode c n r) = cpsr r" "reg_pc (switch_mode c n r) = reg_pc r"
  "ime (switch_mode c n r) = ime r" "ie (switch_mode c n r) = ie r" "irf (switch_mode c n r) = irf r"
  "k < 8 \<Longrightarrow> gp_regs (switch_mode c n r) k = gp_regs r k"
  by (simp_all add: switch_mode_def thread_set_cpsr_mode_slow_def save_mode_def load_mode_def
      load_other_def load_high_def save_user_high_def)

lemma check_for_interrupt_regs [simp]: "regs (cpu_check_for_interrupt s) = regs s"
  by (simp add: cpu_check_for_interrupt_def cpu_schedule_interrupt_def upd_cm_def Let_def)

lemma banked_cong: "n < 16 \<Longrightarrow> banked cur (r\<lparr>spsr := x\<rparr>) m n = banked cur r m n" "n < 16 \<Longrightarrow> banked cur (r\<lparr>cpsr := y\<rparr>) m n = banked cur r m n"
  by (simp_all add: banked_def saved_reg_def get_reg_def)

text \<open>The saved status registers of the five exception modes: the live \<open>spsr\<close> is that of the mode the CPU
  is in, if the switch went through the general path. The fast path neither saves nor loads one.\<close>

definition saved_spsr :: "u32 \<Rightarrow> thread_regs \<Rightarrow> u32" where
  "saved_spsr m r =
     (if m = 0x11 then f_spsr (fiq r)
      else m_spsr (if m = 0x12 then irq r else if m = 0x13 then svc r else if m = 0x17 then abt r else und r))"

definition banked_spsr :: "u32 \<Rightarrow> thread_regs \<Rightarrow> u32 \<Rightarrow> u32" where
  "banked_spsr cur r m = (if m = cur then spsr r else saved_spsr m r)"

definition fast_switch :: "u32 \<Rightarrow> u32 \<Rightarrow> bool" where
  "fast_switch cur new = (is_user_mode cur \<and> new = 0x12 \<or> cur = 0x12 \<and> is_user_mode new)"

lemma banked_spsr_cong:
  "saved_spsr m (r\<lparr>spsr := x\<rparr>) = saved_spsr m r" "saved_spsr m (r\<lparr>cpsr := y\<rparr>) = saved_spsr m r"
  "m \<noteq> cur \<Longrightarrow> banked_spsr cur (r\<lparr>spsr := x\<rparr>) m = banked_spsr cur r m"
  "banked_spsr cur (r\<lparr>cpsr := y\<rparr>) m = banked_spsr cur r m"
  by (simp_all add: saved_spsr_def banked_spsr_def)

lemma switch_mode_spsr_fast:
  "fast_switch cur new \<Longrightarrow> spsr (switch_mode cur new r) = spsr r"
  "fast_switch cur new \<Longrightarrow> saved_spsr m (switch_mode cur new r) = saved_spsr m r"
  by (auto simp: fast_switch_def switch_mode_def saved_spsr_def)

lemma save_mode_spsr:
  assumes "valid_mode cur" "valid_mode m" "\<not> is_user_mode m"
  shows "saved_spsr m (save_mode cur r) = (if m = cur then spsr r else saved_spsr m r)"
  using assms unfolding valid_mode_def insert_iff empty_iff
  by (elim disjE) (simp_all add: saved_spsr_def save_mode_def save_other_def save_user_high_def)

lemma load_mode_spsr:
  assumes "valid_mode new"
  shows "saved_spsr m (load_mode new r) = saved_spsr m r"
    and "\<not> is_user_mode new \<Longrightarrow> spsr (load_mode new r) = saved_spsr new r"
  using assms unfolding valid_mode_def insert_iff empty_iff
  by (elim disjE; simp add: saved_spsr_def load_mode_def load_other_def load_high_def)+

lemma switch_mode_spsr:
  assumes "valid_mode cur" "valid_mode new" "valid_mode m" "\<not> is_user_mode m" "\<not> fast_switch cur new"
  shows "banked_spsr new (switch_mode cur new r) m = banked_spsr cur r m"
proof (cases "cur = new")
  case False
  then have "switch_mode cur new r = load_mode new (save_mode cur r)"
    using assms(5) by (auto simp: switch_mode_def fast_switch_def thread_set_cpsr_mode_slow_def)
  then show ?thesis using assms(4) save_mode_spsr [OF assms(1,3,4)] load_mode_spsr [OF assms(2)]
    by (auto simp: banked_spsr_def)
qed (simp add: switch_mode_def)

text \<open>
  C4: a mode switch is invisible in the registers r8 to r14 of every mode, on the fast user/IRQ path as
  on the general one: whichever mode the CPU comes from and goes to, r8 to r12 of FIQ and of the other
  modes and sp and lr of every mode hold what they held before. The unbanked registers and the program
  counter are untouched, CPSR is the new value and, on an exception entry, SPSR is the old CPSR. The saved
  status registers are preserved in the same sense only on the general path (but for the one an exception
  entry writes). The fast path leaves the live SPSR and all the saved ones as they are: the SPSR of IRQ
  mode stays in the live register only, where a general switch from user mode overwrites it.
\<close>

theorem thread_set_cpsr_banks:
  assumes "valid_mode (cpsr_mode (cpsr (regs s)))" "valid_mode (cpsr_mode v)"
  shows "let r = regs s; r' = regs (thread_set_cpsr v save s) in
    (\<forall>m n. valid_mode m \<and> 8 \<le> n \<and> n \<le> 14 \<longrightarrow>
       banked (cpsr_mode (cpsr r')) r' m n = banked (cpsr_mode (cpsr r)) r m n)
    \<and> (\<forall>n < 8. get_reg n r' = get_reg n r) \<and> reg_pc r' = reg_pc r \<and> cpsr r' = v
    \<and> (save \<longrightarrow> spsr r' = cpsr r)
    \<and> (if fast_switch (cpsr_mode (cpsr r)) (cpsr_mode v)
       then (\<forall>m. saved_spsr m r' = saved_spsr m r) \<and> (\<not> save \<longrightarrow> spsr r' = spsr r)
       else \<forall>m. valid_mode m \<and> \<not> is_user_mode m \<and> \<not> (save \<and> m = cpsr_mode v) \<longrightarrow>
              banked_spsr (cpsr_mode v) r' m = banked_spsr (cpsr_mode (cpsr r)) r m)"
  using switch_mode_banked [OF assms] switch_mode_spsr [OF assms] switch_mode_spsr_fast
  unfolding Let_def thread_set_cpsr_def check_for_interrupt_regs upd_regs_def
  by (simp add: banked_cong get_reg_def banked_spsr_cong)

definition emu_sample :: emu where
  "emu_sample = emu_new\<lparr>regs := thread_regs_default\<lparr>cpsr := 0x1F\<rparr>\<rparr>"

theorem thread_set_cpsr_banks_witness:
  "valid_mode (cpsr_mode (cpsr (regs emu_sample))) \<and> valid_mode (cpsr_mode 0x92)
   \<and> cpsr (regs (thread_set_cpsr 0x92 True emu_sample)) = 0x92 \<and> spsr (regs (thread_set_cpsr 0x92 True emu_sample)) = 0x1F"
proof -
  have m: "valid_mode (cpsr_mode (cpsr (regs emu_sample)))" "valid_mode (cpsr_mode 0x92)"
    by (simp_all add: emu_sample_def valid_mode_def cpsr_mode_def field_def thread_regs_default_def)
  have "cpsr (regs emu_sample) = 0x1F" by (simp add: emu_sample_def)
  then show ?thesis using thread_set_cpsr_banks [OF m, of True] m by (simp add: Let_def)
qed

text \<open>
  Interrupt requests. Raising a source sets exactly its bit in IF. When an enabled source is
  pending the CPU is told to take it at once (the immediate interrupt event is scheduled and the
  cycle budget is used up) exactly if IME is set and CPSR.I is clear; when it is masked the CPU is
  at least released from halt. Acknowledging clears exactly the written bits.
\<close>

theorem send_interrupt_behaviour:
  "let s' = cpu_send_interrupt flag s; pend = (ie (regs s) AND irf (regs s') \<noteq> 0);
       take = (pend \<and> ime (regs s) \<noteq> 0 \<and> \<not> cpsr_irq_disable (cpsr (regs s)))
   in (\<forall>i. bit (irf (regs s')) i = (bit (irf (regs s)) i \<or> i = flag_index flag))
    \<and> (take \<longrightarrow> bit (active_imm_events (cm s')) (31 - imm_index CpuInterrupt)
               \<and> MAX_BRANCH_LOOP_CYCLE_COUNT \<le> accumulated_cycles (rt s') \<and> cpu s' = cpu s)
    \<and> (\<not> take \<longrightarrow> cm s' = cm s \<and> rt s' = rt s)
    \<and> (pend \<and> \<not> take \<longrightarrow> \<not> bit (halt (cpu s')) 0)
    \<and> (\<forall>m v i. bit (irf (regs (cpu_set_irf m v s))) i = (bit (irf (regs s)) i \<and> \<not> (bit v i \<and> bit m i)))"
proof -
  let ?s' = "cpu_send_interrupt flag s"
  let ?irf = "irf (regs s) OR push_bit (flag_index flag) 1"
  have i: "flag_index flag < 32" by (cases flag) simp_all
  have irf': "irf (regs ?s') = ?irf"
    by (simp add: cpu_send_interrupt_def Let_def upd_regs_def cpu_unhalt_def upd_cpu_def)
  have take: "?s' = cpu_check_for_interrupt (s\<lparr>regs := (regs s)\<lparr>irf := ?irf\<rparr>\<rparr>)"
    if "ie (regs s) AND ?irf \<noteq> 0" "ime (regs s) \<noteq> 0" "\<not> cpsr_irq_disable (cpsr (regs s))"
    using that by (simp add: cpu_send_interrupt_def Let_def upd_regs_def)
  have no: "cm ?s' = cm s \<and> rt ?s' = rt s \<and> (ie (regs s) AND ?irf \<noteq> 0 \<longrightarrow> \<not> bit (halt (cpu ?s')) 0)"
    if "\<not> (ie (regs s) AND ?irf \<noteq> 0 \<and> ime (regs s) \<noteq> 0 \<and> \<not> cpsr_irq_disable (cpsr (regs s)))"
    using that by (auto simp: cpu_send_interrupt_def Let_def upd_regs_def cpu_unhalt_def upd_cpu_def bit_simps)
  have yes: "bit (active_imm_events (cm ?s')) (31 - imm_index CpuInterrupt)
       \<and> MAX_BRANCH_LOOP_CYCLE_COUNT \<le> accumulated_cycles (rt ?s') \<and> cpu ?s' = cpu s"
    if t: "ie (regs s) AND ?irf \<noteq> 0" "ime (regs s) \<noteq> 0" "\<not> cpsr_irq_disable (cpsr (regs s))"
    unfolding take [OF t] using t
    by (simp add: cpu_check_for_interrupt_def irq_pending_def cpu_schedule_interrupt_def upd_cm_def
        schedule_imm_def Let_def bit_or_iff not_less)
  have "\<forall>j. bit ?irf j = (bit (irf (regs s)) j \<or> j = flag_index flag)"
    using i by (auto simp: bit_or_iff bit_exp_iff push_bit_eq_mult)
  moreover have "\<forall>m v i. bit (irf (regs (cpu_set_irf m v s))) i = (bit (irf (regs s)) i \<and> \<not> (bit v i \<and> bit m i))"
    by (auto simp: cpu_set_irf_def upd_regs_def bit_simps dest: bit_imp_le_length)
  ultimately show ?thesis unfolding Let_def irf' using no yes by blast
qed

theorem send_interrupt_behaviour_witness:
  "let s = emu_new\<lparr>regs := thread_regs_default\<lparr>ime := 1, ie := 1\<rparr>\<rparr>; s' = cpu_send_interrupt LcdVBlank s
   in bit (irf (regs s')) 0 \<and> bit (active_imm_events (cm s')) 31"
proof -
  let ?s = "emu_new\<lparr>regs := thread_regs_default\<lparr>ime := 1, ie := 1\<rparr>\<rparr>"
  note send_interrupt_behaviour [of LcdVBlank ?s, unfolded Let_def]
  moreover from this have "bit (irf (regs (cpu_send_interrupt LcdVBlank ?s))) 0" by simp
  moreover from this have "1 AND irf (regs (cpu_send_interrupt LcdVBlank ?s)) \<noteq> 0"
    by (simp add: one_and_eq bit_0 odd_iff_mod_2_eq_one)
  ultimately show ?thesis
    by (simp add: Let_def thread_regs_default_def cpsr_irq_disable_def)
qed

end
