(* ===== verification/Devices.thy ===== *)
theory Devices
  imports Cpu
begin

text \<open>
  The devices that need no memory access: the DMA registers and triggers of
  \<open>src/src/core/memory/dma.rs\<close>, the sound-FIFO timer hook of \<open>src/src/core/apu.rs\<close>, the timers of
  \<open>src/src/core/timers.rs\<close> and the keypad of \<open>src/src/core/input.rs\<close>.
\<close>

section \<open>DMA registers (dma.rs)\<close>

datatype dma_addr_ctrl = Increment | Decrement | Fixed | IncrementReload

definition dma_addr_ctrl_from :: "u32 \<Rightarrow> dma_addr_ctrl" where
  "dma_addr_ctrl_from w = (if w = 0 then Increment else if w = 1 then Decrement
                           else if w = 2 then Fixed else IncrementReload)"

datatype dma_transfer_mode = StartImm | StartAtVBlank | StartAtHBlank | Special

text \<open>The bit fields of \<open>DmaCnt\<close> and \<open>DmaCntArm7\<close> that are read.\<close>

definition dma_enable :: "u32 \<Rightarrow> bool" where "dma_enable w = bit w 31"
definition dma_irq_at_end :: "u32 \<Rightarrow> bool" where "dma_irq_at_end w = bit w 30"
definition dma_transfer_type :: "u32 \<Rightarrow> bool" where "dma_transfer_type w = bit w 26"
definition dma_repeat :: "u32 \<Rightarrow> bool" where "dma_repeat w = bit w 25"
definition dma_src_ctrl :: "u32 \<Rightarrow> dma_addr_ctrl" where "dma_src_ctrl w = dma_addr_ctrl_from (field 23 2 w)"
definition dma_dest_ctrl :: "u32 \<Rightarrow> dma_addr_ctrl" where "dma_dest_ctrl w = dma_addr_ctrl_from (field 21 2 w)"

definition dma_mode :: "u32 \<Rightarrow> dma_transfer_mode" where
  "dma_mode w = (let m = field 28 2 w in
     if m = 0 then StartImm else if m = 1 then StartAtVBlank else if m = 2 then StartAtHBlank else Special)"

definition dma_word_count :: "u32 \<Rightarrow> nat \<Rightarrow> u32" where
  "dma_word_count w channel_num =
     (let count = field 0 16 w; mx = (if channel_num = 3 then 0x10000 else 0x4000)
      in if count = 0 then mx else count)"

definition dma_addr_mask :: "nat \<Rightarrow> u32" where
  "dma_addr_mask n = (if n \<noteq> 0 then 0x0FFFFFFF else 0x07FFFFFF)"

definition dma_set_sad :: "nat \<Rightarrow> u32 \<Rightarrow> u32 \<Rightarrow> emu \<Rightarrow> emu" where
  "dma_set_sad n m v s = upd_dma n (\<lambda>d. d\<lparr>sad := masked (sad d) (m AND dma_addr_mask n) v\<rparr>) s"

definition dma_set_dad :: "nat \<Rightarrow> u32 \<Rightarrow> u32 \<Rightarrow> emu \<Rightarrow> emu" where
  "dma_set_dad n m v s = upd_dma n (\<lambda>d. d\<lparr>dad := masked (dad d) (m AND dma_addr_mask n) v\<rparr>) s"

definition dma_set_cnt :: "nat \<Rightarrow> u32 \<Rightarrow> u32 \<Rightarrow> emu \<Rightarrow> emu" where
  "dma_set_cnt n m v s =
     (let was_enabled = dma_enable (d_cnt (dmas s n));
          m = m AND (if n = 3 then 0xF7E0FFFF else 0xF7E03FFF);
          s = upd_dma n (\<lambda>d. d\<lparr>d_cnt := masked (d_cnt d) m v\<rparr>) s;
          w = d_cnt (dmas s n)
      in if \<not> was_enabled \<and> dma_enable w then
           (let s = upd_dma n (\<lambda>d. d\<lparr>current_src := sad d, current_dest := dad d,
                                     current_count := dma_word_count w n\<rparr>) s
            in if dma_mode w = StartImm
               then upd_cm (schedule_imm (imm_dma n)) (s\<lparr>breakout_imm := True\<rparr>) else s)
         else s)"

definition dma_ready :: "dma_transfer_mode \<Rightarrow> u8 \<Rightarrow> nat \<Rightarrow> emu \<Rightarrow> bool" where
  "dma_ready mode channels i s =
     (channels AND push_bit i 1 \<noteq> 0 \<and> dma_enable (d_cnt (dmas s i)) \<and> dma_mode (d_cnt (dmas s i)) = mode)"

definition dma_trigger :: "dma_transfer_mode \<Rightarrow> u8 \<Rightarrow> emu \<Rightarrow> emu" where
  "dma_trigger mode channels s =
     fold (\<lambda>i s. if dma_ready mode channels i s then upd_cm (schedule_imm (imm_dma i)) s else s) [0..<4] s"

definition dma_trigger_all :: "dma_transfer_mode \<Rightarrow> emu \<Rightarrow> emu" where
  "dma_trigger_all mode s = dma_trigger mode 0xF s"

definition dma_is_scheduled :: "dma_transfer_mode \<Rightarrow> u8 \<Rightarrow> emu \<Rightarrow> bool" where
  "dma_is_scheduled mode channels s = list_ex (\<lambda>i. dma_ready mode channels i s) [0..<4]"

section \<open>Sound FIFO timer (apu.rs)\<close>

definition fifo_timer_step :: "nat \<Rightarrow> nat \<Rightarrow> emu \<Rightarrow> emu" where
  "fifo_timer_step timer f s =
     (let select_bit = (if f = 0 then 10 else 14) in
      if unat (drop_bit select_bit (main_cnt_h (apus s)) AND 1) \<noteq> timer then s
      else (let (v, a) = fifo_pop f (apus s);
                a = (case v of Some b \<Rightarrow> a\<lparr>sample_ab := (sample_ab a)(f := b)\<rparr> | None \<Rightarrow> a);
                s = s\<lparr>apus := a\<rparr>
            in if fifo_len a f \<le> 16 then dma_trigger Special (push_bit (f + 1) 1) s else s))"

definition apu_on_fifo_timer :: "nat \<Rightarrow> emu \<Rightarrow> emu" where
  "apu_on_fifo_timer timer s = fold (fifo_timer_step timer) [0, 1] s"

definition CYCLES_PER_SAMPLE :: u32 where "CYCLES_PER_SAMPLE = 512"

definition apu_initialize_schedule :: "emu \<Rightarrow> emu" where
  "apu_initialize_schedule s = upd_cm (schedule CYCLES_PER_SAMPLE ApuSample) s"

text \<open>The sample goes to the host's audio queue; it is the first component of the result.\<close>

definition apu_on_sample_event :: "emu \<Rightarrow> u32 \<times> emu" where
  "apu_on_sample_event s =
     (let (sample, a) = run_sample (apus s)
      in (sample, upd_cm (schedule_from_due CYCLES_PER_SAMPLE ApuSample) (s\<lparr>apus := a\<rparr>)))"

section \<open>Timers (timers.rs)\<close>

definition TIME_OVERFLOW :: u32 where "TIME_OVERFLOW = 0x10000"

definition t_prescaler :: "u16 \<Rightarrow> u16" where "t_prescaler w = field 0 2 w"
definition t_count_up :: "u16 \<Rightarrow> bool" where "t_count_up w = bit w 2"
definition t_irq_enable :: "u16 \<Rightarrow> bool" where "t_irq_enable w = bit w 6"
definition t_start :: "u16 \<Rightarrow> bool" where "t_start w = bit w 7"

definition is_count_up :: "nat \<Rightarrow> u16 \<Rightarrow> bool" where
  "is_count_up n w = (n \<noteq> 0 \<and> t_count_up w)"

definition timers_get_cnt_l :: "nat \<Rightarrow> emu \<Rightarrow> u16 \<times> emu" where
  "timers_get_cnt_l n s =
     (let c = tmrs s n;
          s = (if t_start (t_cnt_h c) \<and> \<not> is_count_up n (t_cnt_h c) then
                 (let diff = scheduled_cycle c - cycle_count (cm s)
                  in upd_timer n (\<lambda>c. c\<lparr>current_value :=
                       ucast (TIME_OVERFLOW - drop_bit (unat (current_shift c)) diff)\<rparr>) s)
               else s)
      in (current_value (tmrs s n), s))"

definition timers_get_cnt_h :: "nat \<Rightarrow> emu \<Rightarrow> u16" where
  "timers_get_cnt_h n s = t_cnt_h (tmrs s n)"

definition timers_set_cnt_l :: "nat \<Rightarrow> u16 \<Rightarrow> u16 \<Rightarrow> emu \<Rightarrow> emu" where
  "timers_set_cnt_l n m v s = upd_timer n (\<lambda>c. c\<lparr>t_cnt_l := masked (t_cnt_l c) m v\<rparr>) s"

text \<open>\<open>(TIME_OVERFLOW - current_value) << current_shift\<close>.\<close>

definition remaining_cycles :: "timer_channel \<Rightarrow> u32" where
  "remaining_cycles c = push_bit (unat (current_shift c)) (TIME_OVERFLOW - ucast (current_value c))"

definition timers_set_cnt_h :: "nat \<Rightarrow> u16 \<Rightarrow> u16 \<Rightarrow> emu \<Rightarrow> emu" where
  "timers_set_cnt_h n m v s =
     (let old = tmrs s n; m = m AND 0xC7;
          c = old\<lparr>t_cnt_h := masked (t_cnt_h old) m v\<rparr>; w = t_cnt_h c;
          started = (\<not> t_start (t_cnt_h old) \<and> t_start w);
          c = (if started then c\<lparr>current_value := t_cnt_l c\<rparr> else c);
          shift = (if t_prescaler w = 0 \<or> is_count_up n w then 0
                   else 4 + push_bit 1 (ucast (t_prescaler w)));
          reshift = (m AND 0xFF \<noteq> 0 \<and> current_shift c \<noteq> shift);
          c = (if reshift then c\<lparr>current_shift := shift\<rparr> else c);
          s = upd_timer n (\<lambda>_. c) s
      in if (started \<or> reshift) \<and> t_start w \<and> \<not> is_count_up n w then
           upd_cm (schedule (remaining_cycles c) (event_timer n))
             (upd_timer n (\<lambda>c. c\<lparr>scheduled_cycle := cycle_count (cm s) + remaining_cycles c\<rparr>) s)
         else s)"

text \<open>\<open>timers_overflow\<close> on channel \<open>n\<close>; it calls itself on \<open>n + 1 \<le> 3\<close> only.\<close>

function timers_overflow :: "nat \<Rightarrow> emu \<Rightarrow> emu" where
  "timers_overflow n s =
     (let w = t_cnt_h (tmrs s n) in
      if \<not> t_start w then s
      else
        (let s = upd_timer n (\<lambda>c. c\<lparr>current_value := t_cnt_l c\<rparr>) s;
             s = (if \<not> is_count_up n w then
                    (let k = remaining_cycles (tmrs s n)
                     in upd_cm (schedule_from_due k (event_timer n))
                          (upd_timer n (\<lambda>c. c\<lparr>scheduled_cycle := saturating_add (current_event_due (cm s)) k\<rparr>) s))
                  else s);
             s = (if t_irq_enable w then cpu_send_interrupt (timer_flag n) s else s);
             s = (if n < 2 then apu_on_fifo_timer n s else s)
         in if n < 3 \<and> t_count_up (t_cnt_h (tmrs s n)) then
              (let s = upd_timer n (\<lambda>c. c\<lparr>current_value := current_value c + 1\<rparr>) s
               in if current_value (tmrs s n) = 0 then timers_overflow (n + 1) s else s)
            else s))"
  by auto
termination by (relation "measure (\<lambda>(n, s). 3 - n)") auto

declare timers_overflow.simps [simp del]

section \<open>Keypad (input.rs)\<close>

definition get_key_input :: "input_state \<Rightarrow> u16" where
  "get_key_input i = (key_input i AND NOT 0x3FF) OR ucast (key_map i AND 0x3FF)"

definition set_key_cnt :: "u16 \<Rightarrow> u16 \<Rightarrow> emu \<Rightarrow> emu" where
  "set_key_cnt m v s = s\<lparr>inp := (inp s)\<lparr>key_cnt := masked (key_cnt (inp s)) (m AND 0xC3FF) v\<rparr>\<rparr>"

definition keypad_hit :: "input_state \<Rightarrow> bool" where
  "keypad_hit i =
     (let pressed = NOT (get_key_input i) AND 0x3FF; selected = key_cnt i AND 0x3FF
      in if key_cnt i AND 0x8000 \<noteq> 0 then selected \<noteq> 0 \<and> pressed AND selected = selected
         else pressed AND selected \<noteq> 0)"

definition input_process_hotkeys :: "emu \<Rightarrow> emu" where
  "input_process_hotkeys s =
     (if key_cnt (inp s) AND 0x4000 \<noteq> 0 then
        (let hit = keypad_hit (inp s);
             s = (if hit \<and> \<not> prev_keypad_irq (inp s) then cpu_send_interrupt Keypad s else s)
         in s\<lparr>inp := (inp s)\<lparr>prev_keypad_irq := hit\<rparr>\<rparr>)
      else s\<lparr>inp := (inp s)\<lparr>prev_keypad_irq := False\<rparr>\<rparr>)"

section \<open>Timer properties\<close>

lemma word_eq_of_natI: "unat w = n \<Longrightarrow> w = of_nat n" for w :: "'a::len word"
  by (metis of_nat_unat ucast_id)

lemma dma_trigger_frame [simp]:
  "regs (dma_trigger md ch s) = regs s" "tmrs (dma_trigger md ch s) = tmrs s" "apus (dma_trigger md ch s) = apus s"
  "events (cm (dma_trigger md ch s)) = events (cm s)" "dmas (dma_trigger md ch s) = dmas s"
proof -
  have "regs (fold (\<lambda>i s. if dma_ready md ch i s then upd_cm (schedule_imm (imm_dma i)) s else s) xs s) = regs s
    \<and> tmrs (fold (\<lambda>i s. if dma_ready md ch i s then upd_cm (schedule_imm (imm_dma i)) s else s) xs s) = tmrs s
    \<and> apus (fold (\<lambda>i s. if dma_ready md ch i s then upd_cm (schedule_imm (imm_dma i)) s else s) xs s) = apus s
    \<and> events (cm (fold (\<lambda>i s. if dma_ready md ch i s then upd_cm (schedule_imm (imm_dma i)) s else s) xs s)) = events (cm s)
    \<and> dmas (fold (\<lambda>i s. if dma_ready md ch i s then upd_cm (schedule_imm (imm_dma i)) s else s) xs s) = dmas s" for xs
    by (induction xs arbitrary: s) (simp_all add: upd_cm_def schedule_imm_def)
  then show "regs (dma_trigger md ch s) = regs s" "tmrs (dma_trigger md ch s) = tmrs s" "apus (dma_trigger md ch s) = apus s"
    "events (cm (dma_trigger md ch s)) = events (cm s)" "dmas (dma_trigger md ch s) = dmas s"
    unfolding dma_trigger_def by blast+
qed

lemma fifo_timer_frame [simp]:
  "regs (apu_on_fifo_timer t s) = regs s" "tmrs (apu_on_fifo_timer t s) = tmrs s"
  "events (cm (apu_on_fifo_timer t s)) = events (cm s)"
proof -
  have "regs (fifo_timer_step t f s) = regs s \<and> tmrs (fifo_timer_step t f s) = tmrs s
      \<and> events (cm (fifo_timer_step t f s)) = events (cm s)" for f s
    by (simp add: fifo_timer_step_def Let_def split_beta)
  then show "regs (apu_on_fifo_timer t s) = regs s" "tmrs (apu_on_fifo_timer t s) = tmrs s"
    "events (cm (apu_on_fifo_timer t s)) = events (cm s)"
    by (simp_all add: apu_on_fifo_timer_def)
qed

lemma send_interrupt_frame [simp]:
  "tmrs (cpu_send_interrupt f s) = tmrs s" "events (cm (cpu_send_interrupt f s)) = events (cm s)"
  "irf (regs (cpu_send_interrupt f s)) = irf (regs s) OR push_bit (flag_index f) 1"
  "ie (regs (cpu_send_interrupt f s)) = ie (regs s)"
  by (simp_all add: cpu_send_interrupt_def cpu_check_for_interrupt_def cpu_schedule_interrupt_def cpu_unhalt_def
      schedule_imm_def reg_simps Let_def)

text \<open>
  An overflow of a running, non-cascading timer reloads the counter, schedules the next overflow
  exactly one period after the due cycle of this one (not after the cycle it was noticed), requests
  its interrupt exactly if enabled, and touches no other channel. In particular a count-up timer is
  not advanced by the overflow of the timer below it.
\<close>

theorem timers_overflow_reload:
  assumes "t_start (t_cnt_h (tmrs s n))" "\<not> t_count_up (t_cnt_h (tmrs s n))"
  shows "let s' = timers_overflow n s; c = tmrs s n;
             period = push_bit (unat (current_shift c)) (0x10000 - ucast (t_cnt_l c)) :: u32;
             due = saturating_add (current_event_due (cm s)) period
    in current_value (tmrs s' n) = t_cnt_l c \<and> scheduled_cycle (tmrs s' n) = due
     \<and> events (cm s') (event_index (event_timer n)) = due
     \<and> irf (regs s') = (if t_irq_enable (t_cnt_h c) then irf (regs s) OR push_bit (flag_index (timer_flag n)) 1
                        else irf (regs s))
     \<and> (\<forall>k. k \<noteq> n \<longrightarrow> tmrs s' k = tmrs s k)"
  using assms unfolding Let_def timers_overflow.simps [of n s]
  by (simp add: is_count_up_def reg_simps schedule_from_due_def set_event_def remaining_cycles_def TIME_OVERFLOW_def)

definition timer_sample :: emu where
  "timer_sample = emu_sample\<lparr>tmrs := (\<lambda>n. timer_default\<lparr>t_cnt_l := 0xFFF0, t_cnt_h := (if n = 0 then 0xC1 else 0xC4),
                     current_shift := 6\<rparr>),
                  cm := cm_new\<lparr>current_event_due := 1000\<rparr>\<rparr>"

theorem timers_overflow_reload_witness:
  "t_start (t_cnt_h (tmrs timer_sample 0)) \<and> \<not> t_count_up (t_cnt_h (tmrs timer_sample 0))
   \<and> is_count_up 1 (t_cnt_h (tmrs timer_sample 1)) \<and> t_start (t_cnt_h (tmrs timer_sample 1))
   \<and> scheduled_cycle (tmrs (timers_overflow 0 timer_sample) 0) = 2024
   \<and> tmrs (timers_overflow 0 timer_sample) 1 = tmrs timer_sample 1"
proof -
  have c: "t_start (t_cnt_h (tmrs timer_sample 0))" "\<not> t_count_up (t_cnt_h (tmrs timer_sample 0))"
      "is_count_up 1 (t_cnt_h (tmrs timer_sample 1))" "t_start (t_cnt_h (tmrs timer_sample 1))"
    by (simp_all add: timer_sample_def t_start_def t_count_up_def is_count_up_def)
  have p: "saturating_add (current_event_due (cm timer_sample))
      (push_bit (unat (current_shift (tmrs timer_sample 0))) (0x10000 - ucast (t_cnt_l (tmrs timer_sample 0)))) = (2024 :: u32)"
    by (simp add: timer_sample_def saturating_add_def push_bit_eq_mult)
  show ?thesis using timers_overflow_reload [OF c(1,2)] c unfolding Let_def p by simp
qed

text \<open>The prescaler shift the control register selects: 1, 64, 256 or 1024 cycles a tick.\<close>

definition tick_shift :: "u16 \<Rightarrow> nat" where
  "tick_shift w = (if t_prescaler w = 0 then 0 else 4 + 2 * unat (t_prescaler w))"

lemma t_prescaler_less: "unat (t_prescaler w) < 4"
  unfolding t_prescaler_def using unat_field_less [of 2 0 w] by simp

lemma tick_shift_u8: "unat (4 + push_bit 1 (ucast (t_prescaler w)) :: u8) = 4 + 2 * unat (t_prescaler w)"
proof -
  have "unat (ucast (t_prescaler w) :: u8) = unat (t_prescaler w)"
    using t_prescaler_less [of w] by (simp add: unsigned_ucast_eq take_bit_nat_eq_self)
  then show ?thesis using t_prescaler_less [of w] by (simp add: push_bit_eq_mult unat_word_ariths)
qed

lemma ceil_bounds:
  fixes a k d :: nat
  assumes "0 < d" "k \<le> a * d"
  defines "q \<equiv> (k + d - 1) div d"
  shows "k \<le> q * d" "q * d < k + d" "q \<le> a"
proof -
  show q: "k \<le> q * d" "q * d < k + d"
    unfolding q_def using assms(1) div_mult_mod_eq [of "k + d - 1" d] mod_less_divisor [OF assms(1), of "k + d - 1"]
    by linarith+
  show "q \<le> a"
  proof (rule ccontr)
    assume "\<not> q \<le> a"
    then have "Suc a * d \<le> q * d" by (intro mult_le_mono1) simp
    then show False using q(2) assms(2) by simp
  qed
qed

lemma ceil_div:
  fixes a k d :: nat
  assumes "0 < d" "k \<le> a * d"
  shows "(a * d - k) div d = a - (k + d - 1) div d"
proof -
  let ?q = "(k + d - 1) div d"
  note q = ceil_bounds [OF assms]
  have "(a - ?q) * d \<le> a * d - k" "a * d - k < (a - ?q) * d + d"
    using q assms(2) by (auto simp: diff_mult_distrib)
  then show ?thesis by (intro div_nat_eqI) (simp_all add: mult.commute)
qed

text \<open>The control value after a masked write to a stopped timer that starts it.\<close>

definition timer_starts :: "nat \<Rightarrow> u16 \<Rightarrow> u16 \<Rightarrow> emu \<Rightarrow> bool" where
  "timer_starts n m v s =
     (let w = masked (t_cnt_h (tmrs s n)) (m AND 0xC7) v
      in \<not> t_start (t_cnt_h (tmrs s n)) \<and> t_start w \<and> \<not> is_count_up n w)"

lemma timer_start_state:
  assumes "timer_starts n m v s"
  defines "w \<equiv> masked (t_cnt_h (tmrs s n)) (m AND 0xC7) v"
  defines "c \<equiv> tmrs (timers_set_cnt_h n m v s) n"
  shows "t_cnt_h c = w" "unat (current_shift c) = tick_shift w" "current_value c = t_cnt_l (tmrs s n)"
    "scheduled_cycle c = cycle_count (cm s) + remaining_cycles c"
    "cycle_count (cm (timers_set_cnt_h n m v s)) = cycle_count (cm s)"
proof -
  have st: "\<not> t_start (t_cnt_h (tmrs s n))" "t_start w" "\<not> is_count_up n w"
    using assms(1) by (simp_all add: timer_starts_def w_def Let_def)
  have "bit (m AND 0xC7) 7" using st(1,2) unfolding w_def t_start_def bit_masked by presburger
  moreover have "(m AND 0xC7) AND 0xFF = m AND 0xC7" by (simp add: and.assoc)
  ultimately have m: "(m AND 0xC7) AND 0xFF \<noteq> 0" by auto
  show "t_cnt_h c = w" "unat (current_shift c) = tick_shift w" "current_value c = t_cnt_l (tmrs s n)"
    "scheduled_cycle c = cycle_count (cm s) + remaining_cycles c"
    "cycle_count (cm (timers_set_cnt_h n m v s)) = cycle_count (cm s)"
    using st m tick_shift_u8 [of w]
    unfolding c_def timers_set_cnt_h_def Let_def w_def [symmetric]
    by (simp_all add: reg_simps schedule_def set_event_def Let_def tick_shift_def remaining_cycles_def)
qed

text \<open>
  A timer started with reload value \<open>L\<close> and a prescaler of \<open>2 ^ t\<close> cycles reads, \<open>k\<close> cycles
  later and until it overflows, \<open>L\<close> plus the number of ticks begun: \<open>k\<close> divided by \<open>2 ^ t\<close>, rounded
  up. Its overflow event is due after exactly \<open>(0x10000 - L) * 2 ^ t\<close> cycles.
\<close>

theorem timer_counts:
  assumes "timer_starts n m v s"
    "k \<le> (0x10000 - unat (t_cnt_l (tmrs s n))) * 2 ^ tick_shift (masked (t_cnt_h (tmrs s n)) (m AND 0xC7) v)"
  shows "let s1 = timers_set_cnt_h n m v s; t = tick_shift (t_cnt_h (tmrs s1 n)); L = unat (t_cnt_l (tmrs s n));
             s2 = s1\<lparr>cm := (cm s1)\<lparr>cycle_count := cycle_count (cm s1) + of_nat k\<rparr>\<rparr>
    in fst (timers_get_cnt_l n s2) = of_nat (L + (k + 2 ^ t - 1) div 2 ^ t)
     \<and> scheduled_cycle (tmrs s1 n) = cycle_count (cm s) + of_nat ((0x10000 - L) * 2 ^ t)"
proof -
  define w where "w = masked (t_cnt_h (tmrs s n)) (m AND 0xC7) v"
  define s1 where "s1 = timers_set_cnt_h n m v s"
  define t where "t = tick_shift w"
  define L where "L = unat (t_cnt_l (tmrs s n))"
  note st = timer_start_state [OF assms(1), folded w_def s1_def]
  have t: "t \<le> 10" using t_prescaler_less [of w] by (auto simp: t_def tick_shift_def)
  have "L < 2 ^ LENGTH(16)" unfolding L_def by (rule unsigned_less)
  then have L: "L < 65536" by simp
  have k: "k \<le> (0x10000 - L) * 2 ^ t" using assms(2) by (simp add: L_def t_def w_def)
  have pow: "(2::nat) ^ t \<le> 2 ^ 10" using t by (intro power_increasing) auto
  have big: "(0x10000 - L) * 2 ^ t < 2 ^ 32"
  proof -
    have "(0x10000 - L) * 2 ^ t \<le> 0x10000 * 2 ^ 10" using pow by (intro mult_le_mono) auto
    then show ?thesis by simp
  qed
  have "unat (0x10000 - ucast (t_cnt_l (tmrs s n)) :: u32) = 0x10000 - L"
    using L by (simp add: unat_sub word_le_nat_alt unsigned_ucast_eq take_bit_nat_eq_self L_def)
  then have u: "(0x10000 - ucast (t_cnt_l (tmrs s n)) :: u32) = of_nat (0x10000 - L)"
    by (rule word_eq_of_natI)
  have rem: "remaining_cycles (tmrs s1 n) = of_nat ((0x10000 - L) * 2 ^ t)"
    unfolding remaining_cycles_def st(2,3) TIME_OVERFLOW_def u by (simp add: push_bit_eq_mult t_def)
  have "unat (of_nat ((0x10000 - L) * 2 ^ t) - of_nat k :: u32) = (0x10000 - L) * 2 ^ t - k"
    using k big by (simp add: unat_of_nat take_bit_nat_eq_self del: of_nat_mult flip: of_nat_diff)
  then have dr: "drop_bit t (of_nat ((0x10000 - L) * 2 ^ t) - of_nat k :: u32) = of_nat ((0x10000 - L) - (k + 2 ^ t - 1) div 2 ^ t)"
    using ceil_div [of "2 ^ t" k "0x10000 - L"] k
    by (intro word_eq_of_natI, unfold unat_drop_bit_eq) (simp add: drop_bit_eq_div)
  define q where "q = (k + 2 ^ t - 1) div 2 ^ t"
  have q: "q \<le> 0x10000 - L" unfolding q_def using k by (intro ceil_bounds) simp
  let ?s2 = "s1\<lparr>cm := (cm s1)\<lparr>cycle_count := cycle_count (cm s1) + of_nat k\<rparr>\<rparr>"
  have run: "t_start w" "\<not> is_count_up n w"
    using assms(1) by (simp_all add: timer_starts_def w_def Let_def)
  have diff: "scheduled_cycle (tmrs s1 n) - (cycle_count (cm s1) + of_nat k) = remaining_cycles (tmrs s1 n) - of_nat k"
    unfolding st(4) st(5) by (simp only: add_diff_cancel_left)
  have "fst (timers_get_cnt_l n ?s2) = ucast (0x10000 - drop_bit t (remaining_cycles (tmrs s1 n) - of_nat k))"
    unfolding timers_get_cnt_l_def Let_def using run st(1,2)
    by (simp add: upd_timer_def TIME_OVERFLOW_def t_def diff)
  also have "(0x10000 - drop_bit t (remaining_cycles (tmrs s1 n) - of_nat k) :: u32) = of_nat (L + q)"
    unfolding rem dr q_def [symmetric] using q L by (simp add: of_nat_diff)
  also have "ucast (of_nat (L + q) :: u32) = (of_nat (L + q) :: u16)"
    using q L by (simp add: unsigned_of_nat take_bit_nat_eq_self del: of_nat_add)
  finally show ?thesis
    unfolding Let_def s1_def [symmetric] st(1) t_def [symmetric] L_def [symmetric] q_def [symmetric] st(4) rem by simp
qed

theorem timer_counts_witness:
  "timer_starts 1 0xFFFF 0x81 emu_sample
   \<and> fst (timers_get_cnt_l 1 ((timers_set_cnt_h 1 0xFFFF 0x81 emu_sample)
       \<lparr>cm := (cm (timers_set_cnt_h 1 0xFFFF 0x81 emu_sample))\<lparr>cycle_count :=
          cycle_count (cm (timers_set_cnt_h 1 0xFFFF 0x81 emu_sample)) + of_nat 130\<rparr>\<rparr>)) = of_nat 3"
proof -
  have w: "masked (t_cnt_h (tmrs emu_sample 1)) (0xFFFF AND 0xC7) 0x81 = 0x81"
    by (simp add: emu_sample_def emu_new_def timer_default_def masked_def)
  have L: "t_cnt_l (tmrs emu_sample 1) = 0" by (simp add: emu_sample_def emu_new_def timer_default_def)
  have st: "timer_starts 1 0xFFFF 0x81 emu_sample"
    unfolding timer_starts_def w Let_def
    by (simp add: emu_sample_def emu_new_def timer_default_def t_start_def is_count_up_def t_count_up_def)
  have t: "tick_shift 0x81 = 6" by (simp add: tick_shift_def t_prescaler_def field_def)
  have k: "130 \<le> (0x10000 - unat (t_cnt_l (tmrs emu_sample 1))) *
      2 ^ tick_shift (masked (t_cnt_h (tmrs emu_sample 1)) (0xFFFF AND 0xC7) 0x81)"
    unfolding w L t by simp
  have "t_cnt_h (tmrs (timers_set_cnt_h 1 0xFFFF 0x81 emu_sample) 1) = 0x81"
    using timer_start_state(1) [OF st] w by simp
  then show ?thesis
    using timer_counts [OF st k] st t L by (simp add: Let_def)
qed

end
