(* ===== verification/Gpu.thy ===== *)
theory Gpu
  imports Devices
begin

text \<open>
  The display timing of \<open>src/src/core/gpu.rs\<close>: the DISPSTAT/DISPCNT registers, the two scanline
  events, the affine reference registers of \<open>src/src/core/ppu.rs\<close>, and the vblank hand-over of a
  frame to the renderer (\<open>capture_scanline\<close>, \<open>on_frame_finish\<close>, \<open>queue_frame\<close> and the memory
  snapshot of \<open>src/src/core/graphics/gpu_mem_buf.rs\<close>). The frame-rate counter, the pause loop and
  the savestate, rewind and screenshot requests served at vblank are host concerns and not
  modelled: the event is the one of a running, unpaused game with no request pending.
\<close>

section \<open>Registers\<close>

definition set_flag :: "nat \<Rightarrow> bool \<Rightarrow> u16 \<Rightarrow> u16" where
  "set_flag n b w = (w AND NOT (push_bit n 1)) OR push_bit n (of_bool b)"

definition set_disp_stat :: "u16 \<Rightarrow> u16 \<Rightarrow> gpu \<Rightarrow> gpu" where
  "set_disp_stat m v g = g\<lparr>disp_stat := masked (disp_stat g) (m AND 0xFFB8) v\<rparr>"

definition set_disp_cnt :: "u16 \<Rightarrow> u16 \<Rightarrow> gpu \<Rightarrow> gpu" where
  "set_disp_cnt m v g = g\<lparr>disp_cnt := masked (disp_cnt g) m v\<rparr>"

text \<open>The 28-bit sign extension \<open>((masked << 4) as i32) >> 4\<close>.\<close>

definition sext28 :: "u32 \<Rightarrow> u32" where
  "sext28 w = signed_drop_bit 4 (push_bit 4 w)"

definition set_bg_x :: "nat \<Rightarrow> u32 \<Rightarrow> u32 \<Rightarrow> ppu_regs \<Rightarrow> ppu_regs" where
  "set_bg_x i m v p =
     (let x = sext28 (masked (bg_x p i) m v)
      in p\<lparr>bg_x := (bg_x p)(i := x), internal_x := (internal_x p)(i := x)\<rparr>)"

definition set_bg_y :: "nat \<Rightarrow> u32 \<Rightarrow> u32 \<Rightarrow> ppu_regs \<Rightarrow> ppu_regs" where
  "set_bg_y i m v p =
     (let y = sext28 (masked (bg_y p i) m v)
      in p\<lparr>bg_y := (bg_y p)(i := y), internal_y := (internal_y p)(i := y)\<rparr>)"

definition reload_internal_refs :: "ppu_regs \<Rightarrow> ppu_regs" where
  "reload_internal_refs p = p\<lparr>internal_x := bg_x p, internal_y := bg_y p\<rparr>"

definition step_internal_refs :: "ppu_regs \<Rightarrow> ppu_regs" where
  "step_internal_refs p =
     p\<lparr>internal_x := (\<lambda>i. if i < 2 then internal_x p i + scast (bg_pb p i) else internal_x p i),
       internal_y := (\<lambda>i. if i < 2 then internal_y p i + scast (bg_pd p i) else internal_y p i)\<rparr>"

section \<open>Frame hand-over\<close>

definition SWAPCHAIN :: nat where "SWAPCHAIN = 2"
definition S_QUEUED :: u8 where "S_QUEUED = 1"

definition DIRTY_BG :: u8 where "DIRTY_BG = 1"
definition DIRTY_OBJ :: u8 where "DIRTY_OBJ = 2"
definition DIRTY_PAL :: u8 where "DIRTY_PAL = 4"
definition DIRTY_OAM :: u8 where "DIRTY_OAM = 8"

text \<open>Offsets of the video regions in the shared memory (regions.rs).\<close>

definition P_PALETTES_OFFSET :: nat where "P_PALETTES_OFFSET = 0x4C000"
definition P_VRAM_OFFSET :: nat where "P_VRAM_OFFSET = 0x50000"
definition P_OAM_OFFSET :: nat where "P_OAM_OFFSET = 0x68000"

definition snapshot :: "(nat \<Rightarrow> u8) \<Rightarrow> u8 \<Rightarrow> gpu_mem_buf \<Rightarrow> gpu_mem_buf" where
  "snapshot m dirty b =
     (let b = (if dirty AND DIRTY_BG \<noteq> 0
               then b\<lparr>buf_vram := (\<lambda>i. if i < 0x10000 then m (P_VRAM_OFFSET + i) else buf_vram b i)\<rparr> else b);
          b = (if dirty AND DIRTY_OBJ \<noteq> 0
               then b\<lparr>buf_vram := (\<lambda>i. if 0x10000 \<le> i \<and> i < 0x18000 then m (P_VRAM_OFFSET + i) else buf_vram b i)\<rparr>
               else b);
          b = (if dirty AND DIRTY_PAL \<noteq> 0
               then b\<lparr>buf_pal := (\<lambda>i. if i < 1024 then m (P_PALETTES_OFFSET + i) else buf_pal b i)\<rparr> else b)
      in if dirty AND DIRTY_OAM \<noteq> 0
         then b\<lparr>buf_oam := (\<lambda>i. if i < 1024 then m (P_OAM_OFFSET + i) else buf_oam b i)\<rparr> else b)"

definition capture_scanline :: "ppu_regs \<Rightarrow> u16 \<Rightarrow> nat \<Rightarrow> renderer \<Rightarrow> renderer" where
  "capture_scanline p dc line r = r\<lparr>capture_regs := (capture_regs r)(line := (dc, p))\<rparr>"

definition queue_frame :: "(nat \<Rightarrow> u8) \<Rightarrow> nat \<Rightarrow> renderer \<Rightarrow> renderer" where
  "queue_frame m slot r =
     r\<lparr>slot_regs := (slot_regs r)(slot := capture_regs r),
       capture_regs := slot_regs r slot,
       slot_mem := (slot_mem r)(slot := snapshot m (slot_dirty r slot) (slot_mem r slot)),
       slot_dirty := (slot_dirty r)(slot := 0),
       sync_slots := (sync_slots r)(slot := S_QUEUED)\<rparr>"

text \<open>The renderer after vblank; the caller's dirty bits are consumed.\<close>

definition on_frame_finish :: "(nat \<Rightarrow> u8) \<Rightarrow> u8 \<Rightarrow> renderer \<Rightarrow> renderer" where
  "on_frame_finish m dirty r =
     (let r = r\<lparr>slot_dirty := (\<lambda>i. if i < SWAPCHAIN then slot_dirty r i OR dirty else slot_dirty r i)\<rparr>;
          slot = write_slot r
      in if sync_slots r slot = 0
         then (queue_frame m slot r)\<lparr>write_slot := (slot + 1) mod SWAPCHAIN\<rparr>
         else r)"

section \<open>Scanline events\<close>

definition CYCLES_PER_LINE :: u32 where "CYCLES_PER_LINE = 308 * 4"
definition HDRAW_CYCLES :: u32 where "HDRAW_CYCLES = 240 * 4"
definition HBLANK_CYCLES :: u32 where "HBLANK_CYCLES = CYCLES_PER_LINE - HDRAW_CYCLES"
definition TOTAL_LINES :: u16 where "TOTAL_LINES = 228"
definition VISIBLE_LINES :: u16 where "VISIBLE_LINES = 160"

definition gpu_initialize_schedule :: "cycle_manager \<Rightarrow> cycle_manager" where
  "gpu_initialize_schedule c = schedule HDRAW_CYCLES GpuScanline240 c"

definition upd_disp_stat :: "(u16 \<Rightarrow> u16) \<Rightarrow> emu \<Rightarrow> emu" where
  "upd_disp_stat f s = upd_gpu (\<lambda>g. g\<lparr>disp_stat := f (disp_stat g)\<rparr>) s"

definition gpu_on_scanline240_event :: "emu \<Rightarrow> emu" where
  "gpu_on_scanline240_event s =
     (let s = (if v_count (gpus s) < VISIBLE_LINES then
                 dma_trigger_all StartAtHBlank
                   (upd_ppu step_internal_refs
                     (upd_gpu (\<lambda>g. g\<lparr>rend := capture_scanline (ppu g) (disp_cnt g) (unat (v_count g)) (rend g)\<rparr>) s))
               else s);
          s = upd_disp_stat (set_flag 1 True) s;
          s = (if bit (disp_stat (gpus s)) 4 then cpu_send_interrupt LcdHBlank s else s)
      in upd_cm (schedule_from_due HBLANK_CYCLES GpuScanline308) s)"

definition vblank_start :: "emu \<Rightarrow> emu" where
  "vblank_start s =
     (let s = upd_disp_stat (set_flag 0 True) s;
          s = (if bit (disp_stat (gpus s)) 3 then cpu_send_interrupt LcdVBlank s else s);
          s = dma_trigger_all StartAtVBlank s;
          s = upd_gpu (\<lambda>g. g\<lparr>rend := on_frame_finish (shm (mem s)) (gpu_mem_dirty (mem s)) (rend g)\<rparr>) s
      in upd_mem (\<lambda>m. m\<lparr>gpu_mem_dirty := 0\<rparr>) s)"

definition gpu_on_scanline308_event :: "emu \<Rightarrow> emu" where
  "gpu_on_scanline308_event s =
     (let s = upd_gpu (\<lambda>g. g\<lparr>v_count := v_count g + 1\<rparr>) s;
          v = v_count (gpus s);
          s = (if v = VISIBLE_LINES then vblank_start s
               else if v = 227 then upd_disp_stat (set_flag 0 False) s
               else if v = TOTAL_LINES then upd_ppu reload_internal_refs (upd_gpu (\<lambda>g. g\<lparr>v_count := 0\<rparr>) s)
               else s);
          s = (if v_count (gpus s) = drop_bit 8 (disp_stat (gpus s)) then
                 (let s = upd_disp_stat (set_flag 2 True) s
                  in if bit (disp_stat (gpus s)) 5 then cpu_send_interrupt LcdVCounterMatch s else s)
               else upd_disp_stat (set_flag 2 False) s);
          s = upd_disp_stat (set_flag 1 False) s;
          s = upd_cm (schedule_from_due HDRAW_CYCLES GpuScanline240) s
      in if v_count (gpus s) = VISIBLE_LINES then input_process_hotkeys s else s)"

section \<open>Display invariant\<close>

text \<open>The line counter is a line of the frame and the vblank flag is set on lines 160 to 226.\<close>

definition gpu_inv :: "gpu \<Rightarrow> bool" where
  "gpu_inv g = (v_count g < 228 \<and> bit (disp_stat g) 0 = (160 \<le> v_count g \<and> v_count g < 227))"

lemma bit_set_flag [simp]: "n < 16 \<Longrightarrow> bit (set_flag n b w) i = (if i = n then b else bit w i)"
  by (cases "i < 16") (auto simp: set_flag_def bit_simps dest: bit_imp_le_length)

lemma drop_set_flag [simp]: "n < 8 \<Longrightarrow> drop_bit 8 (set_flag n b w) = drop_bit 8 w"
  by (rule bit_word_eqI) (simp add: bit_simps)

lemma send_interrupt_gpu [simp]: "gpus (cpu_send_interrupt f s) = gpus s" "mem (cpu_send_interrupt f s) = mem s"
  by (simp_all add: cpu_send_interrupt_def cpu_check_for_interrupt_def cpu_schedule_interrupt_def cpu_unhalt_def
      reg_simps Let_def)

lemma dma_trigger_gpu [simp]: "gpus (dma_trigger md ch s) = gpus s" "mem (dma_trigger md ch s) = mem s"
proof -
  have "gpus (fold (\<lambda>i s. if dma_ready md ch i s then upd_cm (schedule_imm (imm_dma i)) s else s) xs s) = gpus s
      \<and> mem (fold (\<lambda>i s. if dma_ready md ch i s then upd_cm (schedule_imm (imm_dma i)) s else s) xs s) = mem s" for xs
    by (induction xs arbitrary: s) (simp_all add: upd_cm_def)
  then show "gpus (dma_trigger md ch s) = gpus s" "mem (dma_trigger md ch s) = mem s"
    unfolding dma_trigger_def by blast+
qed

lemma hotkeys_gpu [simp]: "gpus (input_process_hotkeys s) = gpus s"
  by (simp add: input_process_hotkeys_def Let_def)

text \<open>The line after \<open>v\<close>.\<close>

definition next_line :: "u16 \<Rightarrow> u16" where
  "next_line v = (if v = 227 then 0 else v + 1)"

lemma vblank_start_gpu [simp]:
  "v_count (gpus (vblank_start s)) = v_count (gpus s)"
  "disp_stat (gpus (vblank_start s)) = set_flag 0 True (disp_stat (gpus s))"
  by (simp_all add: vblank_start_def upd_disp_stat_def upd_gpu_def upd_mem_def dma_trigger_all_def Let_def)

text \<open>The end of a line on the line counter and DISPSTAT alone.\<close>

definition line_end :: "u16 \<Rightarrow> u16 \<Rightarrow> u16 \<times> u16" where
  "line_end v d =
     (let v = v + 1;
          d = (if v = 160 then set_flag 0 True d else if v = 227 then set_flag 0 False d else d);
          v = (if v = 228 then 0 else v)
      in (v, set_flag 1 False (set_flag 2 (v = drop_bit 8 d) d)))"

lemma scanline308_gpu:
  "(v_count (gpus (gpu_on_scanline308_event s)), disp_stat (gpus (gpu_on_scanline308_event s))) =
   line_end (v_count (gpus s)) (disp_stat (gpus s))"
proof -
  define s1 where "s1 = upd_gpu (\<lambda>g. g\<lparr>v_count := v_count g + 1\<rparr>) s"
  define v where "v = v_count (gpus s1)"
  define s2 where "s2 = (if v = VISIBLE_LINES then vblank_start s1
               else if v = 227 then upd_disp_stat (set_flag 0 False) s1
               else if v = TOTAL_LINES then upd_ppu reload_internal_refs (upd_gpu (\<lambda>g. g\<lparr>v_count := 0\<rparr>) s1)
               else s1)"
  define s3 where "s3 = (if v_count (gpus s2) = drop_bit 8 (disp_stat (gpus s2)) then
                 (let s = upd_disp_stat (set_flag 2 True) s2
                  in if bit (disp_stat (gpus s)) 5 then cpu_send_interrupt LcdVCounterMatch s else s)
               else upd_disp_stat (set_flag 2 False) s2)"
  have v: "v = v_count (gpus s) + 1" by (simp add: v_def s1_def upd_gpu_def)
  have 2: "v_count (gpus s2) = (if v = 228 then 0 else v)"
      "disp_stat (gpus s2) = (if v = 160 then set_flag 0 True (disp_stat (gpus s))
        else if v = 227 then set_flag 0 False (disp_stat (gpus s)) else disp_stat (gpus s))"
    unfolding s2_def
    by (simp_all add: VISIBLE_LINES_def TOTAL_LINES_def upd_disp_stat_def upd_ppu_def upd_gpu_def v_def)
      (simp_all add: s1_def upd_gpu_def)
  have 3: "v_count (gpus s3) = v_count (gpus s2)"
      "disp_stat (gpus s3) = set_flag 2 (v_count (gpus s2) = drop_bit 8 (disp_stat (gpus s2))) (disp_stat (gpus s2))"
    unfolding s3_def by (simp_all add: upd_disp_stat_def upd_gpu_def Let_def)
  have "gpus (gpu_on_scanline308_event s) = (gpus s3)\<lparr>disp_stat := set_flag 1 False (disp_stat (gpus s3))\<rparr>"
    unfolding gpu_on_scanline308_event_def Let_def s1_def [symmetric] v_def [symmetric] s2_def [symmetric]
      s3_def [unfolded Let_def, symmetric]
    by (simp add: upd_disp_stat_def upd_gpu_def upd_cm_def)
  then show ?thesis using 2 3 v by (simp add: line_end_def Let_def)
qed

lemma scanline240_gpu:
  "v_count (gpus (gpu_on_scanline240_event s)) = v_count (gpus s)"
  "disp_stat (gpus (gpu_on_scanline240_event s)) = set_flag 1 True (disp_stat (gpus s))"
  by (simp_all add: gpu_on_scanline240_event_def upd_disp_stat_def upd_gpu_def upd_ppu_def upd_cm_def
      dma_trigger_all_def Let_def)

lemma due_frame [simp]:
  "current_event_due (cm (cpu_send_interrupt f s)) = current_event_due (cm s)"
  "current_event_due (cm (dma_trigger md ch s)) = current_event_due (cm s)"
proof -
  show "current_event_due (cm (cpu_send_interrupt f s)) = current_event_due (cm s)"
    by (simp add: cpu_send_interrupt_def cpu_check_for_interrupt_def cpu_schedule_interrupt_def cpu_unhalt_def
        reg_simps schedule_imm_def Let_def)
  have "current_event_due (cm (fold (\<lambda>i s. if dma_ready md ch i s then upd_cm (schedule_imm (imm_dma i)) s else s) xs s)) =
        current_event_due (cm s)" for xs
    by (induction xs arbitrary: s) (simp_all add: upd_cm_def schedule_imm_def)
  then show "current_event_due (cm (dma_trigger md ch s)) = current_event_due (cm s)"
    unfolding dma_trigger_def by blast
qed

lemma hotkeys_events [simp]: "events (cm (input_process_hotkeys s)) = events (cm s)"
  by (simp add: input_process_hotkeys_def Let_def)

lemma scanline_due:
  "events (cm (gpu_on_scanline240_event s)) (event_index GpuScanline308) = saturating_add (current_event_due (cm s)) 272"
  "events (cm (gpu_on_scanline308_event s)) (event_index GpuScanline240) = saturating_add (current_event_due (cm s)) 960"
proof -
  show "events (cm (gpu_on_scanline240_event s)) (event_index GpuScanline308) = saturating_add (current_event_due (cm s)) 272"
    by (simp add: gpu_on_scanline240_event_def upd_disp_stat_def upd_gpu_def upd_ppu_def upd_cm_def
        dma_trigger_all_def Let_def schedule_from_due_def set_event_def HBLANK_CYCLES_def CYCLES_PER_LINE_def HDRAW_CYCLES_def)
  have v: "current_event_due (cm (vblank_start s)) = current_event_due (cm s)" for s
    by (simp add: vblank_start_def upd_disp_stat_def upd_gpu_def upd_mem_def dma_trigger_all_def Let_def)
  show "events (cm (gpu_on_scanline308_event s)) (event_index GpuScanline240) = saturating_add (current_event_due (cm s)) 960"
    by (simp add: gpu_on_scanline308_event_def upd_disp_stat_def upd_gpu_def upd_ppu_def upd_cm_def v
        Let_def schedule_from_due_def set_event_def HDRAW_CYCLES_def)
qed

lemma line_end_inv:
  assumes "v < 228" "bit d 0 = (160 \<le> v \<and> v < 227)"
  shows "case line_end v d of (v', d') \<Rightarrow> v' = next_line v \<and> v' < 228 \<and> bit d' 0 = (160 \<le> v' \<and> v' < 227)
    \<and> \<not> bit d' 1 \<and> bit d' 2 = (v' = drop_bit 8 d')"
proof -
  have "unat v < 228" using assms(1) by (simp add: word_less_nat_alt)
  then have u: "unat (v + 1) = Suc (unat v)" by (simp add: unat_word_ariths)
  have eq: "v + 1 = 160 \<longleftrightarrow> unat v = 159" "v + 1 = 227 \<longleftrightarrow> unat v = 226" "v + 1 = 228 \<longleftrightarrow> unat v = 227"
      "v = 227 \<longleftrightarrow> unat v = 227"
    using u by (simp_all add: word_unat_eq_iff)
  have le: "160 \<le> v \<longleftrightarrow> 160 \<le> unat v" "v < 227 \<longleftrightarrow> unat v < 227"
      "160 \<le> v + 1 \<longleftrightarrow> 160 \<le> Suc (unat v)" "v + 1 < 227 \<longleftrightarrow> Suc (unat v) < 227" "v + 1 < 228 \<longleftrightarrow> Suc (unat v) < 228"
    using u by (simp_all add: word_le_nat_alt word_less_nat_alt)
  show ?thesis using assms(2) \<open>unat v < 228\<close>
    unfolding line_end_def Let_def next_line_def by (auto simp: eq le)
qed

text \<open>
  C27: the display counters. Every line end moves VCOUNT to the next of the 228 lines, keeps the
  vblank flag exactly on lines 160 to 226, clears the hblank flag and sets the match flag exactly
  when VCOUNT equals the setting in DISPSTAT; hblank begins 960 cycles into the line and the line
  ends 272 cycles later, both counted from the due cycle of the event before.
\<close>

theorem scanline_timing:
  assumes "gpu_inv (gpus s)"
  shows "let a = gpu_on_scanline240_event s; b = gpu_on_scanline308_event s in
    gpu_inv (gpus a) \<and> gpu_inv (gpus b)
    \<and> v_count (gpus a) = v_count (gpus s) \<and> v_count (gpus b) = next_line (v_count (gpus s))
    \<and> bit (disp_stat (gpus a)) 1 \<and> \<not> bit (disp_stat (gpus b)) 1
    \<and> bit (disp_stat (gpus b)) 2 = (v_count (gpus b) = drop_bit 8 (disp_stat (gpus b)))
    \<and> events (cm a) (event_index GpuScanline308) = saturating_add (current_event_due (cm s)) 272
    \<and> events (cm b) (event_index GpuScanline240) = saturating_add (current_event_due (cm s)) 960"
  using assms line_end_inv [of "v_count (gpus s)" "disp_stat (gpus s)"] scanline308_gpu [of s, symmetric]
  unfolding Let_def gpu_inv_def scanline240_gpu scanline_due
  by (auto split: prod.splits)

theorem scanline_timing_witness:
  "gpu_inv (gpus emu_sample) \<and> v_count (gpus (gpu_on_scanline308_event emu_sample)) = 1"
proof -
  have i: "gpu_inv (gpus emu_sample)" "v_count (gpus emu_sample) = 0"
    by (simp_all add: gpu_inv_def emu_sample_def emu_new_def)
  show ?thesis using scanline_timing [OF i(1)] i unfolding Let_def by (simp add: next_line_def)
qed

end
