(* ===== verification/Io.thy ===== *)
theory Io
  imports Gpu
begin

text \<open>
  The memory-mapped I/O registers: the register list of \<open>src/src/core/memory/io_gba_lut.rs\<close>, the
  lookup tables the \<open>io_read!\<close> and \<open>io_write!\<close> macros of \<open>src/macros/src/lib.rs\<close> build from it for
  8-, 16- and 32-bit accesses, and the dispatch of \<open>src/src/core/memory/io_gba.rs\<close>. A register is
  its size in bytes, its offset and its accessor; an access of \<open>n\<close> bytes is a \<open>u32\<close> below
  \<open>2 ^ (8 * n)\<close>.
\<close>

section \<open>Table construction (macros)\<close>

type_synonym 'f io_entry = "nat \<times> nat \<times> 'f"
type_synonym io_reader = "emu \<Rightarrow> u32 \<times> emu"
type_synonym io_writer = "u32 \<Rightarrow> u32 \<Rightarrow> emu \<Rightarrow> emu"

definition e_size :: "'f io_entry \<Rightarrow> nat" where "e_size e = fst e"
definition e_offset :: "'f io_entry \<Rightarrow> nat" where "e_offset e = fst (snd e)"
definition e_func :: "'f io_entry \<Rightarrow> 'f" where "e_func e = snd (snd e)"
definition offset_end :: "'f io_entry \<Rightarrow> nat" where "offset_end e = e_offset e + e_size e"

text \<open>The overlap test of \<open>assemble_lut_entries\<close> and its inner loop from \<open>entry_index\<close>: the matching
  entries and the index of the last of them.\<close>

definition within :: "nat \<Rightarrow> nat \<Rightarrow> 'f io_entry \<Rightarrow> bool" where
  "within addr align e =
     (addr \<le> e_offset e \<and> e_offset e < addr + align \<or> e_offset e \<le> addr \<and> addr < offset_end e)"

fun scan_entries :: "nat \<Rightarrow> nat \<Rightarrow> 'f io_entry list \<Rightarrow> nat \<Rightarrow> nat \<Rightarrow> 'f io_entry list \<times> nat" where
  "scan_entries addr align [] i idx = ([], idx)"
| "scan_entries addr align (e # es) i idx =
     (if within addr align e
      then (let (r, idx) = scan_entries addr align es (Suc i) i in (e # r, idx))
      else if addr + align \<le> e_offset e then ([], idx)
      else scan_entries addr align es (Suc i) idx)"

fun lut_rows :: "'f io_entry list \<Rightarrow> nat \<Rightarrow> nat \<Rightarrow> nat \<Rightarrow> nat \<Rightarrow> (nat \<times> 'f io_entry list) list" where
  "lut_rows entries align addr 0 idx = []"
| "lut_rows entries align addr (Suc n) idx =
     (let (r, idx) = scan_entries addr align (drop idx entries) idx idx
      in (addr, r) # lut_rows entries align (addr + align) n idx)"

definition assemble_lut_entries :: "'f io_entry list \<Rightarrow> nat \<Rightarrow> (nat \<times> 'f io_entry list) list" where
  "assemble_lut_entries entries align =
     (let lo = e_offset (hd entries) div align * align;
          hi = (offset_end (last entries) + (align - 1)) div align * align
      in lut_rows entries align lo ((hi - lo) div align) 0)"

definition trunc_size :: "nat \<Rightarrow> u32 \<Rightarrow> u32" where
  "trunc_size n v = take_bit (8 * n) v"

text \<open>One row of a read table: the parts of the registers in it, in order.\<close>

definition read_part :: "nat \<Rightarrow> nat \<Rightarrow> io_reader io_entry \<Rightarrow> emu \<Rightarrow> u32 \<times> emu" where
  "read_part align lo e s =
     (let (v, s) = e_func e s
      in (if lo \<le> e_offset e
          then trunc_size align (push_bit (8 * (e_offset e - lo)) (trunc_size align v))
          else trunc_size align (drop_bit (8 * (lo - e_offset e)) v), s))"

definition read_row :: "nat \<Rightarrow> nat \<times> io_reader io_entry list \<Rightarrow> emu \<Rightarrow> u32 \<times> emu" where
  "read_row align row s =
     fold (\<lambda>e (acc, s). let (v, s) = read_part align (fst row) e s in (acc OR v, s)) (snd row) (0, s)"

definition write_part :: "nat \<Rightarrow> nat \<Rightarrow> u32 \<Rightarrow> io_writer io_entry \<Rightarrow> emu \<Rightarrow> emu" where
  "write_part align lo v e s =
     (let m = trunc_size align (- 1)
      in if lo \<le> e_offset e
         then e_func e (trunc_size (e_size e) m) (trunc_size (e_size e) (drop_bit (8 * (e_offset e - lo)) v)) s
         else (let sh = 8 * (lo - e_offset e)
               in e_func e (trunc_size (e_size e) (push_bit sh m)) (trunc_size (e_size e) (push_bit sh v)) s))"

definition write_row :: "nat \<Rightarrow> u32 \<Rightarrow> nat \<times> io_writer io_entry list \<Rightarrow> emu \<Rightarrow> emu" where
  "write_row align v row s = fold (write_part align (fst row) v) (snd row) s"

section \<open>The registers (io_gba_lut.rs)\<close>

definition rd_pure :: "(emu \<Rightarrow> u32) \<Rightarrow> io_reader" where "rd_pure f s = (f s, s)"
definition gpu16 :: "(gpu \<Rightarrow> u16) \<Rightarrow> io_reader" where "gpu16 f = rd_pure (\<lambda>s. ucast (f (gpus s)))"
definition ppu16 :: "(ppu_regs \<Rightarrow> u16) \<Rightarrow> io_reader" where "ppu16 f = rd_pure (\<lambda>s. ucast (f (ppu (gpus s))))"
definition apu16 :: "(apu \<Rightarrow> u16) \<Rightarrow> io_reader" where "apu16 f = rd_pure (\<lambda>s. ucast (f (apus s)))"

definition rd_timer :: "nat \<Rightarrow> io_reader" where
  "rd_timer n s = (let (v, s) = timers_get_cnt_l n s in (ucast v, s))"

definition w8 :: "(u8 \<Rightarrow> emu \<Rightarrow> emu) \<Rightarrow> io_writer" where "w8 f m v = f (ucast v)"
definition w16 :: "(u16 \<Rightarrow> u16 \<Rightarrow> emu \<Rightarrow> emu) \<Rightarrow> io_writer" where "w16 f m v = f (ucast m) (ucast v)"

text \<open>Masked writes of one display register, array element or field, whose writable bits are \<open>k\<close>.\<close>

definition ppu_arr :: "(((nat \<Rightarrow> u16) \<Rightarrow> nat \<Rightarrow> u16) \<Rightarrow> ppu_regs \<Rightarrow> ppu_regs) \<Rightarrow> nat \<Rightarrow> u16 \<Rightarrow> u16 \<Rightarrow> u16 \<Rightarrow> emu \<Rightarrow> emu" where
  "ppu_arr upd i k m v = upd_ppu (upd (\<lambda>a. a(i := masked (a i) (m AND k) v)))"

definition ppu_fld :: "((u16 \<Rightarrow> u16) \<Rightarrow> ppu_regs \<Rightarrow> ppu_regs) \<Rightarrow> u16 \<Rightarrow> u16 \<Rightarrow> u16 \<Rightarrow> emu \<Rightarrow> emu" where
  "ppu_fld upd k m v = upd_ppu (upd (\<lambda>a. masked a (m AND k) v))"

definition io_read_display :: "io_reader io_entry list" where
  "io_read_display = [
    (2, 0x0, gpu16 disp_cnt),
    (2, 0x2, gpu16 green_swap),
    (2, 0x4, gpu16 disp_stat),
    (2, 0x6, gpu16 v_count),
    (2, 0x8, ppu16 (\<lambda>p. bg_cnt p 0)),
    (2, 0xA, ppu16 (\<lambda>p. bg_cnt p 1)),
    (2, 0xC, ppu16 (\<lambda>p. bg_cnt p 2)),
    (2, 0xE, ppu16 (\<lambda>p. bg_cnt p 3)),
    (2, 0x48, ppu16 win_in),
    (2, 0x4A, ppu16 win_out),
    (2, 0x50, ppu16 bld_cnt),
    (2, 0x52, ppu16 bld_alpha)]"

definition io_read_devices :: "io_reader io_entry list" where
  "io_read_devices = [
    (2, 0x60, apu16 (\<lambda>a. ucast (read_cnt_l a 0))),
    (2, 0x62, apu16 (\<lambda>a. read_cnt_h a 0)),
    (2, 0x64, apu16 (\<lambda>a. read_cnt_x a 0)),
    (2, 0x68, apu16 (\<lambda>a. read_cnt_h a 1)),
    (2, 0x6C, apu16 (\<lambda>a. read_cnt_x a 1)),
    (2, 0x70, apu16 (\<lambda>a. ucast (read_cnt_l a 2))),
    (2, 0x72, apu16 (\<lambda>a. read_cnt_h a 2)),
    (2, 0x74, apu16 (\<lambda>a. read_cnt_x a 2)),
    (2, 0x78, apu16 (\<lambda>a. read_cnt_h a 3)),
    (2, 0x7C, apu16 (\<lambda>a. read_cnt_x a 3)),
    (2, 0x80, apu16 main_cnt_l),
    (2, 0x82, apu16 main_cnt_h),
    (2, 0x84, apu16 (\<lambda>a. ucast (main_cnt_x a))),
    (2, 0x88, apu16 sound_bias),
    (1, 0x90, rd_pure (\<lambda>s. ucast (read_wave_ram (apus s) 0))),
    (1, 0x91, rd_pure (\<lambda>s. ucast (read_wave_ram (apus s) 1))),
    (1, 0x92, rd_pure (\<lambda>s. ucast (read_wave_ram (apus s) 2))),
    (1, 0x93, rd_pure (\<lambda>s. ucast (read_wave_ram (apus s) 3))),
    (1, 0x94, rd_pure (\<lambda>s. ucast (read_wave_ram (apus s) 4))),
    (1, 0x95, rd_pure (\<lambda>s. ucast (read_wave_ram (apus s) 5))),
    (1, 0x96, rd_pure (\<lambda>s. ucast (read_wave_ram (apus s) 6))),
    (1, 0x97, rd_pure (\<lambda>s. ucast (read_wave_ram (apus s) 7))),
    (1, 0x98, rd_pure (\<lambda>s. ucast (read_wave_ram (apus s) 8))),
    (1, 0x99, rd_pure (\<lambda>s. ucast (read_wave_ram (apus s) 9))),
    (1, 0x9A, rd_pure (\<lambda>s. ucast (read_wave_ram (apus s) 10))),
    (1, 0x9B, rd_pure (\<lambda>s. ucast (read_wave_ram (apus s) 11))),
    (1, 0x9C, rd_pure (\<lambda>s. ucast (read_wave_ram (apus s) 12))),
    (1, 0x9D, rd_pure (\<lambda>s. ucast (read_wave_ram (apus s) 13))),
    (1, 0x9E, rd_pure (\<lambda>s. ucast (read_wave_ram (apus s) 14))),
    (1, 0x9F, rd_pure (\<lambda>s. ucast (read_wave_ram (apus s) 15))),
    (4, 0xB8, rd_pure (\<lambda>s. d_cnt (dmas s 0) AND NOT 0xFFFF)),
    (4, 0xC4, rd_pure (\<lambda>s. d_cnt (dmas s 1) AND NOT 0xFFFF)),
    (4, 0xD0, rd_pure (\<lambda>s. d_cnt (dmas s 2) AND NOT 0xFFFF)),
    (4, 0xDC, rd_pure (\<lambda>s. d_cnt (dmas s 3) AND NOT 0xFFFF)),
    (2, 0x100, rd_timer 0),
    (2, 0x102, rd_pure (\<lambda>s. ucast (timers_get_cnt_h 0 s))),
    (2, 0x104, rd_timer 1),
    (2, 0x106, rd_pure (\<lambda>s. ucast (timers_get_cnt_h 1 s))),
    (2, 0x108, rd_timer 2),
    (2, 0x10A, rd_pure (\<lambda>s. ucast (timers_get_cnt_h 2 s))),
    (2, 0x10C, rd_timer 3),
    (2, 0x10E, rd_pure (\<lambda>s. ucast (timers_get_cnt_h 3 s))),
    (2, 0x130, rd_pure (\<lambda>s. ucast (get_key_input (inp s)))),
    (2, 0x132, rd_pure (\<lambda>s. ucast (key_cnt (inp s)))),
    (2, 0x200, rd_pure (\<lambda>s. ie (regs s) AND 0xFFFF)),
    (2, 0x202, rd_pure (\<lambda>s. irf (regs s) AND 0xFFFF)),
    (2, 0x204, rd_pure (\<lambda>s. ucast (wait_cnt (cpu s)))),
    (1, 0x208, rd_pure (\<lambda>s. ucast (ime (regs s)))),
    (1, 0x300, rd_pure (\<lambda>s. ucast (post_flg (cpu s)))),
    (1, 0x301, rd_pure (\<lambda>s. ucast (halt_cnt (cpu s))))]"

definition io_write_display :: "io_writer io_entry list" where
  "io_write_display = [
    (2, 0x0, w16 (\<lambda>m v. upd_gpu (set_disp_cnt m v))),
    (2, 0x2, w16 (\<lambda>m v. upd_gpu (\<lambda>g. g\<lparr>green_swap := masked (green_swap g) m v\<rparr>))),
    (2, 0x4, w16 (\<lambda>m v. upd_gpu (set_disp_stat m v))),
    (2, 0x8, w16 (ppu_arr bg_cnt_update 0 0xDFFF)),
    (2, 0xA, w16 (ppu_arr bg_cnt_update 1 0xDFFF)),
    (2, 0xC, w16 (ppu_arr bg_cnt_update 2 0xFFFF)),
    (2, 0xE, w16 (ppu_arr bg_cnt_update 3 0xFFFF)),
    (2, 0x10, w16 (ppu_arr bg_h_ofs_update 0 0x1FF)),
    (2, 0x12, w16 (ppu_arr bg_v_ofs_update 0 0x1FF)),
    (2, 0x14, w16 (ppu_arr bg_h_ofs_update 1 0x1FF)),
    (2, 0x16, w16 (ppu_arr bg_v_ofs_update 1 0x1FF)),
    (2, 0x18, w16 (ppu_arr bg_h_ofs_update 2 0x1FF)),
    (2, 0x1A, w16 (ppu_arr bg_v_ofs_update 2 0x1FF)),
    (2, 0x1C, w16 (ppu_arr bg_h_ofs_update 3 0x1FF)),
    (2, 0x1E, w16 (ppu_arr bg_v_ofs_update 3 0x1FF)),
    (2, 0x20, w16 (ppu_arr bg_pa_update 0 0xFFFF)),
    (2, 0x22, w16 (ppu_arr bg_pb_update 0 0xFFFF)),
    (2, 0x24, w16 (ppu_arr bg_pc_update 0 0xFFFF)),
    (2, 0x26, w16 (ppu_arr bg_pd_update 0 0xFFFF)),
    (4, 0x28, (\<lambda>m v. upd_ppu (set_bg_x 0 m v))),
    (4, 0x2C, (\<lambda>m v. upd_ppu (set_bg_y 0 m v))),
    (2, 0x30, w16 (ppu_arr bg_pa_update 1 0xFFFF)),
    (2, 0x32, w16 (ppu_arr bg_pb_update 1 0xFFFF)),
    (2, 0x34, w16 (ppu_arr bg_pc_update 1 0xFFFF)),
    (2, 0x36, w16 (ppu_arr bg_pd_update 1 0xFFFF)),
    (4, 0x38, (\<lambda>m v. upd_ppu (set_bg_x 1 m v))),
    (4, 0x3C, (\<lambda>m v. upd_ppu (set_bg_y 1 m v))),
    (2, 0x40, w16 (ppu_arr win_h_update 0 0xFFFF)),
    (2, 0x42, w16 (ppu_arr win_h_update 1 0xFFFF)),
    (2, 0x44, w16 (ppu_arr win_v_update 0 0xFFFF)),
    (2, 0x46, w16 (ppu_arr win_v_update 1 0xFFFF)),
    (2, 0x48, w16 (ppu_fld win_in_update 0x3F3F)),
    (2, 0x4A, w16 (ppu_fld win_out_update 0x3F3F)),
    (2, 0x4C, w16 (ppu_fld mosaic_update 0xFFFF)),
    (2, 0x50, w16 (ppu_fld bld_cnt_update 0x3FFF)),
    (2, 0x52, w16 (ppu_fld bld_alpha_update 0x1F1F)),
    (2, 0x54, w16 (ppu_fld bld_y_update 0x1F))]"

definition io_write_devices :: "io_writer io_entry list" where
  "io_write_devices = [
    (2, 0x60, w16 (\<lambda>m v. if m AND 0xFF \<noteq> 0 then upd_apu (write_cnt_l 0 (ucast v)) else id)),
    (2, 0x62, w16 (\<lambda>m v. upd_apu (write_cnt_h 0 m v))),
    (2, 0x64, w16 (\<lambda>m v. upd_apu (write_cnt_x 0 m v))),
    (2, 0x68, w16 (\<lambda>m v. upd_apu (write_cnt_h 1 m v))),
    (2, 0x6C, w16 (\<lambda>m v. upd_apu (write_cnt_x 1 m v))),
    (2, 0x70, w16 (\<lambda>m v. if m AND 0xFF \<noteq> 0 then upd_apu (write_cnt_l 2 (ucast v)) else id)),
    (2, 0x72, w16 (\<lambda>m v. upd_apu (write_cnt_h 2 m v))),
    (2, 0x74, w16 (\<lambda>m v. upd_apu (write_cnt_x 2 m v))),
    (2, 0x78, w16 (\<lambda>m v. upd_apu (write_cnt_h 3 m v))),
    (2, 0x7C, w16 (\<lambda>m v. upd_apu (write_cnt_x 3 m v))),
    (2, 0x80, w16 (\<lambda>m v. upd_apu (write_main_cnt_l m v))),
    (2, 0x82, w16 (\<lambda>m v. upd_apu (write_main_cnt_h m v))),
    (2, 0x84, w16 (\<lambda>m v. if m AND 0xFF \<noteq> 0 then upd_apu (write_main_cnt_x (ucast v)) else id)),
    (2, 0x88, w16 (\<lambda>m v. upd_apu (write_sound_bias m v))),
    (1, 0x90, w8 (\<lambda>v. upd_apu (write_wave_ram 0 v))),
    (1, 0x91, w8 (\<lambda>v. upd_apu (write_wave_ram 1 v))),
    (1, 0x92, w8 (\<lambda>v. upd_apu (write_wave_ram 2 v))),
    (1, 0x93, w8 (\<lambda>v. upd_apu (write_wave_ram 3 v))),
    (1, 0x94, w8 (\<lambda>v. upd_apu (write_wave_ram 4 v))),
    (1, 0x95, w8 (\<lambda>v. upd_apu (write_wave_ram 5 v))),
    (1, 0x96, w8 (\<lambda>v. upd_apu (write_wave_ram 6 v))),
    (1, 0x97, w8 (\<lambda>v. upd_apu (write_wave_ram 7 v))),
    (1, 0x98, w8 (\<lambda>v. upd_apu (write_wave_ram 8 v))),
    (1, 0x99, w8 (\<lambda>v. upd_apu (write_wave_ram 9 v))),
    (1, 0x9A, w8 (\<lambda>v. upd_apu (write_wave_ram 10 v))),
    (1, 0x9B, w8 (\<lambda>v. upd_apu (write_wave_ram 11 v))),
    (1, 0x9C, w8 (\<lambda>v. upd_apu (write_wave_ram 12 v))),
    (1, 0x9D, w8 (\<lambda>v. upd_apu (write_wave_ram 13 v))),
    (1, 0x9E, w8 (\<lambda>v. upd_apu (write_wave_ram 14 v))),
    (1, 0x9F, w8 (\<lambda>v. upd_apu (write_wave_ram 15 v))),
    (4, 0xA0, (\<lambda>m v. upd_apu (write_fifo 0 m v))),
    (4, 0xA4, (\<lambda>m v. upd_apu (write_fifo 1 m v))),
    (4, 0xB0, dma_set_sad 0),
    (4, 0xB4, dma_set_dad 0),
    (4, 0xB8, dma_set_cnt 0),
    (4, 0xBC, dma_set_sad 1),
    (4, 0xC0, dma_set_dad 1),
    (4, 0xC4, dma_set_cnt 1),
    (4, 0xC8, dma_set_sad 2),
    (4, 0xCC, dma_set_dad 2),
    (4, 0xD0, dma_set_cnt 2),
    (4, 0xD4, dma_set_sad 3),
    (4, 0xD8, dma_set_dad 3),
    (4, 0xDC, dma_set_cnt 3),
    (2, 0x100, w16 (timers_set_cnt_l 0)),
    (2, 0x102, w16 (timers_set_cnt_h 0)),
    (2, 0x104, w16 (timers_set_cnt_l 1)),
    (2, 0x106, w16 (timers_set_cnt_h 1)),
    (2, 0x108, w16 (timers_set_cnt_l 2)),
    (2, 0x10A, w16 (timers_set_cnt_h 2)),
    (2, 0x10C, w16 (timers_set_cnt_l 3)),
    (2, 0x10E, w16 (timers_set_cnt_h 3)),
    (2, 0x132, w16 set_key_cnt),
    (2, 0x200, cpu_set_ie),
    (2, 0x202, cpu_set_irf),
    (2, 0x204, w16 (\<lambda>m v. upd_cpu (\<lambda>c. c\<lparr>wait_cnt := masked (wait_cnt c) m v\<rparr>))),
    (1, 0x208, w8 cpu_set_ime),
    (1, 0x300, w8 cpu_set_post_flg),
    (1, 0x301, w8 cpu_set_halt_cnt)]"

definition io_read_entries :: "io_reader io_entry list" where
  "io_read_entries = io_read_display @ io_read_devices"

definition io_write_entries :: "io_writer io_entry list" where
  "io_write_entries = io_write_display @ io_write_devices"

section \<open>Dispatch (io_gba.rs)\<close>

definition in_range :: "'f io_entry list \<Rightarrow> u32 \<Rightarrow> bool" where
  "in_range entries off = (e_offset (hd entries) \<le> unat off \<and> unat off < offset_end (last entries))"

definition lut_row :: "'f io_entry list \<Rightarrow> nat \<Rightarrow> u32 \<Rightarrow> nat \<times> 'f io_entry list" where
  "lut_row entries sz off =
     assemble_lut_entries entries sz ! ((unat off - e_offset (hd entries)) div sz)"

definition io_gba_read :: "nat \<Rightarrow> u32 \<Rightarrow> emu \<Rightarrow> u32 \<times> emu" where
  "io_gba_read sz off s =
     (if in_range io_read_entries off then read_row sz (lut_row io_read_entries sz off) s else (0, s))"

definition io_gba_write :: "nat \<Rightarrow> u32 \<Rightarrow> u32 \<Rightarrow> emu \<Rightarrow> emu" where
  "io_gba_write sz off v s =
     (if in_range io_write_entries off then write_row sz v (lut_row io_write_entries sz off) s else s)"

definition io_gba_write_fixed_slice :: "nat \<Rightarrow> u32 \<Rightarrow> u32 list \<Rightarrow> emu \<Rightarrow> emu" where
  "io_gba_write_fixed_slice sz off vs s =
     (if in_range io_write_entries off
      then (let row = lut_row io_write_entries sz off in fold (\<lambda>v. write_row sz v row) vs s) else s)"

section \<open>The tables hold exactly the overlapping registers\<close>

definition before :: "'f io_entry \<Rightarrow> 'f io_entry \<Rightarrow> bool" where
  "before e f = (offset_end e \<le> e_offset f \<and> 0 < e_size f)"

definition entries_ok :: "'f io_entry list \<Rightarrow> bool" where
  "entries_ok es = (successively before es \<and> es \<noteq> [] \<and> e_offset (hd es) = 0 \<and> 0 < e_size (hd es))"

lemma transp_before: "transp before"
  by (auto simp: transp_def before_def offset_end_def)

lemma entries_ok_sorted:
  assumes "entries_ok es"
  shows "sorted_wrt before es" "\<And>e. e \<in> set es \<Longrightarrow> 0 < e_size e"
proof -
  show s: "sorted_wrt before es"
    using assms successively_conv_sorted_wrt [OF transp_before, of es] by (simp add: entries_ok_def)
  show "0 < e_size e" if "e \<in> set es" for e
    using s that assms by (cases es) (auto simp: entries_ok_def before_def)
qed

lemma scan_entries_eq:
  assumes "sorted_wrt before es" "\<And>e. e \<in> set es \<Longrightarrow> 0 < e_size e"
  shows "fst (scan_entries addr al es i idx) = filter (within addr al) es"
    and "snd (scan_entries addr al es i idx) = idx \<or>
         (\<exists>k < length es. snd (scan_entries addr al es i idx) = i + k \<and> within addr al (es ! k))"
  using assms
proof (induction es arbitrary: i idx)
  case (Cons e es)
  case 1
  have later: "\<not> within addr al f" if "f \<in> set es" "addr + al \<le> e_offset e" for f
  proof -
    have "offset_end e \<le> e_offset f" using 1 that(1) by (simp add: before_def)
    then have "addr + al < e_offset f" using that 1(2) [of e] by (simp add: offset_end_def)
    then show ?thesis by (simp add: within_def)
  qed
  show ?case using Cons.IH(1) 1 later by (auto simp: split_beta Let_def filter_empty_conv)
next
  case (Cons e es)
  case 2
  have IH: "snd (scan_entries addr al es j jdx) = jdx \<or>
      (\<exists>k < length es. snd (scan_entries addr al es j jdx) = j + k \<and> within addr al (es ! k))" for j jdx
    using Cons.IH(2) 2 by auto
  show ?case using IH [of "Suc i" i] IH [of "Suc i" idx] by (force simp: split_beta Let_def)
qed simp_all

lemma not_within_before: "offset_end e \<le> addr \<Longrightarrow> 0 < e_size e \<Longrightarrow> \<not> within addr al e"
  by (simp add: within_def offset_end_def)

lemma lut_rows_eq:
  assumes "sorted_wrt before es" "\<And>e. e \<in> set es \<Longrightarrow> 0 < e_size e" "0 < al"
    "idx \<le> length es" "\<forall>e \<in> set (take idx es). offset_end e \<le> addr" "k < n"
  shows "lut_rows es al addr n idx ! k = (addr + k * al, filter (within (addr + k * al) al) es)"
  using assms(4-6)
proof (induction n arbitrary: addr idx k)
  case (Suc n)
  let ?d = "drop idx es" and ?sc = "scan_entries addr al (drop idx es) idx idx"
  have d: "sorted_wrt before ?d" "\<And>e. e \<in> set ?d \<Longrightarrow> 0 < e_size e"
    using assms(1,2) by (auto simp: sorted_wrt_drop dest: in_set_dropD)
  have "filter (within addr al) es = filter (within addr al) (take idx es) @ filter (within addr al) ?d"
    by (metis append_take_drop_id filter_append)
  moreover have "filter (within addr al) (take idx es) = []"
  proof -
    have "\<not> within addr al e" if "e \<in> set (take idx es)" for e
      using that Suc.prems(2) assms(2) [OF in_set_takeD [OF that]] by (intro not_within_before) auto
    then show ?thesis unfolding filter_empty_conv by blast
  qed
  ultimately have row: "fst ?sc = filter (within addr al) es" using scan_entries_eq(1) [OF d] by simp
  have idx': "snd ?sc \<le> length es \<and> (\<forall>e \<in> set (take (snd ?sc) es). offset_end e \<le> addr + al)"
    using scan_entries_eq(2) [OF d, of addr al idx idx]
  proof
    assume "snd ?sc = idx"
    then show ?thesis using Suc.prems by (auto simp: trans_le_add1)
  next
    assume "\<exists>k < length ?d. snd ?sc = idx + k \<and> within addr al (?d ! k)"
    then obtain k where k: "k < length ?d" "snd ?sc = idx + k" "within addr al (es ! (idx + k))"
      using Suc.prems(1) by auto
    have "offset_end e \<le> addr + al" if "e \<in> set (take (idx + k) es)" for e
    proof -
      obtain j where "j < idx + k" "e = es ! j" using \<open>e \<in> _\<close> by (auto simp: in_set_conv_nth)
      then have "before e (es ! (idx + k))" using assms(1) k(1) by (auto simp: sorted_wrt_iff_nth_less)
      then show ?thesis using k(3) assms(3) by (auto simp: before_def within_def)
    qed
    then show ?thesis using k by auto
  qed
  show ?case
  proof (cases k)
    case 0
    then show ?thesis using row by (simp add: split_beta Let_def)
  next
    case (Suc j)
    then show ?thesis using Suc.IH [of "snd ?sc" "addr + al" j] idx' Suc.prems(3)
      by (simp add: split_beta Let_def algebra_simps)
  qed
qed simp

lemma lut_row_eq:
  assumes "entries_ok es" "0 < sz" "sz dvd unat off" "in_range es off"
  shows "lut_row es sz off = (unat off, filter (within (unat off) sz) es)"
proof -
  let ?hi = "(offset_end (last es) + (sz - 1)) div sz * sz"
  have hd: "e_offset (hd es) = 0" using assms(1) by (simp add: entries_ok_def)
  have "unat off div sz < ?hi div sz"
  proof -
    have "unat off < offset_end (last es)" using assms(4) by (simp add: in_range_def)
    then have "unat off + sz \<le> offset_end (last es) + (sz - 1)" using assms(2) by simp
    then have "(unat off + sz) div sz \<le> (offset_end (last es) + (sz - 1)) div sz" by (rule div_le_mono)
    moreover have "(unat off + sz) div sz = Suc (unat off div sz)"
      using assms(2) div_add_self2 [of sz "unat off"] by auto
    ultimately show ?thesis using assms(2) by (simp only: nonzero_mult_div_cancel_right neq0_conv Suc_le_eq)
  qed
  then have "lut_rows es sz 0 (?hi div sz) 0 ! (unat off div sz) =
      (0 + unat off div sz * sz, filter (within (0 + unat off div sz * sz) sz) es)"
    using entries_ok_sorted [OF assms(1)] assms(2) by (intro lut_rows_eq) auto
  then show ?thesis using assms(3) hd by (simp add: lut_row_def assemble_lut_entries_def Let_def)
qed

lemma io_entries_ok: "entries_ok io_read_entries" "entries_ok io_write_entries"
  unfolding entries_ok_def io_read_entries_def io_write_entries_def io_read_display_def io_read_devices_def
    io_write_display_def io_write_devices_def
  by (simp_all add: before_def offset_end_def e_offset_def e_size_def)

text \<open>What the tables are for, stated on byte addresses: the access and the register have a byte in
  common. The macro decides it by the two comparisons of \<open>within\<close>.\<close>

definition shares_byte :: "nat \<Rightarrow> nat \<Rightarrow> 'f io_entry \<Rightarrow> bool" where
  "shares_byte addr sz e = ({addr..<addr + sz} \<inter> {e_offset e..<e_offset e + e_size e} \<noteq> {})"

lemma shares_byte_iff: "shares_byte addr sz e \<longleftrightarrow> max addr (e_offset e) < min (addr + sz) (e_offset e + e_size e)"
  by (auto simp: shares_byte_def)

lemma within_shares_byte:
  assumes "0 < sz" "0 < e_size e"
  shows "within addr sz e = shares_byte addr sz e"
  unfolding shares_byte_iff using assms by (auto simp: within_def offset_end_def)

lemma lut_row_shares:
  assumes "entries_ok es" "0 < sz" "sz dvd unat off" "in_range es off"
  shows "lut_row es sz off = (unat off, filter (shares_byte (unat off) sz) es)"
  using lut_row_eq [OF assms] within_shares_byte [OF assms(2) entries_ok_sorted(2) [OF assms(1)]]
  by (simp cong: filter_cong)

text \<open>
  C26: an 8-, 16- or 32-bit I/O access at an offset that is a multiple of its width and lies inside the table's
  range goes to exactly the registers it shares a byte with, in address order: the row the macro-built table
  holds for the offset is the list of the registers whose byte range meets the access, so a wide access
  reaches every narrow register in it and a narrow access reaches the wide register around it.
\<close>

theorem io_tables_exact:
  assumes "sz \<in> {1, 2, 4}" "sz dvd unat off"
  shows "(in_range io_read_entries off \<longrightarrow>
            lut_row io_read_entries sz off = (unat off, filter (shares_byte (unat off) sz) io_read_entries))
    \<and> (in_range io_write_entries off \<longrightarrow>
            lut_row io_write_entries sz off = (unat off, filter (shares_byte (unat off) sz) io_write_entries))"
proof -
  have "0 < sz" using assms(1) by auto
  then show ?thesis
    using lut_row_shares [OF io_entries_ok(1) _ assms(2)] lut_row_shares [OF io_entries_ok(2) _ assms(2)] by blast
qed

theorem io_tables_exact_witness:
  "map e_offset (snd (lut_row io_write_entries 4 0x200)) = [0x200, 0x202]
   \<and> map e_offset (snd (lut_row io_write_entries 1 0x133)) = [0x132]"
proof -
  note entries = io_write_entries_def io_write_display_def io_write_devices_def e_offset_def e_size_def
  have r: "in_range io_write_entries 0x200" "in_range io_write_entries 0x133"
    by (simp_all add: in_range_def offset_end_def entries)
  have "map e_offset (filter (shares_byte 0x200 4) io_write_entries) = [0x200, 0x202]"
    "map e_offset (filter (shares_byte 0x133 1) io_write_entries) = [0x132]"
    by (simp_all add: shares_byte_iff entries)
  then show ?thesis using io_tables_exact [of 4 "0x200"] io_tables_exact [of 1 "0x133"] r by simp
qed

end
