(* ===== verification/Memory.thy ===== *)
theory Memory
  imports Io
begin

text \<open>
  The guest bus: the region layout of \<open>src/src/core/memory/regions.rs\<close>, the page tables of
  \<open>src/src/core/memory/mmu.rs\<close> and the access functions of \<open>src/src/core/memory/mem.rs\<close>. The
  generic \<open>T: Convert\<close> is the access size \<open>sz\<close> (1, 2 or 4 bytes) with values as \<open>u32\<close>. The host
  mapping behind the same tables (\<open>VirtualMem\<close>) serves compiled code only and is not modelled.
  A write returns \<open>None\<close> when the source would panic (the RTC) or dereference a null pointer.
\<close>

section \<open>Regions (regions.rs)\<close>

definition EWRAM_SIZE :: nat where "EWRAM_SIZE = 256 * 1024"
definition IWRAM_SIZE :: nat where "IWRAM_SIZE = 32 * 1024"
definition P_EWRAM_OFFSET :: nat where "P_EWRAM_OFFSET = 16 * 1024"
definition P_IWRAM_OFFSET :: nat where "P_IWRAM_OFFSET = P_EWRAM_OFFSET + EWRAM_SIZE"
definition P_ROM_OFFSET :: nat where "P_ROM_OFFSET = P_OAM_OFFSET + 0x4000"

record mem_region =
  rg_start :: nat
  rg_end :: nat
  rg_size :: nat
  rg_shm_offset :: nat

definition IWRAM_REGION :: mem_region where
  "IWRAM_REGION = \<lparr>rg_start = 0x03000000, rg_end = 0x04000000, rg_size = IWRAM_SIZE, rg_shm_offset = P_IWRAM_OFFSET\<rparr>"

text \<open>\<open>read_from_mem\<close> and \<open>write_to_mem\<close> (utils.rs), little endian.\<close>

definition read_mem :: "nat \<Rightarrow> (nat \<Rightarrow> u8) \<Rightarrow> nat \<Rightarrow> u32" where
  "read_mem sz m a =
     (if sz = 1 then ucast (m a)
      else if sz = 2 then ucast (m a) OR push_bit 8 (ucast (m (a + 1)))
      else ucast (m a) OR push_bit 8 (ucast (m (a + 1))) OR push_bit 16 (ucast (m (a + 2)))
           OR push_bit 24 (ucast (m (a + 3))))"

definition write_mem :: "nat \<Rightarrow> nat \<Rightarrow> u32 \<Rightarrow> (nat \<Rightarrow> u8) \<Rightarrow> nat \<Rightarrow> u8" where
  "write_mem sz a v m = (\<lambda>k. if a \<le> k \<and> k < a + sz then ucast (drop_bit (8 * (k - a)) v) else m k)"

definition upd_shm :: "((nat \<Rightarrow> u8) \<Rightarrow> nat \<Rightarrow> u8) \<Rightarrow> emu \<Rightarrow> emu" where
  "upd_shm f s = upd_mem (\<lambda>m. m\<lparr>shm := f (shm m)\<rparr>) s"

definition vram_offset :: "u32 \<Rightarrow> u32" where
  "vram_offset addr =
     (let addr = addr AND 0x1FFFF in if addr AND 0x10000 \<noteq> 0 then addr AND 0x17FFF else addr)"

section \<open>Page tables (mmu.rs)\<close>

definition page_read_entry :: "cartridge \<Rightarrow> u32 \<Rightarrow> nat" where
  "page_read_entry c addr =
     (let n = addr AND 0x0F000000 in
      if n = 0x02000000 then P_EWRAM_OFFSET + (unat addr AND (EWRAM_SIZE - 1))
      else if n = 0x03000000 then P_IWRAM_OFFSET + (unat addr AND (IWRAM_SIZE - 1))
      else if n = 0x06000000 then P_VRAM_OFFSET + unat (vram_offset addr)
      else if 0x08000000 \<le> n \<and> n < 0x0E000000 then
        (let rom_offset = (addr AND 0x01FFFFFF) AND rom_mask c;
             window = (if rom_len c > 16 * 1024 * 1024 then 0x0DFFFF00 else 0x0D000000);
             in_window = (save_ty c = SaveEeprom \<and> window \<le> addr \<and> addr < 0x0E000000)
         in if rom_offset < rom_len c \<and> \<not> in_window then P_ROM_OFFSET + unat rom_offset else 0)
      else 0)"

definition page_write_entry :: "u32 \<Rightarrow> nat" where
  "page_write_entry addr =
     (let n = addr AND 0x0F000000 in
      if n = 0x02000000 then P_EWRAM_OFFSET + (unat addr AND (EWRAM_SIZE - 1))
      else if n = 0x03000000 then P_IWRAM_OFFSET + (unat addr AND (IWRAM_SIZE - 1))
      else 0)"

definition mmu_update_all :: "emu \<Rightarrow> emu" where
  "mmu_update_all s =
     upd_mem (\<lambda>m. m\<lparr>mmu_read := (\<lambda>i. if i < 0x10000 then page_read_entry (cart s) (of_nat (i * 4096)) else mmu_read m i),
                    mmu_write := (\<lambda>i. if i < 0x10000 then page_write_entry (of_nat (i * 4096)) else mmu_write m i)\<rparr>) s"

definition mmu_unmap_rom_head :: "emu \<Rightarrow> emu" where
  "mmu_unmap_rom_head s =
     upd_mem (\<lambda>m. m\<lparr>mmu_read := fold (\<lambda>image t. fold (\<lambda>k t. t((image + k * 4096) div 4096 := 0)) [0..<4] t)
                                  [0x08000000, 0x0A000000, 0x0C000000] (mmu_read m)\<rparr>) s"

definition mirror_addrs :: "mem_region \<Rightarrow> nat \<Rightarrow> nat list" where
  "mirror_addrs rg base =
     map (\<lambda>k. rg_start rg + base + k * rg_size rg)
       [0..<(rg_end rg - (rg_start rg + base) + rg_size rg - 1) div rg_size rg]"

definition mmu_remove_write :: "u32 \<Rightarrow> mem_region \<Rightarrow> emu \<Rightarrow> emu" where
  "mmu_remove_write addr rg s =
     (if mmu_write (mem s) (unat addr div 4096) = 0 then s
      else (let base = unat (addr - of_nat (rg_start rg)) AND (rg_size rg - 1)
            in upd_mem (\<lambda>m. m\<lparr>mmu_write := fold (\<lambda>a t. t(a div 4096 := 0)) (mirror_addrs rg base) (mmu_write m)\<rparr>) s))"

definition mmu_restore_write :: "u32 \<Rightarrow> mem_region \<Rightarrow> emu \<Rightarrow> emu" where
  "mmu_restore_write addr rg s =
     (let page_base = addr AND NOT 0xFFF;
          base = unat (page_base - of_nat (rg_start rg)) AND (rg_size rg - 1)
      in upd_mem (\<lambda>m. m\<lparr>mmu_write := fold (\<lambda>a t. t(a div 4096 := rg_shm_offset rg + (a AND (rg_size rg - 1))))
                          (mirror_addrs rg base) (mmu_write m)\<rparr>) s)"

text \<open>\<open>jit_protect_region\<close> (jit_memory.rs): the pages of a compiled block lose their write entries.\<close>

definition jit_protect_region :: "u32 \<Rightarrow> u32 \<Rightarrow> bool \<Rightarrow> mem_region \<Rightarrow> emu \<Rightarrow> emu" where
  "jit_protect_region pc pc_end thumb rg s =
     (let fin = pc_end - (if thumb then 2 else 4)
      in fold (\<lambda>i. mmu_remove_write (of_nat (i * 4096)) rg) [unat pc div 4096..<Suc (unat fin div 4096)] s)"

definition get_shm_offset :: "bool \<Rightarrow> u32 \<Rightarrow> emu \<Rightarrow> nat" where
  "get_shm_offset wr addr s =
     (let off = (if wr then mmu_write (mem s) else mmu_read (mem s)) (unat addr div 4096)
      in if off \<noteq> 0 then off + unat addr mod 4096 else 0)"

section \<open>Cartridge port (cartridge.rs)\<close>

definition gpio_window :: "u32 \<Rightarrow> bool" where
  "gpio_window addr = (0x080000C4 \<le> addr \<and> addr < 0x080000CA)"

definition is_gpio_addr :: "u32 \<Rightarrow> emu \<Rightarrow> bool" where
  "is_gpio_addr addr s = (has_rtc (cart s) \<and> gpio_window addr)"

definition cartridge_read_gpio :: "u32 \<Rightarrow> emu \<Rightarrow> u16" where
  "cartridge_read_gpio addr s =
     (if gp_control (rtcs s) AND 1 = 0 then
        (let offset = (addr AND 0x01FFFFFF) AND rom_mask (cart s)
         in if offset + 1 < rom_len (cart s) then ucast (read_mem 2 (shm (mem s)) (P_ROM_OFFSET + unat offset))
            else 0)
      else (let n = addr AND 0xF
            in if n = 4 then read_gp_data (rtcs s) else if n = 6 then gp_direction (rtcs s)
               else if n = 8 then gp_control (rtcs s) else 0))"

definition cartridge_write_gpio :: "u32 \<Rightarrow> u16 \<Rightarrow> emu \<Rightarrow> emu option" where
  "cartridge_write_gpio addr v s =
     (let n = addr AND 0xF
      in if n = 4 then map_option (\<lambda>r. s\<lparr>rtcs := r\<rparr>) (write_gp_data (host_clock s) 0xFFFF v (rtcs s))
         else if n = 6 then Some (s\<lparr>rtcs := write_gp_direction 0xFFFF v (rtcs s)\<rparr>)
         else if n = 8 then Some (s\<lparr>rtcs := write_gp_control 0xFFFF v (rtcs s)\<rparr>)
         else Some s)"

definition cartridge_auto_enable_rtc :: "emu \<Rightarrow> emu" where
  "cartridge_auto_enable_rtc s =
     (if has_rtc (cart s) then s
      else mmu_unmap_rom_head (s\<lparr>cart := (cart s)\<lparr>has_rtc := True\<rparr>\<rparr>))"

section \<open>Slow-path handlers (mem.rs)\<close>

definition rom_oob_pattern :: "u32 \<Rightarrow> u32" where
  "rom_oob_pattern addr =
     (drop_bit 1 addr AND 0xFFFF) OR push_bit 16 (drop_bit 1 (addr + 2) AND 0xFFFF)"

definition vram_obj_start :: "emu \<Rightarrow> u32" where
  "vram_obj_start s = (if 3 \<le> field 0 3 (disp_cnt (gpus s)) then 0x14000 else 0x10000)"

definition read_bios :: "nat \<Rightarrow> u32 \<Rightarrow> emu \<Rightarrow> u32" where
  "read_bios sz addr s =
     (if addr < 0x4000
      then trunc_size sz (drop_bit (8 * (unat addr AND (4 - sz))) (bios_open_bus (cpu s)))
      else 0)"

definition read_rom :: "nat \<Rightarrow> u32 \<Rightarrow> emu \<Rightarrow> u32" where
  "read_rom sz addr s =
     (if is_gpio_addr addr s then trunc_size sz (ucast (cartridge_read_gpio addr s))
      else (let offset = (addr AND 0x01FFFFFF) AND rom_mask (cart s)
            in if offset < rom_len (cart s) then read_mem sz (shm (mem s)) (P_ROM_OFFSET + unat offset)
               else trunc_size sz (rom_oob_pattern addr)))"

definition read_rom_eeprom :: "nat \<Rightarrow> u32 \<Rightarrow> emu \<Rightarrow> u32 \<times> emu" where
  "read_rom_eeprom sz addr s =
     (if cartridge_is_eeprom (cart s) addr
      then (let (v, c) = cartridge_read_eeprom (cart s) in (trunc_size sz (ucast v), s\<lparr>cart := c\<rparr>))
      else (read_rom sz addr s, s))"

text \<open>\<open>MemoryIo::read\<close>: the sixteen rows of the read table.\<close>

definition io_read :: "nat \<Rightarrow> u32 \<Rightarrow> emu \<Rightarrow> u32 \<times> emu" where
  "io_read sz addr s =
     (let m = shm (mem s); n = drop_bit 24 addr AND 0xF in
      if n = 0 then (read_bios sz addr s, s)
      else if n = 1 then (0, s)
      else if n = 2 then (read_mem sz m (P_EWRAM_OFFSET + (unat addr AND (EWRAM_SIZE - 1))), s)
      else if n = 3 then (read_mem sz m (P_IWRAM_OFFSET + (unat addr AND (IWRAM_SIZE - 1))), s)
      else if n = 4 then io_gba_read sz (addr AND 0x00FFFFFF) s
      else if n = 5 then (read_mem sz m (P_PALETTES_OFFSET + (unat addr AND 1023)), s)
      else if n = 6 then (read_mem sz m (P_VRAM_OFFSET + unat (vram_offset addr)), s)
      else if n = 7 then (read_mem sz m (P_OAM_OFFSET + (unat addr AND 1023)), s)
      else if n < 0xD then (read_rom sz addr s, s)
      else if n = 0xD then read_rom_eeprom sz addr s
      else (trunc_size sz (ucast (cartridge_read_sram (cart s) addr) * 0x01010101), s))"

definition mark_dirty :: "u8 \<Rightarrow> emu \<Rightarrow> emu" where
  "mark_dirty d s = upd_mem (\<lambda>m. m\<lparr>gpu_mem_dirty := gpu_mem_dirty m OR d\<rparr>) s"

text \<open>A byte store to palette or BG video memory writes the byte to both halves of the halfword.\<close>

definition splat :: "u32 \<Rightarrow> u32" where
  "splat v = (let b = v AND 0xFF in b OR push_bit 8 b)"

definition write_iwram :: "nat \<Rightarrow> u32 \<Rightarrow> u32 \<Rightarrow> emu \<Rightarrow> emu option" where
  "write_iwram sz addr v s =
     (let off = P_IWRAM_OFFSET + (unat addr AND (IWRAM_SIZE - 1)) in
      if read_mem sz (shm (mem s)) off = v then Some s
      else do {
        let s = upd_shm (write_mem sz off v) s;
        (hit, j) \<leftarrow> invalidate_block addr sz (jit s);
        let s = s\<lparr>jit := j\<rparr>;
        if hit then do {
          let s = s\<lparr>breakout_imm := True\<rparr>;
          if is_sticky_smc (jit s) addr then do {
            j \<leftarrow> invalidate_mmu_page addr (jit s);
            Some (mmu_restore_write addr IWRAM_REGION (s\<lparr>jit := j\<rparr>))
          } else Some s
        } else Some s
      })"

definition write_palettes :: "nat \<Rightarrow> u32 \<Rightarrow> u32 \<Rightarrow> emu \<Rightarrow> emu" where
  "write_palettes sz addr v s =
     (let s = mark_dirty DIRTY_PAL s; offset = unat addr AND 1023 in
      if sz = 1 then upd_shm (write_mem 2 (P_PALETTES_OFFSET + (offset div 2 * 2)) (splat v)) s
      else upd_shm (write_mem sz (P_PALETTES_OFFSET + offset) v) s)"

definition write_vram :: "nat \<Rightarrow> u32 \<Rightarrow> u32 \<Rightarrow> emu \<Rightarrow> emu" where
  "write_vram sz addr v s =
     (let offset = vram_offset addr;
          s = mark_dirty (if offset < 0x10000 then DIRTY_BG else DIRTY_OBJ) s in
      if sz = 1 then
        (if vram_obj_start s \<le> offset then s
         else upd_shm (write_mem 2 (P_VRAM_OFFSET + unat (offset AND NOT 1)) (splat v)) s)
      else upd_shm (write_mem sz (P_VRAM_OFFSET + unat offset) v) s)"

definition write_oam :: "nat \<Rightarrow> u32 \<Rightarrow> u32 \<Rightarrow> emu \<Rightarrow> emu" where
  "write_oam sz addr v s =
     (if sz = 1 then s
      else upd_shm (write_mem sz (P_OAM_OFFSET + (unat addr AND 1023)) v) (mark_dirty DIRTY_OAM s))"

definition write_rom :: "u32 \<Rightarrow> u32 \<Rightarrow> emu \<Rightarrow> emu option" where
  "write_rom addr v s =
     (if gpio_window addr then cartridge_write_gpio addr (ucast v) (cartridge_auto_enable_rtc s) else Some s)"

definition write_rom_eeprom :: "u32 \<Rightarrow> u32 \<Rightarrow> emu \<Rightarrow> emu" where
  "write_rom_eeprom addr v s =
     (if cartridge_is_eeprom (cart s) addr then s\<lparr>cart := cartridge_write_eeprom (ucast v) (cart s)\<rparr> else s)"

definition write_sram :: "nat \<Rightarrow> u32 \<Rightarrow> u32 \<Rightarrow> emu \<Rightarrow> emu" where
  "write_sram sz addr v s =
     (let rotated = drop_bit (8 * (unat addr AND (sz - 1))) v
      in s\<lparr>cart := cartridge_write_sram addr (ucast rotated) (cart s)\<rparr>)"

text \<open>\<open>MemoryIo::write\<close>: the sixteen rows of the write table.\<close>

definition io_write :: "nat \<Rightarrow> u32 \<Rightarrow> u32 \<Rightarrow> emu \<Rightarrow> emu option" where
  "io_write sz addr v s =
     (let n = drop_bit 24 addr AND 0xF in
      if n < 2 then Some s
      else if n = 2 then Some (upd_shm (write_mem sz (P_EWRAM_OFFSET + (unat addr AND (EWRAM_SIZE - 1))) v) s)
      else if n = 3 then write_iwram sz addr v s
      else if n = 4 then Some (io_gba_write sz (addr AND 0x00FFFFFF) v s)
      else if n = 5 then Some (write_palettes sz addr v s)
      else if n = 6 then Some (write_vram sz addr v s)
      else if n = 7 then Some (write_oam sz addr v s)
      else if n < 0xD then write_rom addr v s
      else if n = 0xD then Some (write_rom_eeprom addr v s)
      else Some (write_sram sz addr v s))"

section \<open>Bus accesses\<close>

definition align_addr :: "nat \<Rightarrow> u32 \<Rightarrow> u32" where
  "align_addr sz addr = addr AND NOT (of_nat sz - 1) AND 0x0FFFFFFF"

definition mem_read :: "nat \<Rightarrow> u32 \<Rightarrow> emu \<Rightarrow> u32 \<times> emu" where
  "mem_read sz addr s =
     (let a = align_addr sz addr; off = get_shm_offset False a s
      in if off \<noteq> 0 then (read_mem sz (shm (mem s)) off, s) else io_read sz a s)"

definition mem_write :: "nat \<Rightarrow> u32 \<Rightarrow> u32 \<Rightarrow> emu \<Rightarrow> emu option" where
  "mem_write sz addr v s =
     (let a = align_addr sz addr; off = get_shm_offset True a s
      in if off \<noteq> 0 then Some (upd_shm (write_mem sz off v) s) else io_write sz a v s)"

text \<open>A slice the bus functions take: values in a buffer, or \<open>n\<close> elements that still live in the
  shared memory at an offset (the DMA source slice aliases it).\<close>

datatype slice = Buf "u32 list" | Shm nat nat

fun slice_len :: "slice \<Rightarrow> nat" where
  "slice_len (Buf vs) = length vs"
| "slice_len (Shm off n) = n"

fun slice_get :: "nat \<Rightarrow> slice \<Rightarrow> nat \<Rightarrow> emu \<Rightarrow> u32" where
  "slice_get sz (Buf vs) i s = vs ! i"
| "slice_get sz (Shm off n) i s = read_mem sz (shm (mem s)) (off + i * sz)"

fun foldM :: "('a \<Rightarrow> emu \<Rightarrow> emu option) \<Rightarrow> 'a list \<Rightarrow> emu \<Rightarrow> emu option" where
  "foldM f [] s = Some s"
| "foldM f (x # xs) s = Option.bind (f x s) (foldM f xs)"

fun read_each :: "nat \<Rightarrow> u32 list \<Rightarrow> emu \<Rightarrow> u32 list \<times> emu" where
  "read_each sz [] s = ([], s)"
| "read_each sz (a # as) s = (let (v, s) = io_read sz a s; (vs, s) = read_each sz as s in (v # vs, s))"

text \<open>\<open>mem_read_multiple_slice\<close> with (\<open>SHM_MEMORY\<close>) and without the direct path.\<close>

definition mem_read_multiple_slice :: "bool \<Rightarrow> nat \<Rightarrow> u32 \<Rightarrow> nat \<Rightarrow> emu \<Rightarrow> u32 list \<times> emu" where
  "mem_read_multiple_slice direct sz addr n s =
     (let a = align_addr sz addr; off = get_shm_offset False a s
      in if direct \<and> off \<noteq> 0 then (map (\<lambda>i. read_mem sz (shm (mem s)) (off + i * sz)) [0..<n], s)
         else read_each sz (map (\<lambda>i. a + of_nat (i * sz)) [0..<n]) s)"

definition mem_read_fixed_slice :: "nat \<Rightarrow> u32 \<Rightarrow> nat \<Rightarrow> emu \<Rightarrow> u32 list \<times> emu" where
  "mem_read_fixed_slice sz addr n s =
     (let a = align_addr sz addr; off = get_shm_offset False a s;
          (v, s) = (if off \<noteq> 0 then (read_mem sz (shm (mem s)) off, s) else io_read sz a s)
      in (replicate n v, s))"

text \<open>Every further page the slice touches is writable.\<close>

definition all_writable :: "u32 \<Rightarrow> nat \<Rightarrow> emu \<Rightarrow> bool" where
  "all_writable a bytes s =
     list_all (\<lambda>p. get_shm_offset True (of_nat (p * 4096)) s \<noteq> 0)
       [unat a div 4096 + 1..<(unat a + bytes - 1) div 4096 + 1]"

definition mem_write_multiple_slice :: "nat \<Rightarrow> u32 \<Rightarrow> slice \<Rightarrow> emu \<Rightarrow> emu option" where
  "mem_write_multiple_slice sz addr sl s =
     (let a = align_addr sz addr; off = get_shm_offset True a s; n = slice_len sl
      in if off \<noteq> 0 \<and> all_writable a (n * sz) s then
           Some (upd_shm (\<lambda>m. fold (\<lambda>i. write_mem sz (off + i * sz) (slice_get sz sl i s)) [0..<n] m) s)
         else foldM (\<lambda>i s. io_write sz (a + of_nat (i * sz)) (slice_get sz sl i s) s) [0..<n] s)"

text \<open>
  \<open>p\<close> is the host address of the slice. On the direct path the source passes \<open>slice.last()\<close>, unwrapped
  but not dereferenced, to \<open>write_to_mem\<close>: the type it stores is \<open>&T\<close>, so the four bytes of the address of
  the last element land in memory, whatever the element's width. (An empty slice is undefined
  behaviour there; the transfers never pass one.)
\<close>

definition mem_write_fixed_slice :: "nat \<Rightarrow> u32 \<Rightarrow> u32 \<Rightarrow> slice \<Rightarrow> emu \<Rightarrow> emu option" where
  "mem_write_fixed_slice sz addr p sl s =
     (let a = align_addr sz addr; off = get_shm_offset True a s; n = slice_len sl
      in if off \<noteq> 0 then Some (upd_shm (write_mem 4 off (p + of_nat ((n - 1) * sz))) s)
         else if drop_bit 24 a AND 0xF = 4 then
           Some (io_gba_write_fixed_slice sz (a AND 0x00FFFFFF) (map (\<lambda>i. slice_get sz sl i s) [0..<n]) s)
         else foldM (\<lambda>i s. io_write sz a (slice_get sz sl i s) s) [0..<n] s)"

definition mem_write_multiple_memset :: "nat \<Rightarrow> u32 \<Rightarrow> u32 \<Rightarrow> nat \<Rightarrow> emu \<Rightarrow> emu option" where
  "mem_write_multiple_memset sz addr v n s =
     (let a = align_addr sz addr; off = get_shm_offset True a s
      in if off \<noteq> 0 then Some (upd_shm (fold (\<lambda>i. write_mem sz (off + i * sz) v) [0..<n]) s)
         else foldM (\<lambda>i. io_write sz (a + of_nat (i * sz)) v) [0..<n] s)"

end
