(* ===== verification/MemoryLaws.thy ===== *)
theory MemoryLaws
  imports Memory
begin

text \<open>
  What the guest bus guarantees: the page tables of \<open>mmu.rs\<close> agree with the region handlers of
  \<open>mem.rs\<close> and keep their invariant, main memory is an array of bytes behind its mirrors, and video
  memory has the store rules of the hardware.
\<close>

section \<open>Pages\<close>

text \<open>Splitting a masked address at the page boundary, on words and on naturals.\<close>

lemmas unat_and_split = unat_and_split_gen [where w = "0xFFF :: u32"]

lemma unat_and_FFF: "unat (a AND 0xFFF :: u32) = unat a mod 4096"
  using unat_and_mask [of a 12] by (simp add: mask_eq_exp_minus_1)

lemma unat_page_base: "unat (a AND NOT 0xFFF :: u32) = unat a div 4096 * 4096"
proof -
  have "unat a = unat (a AND NOT 0xFFF) + unat a mod 4096"
    using unat_and_split [of "-1" a] by (simp add: unat_and_FFF)
  then show ?thesis by (metis add_right_cancel div_mult_mod_eq)
qed

lemma page_base: "of_nat (unat a div 4096 * 4096) = (a AND NOT 0xFFF :: u32)"
  unfolding unat_page_base [symmetric] by simp

lemma and_ram: "(x :: nat) AND (EWRAM_SIZE - 1) = x mod (4096 * 64)" "x AND (IWRAM_SIZE - 1) = x mod (4096 * 8)"
  using take_bit_eq_mask [of 18 x] take_bit_eq_mask [of 15 x]
  by (simp_all add: EWRAM_SIZE_def IWRAM_SIZE_def take_bit_eq_mod mask_eq_exp_minus_1)

lemma nibble_cases:
  fixes a :: u32
  obtains k where "k < 16" "drop_bit 24 a AND 0xF = of_nat k" "a AND 0x0F000000 = push_bit 24 (of_nat k)"
proof
  let ?k = "unat (drop_bit 24 a AND 0xF)"
  have "unat (drop_bit 24 a AND 0xF) = unat (drop_bit 24 a) mod 2 ^ 4"
    using unat_and_mask [of "drop_bit 24 a" 4] by (simp add: mask_eq_exp_minus_1)
  then show "?k < 16" by simp
  show "drop_bit 24 a AND 0xF = of_nat ?k" by simp
  have m: "(0x0F000000 :: u32) = push_bit 24 (mask 4)" "(0xF :: u32) = mask 4"
    by (simp_all add: mask_eq_exp_minus_1 push_bit_eq_mult)
  show "a AND 0x0F000000 = push_bit 24 (of_nat ?k)"
    unfolding m by (rule bit_word_eqI) (auto simp: bit_and_iff bit_push_bit_iff bit_drop_bit_eq bit_mask_iff)
qed

lemma vram_offset_and:
  "vram_offset a = a AND (if bit a 16 then 0x17FFF else 0x1FFFF)"
proof -
  have "((a AND 0x1FFFF) AND 0x10000 = 0) = (\<not> bit a 16)"
    using and_bit_eq_0_iff [of a 16] by (simp add: and.assoc push_bit_eq_mult)
  then show ?thesis by (simp add: vram_offset_def Let_def and.assoc)
qed

lemma vram_offset_split: "unat (vram_offset a) = unat (vram_offset (a AND NOT 0xFFF)) + unat a mod 4096"
proof -
  have "bit (a AND NOT 0xFFF) 16 = bit a 16" by (simp add: bit_and_iff)
  then show ?thesis
    using unat_and_split [of "if bit a 16 then 0x17FFF else 0x1FFFF" a]
    by (simp add: vram_offset_and unat_and_FFF split: if_splits)
qed


section \<open>The page tables\<close>

text \<open>
  The invariant of the tables: an entry is absent or the one \<open>update_all_arm7\<close> computes, and with
  an RTC the page with the GPIO window is absent from the read table.
\<close>

definition mmu_ok :: "emu \<Rightarrow> bool" where
  "mmu_ok s \<longleftrightarrow>
     (\<forall>i < 0x10000. mmu_read (mem s) i \<in> {0, page_read_entry (cart s) (of_nat (i * 4096))})
   \<and> (\<forall>i < 0x10000. mmu_write (mem s) i \<in> {0, page_write_entry (of_nat (i * 4096))})
   \<and> (has_rtc (cart s) \<longrightarrow> mmu_read (mem s) 0x8000 = 0)"

text \<open>A cartridge whose last page is full, with the EEPROM window of a small ROM.\<close>

definition rom_ok :: "cartridge \<Rightarrow> bool" where
  "rom_ok c \<longleftrightarrow> unat (rom_len c) mod 4096 = 0 \<and> rom_mask c AND 0xFFF = 0xFFF
     \<and> (save_ty c = SaveEeprom \<longrightarrow> rom_len c \<le> 16 * 1024 * 1024)"

text \<open>The three mirrors of the ROM: a memory region of 8 to 13.\<close>

definition rom_area :: "u32 \<Rightarrow> bool" where
  "rom_area a = (8 \<le> drop_bit 24 a AND 0xF \<and> drop_bit 24 a AND 0xF \<le> 13)"

lemma align_addr_less: "unat (align_addr sz addr) < 0x10000000"
proof -
  have "align_addr sz addr = (addr AND NOT (of_nat sz - 1)) AND mask 28"
    by (simp add: align_addr_def mask_eq_exp_minus_1 and.assoc)
  then show ?thesis using unat_and_mask [of "addr AND NOT (of_nat sz - 1)" 28] by simp
qed

lemma page_nibble: "(a AND NOT 0xFFF) AND 0x0F000000 = (a AND 0x0F000000 :: u32)"
  by (simp add: and.assoc)

lemma page_read_entry_nibble:
  assumes "q AND 0x0F000000 = push_bit 24 (of_nat k :: u32)" "k < 16"
  shows "page_read_entry c q =
     (if k = 2 then P_EWRAM_OFFSET + (unat q AND (EWRAM_SIZE - 1))
      else if k = 3 then P_IWRAM_OFFSET + (unat q AND (IWRAM_SIZE - 1))
      else if k = 6 then P_VRAM_OFFSET + unat (vram_offset q)
      else if 8 \<le> k \<and> k < 14 \<and> (q AND 0x01FFFFFF) AND rom_mask c < rom_len c
        \<and> \<not> (save_ty c = SaveEeprom \<and> (if rom_len c > 16 * 1024 * 1024 then 0x0DFFFF00 else 0x0D000000) \<le> q \<and> q < 0x0E000000)
      then P_ROM_OFFSET + unat ((q AND 0x01FFFFFF) AND rom_mask c) else 0)"
proof -
  show ?thesis using assms(1) less_16_cases [OF assms(2)]
    by (elim disjE) (simp_all add: page_read_entry_def Let_def push_bit_eq_mult)
qed

lemma page_read_entry_rom:
  assumes "rom_ok c" "k \<in> {8, 9, 10, 11, 12, 13}" "a AND 0x0F000000 = push_bit 24 (of_nat k)"
    and ne: "page_read_entry c (a AND NOT 0xFFF) \<noteq> 0"
  shows "(a AND 0x01FFFFFF) AND rom_mask c < rom_len c
    \<and> page_read_entry c (a AND NOT 0xFFF) + unat a mod 4096 = P_ROM_OFFSET + unat ((a AND 0x01FFFFFF) AND rom_mask c)"
proof -
  let ?m = "0x01FFFFFF AND rom_mask c"
  let ?p = "((a AND NOT 0xFFF) AND 0x01FFFFFF) AND rom_mask c"
  have m: "?m AND 0xFFF = 0xFFF" using assms(1) by (simp add: rom_ok_def and.assoc)
  have split: "unat ((a AND 0x01FFFFFF) AND rom_mask c) = unat ?p + unat a mod 4096"
    using unat_and_split [OF m, of a] by (simp only: and.assoc unat_and_FFF)
  have entry: "page_read_entry c (a AND NOT 0xFFF) = P_ROM_OFFSET + unat ?p \<and> ?p < rom_len c"
    using ne assms(2) page_read_entry_nibble [of "a AND NOT 0xFFF" k c] assms(3)
    by (auto simp only: page_nibble split: if_splits)
  have "unat ?p mod 4096 = 0"
  proof -
    have "?p AND 0xFFF = 0 AND a AND rom_mask c" by (simp add: ac_simps)
    then show ?thesis using unat_and_FFF [of ?p] by simp
  qed
  moreover have "unat (rom_len c) mod 4096 = 0" "unat ?p < unat (rom_len c)"
    using assms(1) entry by (simp_all add: rom_ok_def word_less_nat_alt)
  ultimately have "unat ?p + unat a mod 4096 < unat (rom_len c)"
    by (rule multiple_less) simp
  then show ?thesis using entry split by (simp add: word_less_nat_alt)
qed


lemma io_read_nibble:
  assumes "drop_bit 24 a AND 0xF = (of_nat k :: u32)"
  shows "k = 2 \<Longrightarrow> io_read sz a s = (read_mem sz (shm (mem s)) (P_EWRAM_OFFSET + (unat a AND (EWRAM_SIZE - 1))), s)"
    and "k = 3 \<Longrightarrow> io_read sz a s = (read_mem sz (shm (mem s)) (P_IWRAM_OFFSET + (unat a AND (IWRAM_SIZE - 1))), s)"
    and "k = 6 \<Longrightarrow> io_read sz a s = (read_mem sz (shm (mem s)) (P_VRAM_OFFSET + unat (vram_offset a)), s)"
    and "k \<in> {8, 9, 10, 11, 12} \<Longrightarrow> io_read sz a s = (read_rom sz a s, s)"
    and "k = 13 \<Longrightarrow> io_read sz a s = read_rom_eeprom sz a s"
  using assms by (auto simp: io_read_def Let_def)

lemma mmu_okD:
  assumes "mmu_ok s" "i < 0x10000"
  shows "mmu_read (mem s) i \<in> {0, page_read_entry (cart s) (of_nat (i * 4096))}"
    and "mmu_write (mem s) i \<in> {0, page_write_entry (of_nat (i * 4096))}"
  using assms unfolding mmu_ok_def by blast+

lemma get_shm_offset_read:
  assumes "mmu_ok s" "unat a < 0x10000000" "get_shm_offset False a s \<noteq> 0"
  shows "get_shm_offset False a s = page_read_entry (cart s) (a AND NOT 0xFFF) + unat a mod 4096
    \<and> page_read_entry (cart s) (a AND NOT 0xFFF) \<noteq> 0 \<and> \<not> is_gpio_addr a s"
proof -
  let ?i = "unat a div 4096"
  have i: "?i < 0x10000" using assms(2) by (simp add: less_mult_imp_div_less)
  have ne: "mmu_read (mem s) ?i \<noteq> 0" using assms(3) by (simp add: get_shm_offset_def Let_def split: if_splits)
  then have e: "mmu_read (mem s) ?i = page_read_entry (cart s) (a AND NOT 0xFFF)"
    using mmu_okD(1) [OF assms(1) i] by (simp only: page_base insert_iff empty_iff simp_thms)
  have "\<not> is_gpio_addr a s"
  proof
    assume g: "is_gpio_addr a s"
    then have "0x080000C4 \<le> unat a" "unat a < 0x080000CA"
      by (simp_all add: is_gpio_addr_def gpio_window_def word_le_nat_alt word_less_nat_alt)
    then have "?i = 0x8000" by (intro div_nat_eqI; simp)
    then show False using g ne assms(1) by (simp add: mmu_ok_def is_gpio_addr_def)
  qed
  then show ?thesis using ne e by (simp add: get_shm_offset_def)
qed

lemma small_eeprom_page:
  assumes "rom_ok c" "cartridge_is_eeprom c a"
  shows "save_ty c = SaveEeprom \<and> (if rom_len c > 16 * 1024 * 1024 then 0x0DFFFF00 else 0x0D000000) \<le> a AND NOT 0xFFF
    \<and> a AND NOT 0xFFF < 0x0E000000"
proof -
  have e: "save_ty c = SaveEeprom" "\<not> rom_len c > 16 * 1024 * 1024" and "0x0D000000 \<le> a" "a < 0x0E000000"
    using assms by (auto simp: cartridge_is_eeprom_def rom_ok_def not_less split: if_splits)
  then have "0xD000 * 4096 \<le> unat a" "unat a < 0x0E000000"
    by (simp_all add: word_le_nat_alt word_less_nat_alt)
  moreover from this have "0xD000 \<le> unat a div 4096" using div_le_mono [of "0xD000 * 4096" "unat a" 4096] by simp
  then have "0xD000 * 4096 \<le> unat (a AND NOT 0xFFF)" unfolding unat_page_base by (rule mult_le_mono1)
  moreover have "unat (a AND NOT 0xFFF) \<le> unat a" unfolding unat_page_base by (rule div_times_less_eq_dividend)
  ultimately have "0x0D000000 \<le> a AND NOT 0xFFF" "a AND NOT 0xFFF < 0x0E000000"
    by (simp_all add: word_le_nat_alt word_less_nat_alt)
  then show ?thesis using e by simp
qed

lemma page_read_entry_fast:
  assumes k: "k < 16" "drop_bit 24 a AND 0xF = (of_nat k :: u32)" "a AND 0x0F000000 = push_bit 24 (of_nat k)"
    and a: "page_read_entry (cart s) (a AND NOT 0xFFF) \<noteq> 0" "\<not> is_gpio_addr a s"
      "k \<in> {8, 9, 10, 11, 12, 13} \<Longrightarrow> rom_ok (cart s)" "unat a < 0x10000000"
  shows "io_read sz a s = (read_mem sz (shm (mem s)) (page_read_entry (cart s) (a AND NOT 0xFFF) + unat a mod 4096), s)"
proof -
  let ?q = "a AND NOT 0xFFF"
  have q: "?q AND 0x0F000000 = push_bit 24 (of_nat k)" using k(3) by (simp only: page_nibble)
  note entry = page_read_entry_nibble [OF q k(1), of "cart s"]
  consider "k = 2" | "k = 3" | "k = 6" | "k \<in> {8, 9, 10, 11, 12, 13}"
    using a(1) less_16_cases [OF k(1)] unfolding entry by (auto split: if_splits)
  then show ?thesis
  proof cases
    case 1
    have "(unat ?q AND (EWRAM_SIZE - 1)) + unat a mod 4096 = unat a AND (EWRAM_SIZE - 1)"
      by (simp only: and_ram unat_page_base mod_split_page)
    then show ?thesis using 1 entry io_read_nibble(1) [OF k(2)] by (simp add: add.assoc)
  next
    case 2
    have "(unat ?q AND (IWRAM_SIZE - 1)) + unat a mod 4096 = unat a AND (IWRAM_SIZE - 1)"
      by (simp only: and_ram unat_page_base mod_split_page)
    then show ?thesis using 2 entry io_read_nibble(2) [OF k(2)] by (simp add: add.assoc)
  next
    case 3
    then show ?thesis using entry io_read_nibble(3) [OF k(2)] vram_offset_split [of a] by (simp add: add.assoc)
  next
    case 4
    note ok = a(3) [OF 4]
    note rom = page_read_entry_rom [OF ok 4 k(3) a(1)]
    then have r: "read_rom sz a s = read_mem sz (shm (mem s)) (page_read_entry (cart s) ?q + unat a mod 4096)"
      using a(2) by (simp add: read_rom_def Let_def)
    show ?thesis
    proof (cases "k = 13")
      case True
      have "\<not> cartridge_is_eeprom (cart s) a"
        using a(1) True small_eeprom_page [OF ok] unfolding entry by (auto split: if_splits)
      then show ?thesis using True io_read_nibble(5) [OF k(2)] r by (simp add: read_rom_eeprom_def)
    next
      case False
      then show ?thesis using 4 io_read_nibble(4) [OF k(2)] r by simp
    qed
  qed
qed


lemma mem_read_io_read:
  assumes "mmu_ok s" "rom_area (align_addr sz addr) \<Longrightarrow> rom_ok (cart s)"
  shows "mem_read sz addr s = io_read sz (align_addr sz addr) s"
proof (cases "get_shm_offset False (align_addr sz addr) s = 0")
  case False
  let ?a = "align_addr sz addr"
  note fast = get_shm_offset_read [OF assms(1) align_addr_less False]
  obtain k where k: "k < 16" "drop_bit 24 ?a AND 0xF = of_nat k" "?a AND 0x0F000000 = push_bit 24 (of_nat k)"
    by (rule nibble_cases)
  have "rom_ok (cart s)" if "k \<in> {8, 9, 10, 11, 12, 13}"
    using assms(2) k(2) that by (auto simp: rom_area_def)
  then show ?thesis
    using False fast page_read_entry_fast [OF k _ _ _ align_addr_less, of s sz]
    by (simp add: mem_read_def Let_def)
qed (simp add: mem_read_def Let_def)

text \<open>
  C2: the page tables are only an optimisation of reads, as long as they satisfy their invariant \<open>mmu_ok\<close>:
  each entry is empty or that of its page, and the page of the clock's port is unmapped when the cartridge
  has a clock. Then a bus read through them returns the value, and leaves the state, that the region's own
  handler gives for the aligned address, mirrors included. Outside the ROM area that needs no more; inside it
  the cartridge must fill its last page and must not have an EEPROM with more than 16 MiB of ROM. The two
  conditions are not for free: the boot of a cartridge with a clock leaves a state outside the first
  (\<open>boot_hides_clock\<close>), and a large ROM with EEPROM is outside the second (\<open>eeprom_window_hidden\<close>).
\<close>

theorem mem_read_table_agrees:
  assumes "mmu_ok s" "rom_area (align_addr sz addr) \<Longrightarrow> rom_ok (cart s)"
  shows "mem_read sz addr s = io_read sz (align_addr sz addr) s"
  using assms by (rule mem_read_io_read)

section \<open>Operations on the tables\<close>

lemma fold_upd_pred:
  assumes "\<forall>i. P i (t i)" "\<forall>x \<in> set xs. P (f x) (g x)"
  shows "\<forall>i. P i (fold (\<lambda>x t. t(f x := g x)) xs t i)"
  using assms by (induction xs arbitrary: t) simp_all

lemma mirror_addrs_iwram:
  assumes "a \<in> set (mirror_addrs IWRAM_REGION base)" "base < 0x8000"
  shows "\<exists>k. a = 0x03000000 + base + k * 0x8000 \<and> a < 0x04000000"
proof -
  obtain k where k: "a = 0x03000000 + base + k * 0x8000" "k < (0x01000000 - base + 0x7FFF) div 0x8000"
    using assms(1) by (auto simp: mirror_addrs_def IWRAM_REGION_def IWRAM_SIZE_def)
  then have "Suc k \<le> (0x01000000 - base + 0x7FFF) div 0x8000" by simp
  then have "Suc k * 0x8000 \<le> 0x01000000 - base + 0x7FFF"
    by (metis div_times_less_eq_dividend le_trans mult_le_mono1)
  then show ?thesis using k(1) assms(2) by auto
qed

lemma page_write_iwram:
  assumes "0x03000000 \<le> a" "a < 0x04000000"
  shows "page_write_entry (of_nat a) = P_IWRAM_OFFSET + (a AND (IWRAM_SIZE - 1))"
proof -
  have u: "unat (of_nat a :: u32) = a" using assms by (intro unat_of_nat_u32) simp
  have "a div 0x1000000 = 3" using assms by (intro div_nat_eqI) simp_all
  then show ?thesis by (simp add: page_write_entry_def nibble_mask u Let_def push_bit_eq_mult)
qed

lemma restore_write_entry:
  assumes "a \<in> set (mirror_addrs IWRAM_REGION (base * 4096))" "base * 4096 < 0x8000"
  shows "rg_shm_offset IWRAM_REGION + (a AND (rg_size IWRAM_REGION - 1)) = page_write_entry (of_nat (a div 4096 * 4096))"
proof -
  obtain k where k: "a = 0x03000000 + base * 4096 + k * 0x8000" "a < 0x04000000"
    using mirror_addrs_iwram [OF assms] by blast
  then have "a = (0x3000 + base + k * 8) * 4096" by simp
  then have "a div 4096 * 4096 = a" by simp
  moreover have "page_write_entry (of_nat a) = P_IWRAM_OFFSET + (a AND (IWRAM_SIZE - 1))"
    by (rule page_write_iwram) (use k in simp_all)
  ultimately show ?thesis by (simp add: IWRAM_REGION_def)
qed


lemma page_offset_iwram: "\<exists>base. unat ((addr AND NOT 0xFFF) - 0x03000000 :: u32) AND (IWRAM_SIZE - 1) = base * 4096 \<and> base * 4096 < 0x8000"
proof -
  let ?w = "(addr AND NOT 0xFFF) - 0x03000000 :: u32"
  have "4096 dvd unat (addr AND NOT 0xFFF)" by (simp only: unat_page_base dvd_triv_right)
  moreover have "unat ?w = (unat (addr AND NOT 0xFFF) + 0xFD000 * 4096) mod 2 ^ 32"
  proof -
    have "?w = (addr AND NOT 0xFFF) + 0xFD000000" by simp
    then show ?thesis by (simp only: unat_word_ariths) simp
  qed
  moreover have "(4096 :: nat) dvd 2 ^ 32" by simp
  ultimately have "4096 dvd unat ?w" by (metis dvd_add dvd_mod dvd_triv_right)
  then have "4096 dvd unat ?w mod (4096 * 8)" by (simp add: dvd_mod_iff)
  then obtain b where "unat ?w mod (4096 * 8) = b * 4096" by (metis dvd_def mult.commute)
  moreover have "unat ?w mod (4096 * 8) < 4096 * 8" by simp
  ultimately show ?thesis unfolding and_ram by auto
qed

lemma mmu_ok_write_upd:
  assumes "mmu_ok s" "\<forall>i. mmu_write (f (mem s)) i \<in> {0, mmu_write (mem s) i, page_write_entry (of_nat (i * 4096))}"
    "mmu_read (f (mem s)) = mmu_read (mem s)"
  shows "mmu_ok (upd_mem f s)"
proof -
  have "mmu_write (f (mem s)) i \<in> {0, page_write_entry (of_nat (i * 4096))}" if "i < 0x10000" for i
    using assms(2) mmu_okD(2) [OF assms(1) that] by (metis insertE insertI1 insertI2 singletonD)
  moreover have "mmu_read (f (mem s)) i \<in> {0, page_read_entry (cart s) (of_nat (i * 4096))}" if "i < 0x10000" for i
    using mmu_okD(1) [OF assms(1) that] by (simp only: assms(3))
  moreover have "has_rtc (cart s) \<longrightarrow> mmu_read (f (mem s)) 0x8000 = 0"
    using assms(1) unfolding mmu_ok_def assms(3) by (elim conjE)
  ultimately show ?thesis unfolding mmu_ok_def upd_mem_def by simp
qed

lemma mmu_remove_write_ok:
  assumes "mmu_ok s"
  shows "mmu_ok (mmu_remove_write addr rg s)"
proof -
  let ?P = "\<lambda>i v. v \<in> {0, mmu_write (mem s) i, page_write_entry (of_nat (i * 4096))}"
  have "\<forall>i. ?P i (fold (\<lambda>a t. t(a div 4096 := 0)) as (mmu_write (mem s)) i)" for as
    by (rule fold_upd_pred) simp_all
  then have "mmu_ok (upd_mem (\<lambda>m. m\<lparr>mmu_write := fold (\<lambda>a t. t(a div 4096 := 0)) as (mmu_write m)\<rparr>) s)" for as
    by (intro mmu_ok_write_upd [OF assms]) (simp_all del: insert_iff of_nat_mult)
  then show ?thesis using assms by (simp add: mmu_remove_write_def Let_def)
qed

lemma mmu_restore_write_ok:
  assumes "mmu_ok s"
  shows "mmu_ok (mmu_restore_write addr IWRAM_REGION s)"
proof -
  let ?P = "\<lambda>i v. v \<in> {0, mmu_write (mem s) i, page_write_entry (of_nat (i * 4096))}"
  obtain b where b: "unat ((addr AND NOT 0xFFF) - 0x03000000 :: u32) AND (IWRAM_SIZE - 1) = b * 4096" "b * 4096 < 0x8000"
    using page_offset_iwram by blast
  have "\<forall>i. ?P i (fold (\<lambda>a t. t(a div 4096 := rg_shm_offset IWRAM_REGION + (a AND (rg_size IWRAM_REGION - 1))))
          (mirror_addrs IWRAM_REGION (b * 4096)) (mmu_write (mem s)) i)"
    by (rule fold_upd_pred) (use restore_write_entry [OF _ b(2)] in auto)
  moreover have "unat ((addr AND NOT 0xFFF) - of_nat (rg_start IWRAM_REGION) :: u32) AND (rg_size IWRAM_REGION - 1) = b * 4096"
    using b(1) by (simp add: IWRAM_REGION_def)
  ultimately show ?thesis
    unfolding mmu_restore_write_def Let_def using assms
    by (intro mmu_ok_write_upd) (simp_all del: insert_iff of_nat_mult)
qed


lemma mmu_unmap_rom_head_read:
  "mmu_read (mem (mmu_unmap_rom_head s)) =
     (\<lambda>i. if i \<in> {0x8000, 0x8001, 0x8002, 0x8003, 0xA000, 0xA001, 0xA002, 0xA003, 0xC000, 0xC001, 0xC002, 0xC003}
          then 0 else mmu_read (mem s) i)"
proof -
  have "[0..<4] = [0, 1, 2, 3 :: nat]" by code_simp
  then show ?thesis by (intro ext) (simp add: mmu_unmap_rom_head_def upd_mem_def)
qed

lemma mmu_unmap_rom_head_frame [simp]:
  "cart (mmu_unmap_rom_head s) = cart s" "mmu_write (mem (mmu_unmap_rom_head s)) = mmu_write (mem s)"
  by (simp_all add: mmu_unmap_rom_head_def upd_mem_def)

lemma mmu_unmap_rom_head_ok:
  assumes "\<And>i. i < 0x10000 \<Longrightarrow> mmu_read (mem s) i \<in> {0, page_read_entry (cart s) (of_nat (i * 4096))}"
    "\<And>i. i < 0x10000 \<Longrightarrow> mmu_write (mem s) i \<in> {0, page_write_entry (of_nat (i * 4096))}"
  shows "mmu_ok (mmu_unmap_rom_head s)"
  unfolding mmu_ok_def mmu_unmap_rom_head_read mmu_unmap_rom_head_frame
  using assms by (simp del: of_nat_mult)

lemma mmu_update_all_entries:
  "i < 0x10000 \<Longrightarrow> mmu_read (mem (mmu_update_all s)) i = page_read_entry (cart s) (of_nat (i * 4096))"
  "i < 0x10000 \<Longrightarrow> mmu_write (mem (mmu_update_all s)) i = page_write_entry (of_nat (i * 4096))"
  "cart (mmu_update_all s) = cart s"
  by (simp_all add: mmu_update_all_def upd_mem_def)

lemma mmu_update_all_ok:
  "mmu_ok (if has_rtc (cart s) then mmu_unmap_rom_head (mmu_update_all s) else mmu_update_all s)"
proof (cases "has_rtc (cart s)")
  case True
  then show ?thesis using mmu_unmap_rom_head_ok [of "mmu_update_all s"]
    by (simp only: mmu_update_all_entries if_True insert_iff simp_thms)
next
  case False
  then show ?thesis unfolding mmu_ok_def
    by (simp add: mmu_update_all_entries del: of_nat_mult)
qed

lemma mmu_update_all_ok_iff:
  "mmu_ok (mmu_update_all t) \<longleftrightarrow> \<not> has_rtc (cart t) \<or> page_read_entry (cart t) 0x08000000 = 0"
proof -
  have "mmu_read (mem (mmu_update_all t)) 0x8000 = page_read_entry (cart t) 0x08000000"
    using mmu_update_all_entries(1) [of "0x8000" t] by simp
  then show ?thesis unfolding mmu_ok_def by (simp add: mmu_update_all_entries del: of_nat_mult)
qed

lemma cartridge_auto_enable_rtc_ok:
  assumes "mmu_ok s"
  shows "mmu_ok (cartridge_auto_enable_rtc s)"
proof -
  let ?s = "s\<lparr>cart := (cart s)\<lparr>has_rtc := True\<rparr>\<rparr>"
  have e: "page_read_entry (cart ?s) a = page_read_entry (cart s) a" for a
    by (simp add: page_read_entry_def Let_def)
  have "mmu_ok (mmu_unmap_rom_head ?s)"
    by (rule mmu_unmap_rom_head_ok) (use mmu_okD [OF assms] e in \<open>simp_all del: insert_iff of_nat_mult\<close>)
  then show ?thesis using assms by (simp add: cartridge_auto_enable_rtc_def)
qed

lemma jit_protect_region_ok:
  assumes "mmu_ok s"
  shows "mmu_ok (jit_protect_region pc pc_end thumb rg s)"
proof -
  have "mmu_ok (fold (\<lambda>i. mmu_remove_write (of_nat (i * 4096)) rg) xs s)" for xs
    using assms by (induction xs arbitrary: s) (simp_all add: mmu_remove_write_ok)
  then show ?thesis by (simp add: jit_protect_region_def Let_def)
qed

text \<open>
  C22: the operations that change single entries of the page tables keep their invariant: removing a
  write entry in all the mirrors and restoring it (in IWRAM, the only region the code restores), protecting
  the pages of a compiled block, unmapping the head of the ROM, and turning on the clock a running program
  is found to use. Rebuilding all the tables establishes it from any state exactly if the cartridge has
  no clock or its first page is not mapped; for a cartridge with a clock it takes the unmapping of
  the head after it, as the code that restores a savestate has it.
\<close>

theorem mmu_operations_keep_ok:
  assumes "mmu_ok s"
  shows "mmu_ok (mmu_remove_write addr rg s) \<and> mmu_ok (mmu_restore_write addr IWRAM_REGION s)
    \<and> mmu_ok (jit_protect_region pc pc_end thumb rg s) \<and> mmu_ok (cartridge_auto_enable_rtc s)
    \<and> mmu_ok (mmu_unmap_rom_head s)
    \<and> (mmu_ok (mmu_update_all t) \<longleftrightarrow> \<not> has_rtc (cart t) \<or> page_read_entry (cart t) 0x08000000 = 0)
    \<and> mmu_ok (if has_rtc (cart t) then mmu_unmap_rom_head (mmu_update_all t) else mmu_update_all t)"
  using assms by (intro conjI mmu_remove_write_ok mmu_restore_write_ok jit_protect_region_ok
      cartridge_auto_enable_rtc_ok mmu_update_all_ok mmu_update_all_ok_iff mmu_unmap_rom_head_ok mmu_okD)

text \<open>The state of the examples: a cartridge with one page of ROM, fresh tables.\<close>

definition emu_mapped :: emu where
  "emu_mapped = mmu_update_all (emu_new\<lparr>cart := cartridge_new\<lparr>rom_len := 0x1000, rom_mask := 0x01FFFFFF\<rparr>\<rparr>)"

lemma emu_mapped_ok: "mmu_ok emu_mapped" "rom_ok (cart emu_mapped)"
proof -
  let ?s = "emu_new\<lparr>cart := cartridge_new\<lparr>rom_len := 0x1000, rom_mask := 0x01FFFFFF\<rparr>\<rparr>"
  have "\<not> has_rtc (cart ?s)" by (simp add: cartridge_new_def)
  then show "mmu_ok emu_mapped" using mmu_update_all_ok [of ?s] by (simp only: emu_mapped_def if_False)
  show "rom_ok (cart emu_mapped)"
    by (simp add: rom_ok_def emu_mapped_def mmu_update_all_entries cartridge_new_def)
qed

theorem mmu_operations_keep_ok_witness:
  "mmu_ok (mmu_restore_write 0x03000000 IWRAM_REGION emu_mapped)"
  using mmu_operations_keep_ok [OF emu_mapped_ok(1), of "0x03000000"] by blast

theorem mem_read_table_agrees_witness:
  "rom_area (align_addr 4 0x08000006) \<and> mem_read 4 0x08000006 emu_mapped = io_read 4 (align_addr 4 0x08000006) emu_mapped"
  using mem_read_table_agrees [OF emu_mapped_ok, of 4 "0x08000006"] by (simp add: rom_area_def align_addr_def)


text \<open>
  On a full 32 MiB cartridge with EEPROM the tables hide the EEPROM. The window is the top 256
  bytes of the ROM space, but \<open>update_all_arm7\<close> compares its start with the base of each page, so
  the last page is mapped and a read in the window returns ROM bytes without reaching the EEPROM.
\<close>

theorem eeprom_window_hidden:
  assumes "save_ty (cart s) = SaveEeprom" "rom_len (cart s) = 0x02000000" "rom_mask (cart s) = 0x01FFFFFF"
    and "0x0DFFFF00 \<le> align_addr sz a" "align_addr sz a < 0x0E000000"
  shows "let t = mmu_update_all s; b = align_addr sz a in cartridge_is_eeprom (cart t) b
    \<and> io_read sz b t = read_rom_eeprom sz b t
    \<and> mem_read sz a t = (read_mem sz (shm (mem s)) (P_ROM_OFFSET + unat (b AND 0x01FFFFFF)), t)"
proof -
  let ?b = "align_addr sz a" and ?t = "mmu_update_all s"
  have b: "0x0DFFFF00 \<le> unat ?b" "unat ?b < 0x0E000000"
    using assms(4,5) by (simp_all add: word_le_nat_alt word_less_nat_alt)
  have i: "unat ?b div 4096 = 0xDFFF" using b by (intro div_nat_eqI) simp_all
  have k: "unat ?b div 0x1000000 = 13" using b by (intro div_nat_eqI) simp_all
  have "mmu_read (mem ?t) 0xDFFF = page_read_entry (cart s) 0x0DFFF000"
    using mmu_update_all_entries(1) [of "0xDFFF" s] by simp
  also have "\<dots> = P_ROM_OFFSET + 0x01FFF000" using assms(1-3) by (simp add: page_read_entry_def)
  finally have e: "mmu_read (mem ?t) 0xDFFF = P_ROM_OFFSET + 0x01FFF000" .
  have "unat ?b div 2 ^ 25 = 6" using b by (intro div_nat_eqI) simp_all
  then have "unat (?b AND 0x01FFFFFF) = unat ?b - 0x0C000000"
    using minus_div_mult_eq_mod [of "unat ?b" "2 ^ 25"] unat_and_mask [of ?b 25] by (simp add: mask_eq_exp_minus_1)
  then have r: "unat (?b AND 0x01FFFFFF) = 0x01FFF000 + unat ?b mod 4096"
    using b div_mult_mod_eq [of "unat ?b" 4096] i by simp
  have "get_shm_offset False ?b ?t = P_ROM_OFFSET + unat (?b AND 0x01FFFFFF)"
    by (simp add: get_shm_offset_def i e r)
  moreover have "P_ROM_OFFSET \<noteq> 0" by (simp add: P_ROM_OFFSET_def)
  moreover have "cartridge_is_eeprom (cart ?t) ?b"
    using assms by (simp add: cartridge_is_eeprom_def mmu_update_all_entries)
  moreover have "io_read sz ?b ?t = read_rom_eeprom sz ?b ?t"
    by (rule io_read_nibble(5) [of _ 13]) (simp_all add: nibble_drop k)
  moreover have "shm (mem ?t) = shm (mem s)" by (simp add: mmu_update_all_def upd_mem_def)
  ultimately show ?thesis by (simp add: mem_read_def Let_def)
qed

theorem eeprom_window_hidden_witness:
  "let s = emu_new\<lparr>cart := cartridge_new\<lparr>save_ty := SaveEeprom, rom_len := 0x02000000, rom_mask := 0x01FFFFFF\<rparr>\<rparr>;
       t = mmu_update_all s
   in cartridge_is_eeprom (cart t) 0x0DFFFF00 \<and> mem_read 2 0x0DFFFF00 t = (0, t)"
proof -
  let ?s = "emu_new\<lparr>cart := cartridge_new\<lparr>save_ty := SaveEeprom, rom_len := 0x02000000, rom_mask := 0x01FFFFFF\<rparr>\<rparr>"
  have a: "align_addr 2 0x0DFFFF00 = 0x0DFFFF00" by (simp add: align_addr_def)
  have "shm (mem ?s) = (\<lambda>_. 0)" by (simp add: emu_new_def)
  then show ?thesis
    using eeprom_window_hidden [of ?s 2 "0x0DFFFF00"] a by (simp add: Let_def read_mem_def)
qed

section \<open>RAM\<close>

lemma read_mem_bit:
  assumes "sz \<in> {1, 2, 4}"
  shows "bit (read_mem sz m a) n = (n < 8 * sz \<and> bit (m (a + n div 8)) (n mod 8))"
proof -
  have hi: "j < 8" if "bit (m k) j" for k j using bit_imp_le_length [OF that] by simp
  consider "n < 8" | "8 \<le> n" "n < 16" | "16 \<le> n" "n < 24" | "24 \<le> n" "n < 32" | "32 \<le> n" by linarith
  then show ?thesis
  proof cases
    case 1
    then show ?thesis using assms by (auto simp: read_mem_def bit_simps)
  next
    case 2
    have "n div 8 = 1" by (rule div_nat_eqI) (use 2 in simp_all)
    moreover from this have "n mod 8 = n - 8" using minus_div_mult_eq_mod [of n 8] by simp
    ultimately show ?thesis using assms 2 by (auto simp: read_mem_def bit_simps dest: hi)
  next
    case 3
    have "n div 8 = 2" by (rule div_nat_eqI) (use 3 in simp_all)
    moreover from this have "n mod 8 = n - 16" using minus_div_mult_eq_mod [of n 8] by simp
    ultimately show ?thesis using assms 3 by (auto simp: read_mem_def bit_simps dest: hi)
  next
    case 4
    have "n div 8 = 3" by (rule div_nat_eqI) (use 4 in simp_all)
    moreover from this have "n mod 8 = n - 24" using minus_div_mult_eq_mod [of n 8] by simp
    ultimately show ?thesis using assms 4 by (auto simp: read_mem_def bit_simps dest: hi)
  next
    case 5
    then have "\<not> bit (read_mem sz m a) n" using bit_imp_le_length by force
    then show ?thesis using assms 5 by auto
  qed
qed

lemma trunc_size_bit: "bit (trunc_size sz v) n = (n < 8 * sz \<and> bit v n)"
  by (simp add: trunc_size_def bit_take_bit_iff)

lemma read_write_mem:
  assumes "sz \<in> {1, 2, 4}"
  shows "read_mem sz (write_mem sz a v m) a = trunc_size sz v"
proof (rule bit_word_eqI)
  fix n
  have "n div 8 < sz" if "n < 8 * sz" using that by (simp add: less_mult_imp_div_less mult.commute)
  moreover have "n div 8 * 8 + n mod 8 = n" by simp
  ultimately show "bit (read_mem sz (write_mem sz a v m) a) n = bit (trunc_size sz v) n"
    using assms unfolding read_mem_bit [OF assms] trunc_size_bit
    by (auto simp: write_mem_def bit_simps bit_ucast_iff bit_drop_bit_eq mult.commute)
qed

lemma write_mem_same:
  assumes "sz \<in> {1, 2, 4}"
  shows "write_mem sz a (read_mem sz m a) m = m"
proof (intro ext)
  fix k
  have "ucast (drop_bit (8 * (k - a)) (read_mem sz m a)) = m k" if k: "a \<le> k" "k < a + sz"
  proof (rule bit_word_eqI)
    fix n assume "n < LENGTH(8)"
    then have "(8 * (k - a) + n) div 8 = k - a" "(8 * (k - a) + n) mod 8 = n" "8 * (k - a) + n < 8 * sz"
      using k by simp_all
    then show "bit (ucast (drop_bit (8 * (k - a)) (read_mem sz m a)) :: u8) n = bit (m k) n"
      using k \<open>n < LENGTH(8)\<close> by (simp add: bit_ucast_iff bit_drop_bit_eq read_mem_bit [OF assms])
  qed
  then show "write_mem sz a (read_mem sz m a) m k = m k" by (simp add: write_mem_def)
qed


text \<open>Where the RAM regions (2 for EWRAM, 3 for IWRAM) keep the byte at an address.\<close>

definition ram_region :: "u32 \<Rightarrow> nat" where
  "ram_region a = unat a div 0x1000000"

definition ram_offset :: "u32 \<Rightarrow> nat" where
  "ram_offset a = (if ram_region a = 2 then P_EWRAM_OFFSET + unat a mod 0x40000 else P_IWRAM_OFFSET + unat a mod 0x8000)"

lemma ram_region_nibble:
  assumes "ram_region a \<in> {2, 3}"
  shows "drop_bit 24 a AND 0xF = of_nat (ram_region a)" "a AND 0x0F000000 = push_bit 24 (of_nat (ram_region a))"
  using assms nibble_drop [of a] nibble_mask [of a] by (auto simp: ram_region_def)

lemma io_read_ram:
  assumes "ram_region a \<in> {2, 3}"
  shows "io_read sz a s = (read_mem sz (shm (mem s)) (ram_offset a), s)"
  using assms io_read_nibble(1,2) [OF ram_region_nibble(1) [OF assms], of sz s]
  by (auto simp: ram_offset_def and_ram simp del: One_nat_def)

lemma page_write_entry_ram:
  assumes "ram_region a \<in> {2, 3}"
  shows "page_write_entry (a AND NOT 0xFFF) + unat a mod 4096 = ram_offset a"
proof -
  have "page_write_entry (a AND NOT 0xFFF) =
      (if ram_region a = 2 then P_EWRAM_OFFSET + (unat (a AND NOT 0xFFF) AND (EWRAM_SIZE - 1))
       else P_IWRAM_OFFSET + (unat (a AND NOT 0xFFF) AND (IWRAM_SIZE - 1)))"
    using assms ram_region_nibble(2) [OF assms]
    unfolding page_write_entry_def Let_def page_nibble by (auto simp: push_bit_eq_mult)
  then show ?thesis
    unfolding and_ram unat_page_base
    using mod_split_page [of "unat a" 4096 64] mod_split_page [of "unat a" 4096 8]
    by (simp add: ram_offset_def)
qed

lemma get_shm_offset_write:
  assumes "mmu_ok s" "ram_region a \<in> {2, 3}" "get_shm_offset True a s \<noteq> 0"
  shows "get_shm_offset True a s = ram_offset a"
proof -
  let ?i = "unat a div 4096"
  have "unat a < 0x4000000" using assms(2) div_mult_mod_eq [of "unat a" "0x1000000"]
      mod_less_divisor [of "0x1000000" "unat a"] by (auto simp: ram_region_def)
  then have i: "?i < 0x10000" by (simp add: less_mult_imp_div_less)
  have ne: "mmu_write (mem s) ?i \<noteq> 0" using assms(3) by (simp add: get_shm_offset_def Let_def split: if_splits)
  then have "mmu_write (mem s) ?i = page_write_entry (a AND NOT 0xFFF)"
    using mmu_okD(2) [OF assms(1) i] by (simp only: page_base insert_iff empty_iff simp_thms)
  then show ?thesis using ne page_write_entry_ram [OF assms(2)] by (simp add: get_shm_offset_def)
qed

section \<open>Stores into code pages\<close>

lemma live_range_iwram:
  assumes "ram_region a = 3"
  shows "get_live_range a \<noteq> None"
proof -
  let ?x = "unat a div 2 ^ 11 * 2 ^ 11"
  have "?x \<le> unat a" by (rule div_times_less_eq_dividend)
  then have u: "unat (of_nat ?x :: u32) = ?x" using unat_u32_bound [of a] by (intro unat_of_nat_u32) linarith
  have "?x div 2 ^ 24 = 3" using assms div_split_page [of "unat a" "2 ^ 11" "2 ^ 13"] by (simp add: ram_region_def)
  then have "unat ((of_nat ?x :: u32) AND NOT (mask 24)) = 3 * 2 ^ 24" unfolding unat_and_not_mask u by simp
  moreover have m: "(0xFF000000 :: u32) = NOT (mask 24)" by (simp add: mask_eq_exp_minus_1)
  ultimately have "(of_nat ?x :: u32) AND 0xFF000000 = 0x03000000"
    unfolding m word_unat_eq_iff by simp
  then show ?thesis by (simp add: get_live_range_def Let_def del: of_nat_mult)
qed

lemma clear_live_frame [simp]: "jit_funcs (clear_live a j) = jit_funcs j"
  by (simp add: clear_live_def split: option.splits prod.splits)

lemma fold_clear_page_frame [simp]:
  "jit_funcs (fold (\<lambda>a j. clear_counts a (clear_live a j)) as j) = jit_funcs j"
  by (induction as arbitrary: j) simp_all

lemma invalidate_mmu_page_total:
  assumes "ram_region a = 3"
  obtains j' where "invalidate_mmu_page a j = Some j'" "jit_funcs j' = jit_funcs j"
proof -
  have h: "halfword_index (a AND NOT 0xFFF) = unat a div 4096 * 4096 div 2"
    using assms div_mult_mod_eq [of "unat a" "0x1000000"] mod_less_divisor [of "0x1000000" "unat a"]
      div_times_less_eq_dividend [of "unat a" 4096]
    unfolding halfword_index_eq unat_page_base by (simp add: ram_region_def)
  have "entry_slot (halfword_index (a AND NOT 0xFFF) + i) \<noteq> None" if "i < 2048" for i
  proof (rule slot_ram)
    have "0x3000 \<le> unat a div 4096 \<and> unat a div 4096 < 0x4000"
      using assms div_mult2_eq [of "unat a" 4096 4096] unfolding ram_region_def
      by (simp add: div_le_mono less_mult_imp_div_less)
    then show "0x1000000 \<le> halfword_index (a AND NOT 0xFFF) + i" "halfword_index (a AND NOT 0xFFF) + i < 0x2000000"
      unfolding h using that by simp_all
  qed
  then have "invalidate_mmu_page a j =
      Some (fold (\<lambda>a j. clear_counts a (clear_live a j)) (page_addrs (a AND NOT 0xFFF) ((a AND NOT 0xFFF) + 0x1000))
        (j\<lparr>jit_entries := fill_range (halfword_index (a AND NOT 0xFFF)) 2048 DefaultJitEntry (jit_entries j)\<rparr>))"
    by (simp add: invalidate_mmu_page_def Let_def write_jit_entries_def write_entries_loop_exact BLOCK_SIZE_def)
  then show ?thesis by (rule that) simp
qed


text \<open>What a store into RAM leaves: the bytes of the value at its offset, everything the later
  accesses rely on intact.\<close>

text \<open>The parts of the state a store to main memory leaves alone: all but the memory, the compiled
  code and the breakout flag.\<close>

definition ram_frame :: "emu \<Rightarrow> emu \<Rightarrow> bool" where
  "ram_frame s s' \<longleftrightarrow> s' = s\<lparr>mem := mem s', jit := jit s', breakout_imm := breakout_imm s'\<rparr>"

lemma ram_frameD:
  assumes "ram_frame s s'"
  shows "regs s' = regs s" "cm s' = cm s" "cpu s' = cpu s" "cart s' = cart s" "dmas s' = dmas s" "tmrs s' = tmrs s"
    "gpus s' = gpus s" "apus s' = apus s" "rtcs s' = rtcs s" "inp s' = inp s" "rt s' = rt s" "host_clock s' = host_clock s"
    "host s' = host s" "src_buf_len s' = src_buf_len s"
  by (subst assms [unfolded ram_frame_def], simp)+

lemma ram_frame_upd [simp]:
  "ram_frame s s" "ram_frame s (upd_shm f s)"
  "ram_frame s (t\<lparr>jit := j\<rparr>) = ram_frame s t" "ram_frame s (t\<lparr>breakout_imm := b\<rparr>) = ram_frame s t"
  by (simp_all add: ram_frame_def upd_shm_def upd_mem_def)
    (cases s; cases t; auto)+

lemma ram_frame_restore [simp]: "ram_frame s (mmu_restore_write a rg t) = ram_frame s t"
  by (cases s; cases t) (auto simp: ram_frame_def mmu_restore_write_def upd_mem_def Let_def)

lemma ram_frame_trans: "ram_frame s t \<Longrightarrow> ram_frame t u \<Longrightarrow> ram_frame s u"
  by (cases s; cases t; cases u) (auto simp: ram_frame_def)

definition stored :: "nat \<Rightarrow> u32 \<Rightarrow> u32 \<Rightarrow> emu \<Rightarrow> emu \<Rightarrow> bool" where
  "stored sz a v s s' = (shm (mem s') = write_mem sz (ram_offset a) v (shm (mem s))
     \<and> ram_frame s s' \<and> mmu_ok s' \<and> jit_ok (jit s'))"

lemma stored_cart: "stored sz a v s s' \<Longrightarrow> cart s' = cart s"
  by (simp add: stored_def ram_frameD)

lemma mmu_ok_upd_shm [simp]: "mmu_ok (upd_shm f s) = mmu_ok s"
  by (simp add: mmu_ok_def upd_shm_def upd_mem_def)

lemma mmu_ok_frame [simp]: "mmu_ok (s\<lparr>jit := j\<rparr>) = mmu_ok s" "mmu_ok (s\<lparr>breakout_imm := b\<rparr>) = mmu_ok s"
  by (simp_all add: mmu_ok_def)

lemma mmu_restore_write_frame [simp]:
  "shm (mem (mmu_restore_write a rg s)) = shm (mem s)" "cart (mmu_restore_write a rg s) = cart s"
  "jit (mmu_restore_write a rg s) = jit s"
  by (simp_all add: mmu_restore_write_def Let_def upd_mem_def)

lemma upd_shm_frame [simp]:
  "shm (mem (upd_shm f s)) = f (shm (mem s))" "cart (upd_shm f s) = cart s" "jit (upd_shm f s) = jit s"
  by (simp_all add: upd_shm_def upd_mem_def)

lemma aligned_same_page:
  fixes a :: u32
  assumes "sz \<in> {1, 2, 4}" "unat a mod sz = 0" "unat a < 0x4000000"
  shows "unat (a + of_nat sz - 1) div 256 = unat a div 256"
proof -
  have "sz dvd 256" using assms(1) by auto
  then have "unat a mod 256 mod sz = 0" "unat a mod 256 < 256" "256 mod sz = 0"
    using assms(2) by (auto simp: mod_mod_cancel)
  then have "unat a mod 256 + (sz - 1) < 256"
    using multiple_less [of "unat a mod 256" sz 256 "sz - 1"] assms(1) by auto
  then have "(unat a + (sz - 1)) div 256 = unat a div 256" by (rule div_mod_add_within)
  moreover have "a + of_nat sz - 1 = a + of_nat (sz - 1)" using assms(1) by auto
  then have "unat (a + of_nat sz - 1) = (unat a + unat (of_nat (sz - 1) :: u32)) mod 2 ^ LENGTH(32)"
    by (simp only: unat_word_ariths)
  then have "unat (a + of_nat sz - 1) = unat a + (sz - 1)"
    using unat_of_nat_u32 [of "sz - 1"] assms(1,3) by auto
  ultimately show ?thesis by simp
qed

lemma write_iwram_stored:
  assumes sz: "sz \<in> {1, 2, 4}" and a: "ram_region a = 3" "unat a mod sz = 0"
    and ok: "mmu_ok s" "jit_ok (jit s)"
  obtains s' where "write_iwram sz a v s = Some s'" "stored sz a v s s'"
proof (cases "read_mem sz (shm (mem s)) (ram_offset a) = v")
  case True
  have off: "P_IWRAM_OFFSET + (unat a AND (IWRAM_SIZE - 1)) = ram_offset a"
    using a(1) unfolding and_ram ram_offset_def by simp
  show ?thesis
    by (rule that [of s]) (use True ok write_mem_same [OF sz, of "ram_offset a" "shm (mem s)"] in
        \<open>simp_all add: write_iwram_def Let_def off stored_def del: One_nat_def\<close>)
next
  case False
  have off: "P_IWRAM_OFFSET + (unat a AND (IWRAM_SIZE - 1)) = ram_offset a"
    using a(1) unfolding and_ram ram_offset_def by simp
  let ?s = "upd_shm (write_mem sz (ram_offset a) v) s"
  have "unat a < 0x4000000"
    using a(1) div_mult_mod_eq [of "unat a" "0x1000000"] mod_less_divisor [of "0x1000000" "unat a"]
    by (simp add: ram_region_def)
  note kills = invalidate_block_effect [OF ok(2) live_range_iwram [OF a(1)] aligned_same_page [OF sz a(2) this]]
  show ?thesis
  proof (cases "has_jit_block (jit s) a")
    case True
    then obtain j' where j': "invalidate_block a sz (jit s) = Some (True, j')" "jit_ok j'"
      using kills by auto
    obtain j'' where j'': "invalidate_mmu_page a j' = Some j''" "jit_funcs j'' = jit_funcs j'"
      by (rule invalidate_mmu_page_total [OF a(1)])
    then have "jit_ok j''" using j'(2) by (simp add: jit_ok_def)
    then have "stored sz a v s (mmu_restore_write a IWRAM_REGION (?s\<lparr>breakout_imm := True, jit := j''\<rparr>))"
      using ok by (simp add: stored_def mmu_restore_write_ok)
    moreover have "stored sz a v s (?s\<lparr>jit := j', breakout_imm := True\<rparr>)"
      using ok j'(2) by (simp add: stored_def)
    ultimately show ?thesis
      using that False off j' j'' by (cases "is_sticky_smc j' a") (simp_all add: write_iwram_def Let_def del: One_nat_def)
  next
    case miss: False
    then have "invalidate_block a sz (jit s) = Some (False, jit s)" using kills by simp
    then show ?thesis
      using that [of ?s] False off ok by (simp add: write_iwram_def Let_def stored_def del: One_nat_def)
  qed
qed

lemma io_write_ram:
  assumes "sz \<in> {1, 2, 4}" "mmu_ok s" "jit_ok (jit s)" "ram_region a \<in> {2, 3}" "unat a mod sz = 0"
  obtains s' where "io_write sz a v s = Some s'" "stored sz a v s s'"
proof (cases "ram_region a = 2")
  case True
  have "P_EWRAM_OFFSET + (unat a AND (EWRAM_SIZE - 1)) = ram_offset a"
    using True unfolding and_ram ram_offset_def by simp
  then show ?thesis
    using that [of "upd_shm (write_mem sz (ram_offset a) v) s"] True ram_region_nibble(1) [OF assms(4)] assms(2,3)
    by (simp add: io_write_def Let_def stored_def del: One_nat_def)
next
  case False
  then have r: "ram_region a = 3" using assms(4) by simp
  obtain s' where "write_iwram sz a v s = Some s'" "stored sz a v s s'"
    by (rule write_iwram_stored [OF assms(1) r assms(5,2,3)])
  then show ?thesis using that r ram_region_nibble(1) [OF assms(4)] by (simp add: io_write_def Let_def)
qed

lemma mem_write_ram:
  assumes "sz \<in> {1, 2, 4}" "mmu_ok s" "jit_ok (jit s)" "ram_region (align_addr sz addr) \<in> {2, 3}"
    "unat (align_addr sz addr) mod sz = 0"
  obtains s' where "mem_write sz addr v s = Some s'" "stored sz (align_addr sz addr) v s s'"
proof (cases "get_shm_offset True (align_addr sz addr) s = 0")
  case False
  show ?thesis
    by (rule that [of "upd_shm (write_mem sz (ram_offset (align_addr sz addr)) v) s"])
      (use False assms(2,3) get_shm_offset_write [OF assms(2,4) False] in \<open>simp_all add: mem_write_def Let_def stored_def\<close>)
next
  case True
  obtain s' where "io_write sz (align_addr sz addr) v s = Some s'" "stored sz (align_addr sz addr) v s s'"
    by (rule io_write_ram [OF assms])
  then show ?thesis using that True by (simp add: mem_write_def Let_def)
qed

lemma align_addr_mod:
  assumes "sz \<in> {1, 2, 4}"
  shows "unat (align_addr sz addr) mod sz = 0"
proof -
  have "unat (w AND 1) = unat w mod 2" "unat (w AND 3) = unat w mod 4" for w :: u32
    using unat_and_mask [of w 1] unat_and_mask [of w 2] by (simp_all add: mask_eq_exp_minus_1)
  moreover have "align_addr 2 addr AND 1 = 0" "align_addr 4 addr AND 3 = 0"
    by (simp_all add: align_addr_def and.assoc)
  ultimately have "unat (align_addr 2 addr) mod 2 = 0" "unat (align_addr 4 addr) mod 4 = 0"
    by (metis unsigned_0)+
  then show ?thesis using assms by auto
qed

text \<open>
  C3: main memory. A store of any size to EWRAM or IWRAM succeeds whichever path it takes (direct, or
  the handler that invalidates compiled code and may lift the page's protection); the value is read
  back through every mirror of the address, every other byte of memory keeps its value, and the
  invariants of the page tables and of the compiled code are kept.
\<close>

theorem ram_round_trip:
  assumes "mmu_ok s" "rom_ok (cart s)" "jit_ok (jit s)" "sz \<in> {1, 2, 4}"
    and "ram_region (align_addr sz addr) \<in> {2, 3}" "ram_region (align_addr sz mirror) = ram_region (align_addr sz addr)"
    and "ram_offset (align_addr sz mirror) = ram_offset (align_addr sz addr)"
  shows "\<exists>s'. mem_write sz addr v s = Some s' \<and> mem_read sz mirror s' = (trunc_size sz v, s')
    \<and> (\<forall>k. k \<notin> {ram_offset (align_addr sz addr)..<ram_offset (align_addr sz addr) + sz} \<longrightarrow> shm (mem s') k = shm (mem s) k)
    \<and> mmu_ok s' \<and> jit_ok (jit s') \<and> cart s' = cart s"
proof -
  obtain s' where s': "mem_write sz addr v s = Some s'" "stored sz (align_addr sz addr) v s s'"
    by (rule mem_write_ram [OF assms(4,1,3,5) align_addr_mod [OF assms(4)]])
  note c = stored_cart [OF s'(2)]
  have "mem_read sz mirror s' = io_read sz (align_addr sz mirror) s'"
    using assms(2) s'(2) by (intro mem_read_io_read) (simp_all add: stored_def c)
  then have "mem_read sz mirror s' = (trunc_size sz v, s')"
    using s'(2) assms(5-7) read_write_mem [OF assms(4)] by (simp add: io_read_ram stored_def)
  then show ?thesis using s' c by (auto simp: stored_def write_mem_def)
qed

theorem ram_round_trip_witness:
  "\<exists>s'. mem_write 4 0x02000010 0x12345678 emu_mapped = Some s' \<and> mem_read 4 0x02FC0012 s' = (0x12345678, s')"
proof -
  have a: "align_addr 4 0x02000010 = 0x02000010" "align_addr 4 0x02FC0012 = 0x02FC0010"
    by (simp_all add: align_addr_def)
  have "jit emu_mapped = jit_init" by (simp add: emu_mapped_def mmu_update_all_def upd_mem_def emu_new_def)
  then have "jit_ok (jit emu_mapped)" by (simp add: jit_ok_def jit_init_def)
  then show ?thesis
    using ram_round_trip [OF emu_mapped_ok, where sz = 4 and addr = "0x02000010" and mirror = "0x02FC0012" and v = "0x12345678"]
    by (auto simp: a ram_region_def ram_offset_def trunc_size_def take_bit_eq_mask mask_eq_exp_minus_1)
qed

section \<open>Video memory\<close>

lemma and_exp_bit: "bit w n \<Longrightarrow> w AND 2 ^ n = (2 ^ n :: 'a::len word)"
  by (rule bit_word_eqI) (auto simp: bit_and_iff bit_exp_iff)

text \<open>96 KiB: the first 64 KiB once, then 32 KiB twice in every 128 KiB.\<close>

lemma unat_vram_offset:
  "unat (vram_offset a) =
     (if unat a mod 0x20000 < 0x10000 then unat a mod 0x20000 else 0x10000 + unat a mod 0x8000)"
proof -
  have b: "bit a 16 = (0x10000 \<le> unat a mod 0x20000)"
  proof -
    have "bit a 16 = odd (unat a div 0x10000)" 
      using bit_iff_odd [of "unat a" 16] by (simp add: bit_unsigned_iff)
    moreover have "unat a mod 0x20000 = 0x10000 * (unat a div 0x10000 mod 2) + unat a mod 0x10000"
      using mod_mult2_eq [of "unat a" "0x10000" 2] by simp
    moreover have "unat a mod 0x10000 < 0x10000" by simp
    ultimately show ?thesis by (cases "even (unat a div 0x10000)") (auto simp: even_iff_mod_2_eq_zero odd_iff_mod_2_eq_one)
  qed
  show ?thesis
  proof (cases "bit a 16")
    case False
    then show ?thesis using b unat_and_mask [of a 17] by (simp add: vram_offset_and mask_eq_exp_minus_1)
  next
    case True
    have "(a AND NOT 0x7FFF) AND 0x17FFF = a AND 0x10000" by (simp add: and.assoc)
    moreover have "a AND 0x10000 = 0x10000" using and_exp_bit [OF True] by simp
    ultimately have "unat (a AND 0x17FFF) = 0x10000 + unat (a AND 0x7FFF)"
      using unat_and_split_gen [of "0x17FFF" "0x7FFF" a] by simp
    then show ?thesis
      using True b unat_and_mask [of a 15] by (simp add: vram_offset_and mask_eq_exp_minus_1)
  qed
qed


lemma write_mem_splat:
  "write_mem 2 p (splat v) m = m(p := ucast v, Suc p := ucast v)"
proof -
  have m: "(0xFF :: u32) = mask 8" by (simp add: mask_eq_exp_minus_1)
  have "ucast (splat v) = (ucast v :: u8)" "ucast (drop_bit 8 (splat v)) = (ucast v :: u8)"
    unfolding splat_def Let_def m
    by (rule bit_word_eqI, simp add: bit_ucast_iff bit_or_iff bit_and_iff bit_push_bit_iff bit_mask_iff bit_drop_bit_eq)+
  then show ?thesis by (auto simp: write_mem_def fun_eq_iff le_Suc_eq)
qed

text \<open>
  Stores to video memory. Every store takes the handler (no page is write-mapped), stays within
  the 96 KiB and marks the half it touches for the renderer. A halfword or word is stored as it is; a
  byte store puts the byte in both halves of the aligned halfword of background memory and is
  dropped in object memory, whose start depends on the display mode.
\<close>

theorem vram_store:
  assumes "mmu_ok s" "sz \<in> {1, 2, 4}" "unat (align_addr sz addr) div 0x1000000 = 6"
  shows "let a = align_addr sz addr; o' = unat (vram_offset a); p = P_VRAM_OFFSET + o'; m = shm (mem s) in
    o' + sz \<le> 96 * 1024 \<and> (\<exists>s'. mem_write sz addr v s = Some s'
      \<and> gpu_mem_dirty (mem s') = gpu_mem_dirty (mem s) OR (if o' < 0x10000 then DIRTY_BG else DIRTY_OBJ)
      \<and> shm (mem s') = (if sz \<noteq> 1 then write_mem sz p v m
                        else if unat (vram_obj_start s) \<le> o' then m
                        else m(P_VRAM_OFFSET + o' div 2 * 2 := ucast v, P_VRAM_OFFSET + o' div 2 * 2 + 1 := ucast v)))"
proof -
  let ?a = "align_addr sz addr"
  let ?o = "unat (vram_offset ?a)"
  have bound: "?o + sz \<le> 96 * 1024"
  proof -
    have "sz dvd 0x20000" "sz dvd 0x8000" using assms(2) by auto
    then have "unat ?a mod 0x20000 mod sz = 0" "unat ?a mod 0x8000 mod sz = 0"
      using align_addr_mod [OF assms(2), of addr] by (simp_all add: mod_mod_cancel)
    moreover have "0x10000 mod sz = 0" "0x18000 mod sz = 0" "0 < sz" using assms(2) by auto
    ultimately have "?o mod sz = 0" "?o < 0x18000"
      by (auto simp: unat_vram_offset mod_add_eq [symmetric] intro: less_trans)
    then have "?o + (sz - 1) < 0x18000"
      using multiple_less [of ?o sz "0x18000" "sz - 1"] \<open>0x18000 mod sz = 0\<close> \<open>0 < sz\<close> by simp
    then show ?thesis using \<open>0 < sz\<close> by simp
  qed
  have "get_shm_offset True ?a s = 0"
  proof (rule ccontr)
    assume ne: "get_shm_offset True ?a s \<noteq> 0"
    have "unat ?a div 4096 < 0x10000" using align_addr_less [of sz addr] by (simp add: less_mult_imp_div_less)
    from mmu_okD(2) [OF assms(1) this] ne have "page_write_entry (?a AND NOT 0xFFF) \<noteq> 0"
      by (auto simp: get_shm_offset_def Let_def page_base simp del: of_nat_mult split: if_splits)
    moreover have "?a AND 0x0F000000 = 0x06000000"
      using nibble_mask [of ?a] assms(3) by (simp add: push_bit_eq_mult)
    then have "(?a AND NOT 0xFFF) AND 0x0F000000 = 0x06000000" by (simp only: page_nibble)
    ultimately show False by (simp only: page_write_entry_def Let_def) simp
  qed
  then have w: "mem_write sz addr v s = Some (write_vram sz ?a v s)"
    using assms(3) by (simp add: mem_write_def io_write_def Let_def nibble_drop)
  have obj: "vram_obj_start (mark_dirty d s) = vram_obj_start s" for d
    by (simp add: vram_obj_start_def mark_dirty_def upd_mem_def)
  have even: "unat (w AND - 2) = unat w div 2 * 2" for w :: u32
    using unat_and_not_mask [of w 1] by simp
  have dirty: "gpu_mem_dirty (mem (upd_shm f q)) = gpu_mem_dirty (mem q)"
    "gpu_mem_dirty (mem (mark_dirty d q)) = gpu_mem_dirty (mem q) OR d" "shm (mem (mark_dirty d q)) = shm (mem q)" for f d q
    by (simp_all add: upd_shm_def mark_dirty_def upd_mem_def)
  show ?thesis
    using bound unfolding Let_def w
    by (simp add: write_vram_def Let_def obj even write_mem_splat dirty word_less_nat_alt word_le_nat_alt fun_upd_def)
qed


theorem vram_store_witness:
  "\<exists>s'. mem_write 1 0x06000003 0x7F emu_mapped = Some s'
     \<and> shm (mem s') (P_VRAM_OFFSET + 2) = 0x7F \<and> shm (mem s') (P_VRAM_OFFSET + 3) = 0x7F"
proof -
  have a: "align_addr 1 0x06000003 = 0x06000003" "vram_offset 0x06000003 = 3"
    by (simp_all add: align_addr_def vram_offset_def Let_def)
  have "vram_obj_start emu_mapped = 0x10000"
    by (simp add: vram_obj_start_def emu_mapped_def mmu_update_all_def upd_mem_def emu_new_def field_def)
  then show ?thesis
    using vram_store [OF emu_mapped_ok(1), of 1 "0x06000003" "0x7F"] a by (auto simp: Let_def)
qed

end
