(* ===== verification/Slices.thy ===== *)
theory Slices
  imports MemoryLaws
begin

text \<open>
  Block transfers on main memory: what \<open>mem_write_multiple_slice\<close>, \<open>mem_read_multiple_slice\<close> and the
  element-wise accesses do on a run of \<open>n\<close> elements that stays inside one image of EWRAM or IWRAM.
  The DMA, the BIOS copies and the block loads and stores of the interpreter rest on these lemmas.
\<close>

section \<open>Bytes\<close>

lemma read_write_mem_other:
  assumes "sz \<in> {1, 2, 4}" "a + sz \<le> b \<or> b + sz' \<le> a"
  shows "read_mem sz (write_mem sz' b v m) a = read_mem sz m a"
proof -
  have "write_mem sz' b v m k = m k" if "a \<le> k" "k < a + sz" for k
    using that assms(2) by (auto simp: write_mem_def)
  then show ?thesis using assms(1) by (auto simp: read_mem_def)
qed

lemma read_mem_cong:
  assumes "sz \<in> {1, 2, 4}" "\<And>k. a \<le> k \<Longrightarrow> k < a + sz \<Longrightarrow> m k = m' k"
  shows "read_mem sz m a = read_mem sz m' a"
  using assms by (auto simp: read_mem_def)

lemma trunc_read_mem:
  assumes "sz \<in> {1, 2, 4}"
  shows "trunc_size sz (read_mem sz m a) = read_mem sz m a"
  using read_write_mem [OF assms, of a "read_mem sz m a" m] write_mem_same [OF assms, of a m] by simp

text \<open>\<open>n\<close> elements stored one after the other.\<close>

definition block_store :: "nat \<Rightarrow> nat \<Rightarrow> (nat \<Rightarrow> u32) \<Rightarrow> nat \<Rightarrow> (nat \<Rightarrow> u8) \<Rightarrow> nat \<Rightarrow> u8" where
  "block_store sz off f n m = fold (\<lambda>i. write_mem sz (off + i * sz) (f i)) [0..<n] m"

lemma block_store_0 [simp]: "block_store sz off f 0 m = m"
  by (simp add: block_store_def)

lemma block_store_Suc [simp]:
  "block_store sz off f (Suc n) m = write_mem sz (off + n * sz) (f n) (block_store sz off f n m)"
  by (simp add: block_store_def)

lemma block_store_outside:
  "k < off \<or> off + n * sz \<le> k \<Longrightarrow> block_store sz off f n m k = m k"
  by (induction n) (auto simp: write_mem_def)

lemma block_store_cong:
  "(\<And>i. i < n \<Longrightarrow> f i = g i) \<Longrightarrow> block_store sz off f n m = block_store sz off g n m"
  by (induction n) simp_all

lemma read_block_store:
  assumes "sz \<in> {1, 2, 4}" "i < n"
  shows "read_mem sz (block_store sz off f n m) (off + i * sz) = trunc_size sz (f i)"
  using assms(2)
proof (induction n)
  case (Suc n)
  show ?case
  proof (cases "i = n")
    case True
    then show ?thesis by (simp add: read_write_mem [OF assms(1)])
  next
    case False
    then have "Suc i * sz \<le> n * sz" using Suc.prems by (intro mult_le_mono1) simp
    then have "off + i * sz + sz \<le> off + n * sz" by simp
    then show ?thesis using Suc False by (simp add: read_write_mem_other [OF assms(1)])
  qed
qed simp

lemma read_block_store_other:
  assumes "sz' \<in> {1, 2, 4}" "a + sz' \<le> off \<or> off + n * sz \<le> a"
  shows "read_mem sz' (block_store sz off f n m) a = read_mem sz' m a"
  by (rule read_mem_cong [OF assms(1)], rule block_store_outside) (use assms(2) in linarith)

section \<open>Runs of addresses\<close>

definition ram_len :: "u32 \<Rightarrow> nat" where
  "ram_len a = (if ram_region a = 2 then 0x40000 else 0x8000)"

text \<open>\<open>n\<close> aligned elements of \<open>sz\<close> bytes from \<open>a\<close> inside one image of EWRAM or IWRAM.\<close>

definition ram_block :: "nat \<Rightarrow> u32 \<Rightarrow> nat \<Rightarrow> bool" where
  "ram_block sz a n \<longleftrightarrow> sz \<in> {1, 2, 4} \<and> ram_region a \<in> {2, 3} \<and> unat a mod sz = 0
     \<and> unat a mod ram_len a + n * sz \<le> ram_len a"

lemma ram_offset_len:
  "ram_offset a = (if ram_region a = 2 then P_EWRAM_OFFSET else P_IWRAM_OFFSET) + unat a mod ram_len a"
  by (simp add: ram_offset_def ram_len_def)

lemma ram_block_elem:
  assumes "ram_block sz a n" "i < n"
  defines "b \<equiv> a + of_nat (i * sz)"
  shows "unat b = unat a + i * sz" "ram_region b = ram_region a" "ram_offset b = ram_offset a + i * sz"
    "unat b mod sz = 0" "ram_region b \<in> {2, 3}"
proof -
  have sz: "sz \<in> {1, 2, 4}" and r: "ram_region a \<in> {2, 3}" and m: "unat a mod sz = 0"
    and le: "unat a mod ram_len a + n * sz \<le> ram_len a"
    using assms(1) by (simp_all add: ram_block_def)
  have "Suc i * sz \<le> n * sz" using assms(2) by (intro mult_le_mono1) simp
  then have within: "unat a mod ram_len a + i * sz < ram_len a" using le sz by auto
  have len: "ram_len a dvd 0x1000000" "ram_len a \<le> 0x40000" "0 < ram_len a" by (simp_all add: ram_len_def)
  have a: "unat a < 0x4000000"
    using r div_mult_mod_eq [of "unat a" "0x1000000"] mod_less_divisor [of "0x1000000" "unat a"]
    by (auto simp: ram_region_def)
  have "i * sz < 0x40000" using within len(2) by linarith
  then have "unat (of_nat (i * sz) :: u32) = i * sz" by (intro unat_of_nat_u32) simp
  then have "unat b = (unat a + i * sz) mod 2 ^ LENGTH(32)" unfolding b_def unat_word_ariths by simp
  then show u: "unat b = unat a + i * sz" using a \<open>i * sz < 0x40000\<close> by simp
  have d: "unat b div ram_len a = unat a div ram_len a" "unat b mod ram_len a = unat a mod ram_len a + i * sz"
    using div_mod_add_within [OF within] u by simp_all
  obtain q where q: "0x1000000 = ram_len a * q" using len(1) by (metis dvd_def)
  have "unat b div 0x1000000 = unat a div 0x1000000" unfolding q div_mult2_eq d(1) ..
  then show rb: "ram_region b = ram_region a" by (simp add: ram_region_def)
  then show "ram_region b \<in> {2, 3}" using r by simp
  have "ram_len b = ram_len a" using rb by (simp add: ram_len_def)
  then show "ram_offset b = ram_offset a + i * sz" using d(2) rb by (simp add: ram_offset_len)
  show "unat b mod sz = 0" using m u by simp
qed

lemma align_addr_id:
  assumes "sz \<in> {1, 2, 4}" "unat a mod sz = 0" "unat a < 0x10000000"
  shows "align_addr sz a = a"
proof -
  obtain t where t: "t \<in> {0, 1, 2}" "sz = 2 ^ t" using assms(1) that [of 0] that [of 1] that [of 2] by auto
  have "of_nat sz - 1 = (mask t :: u32)" using t by (auto simp: mask_eq_exp_minus_1)
  moreover have "unat (a AND NOT (mask t)) = unat a" using assms(2) t by (simp add: unat_and_not_mask mod_eq_0_iff_dvd)
  then have "a AND NOT (mask t) = a" by (metis of_nat_unat ucast_id)
  moreover have "unat (a AND mask 28) = unat a" using assms(3) by (simp add: unat_and_mask)
  then have "a AND mask 28 = a" by (metis of_nat_unat ucast_id)
  then have "a AND 0x0FFFFFFF = a" by (simp add: mask_eq_exp_minus_1)
  ultimately show ?thesis unfolding align_addr_def by (metis and.assoc)
qed

lemma ram_addr_less: "ram_region a \<in> {2, 3} \<Longrightarrow> unat a < 0x4000000"
  using div_mult_mod_eq [of "unat a" "0x1000000"] mod_less_divisor [of "0x1000000" "unat a"]
  by (auto simp: ram_region_def)

lemma align_ram_elem:
  assumes "ram_block sz a n" "i < n"
  shows "align_addr sz (a + of_nat (i * sz)) = a + of_nat (i * sz)"
  using align_addr_id [OF _ ram_block_elem(4) [OF assms]] ram_addr_less [OF ram_block_elem(5) [OF assms]] assms(1)
  by (simp add: ram_block_def)

section \<open>Slice writes\<close>

text \<open>\<open>n\<close> elements from \<open>a\<close> hold \<open>f 0, f 1, ..\<close> and nothing else of the state changed but the
  compiled code and its flag.\<close>

definition block_stored :: "nat \<Rightarrow> u32 \<Rightarrow> (nat \<Rightarrow> u32) \<Rightarrow> nat \<Rightarrow> emu \<Rightarrow> emu \<Rightarrow> bool" where
  "block_stored sz a f n s s' \<longleftrightarrow> shm (mem s') = block_store sz (ram_offset a) f n (shm (mem s))
     \<and> ram_frame s s' \<and> mmu_ok s' \<and> jit_ok (jit s')"

lemma foldM_append: "foldM f (xs @ ys) s = Option.bind (foldM f xs s) (foldM f ys)"
  by (induction xs arbitrary: s) (simp_all split: bind_split)

lemma foldM_upt_Suc: "foldM f [0..<Suc n] s = Option.bind (foldM f [0..<n] s) (f n)"
proof -
  have "foldM f [n] = f n" by (rule ext) (simp split: bind_split)
  then show ?thesis by (simp add: foldM_append)
qed

text \<open>A loop that stores one element per round, by whatever path, stores the block.\<close>

lemma foldM_block_stored:
  assumes "ram_block sz a n" "mmu_ok s" "jit_ok (jit s)"
    and step: "\<And>i t. i < n \<Longrightarrow> block_stored sz a f i s t \<Longrightarrow>
      \<exists>t'. g i t = Some t' \<and> stored sz (a + of_nat (i * sz)) (f i) t t'"
  shows "\<exists>s'. foldM g [0..<n] s = Some s' \<and> block_stored sz a f n s s'"
proof -
  have "\<exists>s'. foldM g [0..<k] s = Some s' \<and> block_stored sz a f k s s'" if "k \<le> n" for k
    using that
  proof (induction k)
    case 0
    then show ?case using assms(2,3) by (simp add: block_stored_def)
  next
    case (Suc k)
    then obtain t where t: "foldM g [0..<k] s = Some t" "block_stored sz a f k s t" by auto
    obtain t' where t': "g k t = Some t'" "stored sz (a + of_nat (k * sz)) (f k) t t'"
      using step [of k t] t(2) Suc.prems by auto
    have "block_stored sz a f (Suc k) s t'"
      using t(2) t'(2) ram_block_elem(3) [OF assms(1), of k] Suc.prems
      by (auto simp: block_stored_def stored_def intro: ram_frame_trans)
    then show ?case using t(1) t'(1) by (simp add: foldM_upt_Suc del: upt_Suc)
  qed
  then show ?thesis by simp
qed

text \<open>Consecutive elements are consecutive in the shared memory, page after page.\<close>

lemma get_shm_offset_write_block:
  assumes "ram_block sz a n" "mmu_ok s" "0 < n" "get_shm_offset True a s \<noteq> 0"
  shows "get_shm_offset True a s = ram_offset a"
  using assms get_shm_offset_write [OF assms(2) _ assms(4)] by (simp add: ram_block_def)

lemma write_multiple_buf:
  assumes "ram_block sz a (length vs)" "mmu_ok s" "jit_ok (jit s)" "align_addr sz addr = a"
  shows "\<exists>s'. mem_write_multiple_slice sz addr (Buf vs) s = Some s' \<and> block_stored sz a (\<lambda>i. vs ! i) (length vs) s s'"
proof (cases "get_shm_offset True a s \<noteq> 0 \<and> all_writable a (length vs * sz) s")
  case True
  have "get_shm_offset True a s = ram_offset a"
    using assms(1) get_shm_offset_write [OF assms(2)] True by (simp add: ram_block_def)
  then show ?thesis using True assms(2-4)
    by (auto simp: mem_write_multiple_slice_def Let_def block_stored_def block_store_def)
next
  case False
  have "\<exists>s'. foldM (\<lambda>i s. io_write sz (a + of_nat (i * sz)) (vs ! i) s) [0..<length vs] s = Some s'
      \<and> block_stored sz a (\<lambda>i. vs ! i) (length vs) s s'"
  proof (rule foldM_block_stored [OF assms(1-3)])
    fix i t
    assume i: "i < length vs" and t: "block_stored sz a (\<lambda>i. vs ! i) i s t"
    obtain t' where "io_write sz (a + of_nat (i * sz)) (vs ! i) t = Some t'" "stored sz (a + of_nat (i * sz)) (vs ! i) t t'"
      by (rule io_write_ram [OF _ _ _ ram_block_elem(5,4) [OF assms(1) i]])
        (use t assms(1) in \<open>auto simp: block_stored_def ram_block_def\<close>)
    then show "\<exists>t'. io_write sz (a + of_nat (i * sz)) (vs ! i) t = Some t' \<and> stored sz (a + of_nat (i * sz)) (vs ! i) t t'"
      by blast
  qed
  moreover have "mem_write_multiple_slice sz addr (Buf vs) s
      = foldM (\<lambda>i s. io_write sz (a + of_nat (i * sz)) (vs ! i) s) [0..<length vs] s"
    using False assms(4) by (auto simp: mem_write_multiple_slice_def Let_def)
  ultimately show ?thesis by simp
qed

text \<open>A source that still lives in the shared memory behaves as if it had been copied out first, when
  the two runs do not overlap.\<close>

lemma write_multiple_shm:
  assumes "ram_block sz a n" "mmu_ok s" "jit_ok (jit s)" "align_addr sz addr = a"
    and disj: "off + n * sz \<le> ram_offset a \<or> ram_offset a + n * sz \<le> off"
  defines "f \<equiv> \<lambda>i. read_mem sz (shm (mem s)) (off + i * sz)"
  shows "\<exists>s'. mem_write_multiple_slice sz addr (Shm off n) s = Some s' \<and> block_stored sz a f n s s'"
proof (cases "get_shm_offset True a s \<noteq> 0 \<and> all_writable a (n * sz) s")
  case True
  have "get_shm_offset True a s = ram_offset a"
    using assms(1) get_shm_offset_write [OF assms(2)] True by (simp add: ram_block_def)
  then show ?thesis using True assms(2-4)
    by (auto simp: mem_write_multiple_slice_def Let_def block_stored_def block_store_def f_def)
next
  case False
  let ?g = "\<lambda>i s. io_write sz (a + of_nat (i * sz)) (read_mem sz (shm (mem s)) (off + i * sz)) s"
  have sz: "sz \<in> {1, 2, 4}" using assms(1) by (simp add: ram_block_def)
  have "\<exists>s'. foldM ?g [0..<n] s = Some s' \<and> block_stored sz a f n s s'"
  proof (rule foldM_block_stored [OF assms(1-3)])
    fix i t
    assume i: "i < n" and t: "block_stored sz a f i s t"
    have "Suc i * sz \<le> n * sz" "i * sz \<le> n * sz" using i by (intro mult_le_mono1, simp)+
    then have "read_mem sz (shm (mem t)) (off + i * sz) = f i"
      unfolding f_def using t disj by (auto simp: block_stored_def intro!: read_block_store_other [OF sz])
    moreover obtain t' where "io_write sz (a + of_nat (i * sz)) (f i) t = Some t'" "stored sz (a + of_nat (i * sz)) (f i) t t'"
      by (rule io_write_ram [OF sz _ _ ram_block_elem(5,4) [OF assms(1) i]])
        (use t in \<open>auto simp: block_stored_def\<close>)
    ultimately show "\<exists>t'. ?g i t = Some t' \<and> stored sz (a + of_nat (i * sz)) (f i) t t'" by simp
  qed
  moreover have "mem_write_multiple_slice sz addr (Shm off n) s = foldM ?g [0..<n] s"
    using False assms(4) by (auto simp: mem_write_multiple_slice_def Let_def)
  ultimately show ?thesis by simp
qed

section \<open>Slice and element reads\<close>

lemma get_shm_offset_read_ram:
  assumes "mmu_ok s" "ram_region a \<in> {2, 3}" "get_shm_offset False a s \<noteq> 0"
  shows "get_shm_offset False a s = ram_offset a"
proof -
  have "get_shm_offset False a s = page_read_entry (cart s) (a AND NOT 0xFFF) + unat a mod 4096"
    using get_shm_offset_read [OF assms(1) _ assms(3)] ram_addr_less [OF assms(2)] by simp
  moreover have "page_read_entry (cart s) (a AND NOT 0xFFF) = page_write_entry (a AND NOT 0xFFF)"
    using assms(2) ram_region_nibble(2) [OF assms(2)] page_nibble [of a]
    by (auto simp: page_read_entry_def page_write_entry_def Let_def)
  ultimately show ?thesis using page_write_entry_ram [OF assms(2)] by simp
qed

lemma mem_read_ram:
  assumes "mmu_ok s" "ram_region (align_addr sz addr) \<in> {2, 3}"
  shows "mem_read sz addr s = (read_mem sz (shm (mem s)) (ram_offset (align_addr sz addr)), s)"
  using get_shm_offset_read_ram [OF assms] io_read_ram [OF assms(2)] by (simp add: mem_read_def Let_def)

lemma read_each_ram:
  assumes "\<And>a. a \<in> set as \<Longrightarrow> ram_region a \<in> {2, 3}"
  shows "read_each sz as s = (map (\<lambda>a. read_mem sz (shm (mem s)) (ram_offset a)) as, s)"
  using assms by (induction as) (simp_all add: io_read_ram)

lemma read_multiple_ram:
  assumes "ram_block sz a n" "mmu_ok s" "align_addr sz addr = a"
  shows "mem_read_multiple_slice direct sz addr n s
    = (map (\<lambda>i. read_mem sz (shm (mem s)) (ram_offset a + i * sz)) [0..<n], s)"
proof (cases "direct \<and> get_shm_offset False a s \<noteq> 0")
  case True
  then show ?thesis
    using get_shm_offset_read_ram [OF assms(2)] assms(1,3) by (simp add: mem_read_multiple_slice_def ram_block_def)
next
  case False
  have "read_each sz (map (\<lambda>i. a + of_nat (i * sz)) [0..<n]) s
      = (map (\<lambda>a. read_mem sz (shm (mem s)) (ram_offset a)) (map (\<lambda>i. a + of_nat (i * sz)) [0..<n]), s)"
    using ram_block_elem(5) [OF assms(1)] by (intro read_each_ram) (fastforce simp del: of_nat_mult)
  also have "\<dots> = (map (\<lambda>i. read_mem sz (shm (mem s)) (ram_offset a + i * sz)) [0..<n], s)"
    using ram_block_elem(3) [OF assms(1)] by (auto simp del: of_nat_mult)
  finally show ?thesis using False assms(3) by (auto simp: mem_read_multiple_slice_def Let_def)
qed

end
