(* ===== verification/Dma.thy ===== *)
theory Dma
  imports Slices
begin

text \<open>
  The transfers of \<open>src/src/core/memory/dma.rs\<close>: \<open>dma_do_transfer\<close> with its three slice paths and the
  element-wise loop, and \<open>dma_on_event\<close>, which runs one transfer of a channel and updates its
  registers. The registers and the triggers are in theory Devices. A transfer is \<open>None\<close> where a
  bus write is (a panic of the clock chip). The contents of the scratch vector \<open>src_buf\<close> are refilled
  inside one transfer and never read across transfers, so they are the \<open>Buf\<close> slice and no state; its
  length is state, because the vector grows and the host address of a slice may depend on that.
\<close>

section \<open>One transfer\<close>

text \<open>The source slice of the two incrementing paths: in place when the first page is mapped for
  reading, otherwise read element by element into the scratch buffer.\<close>

definition dma_source_slice :: "nat \<Rightarrow> u32 \<Rightarrow> nat \<Rightarrow> emu \<Rightarrow> slice \<times> emu" where
  "dma_source_slice sz src count s =
     (let a = align_addr sz src; off = get_shm_offset False a s
      in if off \<noteq> 0 then (Shm off count, s)
         else (let (vs, s) = mem_read_multiple_slice False sz a count s in (Buf vs, s)))"

text \<open>Growing the scratch vector to the bytes of this transfer, and the host address of a source slice.\<close>

definition dma_reserve :: "nat \<Rightarrow> emu \<Rightarrow> emu" where
  "dma_reserve total_size s = s\<lparr>src_buf_len := max (src_buf_len s) total_size\<rparr>"

fun slice_ptr :: "slice \<Rightarrow> emu \<Rightarrow> u32" where
  "slice_ptr (Shm off n) s = shm_ptr (host s) + of_nat off"
| "slice_ptr (Buf vs) s = src_buf_ptr (host s) (src_buf_len s)"

fun step_src :: "dma_addr_ctrl \<Rightarrow> u32 \<Rightarrow> u32 \<Rightarrow> u32" where
  "step_src Increment n a = a + n"
| "step_src Decrement n a = a - n"
| "step_src _ n a = a"

fun step_dest :: "dma_addr_ctrl \<Rightarrow> u32 \<Rightarrow> u32 \<Rightarrow> u32" where
  "step_dest Increment n a = a + n"
| "step_dest IncrementReload n a = a + n"
| "step_dest Decrement n a = a - n"
| "step_dest Fixed n a = a"

text \<open>The catch-all loop: one bus read and one bus write per element.\<close>

fun dma_element_loop :: "nat \<Rightarrow> dma_addr_ctrl \<Rightarrow> dma_addr_ctrl \<Rightarrow> nat \<Rightarrow> u32 \<Rightarrow> u32 \<Rightarrow> emu \<Rightarrow> (u32 \<times> u32 \<times> emu) option" where
  "dma_element_loop sz sc dc 0 dest src s = Some (dest, src, s)"
| "dma_element_loop sz sc dc (Suc n) dest src s =
     (let (v, s) = mem_read sz src s in
      do { s \<leftarrow> mem_write sz dest v s;
           dma_element_loop sz sc dc n (step_dest dc (of_nat sz) dest) (step_src sc (of_nat sz) src) s })"

text \<open>\<open>dma_do_transfer\<close> returns the advanced destination and source addresses.\<close>

definition dma_do_transfer :: "nat \<Rightarrow> u32 \<Rightarrow> u32 \<Rightarrow> u32 \<Rightarrow> u32 \<Rightarrow> emu \<Rightarrow> (u32 \<times> u32 \<times> emu) option" where
  "dma_do_transfer sz dest src count w s =
     (let sc = dma_src_ctrl w; dc = dma_dest_ctrl w; n = unat count;
          total_size = push_bit (sz div 2) count; s = dma_reserve (unat total_size) s
      in if sc = Increment \<and> dc = Fixed then
           (let (sl, s) = dma_source_slice sz src n s
            in do { s \<leftarrow> mem_write_fixed_slice sz dest (slice_ptr sl s) sl s; Some (dest, src + total_size, s) })
         else if sc = Increment \<and> (dc = Increment \<or> dc = IncrementReload) then
           (let (sl, s) = dma_source_slice sz src n s
            in do { s \<leftarrow> mem_write_multiple_slice sz dest sl s; Some (dest + total_size, src + total_size, s) })
         else if sc = Fixed \<and> (dc = Increment \<or> dc = IncrementReload) then
           (let (vs, s) = mem_read_fixed_slice sz src n s
            in do { s \<leftarrow> mem_write_multiple_slice sz dest (Buf vs) s; Some (dest + total_size, src, s) })
         else dma_element_loop sz sc dc n dest src s)"

section \<open>One event\<close>

text \<open>The four words of a sound transfer.\<close>

fun dma_sound_read :: "dma_addr_ctrl \<Rightarrow> nat \<Rightarrow> u32 \<Rightarrow> emu \<Rightarrow> u32 list \<times> u32 \<times> emu" where
  "dma_sound_read sc 0 src s = ([], src, s)"
| "dma_sound_read sc (Suc n) src s =
     (let (v, s) = mem_read 4 src s; (vs, src, s) = dma_sound_read sc n (step_src sc 4 src) s
      in (v # vs, src, s))"

definition dma_run :: "nat \<Rightarrow> emu \<Rightarrow> (u32 \<times> u32 \<times> emu) option" where
  "dma_run n s =
     (let d = dmas s n; w = d_cnt d; dest = current_dest d; src = current_src d
      in if dma_mode w = Special \<and> (n = 1 \<or> n = 2) then
           (let (vs, src, s) = dma_sound_read (dma_src_ctrl w) 4 src s
            in do { s \<leftarrow> mem_write_fixed_slice 4 dest (values_ptr (host s)) (Buf vs) s; Some (dest, src, s) })
         else dma_do_transfer (if dma_transfer_type w then 4 else 2) dest src (current_count d) w s)"

text \<open>The register update after the transfer; \<open>w\<close> is the control word the event started with, the
  channel's own word may have been rewritten by the transfer itself.\<close>

definition dma_finish :: "nat \<Rightarrow> u32 \<Rightarrow> dma_channel \<Rightarrow> dma_channel" where
  "dma_finish n w d =
     (if dma_repeat w \<and> dma_mode w \<noteq> StartImm then
        (let d = d\<lparr>current_count := dma_word_count (d_cnt d) n\<rparr>
         in if dma_dest_ctrl w = IncrementReload then d\<lparr>current_dest := dad d\<rparr> else d)
      else d\<lparr>d_cnt := d_cnt d AND NOT (push_bit 31 1)\<rparr>)"

definition dma_on_event :: "nat \<Rightarrow> emu \<Rightarrow> emu option" where
  "dma_on_event n s =
     (let w = d_cnt (dmas s n) in
      do { (dest, src, s) \<leftarrow> dma_run n s;
           let s = upd_dma n (\<lambda>d. dma_finish n w (d\<lparr>current_dest := dest, current_src := src\<rparr>)) s;
           Some (if dma_irq_at_end w then cpu_send_interrupt (dma_flag n) s else s) })"

definition dma_trigger_imm :: "dma_transfer_mode \<Rightarrow> u8 \<Rightarrow> emu \<Rightarrow> emu option" where
  "dma_trigger_imm mode channels s =
     foldM (\<lambda>i s. if dma_ready mode channels i s then dma_on_event i s else Some s) [0..<4] s"

section \<open>Transfers between main memories\<close>

lemma dma_source_ram:
  assumes "ram_block sz a n" "mmu_ok s" "align_addr sz src = a"
  shows "dma_source_slice sz src n s = (if get_shm_offset False a s \<noteq> 0 then Shm (ram_offset a) n
     else Buf (map (\<lambda>i. read_mem sz (shm (mem s)) (ram_offset a + i * sz)) [0..<n]), s)"
proof -
  have r: "ram_region a \<in> {2, 3}" "sz \<in> {1, 2, 4}" using assms(1) by (simp_all add: ram_block_def)
  have "align_addr sz a = a" unfolding assms(3) [symmetric] using r(2) align_addr_mod align_addr_less by (intro align_addr_id)
  then show ?thesis
    using get_shm_offset_read_ram [OF assms(2) r(1)] read_multiple_ram [OF assms(1,2)] assms(3)
    by (simp add: dma_source_slice_def)
qed

lemma dma_reserve_frame [simp]:
  "mem (dma_reserve n s) = mem s" "jit (dma_reserve n s) = jit s" "cart (dma_reserve n s) = cart s"
  "dmas (dma_reserve n s) = dmas s" "regs (dma_reserve n s) = regs s" "host (dma_reserve n s) = host s"
  "mmu_ok (dma_reserve n s) = mmu_ok s" "get_shm_offset w a (dma_reserve n s) = get_shm_offset w a s"
  by (simp_all add: dma_reserve_def mmu_ok_def get_shm_offset_def)

lemma dma_transfer_ram:
  assumes "ram_block sz a n" "ram_block sz b n" "mmu_ok s" "jit_ok (jit s)"
    and "align_addr sz src = a" "align_addr sz dest = b" "n = unat count"
    and "ram_offset a + n * sz \<le> ram_offset b \<or> ram_offset b + n * sz \<le> ram_offset a"
    and "dma_src_ctrl w = Increment" "dma_dest_ctrl w \<in> {Increment, IncrementReload}"
  defines "r \<equiv> dma_reserve (unat (push_bit (sz div 2) count)) s"
  shows "\<exists>s'. dma_do_transfer sz dest src count w s
      = Some (dest + push_bit (sz div 2) count, src + push_bit (sz div 2) count, s')
    \<and> block_stored sz b (\<lambda>i. read_mem sz (shm (mem s)) (ram_offset a + i * sz)) n r s'"
proof -
  have r: "mmu_ok r" "jit_ok (jit r)" "mem r = mem s" using assms(3,4) by (simp_all add: r_def)
  have off: "get_shm_offset False a r = get_shm_offset False a s" by (simp add: r_def)
  let ?f = "\<lambda>i. read_mem sz (shm (mem s)) (ram_offset a + i * sz)"
  let ?sl = "if get_shm_offset False a s \<noteq> 0 then Shm (ram_offset a) n else Buf (map ?f [0..<n])"
  have "\<exists>s'. mem_write_multiple_slice sz dest ?sl r = Some s' \<and> block_stored sz b ?f n r s'"
  proof (cases "get_shm_offset False a s \<noteq> 0")
    case True
    then show ?thesis using write_multiple_shm [OF assms(2) r(1,2) assms(6,8)] by (simp add: r(3))
  next
    case False
    obtain s' where "mem_write_multiple_slice sz dest (Buf (map ?f [0..<n])) r = Some s'"
        "block_stored sz b (\<lambda>i. map ?f [0..<n] ! i) n r s'"
      using write_multiple_buf [of sz b "map ?f [0..<n]", OF _ r(1,2) assms(6)] assms(2) by auto
    moreover have "block_store sz (ram_offset b) (\<lambda>i. map ?f [0..<n] ! i) n m = block_store sz (ram_offset b) ?f n m" for m
      by (rule block_store_cong) simp
    ultimately show ?thesis using False by (simp add: block_stored_def)
  qed
  then show ?thesis
    using assms(9,10) dma_source_ram [OF assms(1) r(1) assms(5)] r(3)
    by (auto simp: dma_do_transfer_def Let_def assms(7) [symmetric] r_def [symmetric] off simp del: map_upt_Suc)
qed

text \<open>
  C23: a transfer between main memories. When a channel with incrementing source and destination
  runs, and neither run of elements leaves its memory image nor overlaps the other, every element
  of the destination holds what the source element held before, no other byte changes, and the
  addresses advance by the bytes moved. Then a repeating channel is re-armed with the count of its
  control word (and the destination, when it reloads), any other one is disabled; the interrupt is
  requested exactly if the control word asks for it; the other channels are untouched.
\<close>

theorem dma_copies_ram:
  fixes s n
  defines "d \<equiv> dmas s n"
  defines "w \<equiv> d_cnt d" and "count \<equiv> unat (current_count d)"
  defines "sz \<equiv> (if dma_transfer_type w then 4 else 2 :: nat)"
  defines "a \<equiv> align_addr sz (current_src d)" and "b \<equiv> align_addr sz (current_dest d)"
  assumes "mmu_ok s" "jit_ok (jit s)" "\<not> (dma_mode w = Special \<and> (n = 1 \<or> n = 2))"
    and "dma_src_ctrl w = Increment" "dma_dest_ctrl w \<in> {Increment, IncrementReload}"
    and "ram_block sz a count" "ram_block sz b count"
    and "ram_offset a + count * sz \<le> ram_offset b \<or> ram_offset b + count * sz \<le> ram_offset a"
  shows "\<exists>s'. dma_on_event n s = Some s'
    \<and> (\<forall>i < count. read_mem sz (shm (mem s')) (ram_offset b + i * sz) = read_mem sz (shm (mem s)) (ram_offset a + i * sz))
    \<and> (\<forall>k. k < ram_offset b \<or> ram_offset b + count * sz \<le> k \<longrightarrow> shm (mem s') k = shm (mem s) k)
    \<and> current_src (dmas s' n) = current_src d + of_nat (count * sz)
    \<and> (if dma_repeat w \<and> dma_mode w \<noteq> StartImm
       then d_cnt (dmas s' n) = w \<and> current_count (dmas s' n) = dma_word_count w n
          \<and> current_dest (dmas s' n) = (if dma_dest_ctrl w = IncrementReload then dad d else current_dest d + of_nat (count * sz))
       else \<not> dma_enable (d_cnt (dmas s' n)) \<and> current_dest (dmas s' n) = current_dest d + of_nat (count * sz))
    \<and> irf (regs s') = (if dma_irq_at_end w then irf (regs s) OR push_bit (flag_index (dma_flag n)) 1 else irf (regs s))
    \<and> (\<forall>k. k \<noteq> n \<longrightarrow> dmas s' k = dmas s k) \<and> mmu_ok s' \<and> jit_ok (jit s')"
proof -
  let ?f = "\<lambda>i. read_mem sz (shm (mem s)) (ram_offset a + i * sz)"
  let ?t = "push_bit (sz div 2) (current_count d)"
  have sz: "sz \<in> {1, 2, 4}" by (simp add: sz_def)
  obtain t where t: "dma_do_transfer sz (current_dest d) (current_src d) (current_count d) w s
      = Some (current_dest d + ?t, current_src d + ?t, t)"
    and b: "block_stored sz b ?f count (dma_reserve (unat ?t) s) t"
    using dma_transfer_ram [OF assms(12,13,7,8) _ _ _ assms(14,10,11)] a_def b_def count_def by blast
  have fr: "ram_frame (dma_reserve (unat ?t) s) t" and sh: "shm (mem t) = block_store sz (ram_offset b) ?f count (shm (mem s))"
    and ok: "mmu_ok t" "jit_ok (jit t)"
    using b by (simp_all add: block_stored_def)
  have "?t = of_nat (count * sz)"
    by (simp add: sz_def count_def push_bit_eq_mult mult.commute)
  then have run: "dma_run n s = Some (current_dest d + of_nat (count * sz), current_src d + of_nat (count * sz), t)"
    unfolding dma_run_def Let_def d_def [symmetric] w_def [symmetric] sz_def [symmetric]
    using t assms(9) by (simp only: if_False)
  have rd: "read_mem sz (shm (mem t)) (ram_offset b + i * sz) = ?f i" if "i < count" for i
    using that by (simp add: sh read_block_store [OF sz] trunc_read_mem [OF sz])
  have out: "shm (mem t) k = shm (mem s) k" if "k < ram_offset b \<or> ram_offset b + count * sz \<le> k" for k
    using that by (simp add: sh block_store_outside)
  let ?fin = "\<lambda>e. dma_finish n w (e\<lparr>current_dest := current_dest d + of_nat (count * sz), current_src := current_src d + of_nat (count * sz)\<rparr>)"
  let ?u = "upd_dma n ?fin t"
  let ?s' = "if dma_irq_at_end w then cpu_send_interrupt (dma_flag n) ?u else ?u"
  have ev: "dma_on_event n s = Some ?s'"
    by (simp add: dma_on_event_def Let_def run w_def [symmetric] d_def [symmetric])
  note frame = ram_frameD [OF fr]
  have "mem ?s' = mem t" "jit ?s' = jit t" "dmas ?s' = (dmas s)(n := ?fin d)" "cart ?s' = cart t"
    by (simp_all add: upd_dma_def frame d_def cpu_send_interrupt_def cpu_check_for_interrupt_def cpu_schedule_interrupt_def
        cpu_unhalt_def upd_cm_def upd_regs_def upd_cpu_def Let_def)
  moreover have "irf (regs ?s') = (if dma_irq_at_end w then irf (regs s) OR push_bit (flag_index (dma_flag n)) 1 else irf (regs s))"
    by (simp add: upd_dma_def frame)
  moreover have "mmu_ok ?s'" using ok(1) calculation(1,4) by (simp add: mmu_ok_def)
  ultimately show ?thesis
    using rd out ok by (intro exI [of _ ?s']) (simp add: ev dma_finish_def Let_def w_def dma_enable_def bit_simps)
qed

text \<open>Channel 3, 64 words from EWRAM to IWRAM with an interrupt at the end.\<close>

definition dma_sample :: emu where
  "dma_sample = emu_mapped\<lparr>dmas := (\<lambda>_. dma_default)(3 := dma_default\<lparr>d_cnt := 0xC4000040,
     current_src := 0x02000100, current_dest := 0x03001000, current_count := 64\<rparr>)\<rparr>"

theorem dma_copies_ram_witness:
  "\<exists>s'. dma_on_event 3 dma_sample = Some s' \<and> \<not> dma_enable (d_cnt (dmas s' 3))
     \<and> current_src (dmas s' 3) = 0x02000200 \<and> irf (regs s') = irf (regs dma_sample) OR 0x800
     \<and> (\<forall>i < 64. read_mem 4 (shm (mem s')) (P_IWRAM_OFFSET + 0x1000 + i * 4)
               = read_mem 4 (shm (mem dma_sample)) (P_EWRAM_OFFSET + 0x100 + i * 4))"
proof -
  have al: "align_addr 4 0x02000100 = 0x02000100" "align_addr 4 0x03001000 = 0x03001000"
    by (simp_all add: align_addr_def)
  have w: "dma_transfer_type 0xC4000040" "dma_mode 0xC4000040 = StartImm" "dma_src_ctrl 0xC4000040 = Increment"
      "dma_dest_ctrl 0xC4000040 = Increment" "\<not> dma_repeat 0xC4000040" "dma_irq_at_end 0xC4000040"
    by (simp_all add: dma_transfer_type_def dma_mode_def dma_src_ctrl_def dma_dest_ctrl_def dma_addr_ctrl_from_def
        field_def dma_repeat_def dma_irq_at_end_def)
  have d: "dmas dma_sample 3 = \<lparr>d_cnt = 0xC4000040, sad = 0, dad = 0, current_src = 0x02000100, current_dest = 0x03001000, current_count = 64\<rparr>"
    by (simp add: dma_sample_def dma_default_def)
  have "jit emu_mapped = jit_init" by (simp add: emu_mapped_def mmu_update_all_def upd_mem_def emu_new_def)
  then have j: "jit_ok (jit dma_sample)" by (simp add: jit_ok_def jit_init_def dma_sample_def)
  have m: "mmu_ok dma_sample" using emu_mapped_ok(1) by (simp add: dma_sample_def mmu_ok_def)
  have b: "ram_block 4 0x02000100 64" "ram_block 4 0x03001000 64" "ram_offset 0x02000100 = P_EWRAM_OFFSET + 0x100"
      "ram_offset 0x03001000 = P_IWRAM_OFFSET + 0x1000" "P_EWRAM_OFFSET + 0x100 + 64 * 4 \<le> P_IWRAM_OFFSET + 0x1000"
    by (simp_all add: ram_block_def ram_len_def ram_region_def ram_offset_def P_IWRAM_OFFSET_def EWRAM_SIZE_def)
  have f: "push_bit (flag_index (dma_flag 3)) 1 = (0x800 :: u32)" by (simp add: dma_flag_def push_bit_eq_mult)
  from dma_copies_ram [of dma_sample 3, OF m j] show ?thesis
    unfolding d dma_channel.simps using w al b f by (auto simp del: One_nat_def)
qed

section \<open>Transfers to a fixed address\<close>

text \<open>
  C18: a transfer to a fixed address in directly mapped memory does not store what it read. For a channel
  with incrementing source and fixed destination, whose source is directly mapped and whose destination is
  a writable page of the table, the whole effect on memory is that the four bytes at the destination become
  the address of the last source element in the host process, for word and halfword transfers alike:
  \<open>mem_write_fixed_slice\<close> hands the reference itself, not the element, to \<open>write_to_mem\<close>. The guest reads a
  host pointer, and neither the memory nor the registers of the guest determine it.
\<close>

theorem dma_fixed_stores_address:
  fixes s n
  defines "d \<equiv> dmas s n"
  defines "w \<equiv> d_cnt d" and "count \<equiv> unat (current_count d)"
  defines "sz \<equiv> (if dma_transfer_type w then 4 else 2 :: nat)"
  defines "from \<equiv> get_shm_offset False (align_addr sz (current_src d)) s"
    and "to \<equiv> get_shm_offset True (align_addr sz (current_dest d)) s"
  assumes "\<not> (dma_mode w = Special \<and> (n = 1 \<or> n = 2))" "dma_src_ctrl w = Increment" "dma_dest_ctrl w = Fixed"
    and "0 < count" "from \<noteq> 0" "to \<noteq> 0"
  shows "\<exists>s'. dma_on_event n s = Some s'
    \<and> read_mem 4 (shm (mem s')) to = shm_ptr (host s) + of_nat (from + (count - 1) * sz)
    \<and> (\<forall>k. k < to \<or> to + 4 \<le> k \<longrightarrow> shm (mem s') k = shm (mem s) k)"
proof -
  let ?r = "dma_reserve (unat (push_bit (sz div 2) (current_count d))) s" and ?p = "shm_ptr (host s) + of_nat (from + (count - 1) * sz)"
  let ?t = "upd_shm (write_mem 4 to ?p) ?r"
  have "align_addr sz (align_addr sz (current_src d)) = align_addr sz (current_src d)"
    using align_addr_mod align_addr_less by (intro align_addr_id) (auto simp: sz_def)
  then have src: "dma_source_slice sz (current_src d) count ?r = (Shm from count, ?r)"
    using assms(11) by (simp add: dma_source_slice_def from_def)
  have dest: "mem_write_fixed_slice sz (current_dest d) (slice_ptr (Shm from count) ?r) (Shm from count) ?r = Some ?t"
    using assms(12) by (simp add: mem_write_fixed_slice_def Let_def to_def algebra_simps)
  have "dma_do_transfer sz (current_dest d) (current_src d) (current_count d) w s
      = Some (current_dest d, current_src d + push_bit (sz div 2) (current_count d), ?t)"
    using src dest by (simp add: dma_do_transfer_def Let_def assms(8,9) count_def)
  then have "dma_run n s = Some (current_dest d, current_src d + push_bit (sz div 2) (current_count d), ?t)"
    using assms(7) unfolding dma_run_def Let_def d_def [symmetric] w_def [symmetric] sz_def [symmetric]
    by (simp only: if_False)
  then obtain s' where "dma_on_event n s = Some s'" "mem s' = mem ?t"
    by (auto simp: dma_on_event_def Let_def upd_dma_def cpu_send_interrupt_def cpu_check_for_interrupt_def
        cpu_schedule_interrupt_def cpu_unhalt_def upd_cm_def upd_regs_def upd_cpu_def)
  moreover have "take_bit 32 v = v" for v :: u32 by (rule bit_word_eqI) (simp add: bit_simps)
  then have "read_mem 4 (write_mem 4 to ?p m) to = ?p" for m by (simp add: read_write_mem trunc_size_def)
  moreover have "shm (mem s') = write_mem 4 to ?p (shm (mem s))" using \<open>mem s' = mem ?t\<close> by (simp add: upd_shm_def upd_mem_def)
  ultimately show ?thesis
    by (intro exI [of _ s']) (simp add: write_mem_def)
qed

text \<open>64 halfwords from EWRAM to one address of IWRAM, with the shared memory mapped at \<open>0x80000000\<close>.\<close>

definition fixed_sample :: emu where
  "fixed_sample = emu_mapped\<lparr>host := (host emu_mapped)\<lparr>shm_ptr := 0x80000000\<rparr>,
     dmas := (\<lambda>_. dma_default\<lparr>d_cnt := 0x80400040, current_src := 0x02000100, current_dest := 0x03001000, current_count := 64\<rparr>)\<rparr>"

theorem dma_fixed_stores_address_witness:
  "\<exists>s'. dma_on_event 3 fixed_sample = Some s'
     \<and> read_mem 4 (shm (mem s')) (P_IWRAM_OFFSET + 0x1000) = 0x80000000 + of_nat (P_EWRAM_OFFSET + 0x100 + 63 * 2)"
proof -
  have al: "align_addr 2 0x02000100 = 0x02000100" "align_addr 2 0x03001000 = 0x03001000"
    by (simp_all add: align_addr_def)
  have w: "\<not> dma_transfer_type 0x80400040" "dma_mode 0x80400040 = StartImm" "dma_src_ctrl 0x80400040 = Increment"
      "dma_dest_ctrl 0x80400040 = Fixed"
    by (simp_all add: dma_transfer_type_def dma_mode_def dma_src_ctrl_def dma_dest_ctrl_def dma_addr_ctrl_from_def field_def)
  have "get_shm_offset False 0x02000100 fixed_sample = P_EWRAM_OFFSET + 0x100"
    "get_shm_offset True 0x03001000 fixed_sample = P_IWRAM_OFFSET + 0x1000"
    by (simp_all add: get_shm_offset_def fixed_sample_def emu_mapped_def mmu_update_all_entries page_read_entry_def
        page_write_entry_def Let_def P_IWRAM_OFFSET_def P_EWRAM_OFFSET_def EWRAM_SIZE_def IWRAM_SIZE_def del: One_nat_def)
  with dma_fixed_stores_address [of fixed_sample 3] show ?thesis
    using w al by (auto simp: fixed_sample_def P_IWRAM_OFFSET_def)
qed

end
