(* ===== verification/Bios.thy ===== *)
theory Bios
  imports Slices
begin

text \<open>
  The high-level BIOS: \<open>src/src/core/hle/bios.rs\<close>, its call table \<open>bios_lookup_table.rs\<close>, the
  exception dispatcher \<open>src/src/core/exception_handler.rs\<close> and the interrupt event of
  \<open>src/src/core/cpu_regs.rs\<close>. A call that reaches \<open>todo!()\<close> or a trapping division is \<open>None\<close>, and so
  is the \<open>debug_panic!\<close> of the dispatcher (undefined in a release build). The double-precision
  trigonometry and the exponential of the host are the fields of \<open>host_math\<close>, a parameter.
\<close>

section \<open>Interrupt entry and exit\<close>

definition set_open_bus :: "u32 \<Rightarrow> emu \<Rightarrow> emu" where
  "set_open_bus w s = upd_cpu (\<lambda>c. c\<lparr>bios_open_bus := w\<rparr>) s"

text \<open>The \<open>Cpsr\<close> setters used: mode field, interrupt mask, state bit.\<close>

definition irq_cpsr :: "u32 \<Rightarrow> u32" where
  "irq_cpsr w = (((w OR push_bit 7 1) AND NOT (push_bit 5 1)) AND NOT 0x1F) OR 0x12"

definition set_thumb_bit :: "bool \<Rightarrow> u32 \<Rightarrow> u32" where
  "set_thumb_bit b w = (if b then w OR push_bit 5 1 else w AND NOT (push_bit 5 1))"

definition interrupt :: "emu \<Rightarrow> emu option" where
  "interrupt s =
     (let s = set_open_bus 0xE25EF004 s;
          s = thread_set_cpsr (irq_cpsr (cpsr (regs s))) True s;
          s = upd_regs (\<lambda>r. r\<lparr>spsr := set_thumb_bit (reg_pc r AND 1 = 1) (spsr r)\<rparr>) s;
          r = regs s;
          regs_to_push = [gp_regs r 0, gp_regs r 1, gp_regs r 2, gp_regs r 3, gp_regs r 12, reg_pc r + 4];
          s = upd_regs (\<lambda>r. r\<lparr>reg_sp := reg_sp r - 24\<rparr>) s
      in do { s \<leftarrow> mem_write_multiple_slice 4 (reg_sp (regs s)) (Buf regs_to_push) s;
              let s = upd_regs (\<lambda>r. r\<lparr>reg_lr := 0xFFF00000\<rparr>) s;
              let (v, s) = mem_read 4 0x3FFFFFC s;
              Some (upd_regs (\<lambda>r. r\<lparr>reg_pc := v\<rparr>) s) })"

definition check_wait_flags :: "emu \<Rightarrow> emu option" where
  "check_wait_flags s =
     (let addr = 0x3FFFFF8; (flags, s) = mem_read 4 addr s; wait_flags = bios_wait_flags (cpu s)
      in if flags AND wait_flags \<noteq> 0 then
           do { s \<leftarrow> mem_write 4 addr (flags AND NOT wait_flags) s;
                Some (upd_cpu (\<lambda>c. c\<lparr>bios_wait_flags := 0\<rparr>) s) }
         else Some (cpu_halt 0 s))"

text \<open>The six stacked words, in place when the page of the stack is mapped.\<close>

definition read_stacked :: "u32 \<Rightarrow> emu \<Rightarrow> u32 list \<times> emu" where
  "read_stacked sp s =
     (let off = get_shm_offset False (align_addr 4 sp) s
      in if off \<noteq> 0 then (map (\<lambda>i. read_mem 4 (shm (mem s)) (off + i * 4)) [0..<6], s)
         else mem_read_multiple_slice False 4 sp 6 s)"

definition unstack :: "u32 list \<Rightarrow> thread_regs \<Rightarrow> thread_regs" where
  "unstack vs r =
     (let pc = vs ! 5 - 4
      in r\<lparr>gp_regs := (gp_regs r)(0 := vs ! 0, 1 := vs ! 1, 2 := vs ! 2, 3 := vs ! 3, 12 := vs ! 4),
           reg_sp := reg_sp r + 24, reg_lr := vs ! 5,
           reg_pc := (pc AND NOT 1) OR of_bool (cpsr_thumb (spsr r))\<rparr>)"

definition uninterrupt :: "emu \<Rightarrow> emu option" where
  "uninterrupt s =
     (let s = set_open_bus 0xE55EC002 s
      in do { s \<leftarrow> (if bios_wait_flags (cpu s) \<noteq> 0 then check_wait_flags s else Some s);
              let (vs, s) = read_stacked (reg_sp (regs s)) s;
              let s = upd_regs (unstack vs) s;
              Some (thread_set_cpsr (spsr (regs s)) False s) })"

section \<open>Calls without memory\<close>

definition upd_reg :: "nat \<Rightarrow> u32 \<Rightarrow> emu \<Rightarrow> emu" where
  "upd_reg n v s = upd_regs (set_reg n v) s"

definition reg :: "nat \<Rightarrow> emu \<Rightarrow> u32" where
  "reg n s = get_reg n (regs s)"

text \<open>\<open>i32\<close> division truncates towards zero; a zero divisor and \<open>MIN / -1\<close> panic.\<close>

definition quot_trunc :: "int \<Rightarrow> int \<Rightarrow> int" where
  "quot_trunc a b = (let q = \<bar>a\<bar> div \<bar>b\<bar> in if (a < 0) = (b < 0) then q else - q)"

definition divide :: "emu \<Rightarrow> emu option" where
  "divide s =
     (let dividend = sint (reg 0 s); divisor = sint (reg 1 s)
      in if divisor = 0 \<or> (dividend = - (2 ^ 31) \<and> divisor = - 1) then None
         else (let q = quot_trunc dividend divisor
               in Some (upd_reg 3 (of_int \<bar>q\<bar>) (upd_reg 1 (of_int (dividend - q * divisor))
                         (upd_reg 0 (of_int q) s)))))"

definition divide_arm :: "emu \<Rightarrow> emu option" where
  "divide_arm s =
     divide (upd_regs (\<lambda>r. r\<lparr>gp_regs := (gp_regs r)(0 := gp_regs r 1, 1 := gp_regs r 0)\<rparr>) s)"

definition bios_halt :: "emu \<Rightarrow> emu" where
  "bios_halt s = cpu_halt 0 s"

definition sleep :: "emu \<Rightarrow> emu" where
  "sleep s = cpu_set_halt_cnt 0xC0 s"

text \<open>\<open>u32::isqrt\<close>, the largest root whose square does not exceed the argument: sixteen rounds of
  the digit-by-digit method, from bit 15 down.\<close>

fun isqrt_from :: "nat \<Rightarrow> nat \<Rightarrow> nat \<Rightarrow> nat" where
  "isqrt_from x 0 r = r"
| "isqrt_from x (Suc k) r = isqrt_from x k (if (r + 2 ^ k) * (r + 2 ^ k) \<le> x then r + 2 ^ k else r)"

definition square_root :: "emu \<Rightarrow> emu" where
  "square_root s = upd_reg 0 (of_nat (isqrt_from (unat (reg 0 s)) 16 0)) s"

definition bios_checksum :: "emu \<Rightarrow> emu" where
  "bios_checksum s = upd_reg 0 0xBAAE187F s"

section \<open>Calls on memory\<close>

text \<open>The copy loop of \<open>cpu_set\<close> and \<open>cpu_fast_set\<close>: element \<open>i\<close> of \<open>count\<close>, \<open>sz\<close> bytes each.\<close>

definition copy_element :: "nat \<Rightarrow> bool \<Rightarrow> u32 \<Rightarrow> u32 \<Rightarrow> nat \<Rightarrow> emu \<Rightarrow> emu option" where
  "copy_element sz fill src dst i s =
     (let (v, s) = mem_read sz (if fill then src else src + of_nat (i * sz)) s
      in mem_write sz (dst + of_nat (i * sz)) v s)"

definition cpu_fast_set :: "emu \<Rightarrow> emu option" where
  "cpu_fast_set s =
     (let length_mode = reg 2 s; fixed = (length_mode AND push_bit 24 1 \<noteq> 0);
          words = unat (push_bit 2 (length_mode AND 0x1FFFFF)) div 4
      in foldM (copy_element 4 fixed (reg 0 s) (reg 1 s)) [0..<words] s)"

definition cpu_set :: "emu \<Rightarrow> emu option" where
  "cpu_set s =
     (let len_mode = reg 2 s; count = unat (len_mode AND 0x1FFFFF); fill = (len_mode AND push_bit 24 1 \<noteq> 0);
          sz = (if len_mode AND push_bit 26 1 \<noteq> 0 then 4 else 2)
      in foldM (copy_element sz fill (reg 0 s) (reg 1 s)) [0..<count] s)"

definition interrupt_wait :: "emu \<Rightarrow> emu option" where
  "interrupt_wait s =
     (let discard_old = (reg 0 s \<noteq> 0); wait_flags = reg 1 s;
          s = upd_cpu (\<lambda>c. c\<lparr>bios_wait_flags := wait_flags\<rparr>) s
      in if discard_old then
           do { s \<leftarrow> check_wait_flags s;
                Some (cpu_halt 0 (upd_cpu (\<lambda>c. c\<lparr>bios_wait_flags := wait_flags\<rparr>) s)) }
         else check_wait_flags s)"

definition v_blank_intr_wait :: "emu \<Rightarrow> emu option" where
  "v_blank_intr_wait s = interrupt_wait (upd_reg 1 1 (upd_reg 0 1 s))"

definition uncomp_write_byte :: "u32 \<Rightarrow> u8 \<Rightarrow> emu \<Rightarrow> emu option" where
  "uncomp_write_byte addr v s =
     (let aligned = addr AND NOT 1; (cur, s) = mem_read 2 aligned s; shift = 8 * unat (addr AND 1);
          new = ((ucast cur :: u16) AND NOT (push_bit shift 0xFF)) OR push_bit shift (ucast v)
      in mem_write 2 aligned (ucast new) s)"

definition read_u8 :: "u32 \<Rightarrow> emu \<Rightarrow> u8 \<times> emu" where
  "read_u8 addr s = (let (v, s) = mem_read 1 addr s in (ucast v, s))"

text \<open>LZ77: one back-reference of \<open>n\<close> bytes, one flag byte's eight items, the whole loop. The output
  position \<open>dst\<close> and the input position \<open>src\<close> stay below \<open>2 ^ 24 + 18\<close> and \<open>2 ^ 26\<close>, so they are
  naturals. The item loop stops with \<open>True\<close> when the output is complete.\<close>

fun lz_back :: "nat \<Rightarrow> u32 \<Rightarrow> nat \<Rightarrow> u32 \<Rightarrow> emu \<Rightarrow> emu option" where
  "lz_back 0 dst_addr dst off s = Some s"
| "lz_back (Suc n) dst_addr dst off s =
     (let (v, s) = read_u8 (dst_addr + of_nat dst - off) s
      in do { s \<leftarrow> uncomp_write_byte (dst_addr + of_nat dst) v s; lz_back n dst_addr (dst + 1) off s })"

fun lz_items :: "nat \<Rightarrow> u16 \<Rightarrow> nat \<Rightarrow> u32 \<Rightarrow> u32 \<Rightarrow> nat \<Rightarrow> nat \<Rightarrow> emu \<Rightarrow> (bool \<times> nat \<times> nat \<times> emu) option" where
  "lz_items 0 flags out_len src_addr dst_addr src dst s = Some (False, src, dst, s)"
| "lz_items (Suc k) flags out_len src_addr dst_addr src dst s =
     (if out_len \<le> dst then Some (True, src, dst, s)
      else
        (let flags = push_bit 1 flags in
         if flags AND push_bit 8 1 \<noteq> 0 then
           (let (val1, s) = read_u8 (src_addr + of_nat src) s;
                (val2, s) = read_u8 (src_addr + of_nat (src + 1)) s;
                n = 3 + unat (drop_bit 4 val1 AND 0xF);
                off = 1 + push_bit 8 (ucast val1 AND 0xF) + ucast val2
            in do { s \<leftarrow> lz_back n dst_addr dst off s;
                    lz_items k flags out_len src_addr dst_addr (src + 2) (dst + n) s })
         else
           (let (v, s) = read_u8 (src_addr + of_nat src) s
            in do { s \<leftarrow> uncomp_write_byte (dst_addr + of_nat dst) v s;
                    lz_items k flags out_len src_addr dst_addr (src + 1) (dst + 1) s })))"

lemma lz_items_progress:
  "lz_items k flags out_len src_addr dst_addr src dst s = Some (b, src', dst', s') \<Longrightarrow>
     (b \<longrightarrow> out_len \<le> dst') \<and> (\<not> b \<longrightarrow> dst + k \<le> dst' \<and> (k = 0 \<or> dst < out_len))"
proof (induction k arbitrary: flags src dst s)
  case (Suc k)
  show ?case
  proof (cases "out_len \<le> dst")
    case False
    obtain flags1 src1 dst1 s1 where
      "lz_items k flags1 out_len src_addr dst_addr src1 dst1 s1 = Some (b, src', dst', s')" "dst < dst1"
      using Suc.prems False by (auto simp: Let_def split_beta bind_eq_Some_conv split: if_splits)
    then show ?thesis using Suc.IH [of flags1 src1 dst1 s1] False by auto
  qed (use Suc.prems in simp)
qed simp

function lz_loop :: "nat \<Rightarrow> u32 \<Rightarrow> u32 \<Rightarrow> nat \<Rightarrow> nat \<Rightarrow> emu \<Rightarrow> emu option" where
  "lz_loop out_len src_addr dst_addr src dst s =
     (let (flags, s) = read_u8 (src_addr + of_nat src) s
      in case lz_items 8 (ucast flags) out_len src_addr dst_addr (src + 1) dst s of
           None \<Rightarrow> None
         | Some (fin, src, dst, s) \<Rightarrow>
             if fin then Some s else lz_loop out_len src_addr dst_addr src dst s)"
  by auto
termination
  by (relation "measure (\<lambda>(n, sa, da, src, dst, s). n - dst)") (auto dest!: lz_items_progress)

declare lz_loop.simps [simp del]

definition lz77_uncomp :: "emu \<Rightarrow> emu option" where
  "lz77_uncomp s =
     (let src_addr = reg 0 s; dst_addr = reg 1 s; (header, s) = mem_read 4 src_addr s
      in lz_loop (unat (drop_bit 8 header)) src_addr dst_addr 4 0 s)"

text \<open>Run length: a run of one value, a literal stretch, the loop over both.\<close>

definition rl_run :: "u32 \<Rightarrow> nat \<Rightarrow> nat \<Rightarrow> u8 \<Rightarrow> emu \<Rightarrow> emu option" where
  "rl_run dst_addr dst n v s = foldM (\<lambda>i. uncomp_write_byte (dst_addr + of_nat dst + of_nat i) v) [0..<n] s"

definition rl_literal :: "u32 \<Rightarrow> u32 \<Rightarrow> nat \<Rightarrow> nat \<Rightarrow> nat \<Rightarrow> emu \<Rightarrow> emu option" where
  "rl_literal src_addr dst_addr src dst n s =
     foldM (\<lambda>i s. let (v, s) = read_u8 (src_addr + of_nat src + of_nat i) s
                  in uncomp_write_byte (dst_addr + of_nat dst + of_nat i) v s) [0..<n] s"

function rl_loop :: "nat \<Rightarrow> u32 \<Rightarrow> u32 \<Rightarrow> nat \<Rightarrow> nat \<Rightarrow> emu \<Rightarrow> emu option" where
  "rl_loop out_len src_addr dst_addr src dst s =
     (if dst < out_len then
        (let (flags, s) = read_u8 (src_addr + of_nat src) s;
             src = src + 1;
             low = unat (flags AND 0x7F)
         in if flags AND push_bit 7 1 \<noteq> 0 then
              (let (v, s) = read_u8 (src_addr + of_nat src) s
               in do { s \<leftarrow> rl_run dst_addr dst (low + 3) v s;
                       rl_loop out_len src_addr dst_addr (src + 1) (dst + (low + 3)) s })
            else
              do { s \<leftarrow> rl_literal src_addr dst_addr src dst (low + 1) s;
                   rl_loop out_len src_addr dst_addr (src + (low + 1)) (dst + (low + 1)) s })
      else Some s)"
  by auto
termination
  by (relation "measure (\<lambda>(n, sa, da, src, dst, s). n - dst)") auto

declare rl_loop.simps [simp del]

definition runlen_uncomp :: "emu \<Rightarrow> emu option" where
  "runlen_uncomp s =
     (let src_addr = reg 0 s; dst_addr = reg 1 s; (header, s) = mem_read 4 src_addr s
      in rl_loop (unat (drop_bit 8 header)) src_addr dst_addr 4 0 s)"

definition swi_sound_bias :: "emu \<Rightarrow> emu option" where
  "swi_sound_bias s = mem_write 2 0x4000088 (if reg 0 s \<noteq> 0 then 0x200 else 0) s"

definition soft_reset :: "emu \<Rightarrow> emu option" where
  "soft_reset s =
     do { s \<leftarrow> mem_write_multiple_memset 1 0x3007E00 0 0x200 s;
          let (return_flag, s) = mem_read 1 0x3007FFA s;
          let entry = (if return_flag = 0 then 0x08000000 else 0x02000000);
          let s = upd_regs (\<lambda>r. r\<lparr>user := (user r)\<lparr>u_sp := 0x03007F00, u_lr := entry\<rparr>,
                                  irq := \<lparr>m_sp = 0x03007FA0, m_lr = 0, m_spsr = 0\<rparr>,
                                  svc := \<lparr>m_sp = 0x03007FE0, m_lr = 0, m_spsr = 0\<rparr>,
                                  gp_regs := (\<lambda>_. 0), reg_pc := entry\<rparr>) s;
          Some (thread_set_cpsr 0xDF False s) }"

definition when_flag :: "bool \<Rightarrow> (emu \<Rightarrow> emu option) \<Rightarrow> emu \<Rightarrow> emu option" where
  "when_flag b f s = (if b then f s else Some s)"

definition register_ram_reset :: "emu \<Rightarrow> emu option" where
  "register_ram_reset s =
     do { s \<leftarrow> mem_write 2 0x4000000 0x0080 s;
          let flags = reg 0 s;
          s \<leftarrow> when_flag (flags AND 0x01 \<noteq> 0) (mem_write_multiple_memset 4 0x02000000 0 (EWRAM_SIZE div 4)) s;
          s \<leftarrow> when_flag (flags AND 0x02 \<noteq> 0) (mem_write_multiple_memset 4 0x03000000 0 ((IWRAM_SIZE - 0x200) div 4)) s;
          s \<leftarrow> when_flag (flags AND 0x04 \<noteq> 0) (mem_write_multiple_memset 4 0x05000000 0 (1024 div 4)) s;
          s \<leftarrow> when_flag (flags AND 0x08 \<noteq> 0) (mem_write_multiple_memset 4 0x06000000 0 (96 * 1024 div 4)) s;
          when_flag (flags AND 0x10 \<noteq> 0) (mem_write_multiple_memset 4 0x07000000 0 (1024 div 4)) s }"

section \<open>Calls that use the host's floating point\<close>

text \<open>What the source computes in \<open>f64\<close>, from the words read to the words written.\<close>

record host_math =
  hm_arc_tan :: "u32 \<Rightarrow> u32"
  hm_arc_tan2 :: "u32 \<Rightarrow> u32 \<Rightarrow> u32"
  hm_affine :: "u32 \<Rightarrow> u32 \<Rightarrow> u32 \<Rightarrow> u32 \<times> u32 \<times> u32 \<times> u32"
  hm_origin :: "u32 list \<Rightarrow> u32 \<times> u32"
  hm_midi :: "u32 \<Rightarrow> u32 \<Rightarrow> u32 \<Rightarrow> u32"

definition arc_tan :: "host_math \<Rightarrow> emu \<Rightarrow> emu" where
  "arc_tan h s = upd_reg 0 (hm_arc_tan h (reg 0 s)) s"

definition arc_tan2 :: "host_math \<Rightarrow> emu \<Rightarrow> emu" where
  "arc_tan2 h s = upd_reg 0 (hm_arc_tan2 h (reg 0 s) (reg 1 s)) s"

text \<open>The reads of one entry, in program order: (size, offset).\<close>

fun read_fields :: "(nat \<times> u32) list \<Rightarrow> u32 \<Rightarrow> emu \<Rightarrow> u32 list \<times> emu" where
  "read_fields [] src s = ([], s)"
| "read_fields ((sz, off) # fs) src s =
     (let (v, s) = mem_read sz (src + off) s; (vs, s) = read_fields fs src s in (v # vs, s))"

fun write_fields :: "(nat \<times> u32 \<times> u32) list \<Rightarrow> u32 \<Rightarrow> emu \<Rightarrow> emu option" where
  "write_fields [] dst s = Some s"
| "write_fields ((sz, off, v) # fs) dst s = do { s \<leftarrow> mem_write sz (dst + off) v s; write_fields fs dst s }"

fun bg_affine_loop :: "host_math \<Rightarrow> nat \<Rightarrow> u32 \<Rightarrow> u32 \<Rightarrow> emu \<Rightarrow> emu option" where
  "bg_affine_loop h 0 src dst s = Some s"
| "bg_affine_loop h (Suc n) src dst s =
     (let (vs, s) = read_fields [(4, 0), (4, 4), (2, 8), (2, 10), (2, 12), (2, 14), (2, 16)] src s;
          (pa, pb, pc, pd) = hm_affine h (vs ! 4) (vs ! 5) (vs ! 6); (x, y) = hm_origin h vs
      in do { s \<leftarrow> write_fields [(2, 0, pa), (2, 2, pb), (2, 4, pc), (2, 6, pd), (4, 8, x), (4, 12, y)] dst s;
              bg_affine_loop h n (src + 20) (dst + 16) s })"

definition bg_affine_set :: "host_math \<Rightarrow> emu \<Rightarrow> emu option" where
  "bg_affine_set h s = bg_affine_loop h (unat (reg 2 s)) (reg 0 s) (reg 1 s) s"

fun obj_affine_loop :: "host_math \<Rightarrow> nat \<Rightarrow> u32 \<Rightarrow> u32 \<Rightarrow> u32 \<Rightarrow> emu \<Rightarrow> emu option" where
  "obj_affine_loop h 0 stride src dst s = Some s"
| "obj_affine_loop h (Suc n) stride src dst s =
     (let (vs, s) = read_fields [(2, 0), (2, 2), (2, 4)] src s;
          (pa, pb, pc, pd) = hm_affine h (vs ! 0) (vs ! 1) (vs ! 2)
      in do { s \<leftarrow> write_fields [(2, 0, pa), (2, stride, pb), (2, stride * 2, pc), (2, stride * 3, pd)] dst s;
              obj_affine_loop h n stride (src + 8) (dst + stride * 4) s })"

definition obj_affine_set :: "host_math \<Rightarrow> emu \<Rightarrow> emu option" where
  "obj_affine_set h s = obj_affine_loop h (unat (reg 2 s)) (reg 3 s) (reg 0 s) (reg 1 s) s"

definition midi_key_2_freq :: "host_math \<Rightarrow> emu \<Rightarrow> emu" where
  "midi_key_2_freq h s =
     (let wave_data = reg 0 s; key = reg 1 s; fine = reg 2 s; (freq, s) = mem_read 4 (wave_data + 4) s
      in upd_reg 0 (hm_midi h freq key fine) s)"

section \<open>Dispatch (bios_lookup_table.rs, exception_handler.rs, cpu_regs.rs)\<close>

datatype swi_call =
  SoftReset | RegisterRamReset | Halt | Stop | InterruptWait | VBlankIntrWait | Divide | DivideArm
  | SquareRoot | ArcTan | ArcTan2 | CpuSet | CpuFastSet | BiosChecksum | BgAffineSet | ObjAffineSet
  | BitUnpack | Lz77Uncomp | HuffUncomp | RunlenUncomp | DiffUnfilt8 | DiffUnfilt16 | SoundBias
  | MidiKey2Freq | Unknown

definition GBA_SWI_LOOKUP_TABLE :: "swi_call list" where
  "GBA_SWI_LOOKUP_TABLE =
     [SoftReset, RegisterRamReset, Halt, Stop, InterruptWait, VBlankIntrWait, Divide, DivideArm,
      SquareRoot, ArcTan, ArcTan2, CpuSet, CpuFastSet, BiosChecksum, BgAffineSet, ObjAffineSet,
      BitUnpack, Lz77Uncomp, Lz77Uncomp, HuffUncomp, RunlenUncomp, RunlenUncomp, DiffUnfilt8, DiffUnfilt8,
      DiffUnfilt16, SoundBias, Unknown, Unknown, Unknown, Unknown, Unknown, MidiKey2Freq,
      Unknown, Unknown, Unknown, Unknown, Unknown, Unknown, Unknown, Unknown]"

text \<open>The function of a table entry; the four \<open>todo!()\<close> bodies panic.\<close>

fun swi_func :: "host_math \<Rightarrow> swi_call \<Rightarrow> emu \<Rightarrow> emu option" where
  "swi_func h SoftReset s = soft_reset s"
| "swi_func h RegisterRamReset s = register_ram_reset s"
| "swi_func h Halt s = Some (bios_halt s)"
| "swi_func h Stop s = Some (sleep s)"
| "swi_func h InterruptWait s = interrupt_wait s"
| "swi_func h VBlankIntrWait s = v_blank_intr_wait s"
| "swi_func h Divide s = divide s"
| "swi_func h DivideArm s = divide_arm s"
| "swi_func h SquareRoot s = Some (square_root s)"
| "swi_func h ArcTan s = Some (arc_tan h s)"
| "swi_func h ArcTan2 s = Some (arc_tan2 h s)"
| "swi_func h CpuSet s = cpu_set s"
| "swi_func h CpuFastSet s = cpu_fast_set s"
| "swi_func h BiosChecksum s = Some (bios_checksum s)"
| "swi_func h BgAffineSet s = bg_affine_set h s"
| "swi_func h ObjAffineSet s = obj_affine_set h s"
| "swi_func h BitUnpack s = None"
| "swi_func h Lz77Uncomp s = lz77_uncomp s"
| "swi_func h HuffUncomp s = None"
| "swi_func h RunlenUncomp s = runlen_uncomp s"
| "swi_func h DiffUnfilt8 s = None"
| "swi_func h DiffUnfilt16 s = None"
| "swi_func h SoundBias s = swi_sound_bias s"
| "swi_func h MidiKey2Freq s = Some (midi_key_2_freq h s)"
| "swi_func h Unknown s = Some s"

definition swi :: "host_math \<Rightarrow> u8 \<Rightarrow> emu \<Rightarrow> emu option" where
  "swi h comment s =
     swi_func h (GBA_SWI_LOOKUP_TABLE ! min (unat comment) (length GBA_SWI_LOOKUP_TABLE - 1))
       (set_open_bus 0xE3A02004 s)"

datatype exception_vector =
  Reset | UndefinedInstruction | SoftwareInterrupt | PrefetchAbort | DataAbort | AddressExceeds26Bit
  | NormalInterrupt | FastInterrupt

fun handle :: "host_math \<Rightarrow> u8 \<Rightarrow> exception_vector \<Rightarrow> emu \<Rightarrow> emu option" where
  "handle h comment SoftwareInterrupt s = swi h comment s"
| "handle h comment NormalInterrupt s = interrupt s"
| "handle h comment _ s = None"

definition cpu_on_interrupt_event :: "host_math \<Rightarrow> emu \<Rightarrow> emu option" where
  "cpu_on_interrupt_event h s =
     (if irq_pending (regs s) then map_option (cpu_unhalt 0) (handle h 0 NormalInterrupt s) else Some s)"

section \<open>Arithmetic calls\<close>

lemma quot_trunc_props:
  fixes a b :: int
  assumes "b \<noteq> 0"
  defines "q \<equiv> quot_trunc a b"
  shows "\<bar>a - q * b\<bar> < \<bar>b\<bar>" "a - q * b = 0 \<or> (a - q * b < 0) = (a < 0)" "\<bar>q\<bar> \<le> \<bar>a\<bar>" "\<bar>q\<bar> = \<bar>a\<bar> div \<bar>b\<bar>"
proof -
  let ?d = "\<bar>a\<bar> div \<bar>b\<bar>" and ?r = "\<bar>a\<bar> mod \<bar>b\<bar>"
  have r: "0 \<le> ?r" "?r < \<bar>b\<bar>" "0 \<le> ?d" using assms(1) by (simp_all add: pos_imp_zdiv_nonneg_iff)
  have "a - q * b = (if a < 0 then - ?r else ?r)"
    using minus_div_mult_eq_mod [of "\<bar>a\<bar>" "\<bar>b\<bar>"] unfolding q_def quot_trunc_def Let_def
    by (cases "a < 0"; cases "b < 0") auto
  then show "\<bar>a - q * b\<bar> < \<bar>b\<bar>" "a - q * b = 0 \<or> (a - q * b < 0) = (a < 0)" using r by auto
  show q: "\<bar>q\<bar> = ?d" using r by (simp add: q_def quot_trunc_def Let_def)
  have "?d \<le> \<bar>a\<bar>" using assms(1) by (metis abs_ge_zero zdiv_mono2 div_by_1 int_one_le_iff_zero_less zero_less_abs_iff zero_less_one)
  then show "\<bar>q\<bar> \<le> \<bar>a\<bar>" using q by simp
qed

lemma sint_of_int_u32: "- (2 ^ 31) \<le> k \<Longrightarrow> k < 2 ^ 31 \<Longrightarrow> sint (of_int k :: u32) = k"
  by (simp add: signed_of_int signed_take_bit_int_eq_self)

lemma sint_u32_bounds: "- (2 ^ 31) \<le> sint (w :: u32)" "sint (w :: u32) < 2 ^ 31"
  using sint_ge [of w] sint_lt [of w] by simp_all

text \<open>
  The division call. It panics exactly for a zero divisor and for the most negative number
  divided by minus one. Otherwise r0 is the quotient rounded towards zero, r1 the remainder (smaller
  than the divisor, with the sign of the dividend) and r3 the magnitude of the quotient, as signed
  32-bit numbers; no other register changes. The second form takes its operands swapped.
\<close>

theorem divide_behaviour:
  "let a = sint (reg 0 s); b = sint (reg 1 s) in
   (divide s = None \<longleftrightarrow> b = 0 \<or> a = - (2 ^ 31) \<and> b = - 1)
   \<and> (\<forall>s'. divide s = Some s' \<longrightarrow>
        (let q = sint (reg 0 s'); r = sint (reg 1 s') in
         a = q * b + r \<and> \<bar>r\<bar> < \<bar>b\<bar> \<and> (r = 0 \<or> (r < 0) = (a < 0)) \<and> uint (reg 3 s') = \<bar>q\<bar>)
        \<and> (\<forall>n \<le> 17. n \<notin> {0, 1, 3} \<longrightarrow> reg n s' = reg n s))
   \<and> divide_arm s = divide (upd_reg 1 (reg 0 s) (upd_reg 0 (reg 1 s) s))"
proof -
  define a b where "a = sint (reg 0 s)" and "b = sint (reg 1 s)"
  note ab = sint_u32_bounds [of "reg 0 s", folded a_def] sint_u32_bounds [of "reg 1 s", folded b_def]
  have none: "divide s = None \<longleftrightarrow> b = 0 \<or> a = - (2 ^ 31) \<and> b = - 1"
    by (simp add: divide_def Let_def a_def b_def)
  have ok: "(let q = sint (reg 0 s'); r = sint (reg 1 s') in
         a = q * b + r \<and> \<bar>r\<bar> < \<bar>b\<bar> \<and> (r = 0 \<or> (r < 0) = (a < 0)) \<and> uint (reg 3 s') = \<bar>q\<bar>)
        \<and> (\<forall>n \<le> 17. n \<notin> {0, 1, 3} \<longrightarrow> reg n s' = reg n s)" if s': "divide s = Some s'" for s'
  proof -
    let ?q = "quot_trunc a b"
    have b: "b \<noteq> 0" "\<not> (a = - (2 ^ 31) \<and> b = - 1)" using none s' by auto
    note q = quot_trunc_props [OF b(1), of a]
    have eq: "s' = upd_reg 3 (of_int \<bar>?q\<bar>) (upd_reg 1 (of_int (a - ?q * b)) (upd_reg 0 (of_int ?q) s))"
      using s' b unfolding divide_def Let_def a_def [symmetric] b_def [symmetric] by (simp split: if_splits)
    have "\<not> (?q = 2 ^ 31)"
    proof
      assume q31: "?q = 2 ^ 31"
      then have "\<bar>a\<bar> = 2 ^ 31" using q(3) ab by simp
      then have "a = - (2 ^ 31)" using ab by auto
      moreover have "\<bar>a\<bar> div \<bar>b\<bar> = 2 ^ 31" using q(4) q31 by simp
      then have "\<bar>b\<bar> = 1"
        using \<open>\<bar>a\<bar> = 2 ^ 31\<close> b(1) int_div_less_self [of "2 ^ 31" "\<bar>b\<bar>"] by (cases "1 < \<bar>b\<bar>") auto
      then have "b = 1" using b(2) \<open>a = - (2 ^ 31)\<close> by auto
      ultimately show False using q31 by (simp add: quot_trunc_def)
    qed
    then have q0: "sint (of_int ?q :: u32) = ?q" using q(3) ab by (intro sint_of_int_u32) auto
    have r0: "sint (of_int (a - ?q * b) :: u32) = a - ?q * b" using q(1) ab by (intro sint_of_int_u32) auto
    have "\<bar>?q\<bar> < 2 ^ 32" using q(3) ab by auto
    then have u: "uint (of_int \<bar>?q\<bar> :: u32) = \<bar>?q\<bar>" by (simp add: uint_word_of_int_eq take_bit_int_eq_self)
    show ?thesis unfolding eq using q(1,2) q0 r0 u
      by (auto simp: Let_def reg_def upd_reg_def upd_regs_def get_reg_def set_reg_def simp del: of_int_abs of_int_diff of_int_mult)
  qed
  show ?thesis unfolding Let_def a_def [symmetric] b_def [symmetric]
    using none ok unfolding Let_def
    by (auto simp: divide_arm_def reg_def upd_reg_def upd_regs_def get_reg_def set_reg_def fun_upd_twist)
qed

theorem divide_behaviour_witness:
  "let s = upd_reg 1 2 (upd_reg 0 (- 7) emu_new) in
   \<exists>s'. divide s = Some s' \<and> sint (reg 0 s) = sint (reg 0 s') * 2 + sint (reg 1 s')"
proof -
  let ?s = "upd_reg 1 2 (upd_reg 0 (- 7) emu_new)"
  have "reg 1 ?s = 2" by (simp add: reg_def upd_reg_def upd_regs_def get_reg_def set_reg_def)
  then show ?thesis using divide_behaviour [of ?s] by (cases "divide ?s") (auto simp: Let_def)
qed

lemma isqrt_from_bounds:
  "r * r \<le> x \<Longrightarrow> x < (r + 2 ^ k) * (r + 2 ^ k) \<Longrightarrow>
     isqrt_from x k r * isqrt_from x k r \<le> x \<and> x < Suc (isqrt_from x k r) * Suc (isqrt_from x k r)"
proof (induction k arbitrary: r)
  case (Suc k)
  show ?case
  proof (cases "(r + 2 ^ k) * (r + 2 ^ k) \<le> x")
    case True
    then show ?thesis using Suc.IH [of "r + 2 ^ k"] Suc.prems(2) by (simp add: mult_2 add.assoc)
  next
    case False
    then show ?thesis using Suc.IH [of r] Suc.prems(1) by simp
  qed
qed simp

text \<open>
  The square-root call returns the floor of the square root of r0 as an unsigned number, for all
  32-bit arguments, and changes no other register.
\<close>

theorem square_root_floor:
  "let x = unat (reg 0 s); r = unat (reg 0 (square_root s)) in
   r * r \<le> x \<and> x < Suc r * Suc r \<and> (\<forall>n \<le> 17. n \<noteq> 0 \<longrightarrow> reg n (square_root s) = reg n s)"
proof -
  define x where "x = unat (reg 0 s)"
  let ?r = "isqrt_from x 16 0"
  have x: "x < (0 + 2 ^ 16) * (0 + 2 ^ 16)" using unat_u32_bound [of "reg 0 s"] by (simp add: x_def)
  note b = isqrt_from_bounds [of 0 x 16, OF _ x, simplified]
  have "?r < 2 ^ 32"
  proof (rule ccontr)
    assume "\<not> ?r < 2 ^ 32"
    then have "2 ^ 32 * 1 \<le> ?r * ?r" by (intro mult_le_mono) auto
    then show False using b x by simp
  qed
  then have "unat (of_nat ?r :: u32) = ?r" by (rule unat_of_nat_u32)
  then have "unat (reg 0 (square_root s)) = ?r"
    by (simp add: square_root_def reg_def upd_reg_def upd_regs_def get_reg_def set_reg_def x_def)
  then show ?thesis using b
    by (simp add: Let_def x_def [symmetric]) (simp add: square_root_def reg_def upd_reg_def upd_regs_def get_reg_def set_reg_def)
qed

theorem square_root_floor_witness:
  "let s = upd_reg 0 1000000 emu_new in unat (reg 0 (square_root s)) = 1000"
proof -
  let ?s = "upd_reg 0 1000000 emu_new" and ?r = "unat (reg 0 (square_root (upd_reg 0 1000000 emu_new)))"
  have "unat (reg 0 ?s) = 1000000" by (simp add: reg_def upd_reg_def upd_regs_def get_reg_def set_reg_def)
  then have b: "?r * ?r \<le> 1000000" "1000000 < Suc ?r * Suc ?r" using square_root_floor [of ?s] by (simp_all add: Let_def)
  have "\<not> 1001 \<le> ?r" using mult_le_mono [of 1001 ?r 1001 ?r] b(1) by auto
  moreover have "\<not> Suc ?r \<le> 1000" using mult_le_mono [of "Suc ?r" 1000 "Suc ?r" 1000] b(2) by auto
  ultimately show ?thesis by (simp add: Let_def)
qed

end
