(* ===== verification/Events.thy ===== *)
theory Events
  imports Dma Bios
begin

text \<open>
  Event dispatch: \<open>cm_check_events\<close> and \<open>cm_on_overflow_event\<close> of \<open>src/src/core/cycle_manager.rs\<close>.
  The loop that drains the due events is a partial
  function into \<open>option\<close>, so that a loop that never ends is \<open>None\<close>; theorem \<open>check_events_returns\<close>
  proves that it ends. A load of a savestate from inside the vertical-blank handler is a host
  action and not part of a handler here.
\<close>

section \<open>Dispatch tables\<close>

definition imm_func :: "host_math \<Rightarrow> nat \<Rightarrow> emu \<Rightarrow> emu option" where
  "imm_func h i s = (if i = 0 then cpu_on_interrupt_event h s else if i < 5 then dma_on_event (i - 1) s else None)"

text \<open>The sample the audio handler produces goes to the host queue.\<close>

definition event_func :: "nat \<Rightarrow> emu \<Rightarrow> emu option" where
  "event_func i s =
     (if i = 0 then Some (gpu_on_scanline240_event s)
      else if i = 1 then Some (gpu_on_scanline308_event s)
      else if i < 6 then Some (timers_overflow (i - 2) s)
      else if i = 6 then Some (snd (apu_on_sample_event s)) else None)"

definition run_imm_events :: "host_math \<Rightarrow> emu \<Rightarrow> emu option" where
  "run_imm_events h s =
     foldM (imm_func h) (bit_scan (active_imm_events (cm s)) 0) (upd_cm (\<lambda>c. c\<lparr>active_imm_events := 0\<rparr>) s)"

section \<open>The drain loop\<close>

text \<open>One round: the earliest due event is taken off the mask and its handler runs.\<close>

definition event_round :: "nat \<Rightarrow> u32 \<Rightarrow> emu \<Rightarrow> emu option" where
  "event_round i due s = event_func i (upd_cm (begin_event i due) s)"

partial_function (option) run_due :: "emu \<Rightarrow> emu option" where
  "run_due s =
     (case select_due (cm s) of
        (None, _) \<Rightarrow> Some s
      | (Some i, due) \<Rightarrow> Option.bind (event_round i due s) run_due)"

definition rebase_timer :: "u32 \<Rightarrow> timer_channel \<Rightarrow> timer_channel" where
  "rebase_timer now c =
     c\<lparr>scheduled_cycle := (if scheduled_cycle c < now then 0 else scheduled_cycle c - now)\<rparr>"

definition cm_on_overflow_event :: "emu \<Rightarrow> emu" where
  "cm_on_overflow_event s =
     (let now = cycle_count (cm s)
      in upd_cm rebase (s\<lparr>tmrs := (\<lambda>n. if n < 4 then rebase_timer now (tmrs s n) else tmrs s n)\<rparr>))"

definition cm_check_events :: "host_math \<Rightarrow> emu \<Rightarrow> (bool \<times> emu) option" where
  "cm_check_events h s =
     do { s \<leftarrow> run_imm_events h s;
          if cycle_count (cm s) < next_event_cycle (cm s) then Some (False, s)
          else do { s \<leftarrow> run_due (upd_cm (\<lambda>c. c\<lparr>next_event_cycle := - 1\<rparr>) s);
                    let s = upd_cm recompute_next s;
                    Some (True, if cycle_count (cm s) > 0x7FFFFFFF then cm_on_overflow_event s else s) } }"

section \<open>What a handler may do to the schedule\<close>

text \<open>An operation that leaves the timed events, the clock and the timers alone; it may set immediate
  events.\<close>

definition quiet :: "emu \<Rightarrow> emu \<Rightarrow> bool" where
  "quiet s s' \<longleftrightarrow> (\<exists>m. cm s' = (cm s)\<lparr>active_imm_events := m\<rparr>) \<and> tmrs s' = tmrs s"

text \<open>A handler step: the clock stands, and an event that is active afterwards either was so before
  with the same due cycle or is due strictly after the event being handled.\<close>

definition evolves :: "emu \<Rightarrow> emu \<Rightarrow> bool" where
  "evolves s s' \<longleftrightarrow>
     (let c = cm s; c' = cm s' in
      cycle_count c' = cycle_count c \<and> current_event_due c' = current_event_due c
      \<and> (\<forall>n. current_shift (tmrs s' n) = current_shift (tmrs s n))
      \<and> (\<forall>j. active_at (active_events c') j \<longrightarrow>
            active_at (active_events c) j \<and> events c' j = events c j
            \<or> j < LAST_EVENT \<and> current_event_due c < events c' j))"

lemma quiet_refl [simp, intro]: "quiet s s"
  by (auto simp: quiet_def intro: exI [of _ "active_imm_events (cm s)"])

lemma quiet_trans: "quiet s t \<Longrightarrow> quiet t u \<Longrightarrow> quiet s u"
  by (auto simp: quiet_def)

lemma quiet_evolves: "quiet s s' \<Longrightarrow> evolves s s'"
  by (auto simp: quiet_def evolves_def Let_def)

lemma evolves_trans: "evolves s t \<Longrightarrow> evolves t u \<Longrightarrow> evolves s u"
  unfolding evolves_def Let_def by (metis (no_types, lifting))

lemma quiet_frame [simp]:
  "cm s' = cm s \<Longrightarrow> tmrs s' = tmrs s \<Longrightarrow> quiet s s'"
  by (auto simp: quiet_def intro: exI [of _ "active_imm_events (cm s)"])

lemma quiet_schedule_imm: "quiet s (upd_cm (schedule_imm e) s)"
  by (auto simp: quiet_def upd_cm_def schedule_imm_def)

lemma quiet_check_for_interrupt: "quiet s (cpu_check_for_interrupt s)"
  by (auto simp: cpu_check_for_interrupt_def cpu_schedule_interrupt_def Let_def upd_cm_def schedule_imm_def quiet_def
      intro: exI [of _ "active_imm_events (cm s)"])

lemma quiet_send_interrupt: "quiet s (cpu_send_interrupt f s)"
proof -
  let ?s = "upd_regs (\<lambda>r. r\<lparr>irf := irf r OR push_bit (flag_index f) 1\<rparr>) s"
  have "quiet s ?s" by (simp add: upd_regs_def)
  moreover have "quiet ?s (cpu_check_for_interrupt ?s)" by (rule quiet_check_for_interrupt)
  moreover have "quiet ?s (cpu_unhalt 0 ?s)" by (simp add: cpu_unhalt_def upd_cpu_def)
  ultimately show ?thesis unfolding cpu_send_interrupt_def Let_def by (auto intro: quiet_trans)
qed

lemma quiet_dma_trigger: "quiet s (dma_trigger md ch s)"
proof -
  have "quiet s (fold (\<lambda>i s. if dma_ready md ch i s then upd_cm (schedule_imm (imm_dma i)) s else s) xs s)" for xs
    by (induction xs arbitrary: s) (auto intro: quiet_trans quiet_schedule_imm)
  then show ?thesis by (simp add: dma_trigger_def)
qed

lemma quiet_fifo_timer: "quiet s (apu_on_fifo_timer t s)"
proof -
  have "quiet s (fifo_timer_step t f s)" for f s
    by (auto simp: fifo_timer_step_def Let_def split_beta intro: quiet_trans [OF _ quiet_dma_trigger])
  then show ?thesis by (auto simp: apu_on_fifo_timer_def intro: quiet_trans)
qed

lemma less_saturating_add:
  fixes d k :: u32
  assumes "d < - 1" "0 < k"
  shows "d < saturating_add d k"
  using assms unat_saturating_add [of d k] unat_minus_one_u32 by (simp add: word_less_nat_alt)

lemma evolves_schedule_from_due:
  assumes "current_event_due (cm s) < - 1" "0 < k" "\<And>n. current_shift (tmrs s' n) = current_shift (tmrs s n)"
    "cm s' = schedule_from_due k e (cm s)"
  shows "evolves s s'"
  using less_saturating_add [OF assms(1,2)] assms(3,4)
  by (auto simp: evolves_def Let_def schedule_from_due_def set_event_def)

section \<open>Every handler evolves\<close>

definition timers_ok :: "emu \<Rightarrow> bool" where
  "timers_ok s \<longleftrightarrow> (\<forall>n. unat (current_shift (tmrs s n)) \<le> 10)"

definition slots_ok :: "cycle_manager \<Rightarrow> bool" where
  "slots_ok c \<longleftrightarrow> (\<forall>j. active_at (active_events c) j \<longrightarrow> j < LAST_EVENT)"

lemma remaining_positive:
  assumes "unat (current_shift c) \<le> 10"
  shows "0 < remaining_cycles c"
proof -
  let ?v = "TIME_OVERFLOW - ucast (current_value c) :: u32"
  have v: "unat (current_value c) < 65536" using unsigned_less [where 'a = nat, of "current_value c"] by simp
  then have "unat ?v = 0x10000 - unat (current_value c)"
    by (simp add: TIME_OVERFLOW_def unat_sub word_le_nat_alt unsigned_ucast_eq take_bit_nat_eq_self)
  then have u: "0 < unat ?v" "unat ?v \<le> 0x10000" using v by simp_all
  have "(2::nat) ^ unat (current_shift c) \<le> 2 ^ 10" using assms by (intro power_increasing) auto
  then have "unat ?v * 2 ^ unat (current_shift c) \<le> 0x10000 * 2 ^ 10" using u(2) by (intro mult_le_mono)
  then have "unat (of_nat (unat ?v * 2 ^ unat (current_shift c)) :: u32) = unat ?v * 2 ^ unat (current_shift c)"
    by (intro unat_of_nat_u32) simp
  moreover have "remaining_cycles c = of_nat (unat ?v * 2 ^ unat (current_shift c))"
    by (simp add: remaining_cycles_def push_bit_eq_mult)
  ultimately have "unat (remaining_cycles c) = unat ?v * 2 ^ unat (current_shift c)" by (simp only:)
  then show ?thesis using u(1) by (simp add: word_gt_0 unat_gt_0 [symmetric] del: unat_gt_0)
qed

lemma evolves_upd_timer:
  assumes "\<And>c. current_shift (f c) = current_shift c"
  shows "evolves s (upd_timer n f s)"
  using assms by (simp add: evolves_def upd_timer_def Let_def)

lemma timers_ok_evolves: "evolves s s' \<Longrightarrow> timers_ok s \<Longrightarrow> timers_ok s'"
  by (simp add: evolves_def timers_ok_def Let_def)

lemma evolves_due: "evolves s s' \<Longrightarrow> current_event_due (cm s') = current_event_due (cm s)"
  by (simp add: evolves_def Let_def)

lemma evolves_timers_overflow:
  "timers_ok s \<Longrightarrow> current_event_due (cm s) < - 1 \<Longrightarrow> evolves s (timers_overflow n s)"
proof (induction "3 - n" arbitrary: n s rule: less_induct)
  case (less n s)
  define w where "w = t_cnt_h (tmrs s n)"
  define s1 where "s1 = upd_timer n (\<lambda>c. c\<lparr>current_value := t_cnt_l c\<rparr>) s"
  define k where "k = remaining_cycles (tmrs s1 n)"
  define s2 where "s2 = (if \<not> is_count_up n w then upd_cm (schedule_from_due k (event_timer n))
      (upd_timer n (\<lambda>c. c\<lparr>scheduled_cycle := saturating_add (current_event_due (cm s1)) k\<rparr>) s1) else s1)"
  define s3 where "s3 = (if t_irq_enable w then cpu_send_interrupt (timer_flag n) s2 else s2)"
  define s4 where "s4 = (if n < 2 then apu_on_fifo_timer n s3 else s3)"
  define s5 where "s5 = upd_timer n (\<lambda>c. c\<lparr>current_value := current_value c + 1\<rparr>) s4"
  note defs = w_def s1_def k_def s2_def s3_def s4_def s5_def
  have k: "0 < k" unfolding k_def s1_def
    using less.prems(1) by (intro remaining_positive) (simp add: upd_timer_def timers_ok_def)
  have e1: "evolves s s1" unfolding s1_def by (rule evolves_upd_timer) simp
  have due: "current_event_due (cm s1) < - 1" unfolding evolves_due [OF e1] by (rule less.prems(2))
  have "evolves s1 (upd_cm (schedule_from_due k (event_timer n))
      (upd_timer n (\<lambda>c. c\<lparr>scheduled_cycle := saturating_add (current_event_due (cm s1)) k\<rparr>) s1))"
    by (rule evolves_schedule_from_due [OF due k]) (simp_all add: upd_cm_def upd_timer_def)
  then have e2: "evolves s1 s2" by (simp add: s2_def quiet_evolves)
  have e3: "evolves s2 s3" by (simp add: s3_def quiet_evolves quiet_send_interrupt)
  have e4: "evolves s3 s4" by (simp add: s4_def quiet_evolves quiet_fifo_timer)
  have e5: "evolves s4 s5" unfolding s5_def by (rule evolves_upd_timer) simp
  note e = evolves_trans [OF evolves_trans [OF evolves_trans [OF e1 e2] e3] e4]
  note f = evolves_trans [OF e e5]
  have rec: "evolves s5 (timers_overflow (n + 1) s5)" if "n < 3"
    by (rule less.hyps) (use that less.prems in \<open>simp_all add: timers_ok_evolves [OF f] evolves_due [OF f]\<close>)
  have "timers_overflow n s = (if \<not> t_start w then s else if n < 3 \<and> t_count_up (t_cnt_h (tmrs s4 n)) then
      (if current_value (tmrs s5 n) = 0 then timers_overflow (n + 1) s5 else s5) else s4)"
    unfolding timers_overflow.simps [of n s] Let_def defs ..
  then show ?case using e f evolves_trans [OF f rec] by (simp add: quiet_evolves)
qed

lemma evolves_quiet_then:
  assumes "quiet s t" "evolves t u"
  shows "evolves s u"
  by (rule evolves_trans [OF quiet_evolves [OF assms(1)] assms(2)])

lemma quiet_hotkeys: "quiet s (input_process_hotkeys s)"
proof -
  let ?t = "if keypad_hit (inp s) \<and> \<not> prev_keypad_irq (inp s) then cpu_send_interrupt Keypad s else s"
  have "quiet s ?t" by (simp add: quiet_send_interrupt)
  moreover have "quiet ?t (?t\<lparr>inp := (inp ?t)\<lparr>prev_keypad_irq := keypad_hit (inp s)\<rparr>\<rparr>)" by simp
  ultimately show ?thesis by (auto simp: input_process_hotkeys_def Let_def intro: quiet_trans)
qed

lemma quiet_upd [simp]:
  "quiet s (upd_gpu g s)" "quiet s (upd_ppu p s)" "quiet s (upd_mem f s)" "quiet s (upd_disp_stat d s)"
  by (simp_all add: upd_gpu_def upd_ppu_def upd_mem_def upd_disp_stat_def)

lemmas quiet_steps = quiet_refl quiet_trans [OF _ quiet_upd(1)] quiet_trans [OF _ quiet_upd(2)] quiet_trans [OF _ quiet_upd(3)]
  quiet_trans [OF _ quiet_upd(4)] quiet_trans [OF _ quiet_send_interrupt] quiet_trans [OF _ quiet_dma_trigger]

lemma quiet_vblank_start: "quiet s (vblank_start s)"
  unfolding vblank_start_def Let_def dma_trigger_all_def
  by (auto intro!: quiet_steps)

text \<open>A handler that is quiet, then reschedules an event relative to its due cycle.\<close>

lemma evolves_reschedule:
  assumes "quiet s t" "current_event_due (cm s) < - 1" "0 < k"
  shows "evolves s (upd_cm (schedule_from_due k e) t)"
proof (rule evolves_quiet_then [OF assms(1)])
  have "current_event_due (cm t) < - 1" using assms(1,2) by (auto simp: quiet_def)
  then show "evolves t (upd_cm (schedule_from_due k e) t)"
    by (rule evolves_schedule_from_due [OF _ assms(3)]) (simp_all add: upd_cm_def)
qed

lemma evolves_scanline240:
  assumes "current_event_due (cm s) < - 1"
  shows "evolves s (gpu_on_scanline240_event s)"
  unfolding gpu_on_scanline240_event_def Let_def dma_trigger_all_def
  by (rule evolves_reschedule [OF _ assms])
    (auto simp: HBLANK_CYCLES_def CYCLES_PER_LINE_def HDRAW_CYCLES_def intro!: quiet_steps)

lemma evolves_scanline308:
  assumes "current_event_due (cm s) < - 1"
  shows "evolves s (gpu_on_scanline308_event s)"
proof -
  define s1 where "s1 = upd_gpu (\<lambda>g. g\<lparr>v_count := v_count g + 1\<rparr>) s"
  define s2 where "s2 = (let v = v_count (gpus s1) in if v = VISIBLE_LINES then vblank_start s1
               else if v = 227 then upd_disp_stat (set_flag 0 False) s1
               else if v = TOTAL_LINES then upd_ppu reload_internal_refs (upd_gpu (\<lambda>g. g\<lparr>v_count := 0\<rparr>) s1)
               else s1)"
  define s3 where "s3 = (if v_count (gpus s2) = drop_bit 8 (disp_stat (gpus s2)) then
                 (let s = upd_disp_stat (set_flag 2 True) s2
                  in if bit (disp_stat (gpus s)) 5 then cpu_send_interrupt LcdVCounterMatch s else s)
               else upd_disp_stat (set_flag 2 False) s2)"
  define s4 where "s4 = upd_disp_stat (set_flag 1 False) s3"
  have "quiet s s1" by (simp add: s1_def)
  moreover have "quiet s1 s2" by (auto simp: s2_def Let_def intro!: quiet_steps quiet_vblank_start)
  moreover have "quiet s2 s3" by (auto simp: s3_def Let_def intro!: quiet_steps)
  moreover have "quiet s3 s4" by (simp add: s4_def)
  ultimately have "quiet s s4" by (blast intro: quiet_trans)
  then have e: "evolves s (upd_cm (schedule_from_due HDRAW_CYCLES GpuScanline240) s4)"
    by (rule evolves_reschedule [OF _ assms]) (simp add: HDRAW_CYCLES_def)
  have "gpu_on_scanline308_event s = (let s = upd_cm (schedule_from_due HDRAW_CYCLES GpuScanline240) s4
      in if v_count (gpus s) = VISIBLE_LINES then input_process_hotkeys s else s)"
    unfolding gpu_on_scanline308_event_def Let_def s4_def s3_def s2_def s1_def ..
  then show ?thesis using e evolves_trans [OF e quiet_evolves [OF quiet_hotkeys]] by (simp add: Let_def)
qed

lemma evolves_apu_sample:
  assumes "current_event_due (cm s) < - 1"
  shows "evolves s (snd (apu_on_sample_event s))"
proof -
  have "quiet s (s\<lparr>apus := a\<rparr>)" for a by simp
  from evolves_reschedule [OF this assms] show ?thesis
    by (simp add: apu_on_sample_event_def split_beta Let_def CYCLES_PER_SAMPLE_def)
qed

lemma event_func_evolves:
  assumes "timers_ok s" "current_event_due (cm s) < - 1" "i < LAST_EVENT"
  shows "\<exists>s'. event_func i s = Some s' \<and> evolves s s'"
  using assms evolves_scanline240 evolves_scanline308 evolves_timers_overflow evolves_apu_sample
  by (auto simp: event_func_def LAST_EVENT_def)

section \<open>The drain loop ends\<close>

lemma event_round_step:
  assumes "timers_ok s" "slots_ok (cm s)" "due_event (cm s) i"
  shows "\<exists>s'. event_round i (events (cm s) i) s = Some s' \<and> timers_ok s' \<and> slots_ok (cm s')
    \<and> cycle_count (cm s') = cycle_count (cm s)
    \<and> (\<forall>j. active_at (active_events (cm s')) j \<longrightarrow>
         active_at (active_events (cm s)) j \<and> j \<noteq> i \<and> events (cm s') j = events (cm s) j \<or> events (cm s) i < events (cm s') j)"
proof -
  let ?t = "upd_cm (begin_event i (events (cm s) i)) s"
  have i: "i < LAST_EVENT" "events (cm s) i < - 1" "i < 32"
    using assms(2,3) by (auto simp: slots_ok_def due_event_def LAST_EVENT_def active_at_def)
  have t: "timers_ok ?t" "current_event_due (cm ?t) < - 1"
    using assms(1) i by (simp_all add: upd_cm_def timers_ok_def begin_event_def)
  obtain s' where s': "event_func i ?t = Some s'" "evolves ?t s'"
    using event_func_evolves [OF t i(1)] by blast
  have act: "active_at (active_events (cm ?t)) j \<longleftrightarrow> active_at (active_events (cm s)) j \<and> j \<noteq> i" for j
    using i(3) by (auto simp: upd_cm_def begin_event_def)
  have ev: "events (cm ?t) = events (cm s)" "cycle_count (cm ?t) = cycle_count (cm s)" "current_event_due (cm ?t) = events (cm s) i"
    by (simp_all add: upd_cm_def begin_event_def)
  note e = s'(2) [unfolded evolves_def Let_def act ev]
  have "slots_ok (cm s')" using e assms(2) by (auto simp: slots_ok_def)
  moreover have "timers_ok s'" by (rule timers_ok_evolves [OF s'(2) t(1)])
  ultimately show ?thesis using s'(1) e by (auto simp: event_round_def)
qed

text \<open>Events active at cycle \<open>L\<close>, counted; below \<open>L\<close> there is none.\<close>

definition at_cycle :: "nat \<Rightarrow> cycle_manager \<Rightarrow> nat set" where
  "at_cycle L c = {j. active_at (active_events c) j \<and> unat (events c j) = L}"

definition none_before :: "nat \<Rightarrow> cycle_manager \<Rightarrow> bool" where
  "none_before L c \<longleftrightarrow> (\<forall>j. active_at (active_events c) j \<longrightarrow> L \<le> unat (events c j))"

lemma finite_at_cycle: "finite (at_cycle L c)"
  by (rule finite_subset [of _ "{..<32}"]) (auto simp: at_cycle_def active_at_def)

lemma run_due_returns:
  "timers_ok s \<Longrightarrow> slots_ok (cm s) \<Longrightarrow> none_before L (cm s) \<Longrightarrow>
     \<exists>s'. run_due s = Some s' \<and> timers_ok s' \<and> slots_ok (cm s') \<and> cycle_count (cm s') = cycle_count (cm s)
       \<and> (\<forall>j. \<not> due_event (cm s') j)"
proof (induction "Suc (unat (cycle_count (cm s))) - L" arbitrary: s L rule: less_induct)
  case outer: less
  then show ?case
  proof (induction "card (at_cycle L (cm s))" arbitrary: s rule: less_induct)
    case inner: less
    let ?c = "cm s"
    show ?case
    proof (cases ?c rule: select_due_cases)
      case none
      then show ?thesis using inner.prems by (simp add: run_due.simps [of s])
    next
      case (some i)
      have i: "active_at (active_events ?c) i" "events ?c i \<le> cycle_count ?c" using some(2) by (simp_all add: due_event_def)
      obtain s' where s': "event_round i (events ?c i) s = Some s'" "timers_ok s'" "slots_ok (cm s')"
          "cycle_count (cm s') = cycle_count ?c"
        and new: "\<And>j. active_at (active_events (cm s')) j \<Longrightarrow>
          active_at (active_events ?c) j \<and> j \<noteq> i \<and> events (cm s') j = events ?c j \<or> events ?c i < events (cm s') j"
        using event_round_step [OF inner.prems(2,3) some(2)] by blast
      have step: "run_due s = run_due s'" using some(1) s'(1) by (simp add: run_due.simps [of s])
      have le: "L \<le> unat (events ?c i)" using inner.prems(4) i(1) by (simp add: none_before_def)
      have nb: "none_before L (cm s')"
        unfolding none_before_def
      proof (intro allI impI)
        fix j assume "active_at (active_events (cm s')) j"
        from new [OF this] show "L \<le> unat (events (cm s') j)"
          using inner.prems(4) le by (auto simp: none_before_def word_less_nat_alt)
      qed
      show ?thesis
      proof (cases "unat (events ?c i) = L")
        case True
        have "at_cycle L (cm s') \<subseteq> at_cycle L ?c - {i}"
          using new True by (fastforce simp: at_cycle_def word_less_nat_alt)
        moreover have "i \<in> at_cycle L ?c" using True i(1) by (simp add: at_cycle_def)
        ultimately have "at_cycle L (cm s') \<subset> at_cycle L ?c" by blast
        then have "card (at_cycle L (cm s')) < card (at_cycle L ?c)" by (rule psubset_card_mono [OF finite_at_cycle])
        from inner.hyps [OF this _ s'(2,3) nb] inner.prems(1) s'(4) show ?thesis by (simp add: step)
      next
        case False
        have "none_before (Suc L) ?c"
          unfolding none_before_def
        proof (intro allI impI)
          fix j assume j: "active_at (active_events ?c) j"
          show "Suc L \<le> unat (events ?c j)"
          proof (cases "due_event ?c j")
            case True
            from some(3) [OF this] show ?thesis using le False by (auto simp: word_less_nat_alt)
          next
            case not_due: False
            then have "events ?c i < events ?c j" using i(2) j some(2) by (auto simp: due_event_def)
            then show ?thesis using le False by (simp add: word_less_nat_alt)
          qed
        qed
        moreover have "Suc (unat (cycle_count ?c)) - Suc L < Suc (unat (cycle_count ?c)) - L"
          using le i(2) by (simp add: word_le_nat_alt)
        ultimately show ?thesis using inner.prems(1) [OF _ inner.prems(2,3)] by blast
      qed
    qed
  qed
qed

lemma due_event_recompute [simp]: "due_event (recompute_next c) j = due_event c j"
  by (simp add: due_event_def recompute_next_def)

text \<open>
  C1: the dispatch loop ends. Whatever is due and however far the clock has overshot, with every
  handler rescheduling itself from its due cycle, \<open>cm_check_events\<close> returns once the immediate events
  have been handled: each round takes the earliest due event, and no handler can leave an event due
  at or before it, so the rounds are bounded although a timer may fire every cycle. Unless the clock
  is rebased, on return nothing is due, the clock has not moved and the scheduler invariant holds.
\<close>

theorem check_events_returns:
  assumes "run_imm_events h s = Some t" "timers_ok t" "cm_inv (cm t)"
  shows "\<exists>b s'. cm_check_events h s = Some (b, s') \<and> timers_ok s'
    \<and> b = (next_event_cycle (cm t) \<le> cycle_count (cm t))
    \<and> (cycle_count (cm t) \<le> 0x7FFFFFFF \<longrightarrow>
        cm_inv (cm s') \<and> (\<forall>j. \<not> due_event (cm s') j) \<and> cycle_count (cm s') = cycle_count (cm t))"
proof (cases "cycle_count (cm t) < next_event_cycle (cm t)")
  case True
  then have "\<not> due_event (cm t) j" for j
    using cm_invD [OF assms(3), of j] by (auto simp: due_event_def)
  then show ?thesis using True assms by (simp add: cm_check_events_def not_le)
next
  case False
  let ?t = "upd_cm (\<lambda>c. c\<lparr>next_event_cycle := - 1\<rparr>) t"
  have t: "timers_ok ?t" "slots_ok (cm ?t)" "none_before 0 (cm ?t)"
    using assms(2,3) by (auto simp: timers_ok_def upd_cm_def slots_ok_def cm_inv_def none_before_def)
  obtain u where u: "run_due ?t = Some u" "timers_ok u" "slots_ok (cm u)" "cycle_count (cm u) = cycle_count (cm t)"
      "\<And>j. \<not> due_event (cm u) j"
    using run_due_returns [OF t] by (auto simp: upd_cm_def)
  let ?u = "upd_cm recompute_next u"
  have cc: "cycle_count (cm ?u) = cycle_count (cm t)" by (simp add: upd_cm_def recompute_next_def u(4))
  have inv: "cm_inv (cm ?u)" unfolding upd_cm_def using u(3) by (simp add: cm_inv_recompute_next slots_ok_def)
  have ov: "timers_ok ?u" "timers_ok (cm_on_overflow_event ?u)"
    using u(2) by (auto simp: timers_ok_def upd_cm_def cm_on_overflow_event_def rebase_timer_def Let_def)
  have "cm_check_events h s = Some (True, if cycle_count (cm ?u) > 0x7FFFFFFF then cm_on_overflow_event ?u else ?u)"
    using assms(1) False u(1) by (simp add: cm_check_events_def Let_def)
  moreover have "\<not> due_event (cm ?u) j" for j using u(5) by (simp add: upd_cm_def)
  ultimately show ?thesis using False ov inv cc by (auto simp: not_less not_le)
qed

definition event_sample :: emu where
  "event_sample = emu_new\<lparr>cm := cm_new\<lparr>cycle_count := 5000, events := (\<lambda>_. 0)(0 := 960, 6 := 512),
     active_events := push_bit 31 1 OR push_bit 25 1, next_event_cycle := 512\<rparr>\<rparr>"

theorem check_events_returns_witness:
  "\<forall>h. \<exists>s'. cm_check_events h event_sample = Some (True, s') \<and> cm_inv (cm s') \<and> (\<forall>j. \<not> due_event (cm s') j)"
proof
  fix h
  have imm: "run_imm_events h event_sample = Some event_sample"
    by (simp add: run_imm_events_def event_sample_def cm_new_def bit_scan.simps upd_cm_def)
  have tm: "timers_ok event_sample" by (simp add: timers_ok_def event_sample_def emu_new_def timer_default_def)
  have act: "active_at (push_bit 31 1 OR push_bit 25 1) j \<longleftrightarrow> j = 0 \<or> j = 6" for j
    using active_at_or [of 0 "push_bit 25 1" j] active_at_or [of 6 0 j] by (simp add: or.commute) (auto simp: active_at_def)
  have "cm_inv (cm event_sample)"
    unfolding cm_inv_def event_sample_def by (auto simp: act LAST_EVENT_def simp del: push_bit_of_1)
  from check_events_returns [OF imm tm this]
  show "\<exists>s'. cm_check_events h event_sample = Some (True, s') \<and> cm_inv (cm s') \<and> (\<forall>j. \<not> due_event (cm s') j)"
    by (auto simp: event_sample_def)
qed

section \<open>Rebasing after a catch-up\<close>

text \<open>A handler that reschedules into the past leaves \<open>next_event_cycle\<close> there: the closing scan only
  lowers it. The audio handler on the schedule alone:\<close>

lemma event_round_sample:
  "event_round 6 due s = Some (snd (apu_on_sample_event (upd_cm (begin_event 6 due) s)))"
  by (simp add: event_round_def event_func_def)

lemma cm_apu_sample: "cm (snd (apu_on_sample_event s)) = schedule_from_due 512 ApuSample (cm s)"
  by (simp add: apu_on_sample_event_def split_beta Let_def upd_cm_def CYCLES_PER_SAMPLE_def)

lemma active_set_event:
  "active_at (active_events (set_event d e c)) j \<longleftrightarrow> active_at (active_events c) j \<or> j = event_index e"
  by (simp add: set_event_def)

lemma active_begin_event:
  "i < 32 \<Longrightarrow> active_at (active_events (begin_event i d c)) j \<longleftrightarrow> active_at (active_events c) j \<and> j \<noteq> i"
  by (simp add: begin_event_def)

definition only_sample :: "u32 \<Rightarrow> u32 \<Rightarrow> u32 \<Rightarrow> cycle_manager \<Rightarrow> bool" where
  "only_sample now due nxt c \<longleftrightarrow> (\<forall>j. active_at (active_events c) j \<longleftrightarrow> j = 6) \<and> cycle_count c = now
     \<and> events c 6 = due \<and> next_event_cycle c = nxt"

lemma run_due_sample:
  assumes "only_sample now due nxt (cm s)" "due < - 1"
  shows "now < due \<Longrightarrow> run_due s = Some s"
    and "due \<le> now \<Longrightarrow> \<exists>s'. run_due s = run_due s' \<and> only_sample now (saturating_add due 512) (min nxt (saturating_add due 512)) (cm s')"
proof -
  have d: "due_event (cm s) j \<longleftrightarrow> j = 6 \<and> due \<le> now" for j
    using assms by (auto simp: only_sample_def due_event_def)
  show "run_due s = Some s" if "now < due"
    using that d by (cases "cm s" rule: select_due_cases) (auto simp: run_due.simps [of s])
  show "\<exists>s'. run_due s = run_due s' \<and> only_sample now (saturating_add due 512) (min nxt (saturating_add due 512)) (cm s')"
    if "due \<le> now"
  proof -
    let ?s' = "snd (apu_on_sample_event (upd_cm (begin_event 6 due) s))"
    have "select_due (cm s) = (Some 6, due)"
      using that d assms(1) by (cases "cm s" rule: select_due_cases) (auto simp: only_sample_def)
    then have "run_due s = run_due ?s'" by (simp add: run_due.simps [of s] event_round_sample)
    moreover have "cm ?s' = set_event (saturating_add due 512) ApuSample (begin_event 6 due (cm s))"
      by (simp add: cm_apu_sample upd_cm_def schedule_from_due_def begin_event_def)
    then have "only_sample now (saturating_add due 512) (min nxt (saturating_add due 512)) (cm ?s')"
      using assms(1) unfolding only_sample_def
      by (simp add: active_set_event active_begin_event) (auto simp: set_event_def begin_event_def min_def)
    ultimately show ?thesis by blast
  qed
qed

lemma cm_overflow: "cm (cm_on_overflow_event s) = rebase (cm s)"
  by (simp add: cm_on_overflow_event_def Let_def upd_cm_def)

lemma not_yet_due:
  assumes "active_imm_events (cm w) = 0" "cycle_count (cm w) < next_event_cycle (cm w)"
  shows "cm_check_events h w = Some (False, w)"
proof -
  have "upd_cm (\<lambda>c. c\<lparr>active_imm_events := 0\<rparr>) w = w"
    using assms(1) by (cases w; cases "cm w") (simp add: upd_cm_def)
  then have "run_imm_events h w = Some w" using assms(1) by (simp add: run_imm_events_def bit_scan.simps)
  then show ?thesis using assms(2) by (simp add: cm_check_events_def)
qed

text \<open>
  C19: rebasing the clock keeps every event's time, but not always its turn. Take any batch that drains due
  events with the clock past \<open>0x7FFFFFFF\<close>. It ends with the clock at 0 and every event still active due
  exactly as many cycles from now as it was before the clock was moved. If the closing scan found the next
  event not before the clock, the scheduler invariant holds again. Otherwise (a handler has rescheduled
  itself into the batch, and the scan never raises \<open>next_event_cycle\<close>) subtracting the clock wraps it
  around: from then on no timed event is served, however overdue, until something schedules a new one or
  the counter reaches \<open>2 ^ 32\<close> less the cycles by which \<open>next_event_cycle\<close> had stayed behind.
\<close>

theorem rebase_batch:
  assumes "run_imm_events h s = Some t" "timers_ok t" "cm_inv (cm t)"
    and "next_event_cycle (cm t) \<le> cycle_count (cm t)" "0x7FFFFFFF < cycle_count (cm t)"
  shows "\<exists>u s'. run_due (upd_cm (\<lambda>c. c\<lparr>next_event_cycle := - 1\<rparr>) t) = Some u \<and> cm_check_events h s = Some (True, s')
    \<and> cycle_count (cm s') = 0
    \<and> (\<forall>e d. due_of (cm u) e = Some d \<longrightarrow> unat (cycle_count (cm t)) \<le> d)
    \<and> (\<forall>e. due_of (cm s') e = map_option (\<lambda>d. d - unat (cycle_count (cm t))) (due_of (cm u) e))
    \<and> (let now = cycle_count (cm t); nxt = next_event_cycle (recompute_next (cm u))
       in if now \<le> nxt then cm_inv (cm s')
          else unat (next_event_cycle (cm s')) = 2 ^ 32 - (unat now - unat nxt)
            \<and> (\<forall>w. active_imm_events (cm w) = 0 \<and> next_event_cycle (cm w) = next_event_cycle (cm s')
                  \<and> cycle_count (cm w) < next_event_cycle (cm w) \<longrightarrow> cm_check_events h w = Some (False, w)))"
proof -
  let ?t = "upd_cm (\<lambda>c. c\<lparr>next_event_cycle := - 1\<rparr>) t"
  have t: "timers_ok ?t" "slots_ok (cm ?t)" "none_before 0 (cm ?t)"
    using assms(2,3) by (auto simp: timers_ok_def upd_cm_def slots_ok_def cm_inv_def none_before_def)
  obtain u where u: "run_due ?t = Some u" "slots_ok (cm u)" "cycle_count (cm u) = cycle_count (cm t)"
      "\<And>j. \<not> due_event (cm u) j"
    using run_due_returns [OF t] by (auto simp: upd_cm_def)
  let ?c = "recompute_next (cm u)" and ?now = "cycle_count (cm t)"
  let ?s' = "cm_on_overflow_event (upd_cm recompute_next u)"
  have c: "cycle_count ?c = ?now" "active_events ?c = active_events (cm u)" "events ?c = events (cm u)"
    using u(3) by (simp_all add: recompute_next_def)
  have cm': "cm ?s' = rebase ?c" by (simp add: cm_overflow upd_cm_def)
  have ch: "cm_check_events h s = Some (True, ?s')"
    using assms(1,4,5) u(1) c(1) by (simp add: cm_check_events_def Let_def upd_cm_def not_less [symmetric])
  have later: "?now \<le> events (cm u) i" if "active_at (active_events (cm u)) i" for i
  proof -
    have "events (cm u) i = - 1" if "\<not> events (cm u) i < - 1"
      using that word_n1_ge [of "events (cm u) i"] by simp
    then show ?thesis using u(3) u(4) [of i] \<open>active_at _ i\<close> word_n1_ge [of ?now] by (auto simp: due_event_def)
  qed
  have same: "due_of ?c e = due_of (cm u) e" for e using c by (simp add: due_of_def)
  have "due_of (cm ?s') e = map_option (\<lambda>d. d - unat ?now) (due_of (cm u) e)" for e
    unfolding cm' using rebase_due_of [of ?c e] later c by (simp add: same)
  moreover have "unat ?now \<le> d" if "due_of (cm u) e = Some d" for e d
    using that later by (auto simp: due_of_def word_le_nat_alt split: if_splits)
  moreover have "cycle_count (cm ?s') = 0" by (simp add: cm' rebase_def)
  moreover have "cm_inv (cm ?s')" if "?now \<le> next_event_cycle ?c"
    unfolding cm' using that u(2) c(1) by (intro rebase_keeps_inv cm_inv_recompute_next) (auto simp: slots_ok_def)
  moreover have "unat (next_event_cycle (cm ?s')) = 2 ^ 32 - (unat ?now - unat (next_event_cycle ?c))"
    if "\<not> ?now \<le> next_event_cycle ?c"
  proof -
    have "next_event_cycle (cm ?s') = next_event_cycle ?c - ?now" by (simp add: cm' rebase_def c(1))
    then show ?thesis
      using that unsigned_less [of ?now] by (simp add: unat_sub_if_size word_size word_le_nat_alt)
  qed
  ultimately show ?thesis using u(1) ch not_yet_due unfolding Let_def by (intro exI [of _ u] exI [of _ ?s']) auto
qed

text \<open>A clock at \<open>2 ^ 31\<close> and an audio event 600 cycles late, whose handler reschedules it once into the
  same batch.\<close>

definition late_sample :: emu where
  "late_sample = emu_new\<lparr>cm := cm_new\<lparr>cycle_count := 0x80000000, events := (\<lambda>_. 0)(6 := 0x80000000 - 600),
     active_events := push_bit 25 1, next_event_cycle := 0x80000000 - 600\<rparr>\<rparr>"

lemma late_sample_drained:
  assumes "run_due (upd_cm (\<lambda>c. c\<lparr>next_event_cycle := - 1\<rparr>) late_sample) = Some u"
  shows "only_sample 0x80000000 (0x80000000 + 424) (0x80000000 - 88) (cm u)"
    and "next_event_cycle (recompute_next (cm u)) = 0x80000000 - 88"
proof -
  have act: "active_at (push_bit 25 1) j \<longleftrightarrow> j = 6" for j
    using active_at_or [of 6 0 j] by (simp add: active_at_def)
  let ?t = "upd_cm (\<lambda>c. c\<lparr>next_event_cycle := - 1\<rparr>) late_sample"
  have "only_sample 0x80000000 (0x80000000 - 600) (- 1) (cm ?t)"
    by (simp add: only_sample_def late_sample_def upd_cm_def act del: push_bit_of_1)
  then obtain s1 where s1: "run_due ?t = run_due s1" "only_sample 0x80000000 (0x80000000 - 88) (0x80000000 - 88) (cm s1)"
    using run_due_sample(2) [of "0x80000000" "0x80000000 - 600" "- 1" ?t] by (auto simp: saturating_add_def min_def word_le_nat_alt word_less_nat_alt)
  then obtain s2 where s2: "run_due s1 = run_due s2" "only_sample 0x80000000 (0x80000000 + 424) (0x80000000 - 88) (cm s2)"
    using run_due_sample(2) [of "0x80000000" "0x80000000 - 88" "0x80000000 - 88" s1] by (auto simp: saturating_add_def min_def)
  have "run_due ?t = Some s2" using run_due_sample(1) [OF s2(2)] s1(1) s2(1) by simp
  then show u: "only_sample 0x80000000 (0x80000000 + 424) (0x80000000 - 88) (cm u)" using s2(2) assms by simp
  have "set (bit_scan (active_events (cm u)) 0) = {6}" using u by (simp add: only_sample_def)
  moreover have "fold (lower_next (cm u)) xs (0x80000000 - 88) = 0x80000000 - 88" if "set xs \<subseteq> {6}" for xs
    using that u by (induction xs) (auto simp: lower_next_def only_sample_def)
  ultimately show "next_event_cycle (recompute_next (cm u)) = 0x80000000 - 88"
    using u by (simp add: recompute_next_def only_sample_def)
qed

text \<open>After the rebase the audio event is due in 424 cycles and still not served after a million.\<close>

theorem rebase_batch_witness:
  "\<forall>h. \<exists>s'. cm_check_events h late_sample = Some (True, s') \<and> due_of (cm s') ApuSample = Some 424
     \<and> (let w = upd_cm (\<lambda>c. c\<lparr>cycle_count := 1000000, active_imm_events := 0\<rparr>) s'
        in due_event (cm w) (event_index ApuSample) \<and> cm_check_events h w = Some (False, w))"
proof
  fix h
  have act: "active_at (push_bit 25 1) j \<longleftrightarrow> j = 6" for j
    using active_at_or [of 6 0 j] by (simp add: active_at_def)
  have c: "only_sample 0x80000000 (0x80000000 - 600) (0x80000000 - 600) (cm late_sample)"
    by (simp add: only_sample_def late_sample_def act del: push_bit_of_1)
  then have inv: "cm_inv (cm late_sample)" by (auto simp: cm_inv_def only_sample_def LAST_EVENT_def)
  have imm: "run_imm_events h late_sample = Some late_sample"
    by (simp add: run_imm_events_def late_sample_def cm_new_def bit_scan.simps upd_cm_def)
  have tm: "timers_ok late_sample" by (simp add: timers_ok_def late_sample_def emu_new_def timer_default_def)
  have late: "next_event_cycle (cm late_sample) \<le> cycle_count (cm late_sample)" "0x7FFFFFFF < cycle_count (cm late_sample)"
      "cycle_count (cm late_sample) = 0x80000000"
    using c by (simp_all add: only_sample_def)
  obtain u s' where r: "run_due (upd_cm (\<lambda>c. c\<lparr>next_event_cycle := - 1\<rparr>) late_sample) = Some u"
      "cm_check_events h late_sample = Some (True, s')"
      "\<forall>e. due_of (cm s') e = map_option (\<lambda>d. d - unat (0x80000000 :: u32)) (due_of (cm u) e)"
      "if 0x80000000 \<le> next_event_cycle (recompute_next (cm u)) then cm_inv (cm s')
       else unat (next_event_cycle (cm s')) = 2 ^ 32 - (unat (0x80000000 :: u32) - unat (next_event_cycle (recompute_next (cm u))))
         \<and> (\<forall>w. active_imm_events (cm w) = 0 \<and> next_event_cycle (cm w) = next_event_cycle (cm s')
               \<and> cycle_count (cm w) < next_event_cycle (cm w) \<longrightarrow> cm_check_events h w = Some (False, w))"
    using rebase_batch [OF imm tm inv late(1,2)] unfolding late(3) Let_def by blast
  note u = late_sample_drained [OF r(1)]
  have d: "due_of (cm u) ApuSample = Some (0x80000000 + 424)" using u(1) by (simp add: only_sample_def due_of_def)
  have n: "unat (next_event_cycle (cm s')) = 2 ^ 32 - 88"
    and idle: "\<forall>w. active_imm_events (cm w) = 0 \<and> next_event_cycle (cm w) = next_event_cycle (cm s')
       \<and> cycle_count (cm w) < next_event_cycle (cm w) \<longrightarrow> cm_check_events h w = Some (False, w)"
    using r(4) unfolding u(2) by auto
  let ?w = "upd_cm (\<lambda>c. c\<lparr>cycle_count := 1000000, active_imm_events := 0\<rparr>) s'"
  have "cm_check_events h ?w = Some (False, ?w)"
    using n idle by (simp add: upd_cm_def word_less_nat_alt)
  moreover have "due_event (cm ?w) (event_index ApuSample)"
  proof -
    have "due_of (cm s') ApuSample = Some 424" using r(3) d by simp
    then have "active_at (active_events (cm s')) 6" "unat (events (cm s') 6) = 424" by (simp_all add: due_of_def split: if_splits)
    then show ?thesis by (simp add: due_event_def upd_cm_def word_le_nat_alt word_less_nat_alt)
  qed
  ultimately show "\<exists>s'. cm_check_events h late_sample = Some (True, s') \<and> due_of (cm s') ApuSample = Some 424
     \<and> (let w = upd_cm (\<lambda>c. c\<lparr>cycle_count := 1000000, active_imm_events := 0\<rparr>) s'
        in due_event (cm w) (event_index ApuSample) \<and> cm_check_events h w = Some (False, w))"
    using r(2,3) d by (intro exI [of _ s']) (simp add: Let_def)
qed

end
