(* ===== verification/System.thy ===== *)
theory System
  imports Events
begin

text \<open>
  The whole machine: \<open>Emu::reset\<close> and \<open>savestate_post_load\<close> of \<open>src/src/core/emu.rs\<close>,
  \<open>cartridge_load_rom_into_shm\<close> of \<open>src/src/core/memory/cartridge.rs\<close>, and from \<open>src/src/lib.rs\<close> the boot
  sequence of \<open>run_cpu\<close> and one iteration of \<open>execute_jit\<close>. The compiled code is a parameter of
  \<open>execute_jit_step\<close>: a function from the state to the cycles it used and the new state. The ROM file
  and the save file are arguments; the abort handler and the optional savestate file of \<open>run_cpu\<close>
  are host actions and are left out.
\<close>

section \<open>Reset and boot\<close>

text \<open>\<open>Emu::reset\<close>; \<open>initialized\<close> is the flag of the struct of that name.\<close>

definition emu_reset :: "bool \<Rightarrow> emu \<Rightarrow> emu" where
  "emu_reset initialized s =
     (let s = s\<lparr>jit := jit_init\<rparr>
      in if initialized then s
         else s\<lparr>regs := thread_regs_default,
                gpus := (gpus s)\<lparr>disp_stat := 0, disp_cnt := 0, green_swap := 0, v_count := 0, ppu := ppu_regs_new\<rparr>,
                cm := cm_new, cpu := cpu_regs_new,
                mem := (mem s)\<lparr>shm := (\<lambda>_. 0), gpu_mem_dirty := 0xF\<rparr>,
                apus := apu_new, rtcs := rtc_new, dmas := (\<lambda>_. dma_default), tmrs := (\<lambda>_. timer_default)\<rparr>)"

definition ROM_SIZE :: nat where "ROM_SIZE = 32 * 1024 * 1024"

text \<open>\<open>cartridge_load_rom_into_shm\<close>: \<open>rom\<close> is the content of the file; reading fewer than \<open>size\<close> bytes
  panics (\<open>read_exact\<close>).\<close>

definition cartridge_load_rom_into_shm :: "u8 list \<Rightarrow> u8 list option \<Rightarrow> emu \<Rightarrow> emu option" where
  "cartridge_load_rom_into_shm rom save_file s =
     (let n = min (unat (rom_len (cart s))) ROM_SIZE
      in if length rom < n then None
         else (let s = upd_shm (\<lambda>m k. if P_ROM_OFFSET \<le> k \<and> k < P_ROM_OFFSET + n then rom ! (k - P_ROM_OFFSET) else m k) s
               in Some (s\<lparr>cart := detect_and_load_save (take n rom) save_file (cart s)\<rparr>)))"

definition boot_regs :: "thread_regs \<Rightarrow> thread_regs" where
  "boot_regs r =
     r\<lparr>user := (user r)\<lparr>u_sp := 0x03007F00, u_lr := 0x08000000\<rparr>,
       irq := (irq r)\<lparr>m_sp := 0x03007FA0\<rparr>, svc := (svc r)\<lparr>m_sp := 0x03007FE0\<rparr>,
       gp_regs := (gp_regs r)(12 := 0x08000000), reg_pc := 0x08000000\<rparr>"

text \<open>\<open>run_cpu\<close> up to the start of execution.\<close>

definition run_cpu_boot :: "bool \<Rightarrow> u8 list \<Rightarrow> u8 list option \<Rightarrow> emu \<Rightarrow> emu option" where
  "run_cpu_boot initialized rom save_file s =
     do { s \<leftarrow> cartridge_load_rom_into_shm rom save_file (emu_reset initialized s);
          let s = mmu_update_all s;
          let s = thread_set_cpsr 0x1F False (upd_regs boot_regs s);
          s \<leftarrow> mem_write 1 0x4000300 0x01 s;
          s \<leftarrow> mem_write 2 0x4000088 0x0200 s;
          Some (apu_initialize_schedule (upd_cm gpu_initialize_schedule s)) }"

section \<open>After a savestate load (emu.rs)\<close>

definition savestate_post_load :: "emu \<Rightarrow> emu" where
  "savestate_post_load s =
     (let s = mmu_update_all s;
          s = (if has_rtc (cart s) then mmu_unmap_rom_head s else s);
          s = s\<lparr>cart := cartridge_savestate_post_load (cart s)\<rparr>;
          s = upd_mem (\<lambda>m. m\<lparr>gpu_mem_dirty := DIRTY_BG OR DIRTY_OBJ OR DIRTY_PAL OR DIRTY_OAM\<rparr>) s
      in s\<lparr>jit := jit_init\<rparr>)"

section \<open>The main loop (lib.rs)\<close>

text \<open>One iteration of \<open>execute_jit\<close>; the flag is \<open>runtime_data.is_idle_loop()\<close>.\<close>

definition execute_jit_step ::
  "(bool \<Rightarrow> emu \<Rightarrow> (u16 \<times> bool \<times> emu) option) \<Rightarrow> host_math \<Rightarrow> bool \<Rightarrow> emu \<Rightarrow> (bool \<times> emu) option" where
  "execute_jit_step execute h idle s =
     do { (cycles, idle, s) \<leftarrow> (if \<not> cpu_is_halted s \<and> \<not> idle then execute idle s else Some (0, idle, s));
          let s = upd_cm (if cycles = 0 then jump_to_next_event else add_cycles cycles) s;
          (dispatched, s) \<leftarrow> cm_check_events h s;
          (idle, s) \<leftarrow> (if dispatched then map_option (\<lambda>(_, s). (False, s)) (cm_check_events h s) else Some (idle, s));
          Some (idle, s\<lparr>breakout_imm := False\<rparr>) }"

section \<open>The clock chip at boot\<close>

text \<open>The three GPIO registers lie in the first page of the ROM.\<close>

definition gpio_addrs :: "u32 set" where
  "gpio_addrs = {0x080000C4, 0x080000C6, 0x080000C8}"

lemma gpio_addr_facts:
  assumes "a \<in> gpio_addrs"
  shows "align_addr 2 a = a" "unat a div 4096 = 0x8000" "gpio_window a" "drop_bit 24 a AND 0xF = 8"
    "unat a mod 4096 = unat (a AND 0x01FFFFFF)"
  using assms by (auto simp: gpio_addrs_def align_addr_def gpio_window_def)

lemma rom_head_entries:
  assumes "0 < rom_len (cart s)"
  shows "mmu_read (mem (mmu_update_all s)) 0x8000 = P_ROM_OFFSET" "mmu_write (mem (mmu_update_all s)) 0x8000 = 0"
  using assms by (simp_all add: mmu_update_all_entries page_read_entry_def page_write_entry_def Let_def)

lemma mem_read_gpio_fast:
  assumes "a \<in> gpio_addrs" "mmu_read (mem t) 0x8000 = P_ROM_OFFSET"
  shows "mem_read 2 a t = (read_mem 2 (shm (mem t)) (P_ROM_OFFSET + unat (a AND 0x01FFFFFF)), t)"
  using gpio_addr_facts [OF assms(1)] assms(2)
  by (simp add: mem_read_def get_shm_offset_def P_ROM_OFFSET_def P_OAM_OFFSET_def Let_def)

lemma mem_read_gpio_slow:
  assumes "a \<in> gpio_addrs" "mmu_read (mem t) 0x8000 = 0" "has_rtc (cart t)"
  shows "mem_read 2 a t = (ucast (cartridge_read_gpio a t), t)"
proof -
  have "trunc_size 2 (ucast w) = (ucast w :: u32)" for w :: u16
    by (rule bit_word_eqI) (use bit_imp_le_length [of w] in \<open>auto simp: trunc_size_bit bit_ucast_iff\<close>)
  then show ?thesis
    using gpio_addr_facts [OF assms(1)] assms(2,3)
    by (simp add: mem_read_def get_shm_offset_def Let_def io_read_def read_rom_def is_gpio_addr_def)
qed

lemma mem_write_gpio:
  assumes "a \<in> gpio_addrs" "mmu_write (mem t) 0x8000 = 0" "has_rtc (cart t)" "mem_write 2 a v t = Some u"
  shows "\<exists>r. u = t\<lparr>rtcs := r\<rparr>"
proof -
  have "cartridge_write_gpio a (ucast v) t = Some u"
    using gpio_addr_facts [OF assms(1)] assms(2-4)
    by (simp add: mem_write_def get_shm_offset_def Let_def io_write_def write_rom_def cartridge_auto_enable_rtc_def)
  then show ?thesis
    by (auto simp: cartridge_write_gpio_def Let_def split: if_splits intro: exI [of _ "rtcs t"])
qed

text \<open>
  C25: a cartridge recognised as having a clock cannot read it after a normal boot. The boot maps the
  first ROM page for direct reads and does not take it out again, and a write to the GPIO port does
  not either, because the clock counts as already enabled; so every read of the port returns the ROM
  bytes, while the port's own handler would serve the clock. The fix-up after a savestate load does
  unmap the page, and there the same read returns the GPIO register.
\<close>

theorem boot_hides_clock:
  assumes "cartridge_load_rom_into_shm rom save_file s = Some s1"
    and "find_string (take (min (unat (rom_len (cart s))) ROM_SIZE) rom) (ascii ''SIIRTC_V'')"
    and "0 < rom_len (cart s)" "a \<in> gpio_addrs"
  defines "t \<equiv> mmu_update_all s1"
  shows "is_gpio_addr a t
    \<and> mem_read 2 a t = (read_mem 2 (shm (mem t)) (P_ROM_OFFSET + unat (a AND 0x01FFFFFF)), t)
    \<and> (\<forall>v u. mem_write 2 a v t = Some u \<longrightarrow>
          mem_read 2 a u = (read_mem 2 (shm (mem t)) (P_ROM_OFFSET + unat (a AND 0x01FFFFFF)), u))
    \<and> (let p = savestate_post_load t in mem_read 2 a p = (ucast (cartridge_read_gpio a p), p))"
proof -
  have s1: "has_rtc (cart s1)" "rom_len (cart s1) = rom_len (cart s)"
    using assms(1,2) by (auto simp: cartridge_load_rom_into_shm_def Let_def detect_and_load_save_def split: if_splits)
  have t: "has_rtc (cart t)" "mmu_read (mem t) 0x8000 = P_ROM_OFFSET" "mmu_write (mem t) 0x8000 = 0"
    using s1 rom_head_entries [of s1] assms(3) by (simp_all add: t_def mmu_update_all_entries)
  have "mem_read 2 a u = (read_mem 2 (shm (mem t)) (P_ROM_OFFSET + unat (a AND 0x01FFFFFF)), u)"
    if "mem_write 2 a v t = Some u" for v u
    using mem_write_gpio [OF assms(4) t(3,1) that] mem_read_gpio_fast [OF assms(4), of u] t(2) by auto
  moreover have "mem_read 2 a (savestate_post_load t) = (ucast (cartridge_read_gpio a (savestate_post_load t)), savestate_post_load t)"
  proof (rule mem_read_gpio_slow [OF assms(4)])
    show "has_rtc (cart (savestate_post_load t))"
      using t(1) by (simp add: savestate_post_load_def Let_def upd_mem_def mmu_update_all_entries
          cartridge_savestate_post_load_def resize_save_buf_def)
    show "mmu_read (mem (savestate_post_load t)) 0x8000 = 0"
      using t(1) by (simp add: savestate_post_load_def Let_def upd_mem_def mmu_update_all_entries)
        (simp add: mmu_unmap_rom_head_read [unfolded upd_mem_def])
  qed
  ultimately show ?thesis
    using t(1) gpio_addr_facts(3) [OF assms(4)] mem_read_gpio_fast [OF assms(4) t(2)]
    by (simp add: is_gpio_addr_def Let_def)
qed

definition clock_rom :: "u8 list" where
  "clock_rom = ascii ''SIIRTC_V'' @ replicate 16 0"

theorem boot_hides_clock_witness:
  "\<exists>s1. cartridge_load_rom_into_shm clock_rom None (emu_new\<lparr>cart := cartridge_new\<lparr>rom_len := 24\<rparr>\<rparr>) = Some s1
     \<and> is_gpio_addr 0x080000C4 (mmu_update_all s1)
     \<and> mem_read 2 0x080000C4 (mmu_update_all s1) = (read_mem 2 (shm (mem s1)) (P_ROM_OFFSET + 0xC4), mmu_update_all s1)"
proof -
  let ?s = "emu_new\<lparr>cart := cartridge_new\<lparr>rom_len := 24\<rparr>\<rparr>"
  have len: "length clock_rom = 24" by (simp add: clock_rom_def ascii_def)
  then obtain s1 where s1: "cartridge_load_rom_into_shm clock_rom None ?s = Some s1"
    by (auto simp: cartridge_load_rom_into_shm_def Let_def)
  have "take (min (unat (rom_len (cart ?s))) ROM_SIZE) clock_rom = clock_rom" using len by (simp add: ROM_SIZE_def)
  moreover have "find_string clock_rom (ascii ''SIIRTC_V'')" by code_simp
  ultimately have f: "find_string (take (min (unat (rom_len (cart ?s))) ROM_SIZE) clock_rom) (ascii ''SIIRTC_V'')" by simp
  have "shm (mem (mmu_update_all s1)) = shm (mem s1)" by (simp add: mmu_update_all_def upd_mem_def)
  then show ?thesis
    using boot_hides_clock [OF s1 f, of "0x080000C4"] s1 by (simp add: gpio_addrs_def)
qed

end
