(* ===== verification/InterpAlu.thy ===== *)
theory InterpAlu
  imports Bios
begin

text \<open>
  The data-processing half of the ARM interpreter: the execution context of
  \<open>src/src/jit/interpreter/mod.rs\<close> and the handlers of \<open>src/src/jit/interpreter/alu.rs\<close> and
  \<open>src/src/jit/interpreter/branch.rs\<close>. A handler takes the address of the instruction and the opcode;
  \<open>Ctx::reg\<close> and the other accessors of the context become functions of the state. The const generic
  \<open>SHIFT\<close> of the source is the datatype \<open>shift_form\<close>.

  The theorems: arithmetic and its flags are those of unbounded addition with carry, the shifter
  operand is the one of a reference definition on integers, and the long multiplications are exact
  modulo \<open>2^64\<close>.
\<close>

section \<open>Execution context (mod.rs)\<close>

datatype inst_result =
  Continue u16 | ContinueStore u16 | Branch u16 u32 | BranchLink u16 u32 u32 | BranchReturn u16 u32

definition N_BIT :: u32 where "N_BIT = push_bit 31 1"
definition Z_BIT :: u32 where "Z_BIT = push_bit 30 1"
definition C_BIT :: u32 where "C_BIT = push_bit 29 1"
definition V_BIT :: u32 where "V_BIT = push_bit 28 1"
definition T_BIT :: u32 where "T_BIT = push_bit 5 1"

definition ctx_reg :: "u32 \<Rightarrow> u32 \<Rightarrow> emu \<Rightarrow> u32" where
  "ctx_reg ia i s = (if i = 15 then ia + 8 else reg (unat i) s)"

definition ctx_reg_t :: "u32 \<Rightarrow> u32 \<Rightarrow> emu \<Rightarrow> u32" where
  "ctx_reg_t ia i s = (if i = 15 then ia + 4 else reg (unat i) s)"

definition ctx_set_reg :: "u32 \<Rightarrow> u32 \<Rightarrow> emu \<Rightarrow> emu" where
  "ctx_set_reg i v s = upd_reg (unat i) v s"

definition ctx_cpsr :: "emu \<Rightarrow> u32" where
  "ctx_cpsr s = cpsr (regs s)"

definition ctx_set_cpsr :: "u32 \<Rightarrow> emu \<Rightarrow> emu" where
  "ctx_set_cpsr v s = upd_regs (\<lambda>r. r\<lparr>cpsr := v\<rparr>) s"

definition ctx_carry :: "emu \<Rightarrow> u32" where
  "ctx_carry s = of_bool (ctx_cpsr s AND C_BIT \<noteq> 0)"

text \<open>The register fields of an ARM opcode.\<close>

definition arm_rn :: "u32 \<Rightarrow> u32" where "arm_rn opcode = drop_bit 16 opcode AND 0xF"
definition arm_rd :: "u32 \<Rightarrow> u32" where "arm_rd opcode = drop_bit 12 opcode AND 0xF"
definition arm_rs :: "u32 \<Rightarrow> u32" where "arm_rs opcode = drop_bit 8 opcode AND 0xF"
definition arm_rm :: "u32 \<Rightarrow> u32" where "arm_rm opcode = opcode AND 0xF"

section \<open>Flags (alu.rs)\<close>

text \<open>The masking and setting shared by the four arithmetic flag functions.\<close>

definition set_nzcv :: "u32 \<Rightarrow> bool \<Rightarrow> bool \<Rightarrow> emu \<Rightarrow> emu" where
  "set_nzcv result carry overflow s =
     (let c = ctx_cpsr s AND NOT (N_BIT OR Z_BIT OR C_BIT OR V_BIT);
          c = c OR (result AND N_BIT);
          c = (if result = 0 then c OR Z_BIT else c);
          c = c OR push_bit 29 (of_bool carry);
          c = c OR push_bit 28 (of_bool overflow)
      in ctx_set_cpsr c s)"

definition set_nz :: "u32 \<Rightarrow> emu \<Rightarrow> emu" where
  "set_nz result s =
     (let c = ctx_cpsr s AND NOT (N_BIT OR Z_BIT);
          c = c OR (result AND N_BIT);
          c = (if result = 0 then c OR Z_BIT else c)
      in ctx_set_cpsr c s)"

definition set_nz_64 :: "u64 \<Rightarrow> emu \<Rightarrow> emu" where
  "set_nz_64 result s =
     (let c = ctx_cpsr s AND NOT (N_BIT OR Z_BIT);
          c = c OR (ucast (drop_bit 32 result) AND N_BIT);
          c = (if result = 0 then c OR Z_BIT else c)
      in ctx_set_cpsr c s)"

definition add_flags :: "u32 \<Rightarrow> u32 \<Rightarrow> u32 \<Rightarrow> emu \<Rightarrow> emu" where
  "add_flags a b result s =
     set_nzcv result (0xFFFFFFFF < (ucast a :: u64) + ucast b) (NOT (a XOR b) AND (a XOR result) AND N_BIT \<noteq> 0) s"

definition adc_flags :: "u32 \<Rightarrow> u32 \<Rightarrow> u64 \<Rightarrow> u32 \<Rightarrow> emu \<Rightarrow> emu" where
  "adc_flags a b carry_in result s =
     set_nzcv result (0xFFFFFFFF < (ucast a :: u64) + ucast b + carry_in)
       (NOT (a XOR b) AND (a XOR result) AND N_BIT \<noteq> 0) s"

definition sub_flags :: "u32 \<Rightarrow> u32 \<Rightarrow> u32 \<Rightarrow> emu \<Rightarrow> emu" where
  "sub_flags a b result s = set_nzcv result (a \<ge> b) ((a XOR b) AND (a XOR result) AND N_BIT \<noteq> 0) s"

definition sbc_flags :: "u32 \<Rightarrow> u32 \<Rightarrow> u64 \<Rightarrow> u32 \<Rightarrow> emu \<Rightarrow> emu" where
  "sbc_flags a b carry_in result s =
     set_nzcv result ((ucast a :: u64) \<ge> ucast b + (1 - carry_in)) ((a XOR b) AND (a XOR result) AND N_BIT \<noteq> 0) s"

section \<open>Shifter operand and write back (alu.rs)\<close>

datatype shift_form = Lli | Llr | Lri | Lrr | Ari | Arr | Rri | Rrr | Imm

fun by_reg :: "shift_form \<Rightarrow> bool" where
  "by_reg Llr = True"
| "by_reg Lrr = True"
| "by_reg Arr = True"
| "by_reg Rrr = True"
| "by_reg _ = False"

definition alu_rn :: "u32 \<Rightarrow> u32 \<Rightarrow> bool \<Rightarrow> emu \<Rightarrow> u32" where
  "alu_rn ia opcode r s = ctx_reg ia (arm_rn opcode) s + (if r \<and> arm_rn opcode = 15 then 4 else 0)"

text \<open>The match of \<open>alu_shift\<close>: the result and \<open>carry_out\<close>. Shift amounts below 32 are all the source
  passes to \<open><<\<close> and \<open>>>\<close>.\<close>

definition shift_lsl :: "u32 \<Rightarrow> u32 \<Rightarrow> u32 \<Rightarrow> u32 \<times> u32" where
  "shift_lsl v amount old_carry =
     (if amount = 0 then (v, old_carry)
      else if amount < 32 then (push_bit (unat amount) v, drop_bit (32 - unat amount) v AND 1)
      else if amount = 32 then (0, v AND 1)
      else (0, 0))"

definition shift_lsr :: "bool \<Rightarrow> u32 \<Rightarrow> u32 \<Rightarrow> u32 \<Rightarrow> u32 \<times> u32" where
  "shift_lsr r v amount old_carry =
     (let amount = (if \<not> r \<and> amount = 0 then 32 else amount)
      in if amount = 0 then (v, old_carry)
         else if amount < 32 then (drop_bit (unat amount) v, drop_bit (unat amount - 1) v AND 1)
         else if amount = 32 then (0, drop_bit 31 v AND 1)
         else (0, 0))"

definition shift_asr :: "bool \<Rightarrow> u32 \<Rightarrow> u32 \<Rightarrow> u32 \<Rightarrow> u32 \<times> u32" where
  "shift_asr r v amount old_carry =
     (let amount = (if \<not> r \<and> amount = 0 then 32 else amount)
      in if amount = 0 then (v, old_carry)
         else if amount < 32 then (signed_drop_bit (unat amount) v, drop_bit (unat amount - 1) v AND 1)
         else (signed_drop_bit 31 v, drop_bit 31 v AND 1))"

definition shift_ror :: "bool \<Rightarrow> u32 \<Rightarrow> u32 \<Rightarrow> u32 \<Rightarrow> u32 \<times> u32" where
  "shift_ror r v amount old_carry =
     (if \<not> r \<and> amount = 0 then (push_bit 31 old_carry OR drop_bit 1 v, v AND 1)
      else if amount = 0 then (v, old_carry)
      else if amount AND 0x1F = 0 then (v, drop_bit 31 v AND 1)
      else (let rot = unat (amount AND 0x1F)
            in (word_rotr rot v, drop_bit (rot - 1) v AND 1)))"

fun shifter :: "shift_form \<Rightarrow> u32 \<Rightarrow> u32 \<Rightarrow> u32 \<Rightarrow> u32 \<times> u32" where
  "shifter Lli v amount c = shift_lsl v amount c"
| "shifter Llr v amount c = shift_lsl v amount c"
| "shifter Lri v amount c = shift_lsr False v amount c"
| "shifter Lrr v amount c = shift_lsr True v amount c"
| "shifter Ari v amount c = shift_asr False v amount c"
| "shifter Arr v amount c = shift_asr True v amount c"
| "shifter Rri v amount c = shift_ror False v amount c"
| "shifter Rrr v amount c = shift_ror True v amount c"
| "shifter Imm v amount c = (v, c)"

definition set_carry :: "bool \<Rightarrow> u32 \<Rightarrow> emu \<Rightarrow> emu" where
  "set_carry b carry_out s =
     (if b then ctx_set_cpsr ((ctx_cpsr s AND NOT C_BIT) OR push_bit 29 carry_out) s else s)"

definition alu_shift :: "shift_form \<Rightarrow> bool \<Rightarrow> u32 \<Rightarrow> u32 \<Rightarrow> emu \<Rightarrow> u32 \<times> emu" where
  "alu_shift f b ia opcode s =
     (if f = Imm then
        (let v = opcode AND 0xFF; rot = drop_bit 7 opcode AND 0x1E
         in if rot = 0 then (v, s)
            else (let result = word_rotr (unat rot) v
                  in (result, set_carry b (drop_bit 31 result AND 1) s)))
      else
        (let v = ctx_reg ia (arm_rm opcode) s + (if by_reg f \<and> arm_rm opcode = 15 then 4 else 0);
             amount = (if by_reg f then ctx_reg ia (arm_rs opcode) s AND 0xFF else drop_bit 7 opcode AND 0x1F);
             (result, carry_out) = shifter f v amount (ctx_carry s)
         in (result, set_carry b carry_out s)))"

definition alu_finish :: "shift_form \<Rightarrow> bool \<Rightarrow> u32 \<Rightarrow> u32 \<Rightarrow> bool \<Rightarrow> emu \<Rightarrow> inst_result \<times> emu" where
  "alu_finish f is_mov opcode result set_flags s =
     (let rd = arm_rd opcode
      in if rd = 15 then
           (let s = (if set_flags then thread_restore_spsr s else s);
                thumb = (ctx_cpsr s AND T_BIT \<noteq> 0);
                target = (if thumb then (result AND NOT 1) OR 1 else result AND NOT 3)
            in if is_mov \<and> \<not> set_flags \<and> f \<noteq> Imm
                 \<and> (arm_rm opcode = 14 \<or> (by_reg f \<and> arm_rs opcode = 14))
               then (BranchReturn 1 target, s)
               else (Branch 1 target, s))
         else (Continue 1, ctx_set_reg rd result s))"

section \<open>Data processing (alu.rs)\<close>

datatype logical_op = And | Eor | Orr | Bic | Mov | Mvn

fun logical_body :: "logical_op \<Rightarrow> u32 \<Rightarrow> u32 \<Rightarrow> u32" where
  "logical_body And a b = a AND b"
| "logical_body Eor a b = a XOR b"
| "logical_body Orr a b = a OR b"
| "logical_body Bic a b = a AND NOT b"
| "logical_body Mov a b = b"
| "logical_body Mvn a b = NOT b"

definition logical :: "logical_op \<Rightarrow> bool \<Rightarrow> shift_form \<Rightarrow> u32 \<Rightarrow> u32 \<Rightarrow> emu \<Rightarrow> inst_result \<times> emu" where
  "logical p set_flags f ia opcode s =
     (let a = alu_rn ia opcode (by_reg f) s;
          (b, s) = alu_shift f set_flags ia opcode s;
          result = logical_body p a b;
          s = (if set_flags then set_nz result s else s)
      in alu_finish f (p = Mov) opcode result set_flags s)"

definition do_add :: "u32 \<Rightarrow> u32 \<Rightarrow> bool \<Rightarrow> emu \<Rightarrow> u32 \<times> emu" where
  "do_add a b set_flags s = (let r = a + b in (r, if set_flags then add_flags a b r s else s))"

definition do_sub :: "u32 \<Rightarrow> u32 \<Rightarrow> bool \<Rightarrow> emu \<Rightarrow> u32 \<times> emu" where
  "do_sub a b set_flags s = (let r = a - b in (r, if set_flags then sub_flags a b r s else s))"

definition do_rsb :: "u32 \<Rightarrow> u32 \<Rightarrow> bool \<Rightarrow> emu \<Rightarrow> u32 \<times> emu" where
  "do_rsb a b set_flags s = (let r = b - a in (r, if set_flags then sub_flags b a r s else s))"

definition do_adc :: "u32 \<Rightarrow> u32 \<Rightarrow> bool \<Rightarrow> emu \<Rightarrow> u32 \<times> emu" where
  "do_adc a b set_flags s =
     (let c = ctx_carry s; r = a + b + c in (r, if set_flags then adc_flags a b (ucast c) r s else s))"

definition do_sbc :: "u32 \<Rightarrow> u32 \<Rightarrow> bool \<Rightarrow> emu \<Rightarrow> u32 \<times> emu" where
  "do_sbc a b set_flags s =
     (let c = ctx_carry s; r = a - b - (1 - c) in (r, if set_flags then sbc_flags a b (ucast c) r s else s))"

definition do_rsc :: "u32 \<Rightarrow> u32 \<Rightarrow> bool \<Rightarrow> emu \<Rightarrow> u32 \<times> emu" where
  "do_rsc a b set_flags s =
     (let c = ctx_carry s; r = b - a - (1 - c) in (r, if set_flags then sbc_flags b a (ucast c) r s else s))"

datatype arith_op = Add | Sub | Rsb | Adc | Sbc | Rsc

fun arith_compute :: "arith_op \<Rightarrow> u32 \<Rightarrow> u32 \<Rightarrow> bool \<Rightarrow> emu \<Rightarrow> u32 \<times> emu" where
  "arith_compute Add = do_add"
| "arith_compute Sub = do_sub"
| "arith_compute Rsb = do_rsb"
| "arith_compute Adc = do_adc"
| "arith_compute Sbc = do_sbc"
| "arith_compute Rsc = do_rsc"

definition arith :: "arith_op \<Rightarrow> bool \<Rightarrow> shift_form \<Rightarrow> u32 \<Rightarrow> u32 \<Rightarrow> emu \<Rightarrow> inst_result \<times> emu" where
  "arith p set_flags f ia opcode s =
     (let a = alu_rn ia opcode (by_reg f) s;
          (b, s) = alu_shift f False ia opcode s;
          (result, s) = arith_compute p a b set_flags s
      in alu_finish f False opcode result set_flags s)"

definition test_rd15_quirk :: "u32 \<Rightarrow> emu \<Rightarrow> emu" where
  "test_rd15_quirk opcode s = (if opcode AND 0xF000 = 0xF000 then thread_restore_spsr s else s)"

datatype test_op = Tst | Teq | Cmp | Cmn

fun test_body :: "test_op \<Rightarrow> u32 \<Rightarrow> u32 \<Rightarrow> emu \<Rightarrow> emu" where
  "test_body Tst a b s = set_nz (a AND b) s"
| "test_body Teq a b s = set_nz (a XOR b) s"
| "test_body Cmp a b s = sub_flags a b (a - b) s"
| "test_body Cmn a b s = add_flags a b (a + b) s"

definition test :: "test_op \<Rightarrow> shift_form \<Rightarrow> u32 \<Rightarrow> u32 \<Rightarrow> emu \<Rightarrow> inst_result \<times> emu" where
  "test p f ia opcode s =
     (let a = alu_rn ia opcode (by_reg f) s;
          (b, s) = alu_shift f (p = Tst \<or> p = Teq) ia opcode s
      in (Continue 1, test_rd15_quirk opcode (test_body p a b s)))"

section \<open>Multiplication, status registers, count leading zeros (alu.rs)\<close>

definition mul32 :: "bool \<Rightarrow> bool \<Rightarrow> u32 \<Rightarrow> u32 \<Rightarrow> emu \<Rightarrow> inst_result \<times> emu" where
  "mul32 set_flags acc ia opcode s =
     (let rd = arm_rn opcode; rn = arm_rd opcode;
          r = ctx_reg ia (arm_rm opcode) s * ctx_reg ia (arm_rs opcode) s;
          r = (if acc then r + ctx_reg ia rn s else r);
          s = ctx_set_reg rd r s;
          s = (if set_flags then set_nz r s else s)
      in (Continue (if acc then 6 else 5), s))"

definition mul64 :: "bool \<Rightarrow> bool \<Rightarrow> bool \<Rightarrow> u32 \<Rightarrow> u32 \<Rightarrow> emu \<Rightarrow> inst_result \<times> emu" where
  "mul64 set_flags acc is_signed ia opcode s =
     (let rdhi = arm_rn opcode; rdlo = arm_rd opcode;
          rm = ctx_reg ia (arm_rm opcode) s; rs = ctx_reg ia (arm_rs opcode) s;
          r = (if is_signed then (scast rm :: u64) * scast rs else ucast rm * ucast rs);
          r = (if acc then r + (push_bit 32 (ucast (ctx_reg ia rdhi s)) OR ucast (ctx_reg ia rdlo s)) else r);
          s = ctx_set_reg rdlo (ucast r) s;
          s = ctx_set_reg rdhi (ucast (drop_bit 32 r)) s;
          s = (if set_flags then set_nz_64 r s else s)
      in (Continue (if acc then 7 else 6), s))"

definition mrs_rc :: "u32 \<Rightarrow> u32 \<Rightarrow> emu \<Rightarrow> inst_result \<times> emu" where
  "mrs_rc ia opcode s = (Continue 1, ctx_set_reg (arm_rd opcode) (ctx_cpsr s) s)"

definition mrs_rs :: "u32 \<Rightarrow> u32 \<Rightarrow> emu \<Rightarrow> inst_result \<times> emu" where
  "mrs_rs ia opcode s = (Continue 1, ctx_set_reg (arm_rd opcode) (reg 17 s) s)"

definition msr_fields :: "u32 \<Rightarrow> u8" where
  "msr_fields opcode =
     fold (\<lambda>i flags. if opcode AND push_bit (16 + i) 1 \<noteq> 0 then flags OR push_bit i 1 else flags) [0, 1, 2, 3] 0"

definition msr_apply :: "u32 \<Rightarrow> u32 \<Rightarrow> bool \<Rightarrow> emu \<Rightarrow> inst_result \<times> emu" where
  "msr_apply opcode v to_spsr s =
     (let flags = msr_fields opcode
      in (Continue 1, if to_spsr then thread_set_spsr_with_flags v flags s else thread_set_cpsr_with_flags v flags s))"

text \<open>\<open>msr_rc\<close> and \<open>msr_rs\<close> read a register, \<open>msr_ic\<close> and \<open>msr_is\<close> a rotated immediate.\<close>

definition msr_r :: "bool \<Rightarrow> u32 \<Rightarrow> u32 \<Rightarrow> emu \<Rightarrow> inst_result \<times> emu" where
  "msr_r to_spsr ia opcode s = msr_apply opcode (ctx_reg ia (arm_rm opcode) s) to_spsr s"

definition msr_i :: "bool \<Rightarrow> u32 \<Rightarrow> u32 \<Rightarrow> emu \<Rightarrow> inst_result \<times> emu" where
  "msr_i to_spsr ia opcode s =
     msr_apply opcode (word_rotr (unat (drop_bit 7 opcode AND 0x1E)) (opcode AND 0xFF)) to_spsr s"

definition clz :: "u32 \<Rightarrow> u32 \<Rightarrow> emu \<Rightarrow> inst_result \<times> emu" where
  "clz ia opcode s =
     (Continue 1, ctx_set_reg (arm_rd opcode) (of_nat (leading_zeros (ctx_reg ia (arm_rm opcode) s))) s)"

text \<open>The ARMv5 DSP instructions (\<open>qadd\<close>, \<open>smulbb\<close>, \<open>smlabb\<close>, \<open>smulwb\<close>, \<open>smlalbb\<close> and their
  variants) return before their bodies: no-ops that cost one cycle.\<close>

definition dsp_nop :: "u32 \<Rightarrow> u32 \<Rightarrow> emu \<Rightarrow> inst_result \<times> emu" where
  "dsp_nop ia opcode s = (Continue 1, s)"

section \<open>Branches (branch.rs)\<close>

definition branch_offset :: "u32 \<Rightarrow> u32" where
  "branch_offset opcode = signed_drop_bit 6 (push_bit 8 opcode)"

definition b_arm :: "u32 \<Rightarrow> u32 \<Rightarrow> emu \<Rightarrow> inst_result \<times> emu" where
  "b_arm ia opcode s = (Branch 1 ((ctx_reg ia 15 s + branch_offset opcode) AND NOT 3), s)"

definition bl :: "u32 \<Rightarrow> u32 \<Rightarrow> emu \<Rightarrow> inst_result \<times> emu" where
  "bl ia opcode s =
     (BranchLink 1 ((ctx_reg ia 15 s + branch_offset opcode) AND NOT 3) (ia + 4), ctx_set_reg 14 (ia + 4) s)"

definition bx :: "u32 \<Rightarrow> u32 \<Rightarrow> emu \<Rightarrow> inst_result \<times> emu" where
  "bx ia opcode s =
     (let target = ctx_reg ia (arm_rm opcode) s
      in (if arm_rm opcode = 14 then BranchReturn 1 target else Branch 1 target, s))"

definition blx_reg :: "u32 \<Rightarrow> u32 \<Rightarrow> emu \<Rightarrow> inst_result \<times> emu" where
  "blx_reg ia opcode s =
     (let target = ctx_reg ia (arm_rm opcode) s in (BranchLink 1 target (ia + 4), ctx_set_reg 14 (ia + 4) s))"

section \<open>Flags as bits\<close>

lemma ctx_cpsr_set [simp]: "ctx_cpsr (ctx_set_cpsr v s) = v"
  by (simp add: ctx_cpsr_def ctx_set_cpsr_def upd_regs_def)

lemma ctx_set_cpsr_twice [simp]: "ctx_set_cpsr v (ctx_set_cpsr w s) = ctx_set_cpsr v s"
  by (simp add: ctx_set_cpsr_def upd_regs_def)

lemma bit_push_one: "bit (push_bit k 1 :: 'a::len word) j = (j = k \<and> k < LENGTH('a))"
  by (auto simp: push_bit_eq_mult bit_exp_iff possible_bit_word)

lemma bit_flag_consts [simp]:
  "bit N_BIT j = (j = 31)" "bit Z_BIT j = (j = 30)" "bit C_BIT j = (j = 29)" "bit V_BIT j = (j = 28)"
  "bit T_BIT j = (j = 5)"
  by (simp_all only: N_BIT_def Z_BIT_def C_BIT_def V_BIT_def T_BIT_def bit_push_one) auto

lemma and_flag_iff [simp]:
  "(w AND N_BIT = 0) = (\<not> bit w 31)" "(w AND Z_BIT = 0) = (\<not> bit w 30)" "(w AND C_BIT = 0) = (\<not> bit w 29)"
  "(w AND V_BIT = 0) = (\<not> bit w 28)" "(w AND T_BIT = 0) = (\<not> bit w 5)"
  by (simp_all only: N_BIT_def Z_BIT_def C_BIT_def V_BIT_def T_BIT_def and_bit_eq_0_iff)

lemma ctx_carry_bit: "ctx_carry s = of_bool (bit (ctx_cpsr s) 29)"
  by (simp add: ctx_carry_def)

text \<open>A status register with the given condition flags.\<close>

definition with_flags :: "bool \<Rightarrow> bool \<Rightarrow> bool \<Rightarrow> bool \<Rightarrow> u32 \<Rightarrow> u32" where
  "with_flags n z c v w =
     (w AND 0x0FFFFFFF) OR push_bit 31 (of_bool n) OR push_bit 30 (of_bool z) OR push_bit 29 (of_bool c)
       OR push_bit 28 (of_bool v)"

lemma bit_of_bool_word: "bit (of_bool P :: 'a::len word) j = (P \<and> j = 0)"
  by (cases P) (auto simp: bit_1_iff)

lemma bit_push_of_bool: "bit (push_bit k (of_bool P :: 'a::len word)) j = (P \<and> j = k \<and> k < LENGTH('a))"
  by (auto simp: bit_push_bit_iff bit_of_bool_word)

lemma bit_low28: "bit (0x0FFFFFFF :: u32) j = (j < 28)"
proof -
  have "bit (mask 28 :: u32) j = (j < 28)" by (simp only: bit_mask_iff) auto
  then show ?thesis by (simp add: mask_eq_exp_minus_1)
qed

lemma bit_with_flags:
  "j < 32 \<Longrightarrow> bit (with_flags n z c v w) j =
     (if j = 31 then n else if j = 30 then z else if j = 29 then c else if j = 28 then v else bit w j)"
  by (simp only: with_flags_def bit_or_iff bit_and_iff bit_push_of_bool bit_low28) auto

lemma set_nzcv_eq:
  "set_nzcv r c v s = ctx_set_cpsr (with_flags (bit r 31) (r = 0) c v (ctx_cpsr s)) s"
proof -
  have "ctx_cpsr (set_nzcv r c v s) = with_flags (bit r 31) (r = 0) c v (ctx_cpsr s)"
    by (rule bit_word_eqI)
      (auto simp: set_nzcv_def Let_def bit_with_flags bit_or_iff bit_and_iff bit_not_iff bit_push_of_bool)
  then show ?thesis by (simp add: set_nzcv_def Let_def)
qed

lemma set_nz_eq:
  "set_nz r s = ctx_set_cpsr (with_flags (bit r 31) (r = 0) (bit (ctx_cpsr s) 29) (bit (ctx_cpsr s) 28) (ctx_cpsr s)) s"
proof -
  have "ctx_cpsr (set_nz r s) = with_flags (bit r 31) (r = 0) (bit (ctx_cpsr s) 29) (bit (ctx_cpsr s) 28) (ctx_cpsr s)"
    by (rule bit_word_eqI)
      (auto simp: set_nz_def Let_def bit_with_flags bit_or_iff bit_and_iff bit_not_iff)
  then show ?thesis by (simp add: set_nz_def Let_def)
qed

section \<open>Arithmetic\<close>

text \<open>Addition with carry on unbounded integers: the result is the sum modulo \<open>2^32\<close>, the carry says
  that the unsigned sum does not fit, the overflow that the signed sum does not fit.\<close>

definition add_with_carry :: "u32 \<Rightarrow> u32 \<Rightarrow> bool \<Rightarrow> u32 \<times> bool \<times> bool" where
  "add_with_carry x y cin =
     (let unsigned_sum = uint x + uint y + of_bool cin; signed_sum = sint x + sint y + of_bool cin;
          result = word_of_int unsigned_sum
      in (result, uint result \<noteq> unsigned_sum, sint result \<noteq> signed_sum))"

fun arith_operands :: "arith_op \<Rightarrow> u32 \<Rightarrow> u32 \<Rightarrow> bool \<Rightarrow> u32 \<times> u32 \<times> bool" where
  "arith_operands Add x y c = (x, y, False)"
| "arith_operands Sub x y c = (x, NOT y, True)"
| "arith_operands Rsb x y c = (y, NOT x, True)"
| "arith_operands Adc x y c = (x, y, c)"
| "arith_operands Sbc x y c = (x, NOT y, c)"
| "arith_operands Rsc x y c = (y, NOT x, c)"

lemma bit31_sint: "bit (w :: u32) 31 = (sint w < 0)"
  using bit_last_iff [of w] by simp

lemma bit31_uint: "bit (w :: u32) 31 = (uint w \<ge> 2 ^ 31)"
proof -
  have "bit w 31 = bit (uint w) 31" by (simp add: bit_uint_iff)
  also have "\<dots> = odd (uint w div 2 ^ 31)" by (rule bit_iff_odd)
  finally have *: "bit w 31 = odd (uint w div 2 ^ 31)" .
  have "0 \<le> uint w" "uint w < 2 ^ 32" using uint_lt2p [of w] by simp_all
  then have "uint w div 2 ^ 31 = 0 \<and> uint w < 2 ^ 31 \<or> uint w div 2 ^ 31 = 1 \<and> uint w \<ge> 2 ^ 31" by auto
  then show ?thesis unfolding * by (elim disjE) simp_all
qed

lemma sint_uint32: "sint (w :: u32) = uint w - (if uint w \<ge> 2 ^ 31 then 2 ^ 32 else 0)"
proof -
  have "take_bit 32 (uint w) = uint w" using uint_lt2p [of w] by (simp add: take_bit_int_eq_self)
  then show ?thesis
    using signed_take_bit_eq_take_bit_minus [of 31 "uint w"] bit31_uint [of w]
    by (simp add: sint_uint bit_uint_iff split: if_splits)
qed

lemma uint_word_of_int32: "uint (word_of_int k :: u32) = k mod 2 ^ 32"
  by (simp add: unsigned_of_int take_bit_eq_mod)

lemma uint_range32: "0 \<le> uint (w :: u32)" "uint w < 2 ^ 32"
  using uint_lt2p [of w] by simp_all

lemma mod_once:
  assumes "0 \<le> k" "k < 2 ^ 33"
  shows "k mod 2 ^ 32 = (k :: int) - (if k \<ge> 2 ^ 32 then 2 ^ 32 else 0)"
proof (cases "k < 2 ^ 32")
  case False
  then have "k mod 2 ^ 32 = (k - 2 ^ 32) mod 2 ^ 32" by simp
  also have "\<dots> = k - 2 ^ 32" using assms False by (intro mod_pos_pos_trivial) auto
  finally show ?thesis using False by simp
qed (use assms in simp)

lemma uint_sum32:
  fixes x y :: u32
  assumes "k = uint x + uint y + of_bool c"
  shows "uint (word_of_int k :: u32) = k - (if k \<ge> 2 ^ 32 then 2 ^ 32 else 0)"
  unfolding uint_word_of_int32
  by (rule mod_once) (use assms uint_range32 [of x] uint_range32 [of y] in \<open>auto simp: of_bool_def\<close>)

lemma overflow_bits:
  fixes x y :: u32
  assumes "r = word_of_int (uint x + uint y + of_bool c)"
  shows "bit (NOT (x XOR y) AND (x XOR r)) 31 = (sint r \<noteq> sint x + sint y + of_bool c)"
proof -
  define X Y R where XY: "X = uint x" "Y = uint y" "R = uint r"
  have R: "R = X + Y + of_bool c - (if X + Y + of_bool c \<ge> 2 ^ 32 then 2 ^ 32 else 0)"
    using uint_sum32 [of "X + Y + of_bool c" x y c] assms XY by simp
  have rng: "0 \<le> X" "X < 2 ^ 32" "0 \<le> Y" "Y < 2 ^ 32"
    using uint_range32 [of x] uint_range32 [of y] XY by simp_all
  have "bit (NOT (x XOR y) AND (x XOR r)) 31 = (bit x 31 = bit y 31 \<and> bit x 31 \<noteq> bit r 31)"
    by (auto simp: bit_and_iff bit_xor_iff bit_not_iff)
  also have "\<dots> = ((X \<ge> 2 ^ 31) = (Y \<ge> 2 ^ 31) \<and> (X \<ge> 2 ^ 31) \<noteq> (R \<ge> 2 ^ 31))"
    by (simp only: bit31_uint XY)
  also have "\<dots> = (R - (if R \<ge> 2 ^ 31 then 2 ^ 32 else 0) \<noteq>
      X - (if X \<ge> 2 ^ 31 then 2 ^ 32 else 0) + (Y - (if Y \<ge> 2 ^ 31 then 2 ^ 32 else 0)) + of_bool c)"
    unfolding R using rng
    by (cases c; cases "X \<ge> 2 ^ 31"; cases "Y \<ge> 2 ^ 31"; cases "X + Y + of_bool c \<ge> 2 ^ 32") simp_all
  finally show ?thesis by (simp only: sint_uint32 XY)
qed

lemma add_with_carry_result: "fst (add_with_carry x y c) = x + y + of_bool c"
  by (cases c) (simp_all add: add_with_carry_def Let_def)

lemma add_with_carry_eq:
  assumes "r = x + y + of_bool c"
  shows "add_with_carry x y c =
    (r, uint x + uint y + of_bool c \<ge> 2 ^ 32, bit (NOT (x XOR y) AND (x XOR r)) 31)"
proof -
  let ?k = "uint x + uint y + of_bool c"
  have r: "r = word_of_int ?k" using assms by (cases c) simp_all
  have "(uint (word_of_int ?k :: u32) \<noteq> ?k) = (?k \<ge> 2 ^ 32)"
    unfolding uint_sum32 [OF refl] by auto
  then show ?thesis
    by (simp only: add_with_carry_def Let_def r [symmetric] overflow_bits [OF r])
qed

lemma carry_out_u64:
  "(0xFFFFFFFF < (ucast (a :: u32) :: u64) + ucast (b :: u32) + of_bool c) = (uint a + uint b + of_bool c \<ge> 2 ^ 32)"
proof -
  have k: "uint ((ucast a :: u64) + ucast b + of_bool c) = uint a + uint b + of_bool c"
    using uint_range32 [of a] uint_range32 [of b]
    by (cases c) (simp_all add: uint_word_ariths unsigned_ucast_eq take_bit_int_eq_self)
  show ?thesis unfolding word_less_def k by (cases c) auto
qed

lemma borrow_u64:
  "((ucast (a :: u32) :: u64) \<ge> ucast (b :: u32) + (1 - of_bool c)) = (uint a + uint (NOT b) + of_bool c \<ge> 2 ^ 32)"
proof -
  have k: "uint ((ucast b :: u64) + (1 - of_bool c)) = uint b + (1 - of_bool c)"
    using uint_range32 [of b]
    by (cases c) (simp_all add: uint_word_ariths unsigned_ucast_eq take_bit_int_eq_self)
  have n: "uint (NOT b) = 2 ^ 32 - 1 - uint b"
  proof -
    have "NOT b = - 1 - b" by (simp add: not_eq_complement)
    then show ?thesis using uint_range32 [of b] by (simp add: uint_sub_if' unsigned_minus_1_eq_mask mask_eq_exp_minus_1)
  qed
  have a: "uint (ucast a :: u64) = uint a"
    using uint_range32 [of a] by (simp add: unsigned_ucast_eq take_bit_int_eq_self)
  show ?thesis unfolding word_le_def k a n by auto
qed

lemma overflow_sub: "(x XOR y) AND (x XOR r) = NOT (x XOR NOT y) AND (x XOR (r :: u32))"
  by (rule bit_word_eqI) (auto simp: bit_and_iff bit_xor_iff bit_not_iff)

lemma minus_not: "(x :: u32) - y - (1 - of_bool c) = x + NOT y + of_bool c"
  by (cases c) (simp_all add: not_eq_complement)

definition apply_flags :: "u32 \<times> bool \<times> bool \<Rightarrow> emu \<Rightarrow> emu" where
  "apply_flags t s =
     (case t of (result, carry, overflow) \<Rightarrow>
        ctx_set_cpsr (with_flags (bit result 31) (result = 0) carry overflow (ctx_cpsr s)) s)"

lemma overflow_test: "(A AND B AND N_BIT \<noteq> 0) = bit (A AND B) 31"
  by (simp add: bit_and_iff flip: and.assoc)

lemma adc_flags_eq:
  assumes "r = x + y + of_bool c"
  shows "adc_flags x y (of_bool c) r s = apply_flags (add_with_carry x y c) s"
  by (simp only: adc_flags_def set_nzcv_eq apply_flags_def add_with_carry_eq [OF assms] carry_out_u64
      overflow_test split)

lemma sbc_flags_eq:
  assumes "r = x + NOT y + of_bool c"
  shows "sbc_flags x y (of_bool c) r s = apply_flags (add_with_carry x (NOT y) c) s"
  by (simp only: sbc_flags_def set_nzcv_eq apply_flags_def add_with_carry_eq [OF assms] borrow_u64
      overflow_test overflow_sub [of x y] split)

lemma add_flags_adc: "add_flags x y r s = adc_flags x y (of_bool False) r s"
  by (simp add: add_flags_def adc_flags_def)

lemma ucast_le_u64: "uint (ucast (a :: u32) :: u64) = uint a"
  using uint_range32 [of a] by (simp add: unsigned_ucast_eq take_bit_int_eq_self)

lemma sub_flags_sbc: "sub_flags x y r s = sbc_flags x y (of_bool True) r s"
  by (simp add: sub_flags_def sbc_flags_def word_le_def ucast_le_u64)

lemma do_add_eq:
  "do_add a b S s = (a + b + of_bool False, if S then adc_flags a b (of_bool False) (a + b + of_bool False) s else s)"
  by (simp add: do_add_def add_flags_adc Let_def)

lemma do_sub_eq:
  "do_sub a b S s = (a + NOT b + of_bool True, if S then sbc_flags a b (of_bool True) (a + NOT b + of_bool True) s else s)"
proof -
  have "a - b = a + NOT b + of_bool True" using minus_not [of a b True] by simp
  then show ?thesis by (simp only: do_sub_def sub_flags_sbc Let_def)
qed

lemma do_adc_eq:
  assumes "c = bit (ctx_cpsr s) 29"
  shows "do_adc a b S s = (a + b + of_bool c, if S then adc_flags a b (of_bool c) (a + b + of_bool c) s else s)"
  by (simp add: do_adc_def ctx_carry_bit assms Let_def)

lemma do_sbc_eq:
  assumes "c = bit (ctx_cpsr s) 29"
  shows "do_sbc a b S s = (a + NOT b + of_bool c, if S then sbc_flags a b (of_bool c) (a + NOT b + of_bool c) s else s)"
  by (simp add: do_sbc_def ctx_carry_bit assms Let_def flip: minus_not)

lemma do_reverse: "do_rsb a b = do_sub b a" "do_rsc a b = do_sbc b a"
  by (simp_all add: fun_eq_iff do_rsb_def do_sub_def do_rsc_def do_sbc_def)

text \<open>
  C6: every arithmetic instruction (add, subtract, reverse subtract, with and without carry) computes
  the sum of the architecture's addition with carry on unbounded integers, and with the S bit sets
  the four condition flags to it: N is the sign of the result, Z says it is zero, C is the carry out
  of the unsigned sum (no borrow, for a subtraction), V says the signed sum overflowed. Every other
  bit of the status register and everything else in the machine is unchanged; without the S bit the
  machine is unchanged altogether.
\<close>
theorem arith_flags_exact:
  "let (x, y, c) = arith_operands p a b (bit (ctx_cpsr s) 29);
       (result, carry, overflow) = add_with_carry x y c
   in arith_compute p a b True s =
        (result, ctx_set_cpsr (with_flags (bit result 31) (result = 0) carry overflow (ctx_cpsr s)) s)
      \<and> arith_compute p a b False s = (result, s)"
  by (cases p; simp only: arith_compute.simps arith_operands.simps do_reverse do_add_eq do_sub_eq do_adc_eq [OF refl]
      do_sbc_eq [OF refl] adc_flags_eq [OF refl] sbc_flags_eq [OF refl] add_with_carry_eq [OF refl] apply_flags_def
      Let_def split if_True if_False simp_thms)

section \<open>The shifter operand\<close>

text \<open>The shifts on integers, for any amount, with the last bit shifted out as the carry; an amount
  of zero keeps the old carry.\<close>

definition lsl_ref :: "u32 \<Rightarrow> nat \<Rightarrow> bool \<Rightarrow> u32 \<times> bool" where
  "lsl_ref v n c = (word_of_int (uint v * 2 ^ n), if n = 0 then c else bit (uint v * 2 ^ n) 32)"

definition lsr_ref :: "u32 \<Rightarrow> nat \<Rightarrow> bool \<Rightarrow> u32 \<times> bool" where
  "lsr_ref v n c = (word_of_int (uint v div 2 ^ n), if n = 0 then c else bit (uint v) (n - 1))"

definition asr_ref :: "u32 \<Rightarrow> nat \<Rightarrow> bool \<Rightarrow> u32 \<times> bool" where
  "asr_ref v n c = (word_of_int (sint v div 2 ^ n), if n = 0 then c else bit (sint v) (n - 1))"

definition ror_ref :: "u32 \<Rightarrow> nat \<Rightarrow> bool \<Rightarrow> u32 \<times> bool" where
  "ror_ref v n c = (word_rotr n v, if n = 0 then c else bit (word_rotr n v) 31)"

definition rrx_ref :: "u32 \<Rightarrow> bool \<Rightarrow> u32 \<times> bool" where
  "rrx_ref v c = (word_of_int ((uint v + 2 ^ 32 * of_bool c) div 2), odd (uint v))"

text \<open>The immediate forms of the right shifts encode 32 as 0, and a rotation by 0 is \<open>rrx\<close>.\<close>

fun shift_ref :: "shift_form \<Rightarrow> u32 \<Rightarrow> nat \<Rightarrow> bool \<Rightarrow> u32 \<times> bool" where
  "shift_ref Lli v n c = lsl_ref v n c"
| "shift_ref Llr v n c = lsl_ref v n c"
| "shift_ref Lri v n c = lsr_ref v (if n = 0 then 32 else n) c"
| "shift_ref Lrr v n c = lsr_ref v n c"
| "shift_ref Ari v n c = asr_ref v (if n = 0 then 32 else n) c"
| "shift_ref Arr v n c = asr_ref v n c"
| "shift_ref Rri v n c = (if n = 0 then rrx_ref v c else ror_ref v n c)"
| "shift_ref Rrr v n c = ror_ref v n c"
| "shift_ref Imm v n c = (v, c)"

lemma and_one_of_bool: "w AND 1 = of_bool (bit w 0)" for w :: "'a::len word"
  by (rule bit_word_eqI) (auto simp: bit_and_iff bit_of_bool_word bit_1_iff)

lemma drop_bit_and_one: "drop_bit k w AND 1 = of_bool (bit w k)" for w :: "'a::len word"
  by (simp add: and_one_of_bool bit_drop_bit_eq)

lemma lsl_ref_bits:
  "lsl_ref v n c = (push_bit n v, if n = 0 then c else n \<le> 32 \<and> bit v (32 - n))"
proof -
  have "uint v * 2 ^ n = push_bit n (uint v)" by (simp add: push_bit_eq_mult)
  moreover have "word_of_int (push_bit n (uint v)) = push_bit n v"
    by (rule bit_word_eqI) (auto simp: bit_word_of_int_iff bit_push_bit_iff bit_uint_iff)
  ultimately show ?thesis by (auto simp: lsl_ref_def bit_push_bit_iff bit_uint_iff)
qed

lemma lsr_ref_bits:
  "lsr_ref v n c = (drop_bit n v, if n = 0 then c else bit v (n - 1))"
proof -
  have "uint v div 2 ^ n = drop_bit n (uint v)" by (simp add: drop_bit_eq_div)
  moreover have "word_of_int (drop_bit n (uint v)) = drop_bit n v"
    by (rule bit_word_eqI) (use bit_imp_le_length [of v] in \<open>auto simp: bit_word_of_int_iff bit_drop_bit_eq bit_uint_iff\<close>)
  ultimately show ?thesis using bit_imp_le_length [of v "n - 1"] by (auto simp: lsr_ref_def bit_uint_iff)
qed

lemma asr_ref_bits:
  "asr_ref v n c = (signed_drop_bit n v, if n = 0 then c else bit v (min (n - 1) 31))"
proof -
  have "sint v div 2 ^ n = drop_bit n (sint v)" by (simp add: drop_bit_eq_div)
  moreover have "word_of_int (drop_bit n (sint v)) = signed_drop_bit n v"
  proof (rule bit_word_eqI)
    fix i assume "i < LENGTH(32)"
    then show "bit (word_of_int (drop_bit n (sint v)) :: u32) i = bit (signed_drop_bit n v) i"
      using bit_imp_le_length [of v "n + i"]
      by (auto simp: bit_word_of_int_iff bit_drop_bit_eq bit_sint_iff bit_signed_drop_bit_iff not_less not_le)
  qed
  ultimately show ?thesis using bit_imp_le_length [of v "n - 1"] by (auto simp: asr_ref_def bit_sint_iff min_def)
qed

lemma amount_cases:
  fixes a :: u32
  obtains (zero) "a = 0" | (small) n where "unat a = n" "0 < n" "n < 32" "a \<noteq> 0" "a < 32" "a \<noteq> 32"
  | (word) "a = 32" | (big) n where "unat a = n" "32 < n" "a \<noteq> 0" "\<not> a < 32" "a \<noteq> 32"
proof -
  have u: "(a = 0) = (unat a = 0)" "(a = 32) = (unat a = 32)" "(a < 32) = (unat a < 32)"
    by (simp_all add: unat_eq_0 word_less_nat_alt word_unat_eq_iff [of a 32])
  consider "unat a = 0" | "0 < unat a" "unat a < 32" | "unat a = 32" | "32 < unat a" by linarith
  then show ?thesis
  proof cases
    case 1 then show ?thesis using zero u by blast
  next
    case 2 then show ?thesis using small [OF refl] u by auto
  next
    case 3 then show ?thesis using word u by blast
  next
    case 4 then show ?thesis using big [OF refl] u by auto
  qed
qed

lemma shifted_out:
  fixes v :: u32
  assumes "n \<ge> 32"
  shows "push_bit n v = 0" "drop_bit n v = 0" "signed_drop_bit n v = signed_drop_bit 31 v" "\<not> bit v n"
proof -
  show b: "\<not> bit v n" using assms bit_imp_le_length [of v n] by auto
  show "push_bit n v = 0" using assms by (intro bit_word_eqI) (auto simp: bit_push_bit_iff)
  show "drop_bit n v = 0"
    using assms bit_imp_le_length [of v] by (intro bit_word_eqI) (fastforce simp: bit_drop_bit_eq)
  show "signed_drop_bit n v = signed_drop_bit 31 v"
    using assms by (intro bit_word_eqI) (auto simp: bit_signed_drop_bit_iff not_le less_Suc0)
qed

lemma lsl_eq: "shift_lsl v a (of_bool c) = map_prod id of_bool (lsl_ref v (unat a) c)"
  by (cases a rule: amount_cases)
    (simp_all add: shift_lsl_def lsl_ref_bits drop_bit_and_one and_one_of_bool shifted_out bit_drop_bit_eq)

text \<open>The amount the right shifts use.\<close>

lemma right_amount: "(if \<not> r \<and> a = 0 then 32 else unat a) = unat (if \<not> r \<and> a = 0 then 32 else a :: u32)"
  by simp

lemma lsr_eq: "shift_lsr r v a (of_bool c) = map_prod id of_bool (lsr_ref v (if \<not> r \<and> a = 0 then 32 else unat a) c)"
  unfolding right_amount shift_lsr_def Let_def
  by (cases "if \<not> r \<and> a = 0 then 32 else a" rule: amount_cases)
    (simp_all only: if_True if_False lsr_ref_bits drop_bit_and_one, auto simp: shifted_out)

lemma asr_eq: "shift_asr r v a (of_bool c) = map_prod id of_bool (asr_ref v (if \<not> r \<and> a = 0 then 32 else unat a) c)"
  unfolding right_amount shift_asr_def Let_def
  by (cases "if \<not> r \<and> a = 0 then 32 else a" rule: amount_cases)
    (simp_all only: if_True if_False asr_ref_bits drop_bit_and_one, auto simp: shifted_out min_def)

lemma rotr_mod: "word_rotr (n mod 32) v = word_rotr n (v :: u32)"
  by (rule bit_word_eqI) (simp add: bit_word_rotr_iff mod_add_right_eq)

lemma rotr_31: "0 < n \<Longrightarrow> bit (word_rotr n (v :: u32)) 31 = bit v ((n - 1) mod 32)"
proof -
  assume "0 < n"
  then have "(31 + n) mod 32 = (n - 1) mod 32"
    by (cases n) simp_all
  then show ?thesis by (simp add: bit_word_rotr_iff add.commute)
qed

lemma rotr_0: "n mod 32 = 0 \<Longrightarrow> word_rotr n (v :: u32) = v"
  by (rule bit_word_eqI) (simp add: bit_word_rotr_iff mod_add_eq [symmetric])

lemma rrx_bits: "push_bit 31 (of_bool c) OR drop_bit 1 v = (word_of_int ((uint v + 2 ^ 32 * of_bool c) div 2) :: u32)"
proof -
  have d: "word_of_int (uint v div 2) = drop_bit 1 v"
    using lsr_ref_bits [of v 1 False] by (simp add: lsr_ref_def)
  have dis: "drop_bit 1 v AND push_bit 31 1 = 0"
    using bit_imp_le_length [of v 32] by (simp only: and_bit_eq_0_iff bit_drop_bit_eq) auto
  have "word_of_int (uint v div 2 + 2 ^ 31) = (word_of_int (uint v div 2) + push_bit 31 1 :: u32)"
    by (simp only: of_int_add push_bit_eq_mult) simp
  also have "\<dots> = push_bit 31 1 OR drop_bit 1 v"
    unfolding d disjunctive_add_eq_or [OF dis] by (rule or.commute)
  finally have t: "word_of_int (uint v div 2 + 2 ^ 31) = push_bit 31 1 OR drop_bit 1 v" .
  have "(uint v + 2 ^ 32) div 2 = uint v div 2 + 2 ^ 31" by simp
  then show ?thesis by (cases c) (simp_all only: t of_bool_eq mult_1_right, simp_all add: d)
qed

lemma ror_eq: "shift_ror r v a (of_bool c) = map_prod id of_bool (if \<not> r \<and> a = 0 then rrx_ref v c else ror_ref v (unat a) c)"
proof -
  have u: "unat (a AND 0x1F) = unat a mod 32"
    using unat_and_mask [of a 5] by (simp add: mask_eq_exp_minus_1)
  then have z: "(a AND 0x1F = 0) = (unat a mod 32 = 0)" by (simp flip: unat_eq_0)
  have "v AND 1 = of_bool (odd (uint v))"
    using bit_uint_iff [of v 0] by (simp add: and_one_of_bool flip: bit_0)
  then have rrx: "shift_ror False v 0 (of_bool c) = map_prod id of_bool (rrx_ref v c)"
    by (simp only: shift_ror_def rrx_ref_def rrx_bits) simp
  have n: "shift_ror r v a (of_bool c) = map_prod id of_bool (ror_ref v (unat a) c)" if "a \<noteq> 0"
  proof (cases "unat a mod 32 = 0")
    case True
    then show ?thesis using that
      by (simp add: shift_ror_def ror_ref_def z drop_bit_and_one rotr_0 unat_eq_0)
  next
    case False
    then have "0 < unat a" by (cases "unat a") auto
    moreover have "(unat a - 1) mod 32 = unat a mod 32 - 1"
      using False by (cases "unat a") (simp_all add: mod_Suc split: if_splits)
    ultimately show ?thesis using that False
      by (simp add: shift_ror_def ror_ref_def z u Let_def drop_bit_and_one rotr_mod rotr_31)
  qed
  show ?thesis
  proof (cases "a = 0")
    case True
    then show ?thesis using rrx by (cases r) (simp_all add: shift_ror_def ror_ref_def rotr_0)
  qed (simp add: n)
qed

lemma shifter_eq: "shifter f v a (of_bool c) = map_prod id of_bool (shift_ref f v (unat a) c)"
  by (cases f) (simp_all add: lsl_eq lsr_eq asr_eq ror_eq unat_eq_0)

text \<open>The operand as the architecture defines it: the program counter reads 8 ahead, or 12 when the
  amount comes from a register.\<close>

definition operand_ref :: "shift_form \<Rightarrow> u32 \<Rightarrow> u32 \<Rightarrow> emu \<Rightarrow> u32 \<times> bool" where
  "operand_ref f ia opcode s =
     (let c = bit (ctx_cpsr s) 29;
          r = (\<lambda>i. if i = 15 then ia + (if by_reg f then 12 else 8) else reg (unat i) s)
      in if f = Imm then
           (let n = 2 * unat (field 8 4 opcode) in ror_ref (opcode AND 0xFF) n c)
         else shift_ref f (r (opcode AND 0xF))
                (unat (if by_reg f then ctx_reg ia (field 8 4 opcode) s AND 0xFF else field 7 5 opcode)) c)"

definition with_carry :: "bool \<Rightarrow> emu \<Rightarrow> emu" where
  "with_carry c s =
     (let w = ctx_cpsr s in ctx_set_cpsr (with_flags (bit w 31) (bit w 30) c (bit w 28) w) s)"

lemma set_carry_eq: "set_carry S (of_bool c) s = (if S then with_carry c s else s)"
proof -
  have "(ctx_cpsr s AND NOT C_BIT) OR push_bit 29 (of_bool c) =
      with_flags (bit (ctx_cpsr s) 31) (bit (ctx_cpsr s) 30) c (bit (ctx_cpsr s) 28) (ctx_cpsr s)"
    by (rule bit_word_eqI) (auto simp: bit_with_flags bit_or_iff bit_and_iff bit_not_iff bit_push_of_bool)
  then show ?thesis by (simp add: set_carry_def with_carry_def Let_def)
qed

lemma with_carry_same: "with_carry (bit (ctx_cpsr s) 29) s = s"
proof -
  have "with_flags (bit w 31) (bit w 30) (bit w 29) (bit w 28) w = w" for w
    by (rule bit_word_eqI) (auto simp: bit_with_flags)
  then show ?thesis by (simp add: with_carry_def Let_def ctx_set_cpsr_def ctx_cpsr_def upd_regs_def)
qed

lemma div_mod_swap: "y mod 32 div 2 = y div 2 mod 16" for y :: nat
  using mod_mult2_eq [of y 2 16] by simp

lemma rot_field: "unat (drop_bit 7 opcode AND 0x1E) = 2 * unat (field 8 4 (opcode :: u32))"
proof -
  have "(0x1E :: u32) = mask 5 AND NOT (mask 1)" by (simp add: mask_eq_exp_minus_1)
  then have "unat (drop_bit 7 opcode AND 0x1E) = unat opcode div 2 ^ 7 mod 2 ^ 5 div 2 ^ 1 * 2 ^ 1"
    by (simp only: unat_and_not_mask unat_and_mask unat_drop_bit_eq drop_bit_eq_div [where 'a = nat] flip: and.assoc)
  moreover have "unat (field 8 4 opcode) = unat opcode div 2 ^ 8 mod 2 ^ 4"
    by (simp only: field_def unsigned_take_bit_eq unat_drop_bit_eq take_bit_eq_mod [where 'a = nat] drop_bit_eq_div [where 'a = nat])
  moreover have "x div 2 ^ 7 mod 2 ^ 5 div 2 ^ 1 * 2 ^ 1 = 2 * (x div 2 ^ 8 mod 2 ^ 4)" for x :: nat
  proof -
    have "x div 2 ^ 8 = x div 2 ^ 7 div 2" by (simp add: div_mult2_eq [symmetric])
    then show ?thesis using div_mod_swap [of "x div 2 ^ 7"] by simp
  qed
  ultimately show ?thesis by simp
qed

text \<open>
  C7: the shifter operand of every form equals the reference on unbounded integers: the shifted value,
  for every amount a register or the opcode can give (0, 1 to 31, 32, above 32), the immediate
  encodings of 32 and of rotate-with-extend, the rotated immediate, the program counter read 8 or 12
  ahead; the carry flag becomes the last bit shifted out when the instruction sets flags, and nothing
  else in the machine changes.
\<close>
theorem alu_shift_exact:
  "alu_shift f set_flags ia opcode s =
     (let (result, carry) = operand_ref f ia opcode s in (result, if set_flags then with_carry carry s else s))"
proof (cases "f = Imm")
  case True
  have r: "unat (drop_bit 7 opcode AND 0x1E) = 2 * unat (field 8 4 opcode)"
    by (rule rot_field)
  then have z: "(drop_bit 7 opcode AND 0x1E = 0) = (unat (field 8 4 opcode) = 0)" by (simp flip: unat_eq_0)
  show ?thesis
    using True by (simp add: alu_shift_def operand_ref_def Let_def ror_ref_def z r drop_bit_and_one set_carry_eq
        with_carry_same rotr_0)
next
  case False
  have f: "arm_rm opcode = opcode AND 0xF" "arm_rs opcode = field 8 4 opcode"
    "drop_bit 7 opcode AND 0x1F = field 7 5 opcode"
    by (simp_all add: arm_rm_def arm_rs_def field_def take_bit_eq_mask mask_eq_exp_minus_1)
  show ?thesis
    using False by (simp add: alu_shift_def operand_ref_def Let_def f ctx_carry_bit shifter_eq split_beta set_carry_eq ctx_reg_def ac_simps)
qed

section \<open>Long multiplication\<close>

lemma reg_set_cpsr: "n \<le> 15 \<Longrightarrow> reg n (ctx_set_cpsr v s) = reg n s"
  by (simp add: reg_def ctx_set_cpsr_def upd_regs_def get_reg_def)

lemma reg_upd_reg: "i \<le> 17 \<Longrightarrow> j \<le> 17 \<Longrightarrow> reg i (upd_reg j v s) = (if i = j then v else reg i s)"
  by (simp add: reg_def upd_reg_def upd_regs_def get_set_reg)

lemma nibble_le: "unat (w AND 0xF :: u32) \<le> 15"
proof -
  have "w AND 0xF \<le> 0xF" by (rule word_and_le1)
  then show ?thesis by (simp add: word_le_nat_alt)
qed

lemma u64_halves: "uint (ucast (drop_bit 32 r) :: u32) * 2 ^ 32 + uint (ucast r :: u32) = uint (r :: u64)"
proof -
  have "uint r < 2 ^ 64" using uint_lt2p [of r] by simp
  then have "uint r div 2 ^ 32 < 2 ^ 32" "0 \<le> uint r div 2 ^ 32" by (simp_all add: div_int_pos_iff)
  moreover have "uint (drop_bit 32 r) = uint r div 2 ^ 32" 
    proof -
    have "take_bit 64 (uint r) = uint r" by (rule take_bit_int_eq_self) (use \<open>uint r < 2 ^ 64\<close> in simp_all)
    then show ?thesis by (simp add: unsigned_drop_bit_eq drop_bit_eq_div [where 'a = int])
  qed
  ultimately have "uint (ucast (drop_bit 32 r) :: u32) = uint r div 2 ^ 32"
    by (simp add: unsigned_ucast_eq take_bit_eq_mod)
  moreover have "uint (ucast r :: u32) = uint r mod 2 ^ 32" by (simp add: unsigned_ucast_eq take_bit_eq_mod)
  ultimately show ?thesis by (simp add: div_mult_mod_eq)
qed

lemma u64_join: "push_bit 32 (ucast (hi :: u32)) OR ucast (lo :: u32) = (word_of_int (uint hi * 2 ^ 32 + uint lo) :: u64)"
proof -
  have "push_bit 32 (ucast hi :: u64) AND ucast lo = 0"
    using bit_imp_le_length [of lo] by (intro bit_word_eqI) (fastforce simp: bit_and_iff bit_push_bit_iff bit_ucast_iff)
  then have "push_bit 32 (ucast hi) OR ucast lo = (push_bit 32 (ucast hi) + ucast lo :: u64)"
    by (simp add: disjunctive_add_eq_or)
  then show ?thesis by (simp add: push_bit_eq_mult)
qed

lemma set_nz_64_eq:
  "set_nz_64 r s =
     ctx_set_cpsr (with_flags (bit r 63) (r = 0) (bit (ctx_cpsr s) 29) (bit (ctx_cpsr s) 28) (ctx_cpsr s)) s"
proof -
  have "ctx_cpsr (set_nz_64 r s) =
      with_flags (bit r 63) (r = 0) (bit (ctx_cpsr s) 29) (bit (ctx_cpsr s) 28) (ctx_cpsr s)"
    by (rule bit_word_eqI)
      (auto simp: set_nz_64_def Let_def bit_with_flags bit_or_iff bit_and_iff bit_not_iff bit_ucast_iff bit_drop_bit_eq)
  then show ?thesis by (simp add: set_nz_64_def Let_def)
qed

lemma uint_word_of_int64: "uint (word_of_int k :: u64) = k mod 2 ^ 64"
  by (simp add: unsigned_of_int take_bit_eq_mod)

lemma casts_u64: "scast w = (word_of_int (sint w) :: u64)" "ucast w = (word_of_int (uint w) :: u64)" for w :: u32
  by (rule scast_eq, rule ucast_eq)

text \<open>The value the long multiplications accumulate, as an integer.\<close>

definition mul64_ref :: "bool \<Rightarrow> bool \<Rightarrow> u32 \<Rightarrow> u32 \<Rightarrow> u32 \<Rightarrow> u32 \<Rightarrow> int" where
  "mul64_ref acc is_signed rm rs hi lo =
     (if is_signed then sint rm * sint rs else uint rm * uint rs) + (if acc then uint hi * 2 ^ 32 + uint lo else 0)"

text \<open>
  The eight long multiplications leave in their two result registers exactly the 64-bit product
  (unsigned or signed), plus the old contents of the pair when they accumulate, modulo \<open>2^64\<close>; with
  the S bit, N is bit 63 of it and Z says it is zero; C, V and every other register are unchanged.
\<close>
theorem mul64_exact:
  assumes "hi = arm_rn opcode" "lo = arm_rd opcode" "hi \<noteq> lo" "hi \<noteq> 15" "lo \<noteq> 15"
    and "P = mul64_ref acc is_signed (ctx_reg ia (arm_rm opcode) s) (ctx_reg ia (arm_rs opcode) s)
               (reg (unat hi) s) (reg (unat lo) s) mod 2 ^ 64"
    and "s' = snd (mul64 set_flags acc is_signed ia opcode s)"
  shows "uint (reg (unat hi) s') * 2 ^ 32 + uint (reg (unat lo) s') = P
    \<and> (\<forall>i \<le> 15. i \<noteq> unat hi \<longrightarrow> i \<noteq> unat lo \<longrightarrow> reg i s' = reg i s)
    \<and> ctx_cpsr s' = (if set_flags
         then with_flags (bit P 63) (P = 0) (bit (ctx_cpsr s) 29) (bit (ctx_cpsr s) 28) (ctx_cpsr s)
         else ctx_cpsr s)"
proof -
  let ?rm = "ctx_reg ia (arm_rm opcode) s" and ?rs = "ctx_reg ia (arm_rs opcode) s"
  define r where "r = (let r = (if is_signed then scast ?rm * scast ?rs else ucast ?rm * ucast ?rs)
      in if acc then r + (push_bit 32 (ucast (ctx_reg ia hi s)) OR ucast (ctx_reg ia lo s)) else r :: u64)"
  define t where "t = upd_reg (unat hi) (ucast (drop_bit 32 r)) (upd_reg (unat lo) (ucast r) s)"
  have s': "s' = (if set_flags then set_nz_64 r t else t)"
    by (simp only: assms(7) mul64_def Let_def t_def r_def ctx_set_reg_def snd_conv assms(1,2))
  have regs: "ctx_reg ia hi s = reg (unat hi) s" "ctx_reg ia lo s = reg (unat lo) s"
    using assms(4,5) by (simp_all add: ctx_reg_def)
  have P: "P = uint r"
  proof -
    have r: "r = word_of_int (mul64_ref acc is_signed ?rm ?rs (reg (unat hi) s) (reg (unat lo) s))"
      unfolding mul64_ref_def r_def regs u64_join Let_def
      by (cases acc; cases is_signed; simp only: casts_u64 of_int_mult of_int_add if_True if_False add_0_right)
    show ?thesis by (simp only: assms(6) r uint_word_of_int64)
  qed
  have n: "unat hi \<le> 15" "unat lo \<le> 15" "unat hi \<noteq> unat lo"
    using assms(3) nibble_le unfolding assms(1,2) arm_rn_def arm_rd_def by (auto simp: word_unat_eq_iff)
  have c: "ctx_cpsr t = ctx_cpsr s"
    using n by (simp add: t_def ctx_cpsr_def upd_reg_def upd_regs_def set_reg_def)
  have z: "set_nz_64 r t =
      ctx_set_cpsr (with_flags (bit P 63) (P = 0) (bit (ctx_cpsr s) 29) (bit (ctx_cpsr s) 28) (ctx_cpsr s)) t"
    by (simp add: set_nz_64_eq P bit_uint_iff c unsigned_eq_0_iff)
  show ?thesis
  proof (intro conjI allI impI)
    show "uint (reg (unat hi) s') * 2 ^ 32 + uint (reg (unat lo) s') = P"
      using u64_halves [of r] n unfolding s' z P by (simp add: reg_set_cpsr t_def reg_upd_reg)
    show "reg i s' = reg i s" if "i \<le> 15" "i \<noteq> unat hi" "i \<noteq> unat lo" for i
      using that n unfolding s' z by (simp add: reg_set_cpsr t_def reg_upd_reg)
    show "ctx_cpsr s' = (if set_flags
         then with_flags (bit P 63) (P = 0) (bit (ctx_cpsr s) 29) (bit (ctx_cpsr s) 28) (ctx_cpsr s)
         else ctx_cpsr s)"
      unfolding s' z by (simp add: c)
  qed
qed

theorem mul64_exact_witness:
  "let s = upd_reg 2 (- 1) (upd_reg 3 7 emu_new); s' = snd (mul64 True False True 0 0xE0D54392 s)
   in uint (reg 5 s') * 2 ^ 32 + uint (reg 4 s') = 2 ^ 64 - 7 \<and> bit (ctx_cpsr s') 31"
proof -
  let ?s = "upd_reg 2 (- 1) (upd_reg 3 7 emu_new)"
  have f: "arm_rn 0xE0D54392 = 5" "arm_rd 0xE0D54392 = 4" "arm_rm 0xE0D54392 = 2" "arm_rs 0xE0D54392 = 3"
    by (simp_all add: arm_rn_def arm_rd_def arm_rm_def arm_rs_def)
  have r: "ctx_reg 0 2 ?s = - 1" "ctx_reg 0 3 ?s = 7" by (simp_all add: ctx_reg_def reg_upd_reg)
  have P: "(2 ^ 64 - 7 :: int) = mul64_ref False True (ctx_reg 0 (arm_rm 0xE0D54392) ?s) (ctx_reg 0 (arm_rs 0xE0D54392) ?s)
      (reg (unat (5 :: u32)) ?s) (reg (unat (4 :: u32)) ?s) mod 2 ^ 64"
    by (simp add: f r mul64_ref_def)
  show ?thesis
    using mul64_exact [OF f(1) [symmetric] f(2) [symmetric] _ _ _ P refl, of True]
    by (simp add: Let_def bit_with_flags)
qed

end
