(* ===== verification/InterpMem.thy ===== *)
theory InterpMem
  imports InterpAlu
begin

text \<open>
  The load, store and software-interrupt half of the ARM interpreter:
  \<open>src/src/jit/interpreter/memory.rs\<close> and \<open>src/src/jit/interpreter/system.rs\<close>. The const generics of
  the source are the first arguments of each handler. A handler aborts (\<open>None\<close>) exactly when the bus
  access or the BIOS call it makes aborts.
\<close>

section \<open>Single transfers (memory.rs)\<close>

datatype addr_mode = Of | Pr | Pt
datatype off_kind = OffImm | OffLsl | OffLsr | OffAsr | OffRor

definition transfer_reg_offset :: "off_kind \<Rightarrow> u32 \<Rightarrow> u32 \<Rightarrow> emu \<Rightarrow> u32" where
  "transfer_reg_offset k ia opcode s =
     (let v = ctx_reg ia (arm_rm opcode) s; amount = unat (drop_bit 7 opcode AND 0x1F)
      in case k of
           OffLsl \<Rightarrow> push_bit amount v
         | OffLsr \<Rightarrow> (if amount = 0 then 0 else drop_bit amount v)
         | OffAsr \<Rightarrow> signed_drop_bit (if amount = 0 then 31 else amount) v
         | _ \<Rightarrow> (if amount = 0 then push_bit 31 (ctx_carry s) OR drop_bit 1 v else word_rotr amount v))"

text \<open>The value a load delivers: to the program counter it is a branch, through the stack pointer a
  return.\<close>

definition load_result :: "u32 \<Rightarrow> bool \<Rightarrow> u32 \<Rightarrow> emu \<Rightarrow> inst_result \<times> emu" where
  "load_result rd from_sp v s =
     (if rd = 15 then (if from_sp then BranchReturn 3 v else Branch 3 v, s)
      else (Continue 3, ctx_set_reg rd v s))"

definition ldr_str :: "bool \<Rightarrow> bool \<Rightarrow> addr_mode \<Rightarrow> bool \<Rightarrow> off_kind \<Rightarrow> u32 \<Rightarrow> u32 \<Rightarrow> emu \<Rightarrow> (inst_result \<times> emu) option" where
  "ldr_str load byte m up k ia opcode s =
     (let rn = arm_rn opcode; rd = arm_rd opcode; base = ctx_reg ia rn s;
          offset = (if k = OffImm then opcode AND 0xFFF else transfer_reg_offset k ia opcode s);
          offset_addr = (if up then base + offset else base - offset);
          addr = (if m = Pt then base else offset_addr);
          write_back = (\<lambda>s. if m \<noteq> Of then ctx_set_reg rn offset_addr s else s)
      in if load then
           (let (v, s) = (if byte then mem_read 1 addr s
                          else (let (raw, s) = mem_read 4 addr s in (word_rotr (unat ((addr AND 3) * 8)) raw, s)))
            in Some (load_result rd (rn = 13 \<or> (k \<noteq> OffImm \<and> arm_rm opcode = 13)) v (write_back s)))
         else
           (let v = (if rd = 15 then ia + 12 else ctx_reg ia rd s)
            in do { s \<leftarrow> (if byte then mem_write 1 addr (trunc_size 1 v) s else mem_write 4 addr v s);
                    Some (ContinueStore 2, write_back s) }))"

definition sext8 :: "u32 \<Rightarrow> u32" where "sext8 v = scast (ucast v :: u8)"
definition sext16 :: "u32 \<Rightarrow> u32" where "sext16 v = scast (ucast v :: u16)"

text \<open>\<open>half\<close> is the size parameter \<open>SIZE == 1\<close>.\<close>

definition load_half :: "bool \<Rightarrow> bool \<Rightarrow> u32 \<Rightarrow> emu \<Rightarrow> u32 \<times> emu" where
  "load_half half is_signed addr s =
     (if \<not> half then map_prod sext8 id (mem_read 1 addr s)
      else if is_signed then
        (if addr AND 1 \<noteq> 0 then map_prod sext8 id (mem_read 1 addr s)
         else map_prod sext16 id (mem_read 2 addr s))
      else map_prod (word_rotr (unat (push_bit 3 (addr AND 1)))) id (mem_read 2 addr s))"

definition ldrh_strh :: "bool \<Rightarrow> bool \<Rightarrow> bool \<Rightarrow> addr_mode \<Rightarrow> bool \<Rightarrow> bool \<Rightarrow> u32 \<Rightarrow> u32 \<Rightarrow> emu \<Rightarrow> (inst_result \<times> emu) option" where
  "ldrh_strh load half is_signed m up by_register ia opcode s =
     (let rn = arm_rn opcode; rd = arm_rd opcode; base = ctx_reg ia rn s;
          offset = (if by_register then ctx_reg ia (arm_rm opcode) s
                    else (drop_bit 4 opcode AND 0xF0) OR (opcode AND 0xF));
          offset_addr = (if up then base + offset else base - offset);
          addr = (if m = Pt then base else offset_addr);
          write_back = (\<lambda>s. if m \<noteq> Of then ctx_set_reg rn offset_addr s else s)
      in if load then
           (let (v, s) = load_half half is_signed addr s
            in Some (load_result rd (rn = 13 \<or> (by_register \<and> arm_rm opcode = 13)) v (write_back s)))
         else
           (let v = (if rd = 15 then ia + 12 else ctx_reg ia rd s)
            in do { s \<leftarrow> mem_write 2 addr (trunc_size 2 v) s; Some (ContinueStore 2, write_back s) }))"

section \<open>Block transfers (memory.rs)\<close>

text \<open>The registers of a list, lowest first.\<close>

definition listed :: "nat \<Rightarrow> u32 \<Rightarrow> nat list" where
  "listed n rlist = filter (\<lambda>i. rlist AND push_bit i 1 \<noteq> 0) [0..<n]"

definition ldm_stm_empty :: "bool \<Rightarrow> bool \<Rightarrow> bool \<Rightarrow> bool \<Rightarrow> u32 \<Rightarrow> u32 \<Rightarrow> emu \<Rightarrow> (inst_result \<times> emu) option" where
  "ldm_stm_empty load pre up wb ia rn s =
     (let base = ctx_reg ia rn s;
          addr = (if up then (if pre then base + 4 else base) else (if pre then base - 0x40 else base - 0x3C));
          s = (if wb then ctx_set_reg rn (if up then base + 0x40 else base - 0x40) s else s)
      in if load then (let (target, s) = mem_read 4 addr s in Some (Branch 2 target, s))
         else do { s \<leftarrow> mem_write 4 addr (ia + 12) s; Some (ContinueStore 1, s) })"

text \<open>The lowest address of a transfer of \<open>bytes\<close> bytes (IA, IB, DB, DA).\<close>

definition block_addr :: "bool \<Rightarrow> bool \<Rightarrow> u32 \<Rightarrow> u32 \<Rightarrow> u32" where
  "block_addr up pre base bytes =
     (if up then (if pre then base + 4 else base) else (if pre then base - bytes else base - bytes + 4))"

definition load_one :: "bool \<Rightarrow> bool \<Rightarrow> nat \<times> u32 \<Rightarrow> u32 option \<times> emu \<Rightarrow> u32 option \<times> emu" where
  "load_one user_banked fiq_mode e t =
     (case e of (i, v) \<Rightarrow> (case t of (target, s) \<Rightarrow>
        if i = 15 then (Some v, s)
        else if user_banked \<and> (i = 13 \<or> i = 14 \<or> fiq_mode) then (target, upd_regs (set_reg_usr i v) s)
        else (target, upd_reg i v s)))"

definition stored_value :: "bool \<Rightarrow> bool \<Rightarrow> bool \<Rightarrow> u32 \<Rightarrow> u32 \<Rightarrow> u32 \<Rightarrow> u32 \<Rightarrow> nat \<Rightarrow> emu \<Rightarrow> u32" where
  "stored_value user_banked fiq_mode wb rn reg_list final_base ia i s =
     (if i = 15 then ia + 12
      else if user_banked \<and> (i = 13 \<or> i = 14 \<or> fiq_mode) then get_reg_usr i (regs s)
      else if wb \<and> i = unat rn \<and> reg_list AND (push_bit (unat rn) 1 - 1) \<noteq> 0 then final_base
      else ctx_reg ia (of_nat i) s)"

definition ldm_stm :: "bool \<Rightarrow> bool \<Rightarrow> bool \<Rightarrow> bool \<Rightarrow> bool \<Rightarrow> u32 \<Rightarrow> u32 \<Rightarrow> emu \<Rightarrow> (inst_result \<times> emu) option" where
  "ldm_stm load pre up usr wb ia opcode s =
     (let rn = arm_rn opcode; reg_list = opcode AND 0xFFFF in
      if reg_list = 0 then ldm_stm_empty load pre up wb ia rn s
      else
        (let user_banked = (usr \<and> reg_list AND push_bit 15 1 = 0 \<and> \<not> thread_is_user_mode s);
             fiq_mode = (user_banked \<and> ctx_cpsr s AND 0x1F = 0x11);
             count = count_ones reg_list; bytes = of_nat count * 4;
             base = ctx_reg ia rn s;
             final_base = (if up then base + bytes else base - bytes);
             addr = block_addr up pre base bytes;
             cycles = of_nat count + (if load then 2 else 1)
         in if load then
              (let (values, s) = mem_read_multiple_slice True 4 addr count s;
                   (target, s) = fold (load_one user_banked fiq_mode) (zip (listed 16 reg_list) values) (None, s);
                   s = (if wb \<and> reg_list AND push_bit (unat rn) 1 = 0 then ctx_set_reg rn final_base s else s);
                   s = (if usr \<and> target \<noteq> None then thread_restore_spsr s else s)
               in Some (case target of
                          Some t \<Rightarrow> (if rn = 13 then BranchReturn cycles t else Branch cycles t, s)
                        | None \<Rightarrow> (Continue cycles, s)))
            else
              (let values = map (\<lambda>i. stored_value user_banked fiq_mode wb rn reg_list final_base ia i s) (listed 16 reg_list)
               in do { s \<leftarrow> mem_write_multiple_slice 4 addr (Buf values) s;
                       Some (ContinueStore cycles, if wb then ctx_set_reg rn final_base s else s) })))"

text \<open>The ARMv5 doubleword transfers are no-ops.\<close>

definition ldrd_strd :: "u32 \<Rightarrow> u32 \<Rightarrow> emu \<Rightarrow> inst_result \<times> emu" where
  "ldrd_strd ia opcode s = (Continue 1, s)"

definition swp_common :: "bool \<Rightarrow> u32 \<Rightarrow> u32 \<Rightarrow> emu \<Rightarrow> (inst_result \<times> emu) option" where
  "swp_common byte ia opcode s =
     (let rd = arm_rd opcode; addr = ctx_reg ia (arm_rn opcode) s; store_value = ctx_reg ia (arm_rm opcode) s;
          (v, s) = (if byte then mem_read 1 addr s
                    else map_prod (word_rotr (unat (push_bit 3 (addr AND 3)))) id (mem_read 4 (addr AND NOT 3) s))
      in do { s \<leftarrow> (if byte then mem_write 1 addr (trunc_size 1 store_value) s
                    else mem_write 4 (addr AND NOT 3) store_value s);
              Some (ContinueStore 4, if rd \<noteq> 15 then ctx_set_reg rd v s else s) })"

section \<open>Software interrupts and coprocessor transfers (system.rs)\<close>

definition swi_common :: "host_math \<Rightarrow> u8 \<Rightarrow> u32 \<Rightarrow> u32 \<Rightarrow> emu \<Rightarrow> (inst_result \<times> emu) option" where
  "swi_common h comment step ia s =
     (let resume = (ia + step) OR of_bool (ctx_cpsr s AND T_BIT \<noteq> 0);
          s = upd_regs (\<lambda>r. r\<lparr>reg_pc := resume\<rparr>) s
      in do { s \<leftarrow> handle h comment SoftwareInterrupt s;
              Some (if cpu_is_halted s then (ContinueStore 3, s\<lparr>breakout_imm := True\<rparr>)
                    else if reg_pc (regs s) \<noteq> resume then
                      (Branch 3 ((reg_pc (regs s) AND NOT 1) OR of_bool (ctx_cpsr s AND T_BIT \<noteq> 0)), s)
                    else (Continue 3, s)) })"

definition swi_arm :: "host_math \<Rightarrow> u32 \<Rightarrow> u32 \<Rightarrow> emu \<Rightarrow> (inst_result \<times> emu) option" where
  "swi_arm h ia opcode s = swi_common h (ucast (drop_bit 16 opcode)) 4 ia s"

definition swi_t :: "host_math \<Rightarrow> u32 \<Rightarrow> u16 \<Rightarrow> emu \<Rightarrow> (inst_result \<times> emu) option" where
  "swi_t h ia opcode s = swi_common h (ucast opcode) 2 ia s"

text \<open>\<open>mcr\<close> and \<open>mrc\<close>.\<close>

definition coprocessor_nop :: "u32 \<Rightarrow> u32 \<Rightarrow> emu \<Rightarrow> inst_result \<times> emu" where
  "coprocessor_nop ia opcode s = (Continue 1, s)"

end
