(* ===== verification/InterpThumb.thy ===== *)
theory InterpThumb
  imports InterpMem
begin

text \<open>
  The Thumb half of the interpreter: \<open>src/src/jit/interpreter/thumb_alu.rs\<close>, \<open>thumb_branch.rs\<close> and
  \<open>thumb_memory.rs\<close>. The macros of the source are functions of their parameters (\<open>add_sub_t\<close>,
  \<open>dp_logical_t\<close>, \<open>bcond_t\<close>).
  \<open>ThumbLaws\<close> proves that the shifts are those of the ARM shifter and that a pop takes down the frame of
  a push, \<open>DecodeLaws\<close> that the conditional branches test the conditions of the ARM condition field.
\<close>

section \<open>Operand fields\<close>

definition t_rd :: "u16 \<Rightarrow> u32" where "t_rd opcode = ucast (opcode AND 0x7)"
definition t_rs :: "u16 \<Rightarrow> u32" where "t_rs opcode = ucast (drop_bit 3 opcode AND 0x7)"
definition t_ro :: "u16 \<Rightarrow> u32" where "t_ro opcode = ucast (drop_bit 6 opcode AND 0x7)"
definition t_r8 :: "u16 \<Rightarrow> u32" where "t_r8 opcode = ucast (drop_bit 8 opcode AND 0x7)"
definition t_imm5 :: "u16 \<Rightarrow> u32" where "t_imm5 opcode = ucast (drop_bit 6 opcode AND 0x1F)"
definition t_imm8 :: "u16 \<Rightarrow> u32" where "t_imm8 opcode = ucast (opcode AND 0xFF)"
definition t_hd :: "u16 \<Rightarrow> u32" where "t_hd opcode = ucast ((drop_bit 4 opcode AND 0x8) OR (opcode AND 0x7))"
definition t_hs :: "u16 \<Rightarrow> u32" where "t_hs opcode = ucast (drop_bit 3 opcode AND 0xF)"

section \<open>Arithmetic and logic (thumb_alu.rs)\<close>

definition set_nzc :: "u32 \<Rightarrow> u32 \<Rightarrow> emu \<Rightarrow> emu" where
  "set_nzc result carry s =
     (let c = ctx_cpsr s AND NOT (N_BIT OR Z_BIT OR C_BIT);
          c = c OR (result AND N_BIT);
          c = (if result = 0 then c OR Z_BIT else c);
          c = c OR push_bit 29 carry
      in ctx_set_cpsr c s)"

definition lsl_imm_t :: "u32 \<Rightarrow> u16 \<Rightarrow> emu \<Rightarrow> inst_result \<times> emu" where
  "lsl_imm_t ia opcode s =
     (let op1 = ctx_reg ia (t_rs opcode) s; amount = unat (t_imm5 opcode);
          result = push_bit amount op1; s = ctx_set_reg (t_rd opcode) result s
      in (Continue 1, if amount = 0 then set_nz result s else set_nzc result (drop_bit (32 - amount) op1 AND 1) s))"

definition lsr_imm_t :: "u32 \<Rightarrow> u16 \<Rightarrow> emu \<Rightarrow> inst_result \<times> emu" where
  "lsr_imm_t ia opcode s =
     (let op1 = ctx_reg ia (t_rs opcode) s; amount = unat (t_imm5 opcode);
          result = (if amount = 0 then 0 else drop_bit amount op1);
          carry = drop_bit (if amount = 0 then 31 else amount - 1) op1 AND 1
      in (Continue 1, set_nzc result carry (ctx_set_reg (t_rd opcode) result s)))"

definition asr_imm_t :: "u32 \<Rightarrow> u16 \<Rightarrow> emu \<Rightarrow> inst_result \<times> emu" where
  "asr_imm_t ia opcode s =
     (let op1 = ctx_reg ia (t_rs opcode) s; amount = unat (t_imm5 opcode);
          result = (if amount = 0 then signed_drop_bit 31 op1 else signed_drop_bit amount op1);
          carry = drop_bit (if amount = 0 then 31 else amount - 1) op1 AND 1
      in (Continue 1, set_nzc result carry (ctx_set_reg (t_rd opcode) result s)))"

text \<open>\<open>add_reg_t\<close>, \<open>sub_reg_t\<close>, \<open>add_imm3_t\<close>, \<open>sub_imm3_t\<close>.\<close>

definition add_sub_t :: "bool \<Rightarrow> bool \<Rightarrow> u32 \<Rightarrow> u16 \<Rightarrow> emu \<Rightarrow> inst_result \<times> emu" where
  "add_sub_t imm sub ia opcode s =
     (let op1 = ctx_reg ia (t_rs opcode) s;
          op2 = (if imm then t_ro opcode else ctx_reg ia (t_ro opcode) s);
          result = (if sub then op1 - op2 else op1 + op2);
          s = ctx_set_reg (t_rd opcode) result s
      in (Continue 1, if sub then sub_flags op1 op2 result s else add_flags op1 op2 result s))"

definition mov_imm8_t :: "u32 \<Rightarrow> u16 \<Rightarrow> emu \<Rightarrow> inst_result \<times> emu" where
  "mov_imm8_t ia opcode s =
     (Continue 1, set_nz (t_imm8 opcode) (ctx_set_reg (t_r8 opcode) (t_imm8 opcode) s))"

definition cmp_imm8_t :: "u32 \<Rightarrow> u16 \<Rightarrow> emu \<Rightarrow> inst_result \<times> emu" where
  "cmp_imm8_t ia opcode s =
     (let op1 = ctx_reg ia (t_r8 opcode) s; op2 = t_imm8 opcode in (Continue 1, sub_flags op1 op2 (op1 - op2) s))"

definition add_imm8_t :: "u32 \<Rightarrow> u16 \<Rightarrow> emu \<Rightarrow> inst_result \<times> emu" where
  "add_imm8_t ia opcode s =
     (let op1 = ctx_reg ia (t_r8 opcode) s; op2 = t_imm8 opcode; result = op1 + op2
      in (Continue 1, add_flags op1 op2 result (ctx_set_reg (t_r8 opcode) result s)))"

definition sub_imm8_t :: "u32 \<Rightarrow> u16 \<Rightarrow> emu \<Rightarrow> inst_result \<times> emu" where
  "sub_imm8_t ia opcode s =
     (let op1 = ctx_reg ia (t_r8 opcode) s; op2 = t_imm8 opcode; result = op1 - op2
      in (Continue 1, sub_flags op1 op2 result (ctx_set_reg (t_r8 opcode) result s)))"

text \<open>\<open>and_dp_t\<close>, \<open>eor_dp_t\<close>, \<open>orr_dp_t\<close>, \<open>bic_dp_t\<close>, \<open>mvn_dp_t\<close>.\<close>

definition dp_logical_t :: "logical_op \<Rightarrow> u32 \<Rightarrow> u16 \<Rightarrow> emu \<Rightarrow> inst_result \<times> emu" where
  "dp_logical_t p ia opcode s =
     (let result = logical_body p (ctx_reg ia (t_rd opcode) s) (ctx_reg ia (t_rs opcode) s)
      in (Continue 1, set_nz result (ctx_set_reg (t_rd opcode) result s)))"

definition adc_dp_t :: "u32 \<Rightarrow> u16 \<Rightarrow> emu \<Rightarrow> inst_result \<times> emu" where
  "adc_dp_t ia opcode s =
     (let (result, s) = do_adc (ctx_reg ia (t_rd opcode) s) (ctx_reg ia (t_rs opcode) s) True s
      in (Continue 1, ctx_set_reg (t_rd opcode) result s))"

definition sbc_dp_t :: "u32 \<Rightarrow> u16 \<Rightarrow> emu \<Rightarrow> inst_result \<times> emu" where
  "sbc_dp_t ia opcode s =
     (let (result, s) = do_sbc (ctx_reg ia (t_rd opcode) s) (ctx_reg ia (t_rs opcode) s) True s
      in (Continue 1, ctx_set_reg (t_rd opcode) result s))"

definition tst_dp_t :: "u32 \<Rightarrow> u16 \<Rightarrow> emu \<Rightarrow> inst_result \<times> emu" where
  "tst_dp_t ia opcode s = (Continue 1, set_nz (ctx_reg ia (t_rd opcode) s AND ctx_reg ia (t_rs opcode) s) s)"

definition cmp_dp_t :: "u32 \<Rightarrow> u16 \<Rightarrow> emu \<Rightarrow> inst_result \<times> emu" where
  "cmp_dp_t ia opcode s =
     (let a = ctx_reg ia (t_rd opcode) s; b = ctx_reg ia (t_rs opcode) s in (Continue 1, sub_flags a b (a - b) s))"

definition cmn_dp_t :: "u32 \<Rightarrow> u16 \<Rightarrow> emu \<Rightarrow> inst_result \<times> emu" where
  "cmn_dp_t ia opcode s =
     (let a = ctx_reg ia (t_rd opcode) s; b = ctx_reg ia (t_rs opcode) s in (Continue 1, add_flags a b (a + b) s))"

definition neg_dp_t :: "u32 \<Rightarrow> u16 \<Rightarrow> emu \<Rightarrow> inst_result \<times> emu" where
  "neg_dp_t ia opcode s =
     (let b = ctx_reg ia (t_rs opcode) s; result = 0 - b
      in (Continue 1, sub_flags 0 b result (ctx_set_reg (t_rd opcode) result s)))"

definition mul_dp_t :: "u32 \<Rightarrow> u16 \<Rightarrow> emu \<Rightarrow> inst_result \<times> emu" where
  "mul_dp_t ia opcode s =
     (let result = ctx_reg ia (t_rd opcode) s * ctx_reg ia (t_rs opcode) s
      in (Continue 4, set_nz result (ctx_set_reg (t_rd opcode) result s)))"

definition lsl_dp_t :: "u32 \<Rightarrow> u16 \<Rightarrow> emu \<Rightarrow> inst_result \<times> emu" where
  "lsl_dp_t ia opcode s =
     (let op1 = ctx_reg ia (t_rd opcode) s; amount = unat (ctx_reg ia (t_rs opcode) s AND 0xFF);
          result = (if amount < 32 then push_bit amount op1 else 0);
          s = ctx_set_reg (t_rd opcode) result s
      in (Continue 1, if amount = 0 then set_nz result s
                      else set_nzc result (if amount \<le> 32 then drop_bit (32 - amount) op1 AND 1 else 0) s))"

definition lsr_dp_t :: "u32 \<Rightarrow> u16 \<Rightarrow> emu \<Rightarrow> inst_result \<times> emu" where
  "lsr_dp_t ia opcode s =
     (let op1 = ctx_reg ia (t_rd opcode) s; amount = unat (ctx_reg ia (t_rs opcode) s AND 0xFF);
          result = (if amount < 32 then drop_bit amount op1 else 0);
          s = ctx_set_reg (t_rd opcode) result s
      in (Continue 1, if amount = 0 then set_nz result s
                      else set_nzc result (if amount \<le> 32 then drop_bit (amount - 1) op1 AND 1 else 0) s))"

definition asr_dp_t :: "u32 \<Rightarrow> u16 \<Rightarrow> emu \<Rightarrow> inst_result \<times> emu" where
  "asr_dp_t ia opcode s =
     (let op1 = ctx_reg ia (t_rd opcode) s; amount = unat (ctx_reg ia (t_rs opcode) s AND 0xFF);
          result = (if amount < 32 then signed_drop_bit amount op1 else signed_drop_bit 31 op1);
          s = ctx_set_reg (t_rd opcode) result s
      in (Continue 1, if amount = 0 then set_nz result s
                      else set_nzc result (drop_bit (if amount \<le> 32 then amount - 1 else 31) op1 AND 1) s))"

definition ror_dp_t :: "u32 \<Rightarrow> u16 \<Rightarrow> emu \<Rightarrow> inst_result \<times> emu" where
  "ror_dp_t ia opcode s =
     (let op1 = ctx_reg ia (t_rd opcode) s; amount = ctx_reg ia (t_rs opcode) s AND 0xFF;
          result = word_rotr (unat (amount AND 0x1F)) op1;
          s = ctx_set_reg (t_rd opcode) result s
      in (Continue 1, if amount = 0 then set_nz result s
                      else set_nzc result (drop_bit (unat ((amount - 1) AND 0x1F)) op1 AND 1) s))"

definition add_h_t :: "u32 \<Rightarrow> u16 \<Rightarrow> emu \<Rightarrow> inst_result \<times> emu" where
  "add_h_t ia opcode s =
     (let rd = t_hd opcode; result = ctx_reg_t ia rd s + ctx_reg_t ia (t_hs opcode) s
      in if rd = 15 then (Branch 1 ((result AND NOT 1) OR 1), s) else (Continue 1, ctx_set_reg rd result s))"

definition cmp_h_t :: "u32 \<Rightarrow> u16 \<Rightarrow> emu \<Rightarrow> inst_result \<times> emu" where
  "cmp_h_t ia opcode s =
     (let op1 = ctx_reg_t ia (t_hd opcode) s; op2 = ctx_reg_t ia (t_hs opcode) s
      in (Continue 1, sub_flags op1 op2 (op1 - op2) s))"

definition mov_h_t :: "u32 \<Rightarrow> u16 \<Rightarrow> emu \<Rightarrow> inst_result \<times> emu" where
  "mov_h_t ia opcode s =
     (let rd = t_hd opcode; rs = t_hs opcode; result = ctx_reg_t ia rs s
      in if rd = 15 then
           (if rs = 14 then (BranchReturn 1 ((result AND NOT 1) OR 1), s) else (Branch 1 ((result AND NOT 1) OR 1), s))
         else (Continue 1, ctx_set_reg rd result s))"

definition add_pc_t :: "u32 \<Rightarrow> u16 \<Rightarrow> emu \<Rightarrow> inst_result \<times> emu" where
  "add_pc_t ia opcode s =
     (Continue 1, ctx_set_reg (t_r8 opcode) (((ia + 4) AND NOT 3) + push_bit 2 (t_imm8 opcode)) s)"

definition add_sp_t :: "u32 \<Rightarrow> u16 \<Rightarrow> emu \<Rightarrow> inst_result \<times> emu" where
  "add_sp_t ia opcode s =
     (Continue 1, ctx_set_reg (t_r8 opcode) (ctx_reg ia 13 s + push_bit 2 (t_imm8 opcode)) s)"

definition add_sp_imm_t :: "u32 \<Rightarrow> u16 \<Rightarrow> emu \<Rightarrow> inst_result \<times> emu" where
  "add_sp_imm_t ia opcode s =
     (let imm = push_bit 2 (ucast (opcode AND 0x7F)); sp = ctx_reg ia 13 s
      in (Continue 1, ctx_set_reg 13 (if opcode AND push_bit 7 1 \<noteq> 0 then sp - imm else sp + imm) s))"

section \<open>Branches (thumb_branch.rs)\<close>

datatype condition = Eq | Ne | Cs | Cc | Mi | Pl | Vs | Vc | Hi | Ls | Ge | Lt | Gt | Le

fun taken :: "condition \<Rightarrow> u32 \<Rightarrow> bool" where
  "taken Eq c = (c AND Z_BIT \<noteq> 0)"
| "taken Ne c = (c AND Z_BIT = 0)"
| "taken Cs c = (c AND C_BIT \<noteq> 0)"
| "taken Cc c = (c AND C_BIT = 0)"
| "taken Mi c = (c AND N_BIT \<noteq> 0)"
| "taken Pl c = (c AND N_BIT = 0)"
| "taken Vs c = (c AND V_BIT \<noteq> 0)"
| "taken Vc c = (c AND V_BIT = 0)"
| "taken Hi c = (c AND C_BIT \<noteq> 0 \<and> c AND Z_BIT = 0)"
| "taken Ls c = (c AND C_BIT = 0 \<or> c AND Z_BIT \<noteq> 0)"
| "taken Ge c = ((c XOR push_bit 3 c) AND N_BIT = 0)"
| "taken Lt c = ((c XOR push_bit 3 c) AND N_BIT \<noteq> 0)"
| "taken Gt c = (c AND Z_BIT = 0 \<and> (c XOR push_bit 3 c) AND N_BIT = 0)"
| "taken Le c = (c AND Z_BIT \<noteq> 0 \<or> (c XOR push_bit 3 c) AND N_BIT \<noteq> 0)"

definition bcond_t :: "condition \<Rightarrow> u32 \<Rightarrow> u16 \<Rightarrow> emu \<Rightarrow> inst_result \<times> emu" where
  "bcond_t p ia opcode s =
     (if taken p (ctx_cpsr s)
      then (Branch 1 ((ia + 4 + push_bit 1 (scast (ucast opcode :: u8))) OR 1), s)
      else (Continue 1, s))"

definition branch_offset_t :: "u16 \<Rightarrow> u32" where
  "branch_offset_t opcode = scast (signed_drop_bit 4 (push_bit 5 opcode))"

definition b_t :: "u32 \<Rightarrow> u16 \<Rightarrow> emu \<Rightarrow> inst_result \<times> emu" where
  "b_t ia opcode s = (Branch 1 ((ia + 4 + branch_offset_t opcode) OR 1), s)"

definition bl_setup_t :: "u32 \<Rightarrow> u16 \<Rightarrow> emu \<Rightarrow> inst_result \<times> emu" where
  "bl_setup_t ia opcode s = (Continue 1, ctx_set_reg 14 (ia + 4 + push_bit 11 (branch_offset_t opcode)) s)"

definition bl_off_t :: "u32 \<Rightarrow> u16 \<Rightarrow> emu \<Rightarrow> inst_result \<times> emu" where
  "bl_off_t ia opcode s =
     (let target = ctx_reg ia 14 s + push_bit 1 (ucast (opcode AND 0x7FF)); lr = (ia + 2) OR 1
      in (BranchLink 1 ((target AND NOT 1) OR 1) lr, ctx_set_reg 14 lr s))"

text \<open>\<open>blx_off_t\<close> and \<open>blx_reg_t\<close>.\<close>

definition blx_nop_t :: "u32 \<Rightarrow> u16 \<Rightarrow> emu \<Rightarrow> inst_result \<times> emu" where
  "blx_nop_t ia opcode s = (Continue 1, s)"

definition bx_reg_t :: "u32 \<Rightarrow> u16 \<Rightarrow> emu \<Rightarrow> inst_result \<times> emu" where
  "bx_reg_t ia opcode s =
     (let target = ctx_reg_t ia (t_hs opcode) s
      in (if t_hs opcode = 14 then BranchReturn 1 target else Branch 1 target, s))"

section \<open>Transfers (thumb_memory.rs)\<close>

definition rotate_word_read :: "u32 \<Rightarrow> u32 \<Rightarrow> u32" where
  "rotate_word_read raw addr = word_rotr (unat ((addr AND 3) * 8)) raw"

definition reg_offset_addr :: "u32 \<Rightarrow> u16 \<Rightarrow> emu \<Rightarrow> u32" where
  "reg_offset_addr ia opcode s = ctx_reg ia (t_rs opcode) s + ctx_reg ia (t_ro opcode) s"

text \<open>The bodies the loads and the stores share.\<close>

definition load_word_t :: "u32 \<Rightarrow> u32 \<Rightarrow> emu \<Rightarrow> (inst_result \<times> emu) option" where
  "load_word_t addr rd s =
     (let (raw, s) = mem_read 4 addr s in Some (Continue 3, ctx_set_reg rd (rotate_word_read raw addr) s))"

definition load_byte_t :: "u32 \<Rightarrow> u32 \<Rightarrow> emu \<Rightarrow> (inst_result \<times> emu) option" where
  "load_byte_t addr rd s = (let (v, s) = mem_read 1 addr s in Some (Continue 3, ctx_set_reg rd v s))"

definition load_half_t :: "u32 \<Rightarrow> u32 \<Rightarrow> emu \<Rightarrow> (inst_result \<times> emu) option" where
  "load_half_t addr rd s =
     (let (v, s) = mem_read 2 addr s in Some (Continue 3, ctx_set_reg rd (word_rotr (unat (push_bit 3 (addr AND 1))) v) s))"

definition store_t :: "nat \<Rightarrow> u32 \<Rightarrow> u32 \<Rightarrow> emu \<Rightarrow> (inst_result \<times> emu) option" where
  "store_t sz addr v s = map_option (Pair (ContinueStore 2)) (mem_write sz addr (trunc_size sz v) s)"

definition ldr_reg_t where "ldr_reg_t ia opcode s = load_word_t (reg_offset_addr ia opcode s) (t_rd opcode) s"
definition ldrb_reg_t where "ldrb_reg_t ia opcode s = load_byte_t (reg_offset_addr ia opcode s) (t_rd opcode) s"
definition ldrh_reg_t where "ldrh_reg_t ia opcode s = load_half_t (reg_offset_addr ia opcode s) (t_rd opcode) s"

definition ldrsb_reg_t :: "u32 \<Rightarrow> u16 \<Rightarrow> emu \<Rightarrow> (inst_result \<times> emu) option" where
  "ldrsb_reg_t ia opcode s =
     (let (v, s') = mem_read 1 (reg_offset_addr ia opcode s) s in Some (Continue 3, ctx_set_reg (t_rd opcode) (sext8 v) s'))"

definition ldrsh_reg_t :: "u32 \<Rightarrow> u16 \<Rightarrow> emu \<Rightarrow> (inst_result \<times> emu) option" where
  "ldrsh_reg_t ia opcode s =
     (let addr = reg_offset_addr ia opcode s;
          (v, s) = (if addr AND 1 \<noteq> 0 then map_prod sext8 id (mem_read 1 addr s)
                    else map_prod sext16 id (mem_read 2 addr s))
      in Some (Continue 3, ctx_set_reg (t_rd opcode) v s))"

definition str_reg_t where "str_reg_t ia opcode s = store_t 4 (reg_offset_addr ia opcode s) (ctx_reg ia (t_rd opcode) s) s"
definition strb_reg_t where "strb_reg_t ia opcode s = store_t 1 (reg_offset_addr ia opcode s) (ctx_reg ia (t_rd opcode) s) s"
definition strh_reg_t where "strh_reg_t ia opcode s = store_t 2 (reg_offset_addr ia opcode s) (ctx_reg ia (t_rd opcode) s) s"

text \<open>The scaled 5-bit immediate addresses.\<close>

definition imm5_word where "imm5_word ia opcode s = ctx_reg ia (t_rs opcode) s + ucast (drop_bit 4 opcode AND 0x7C :: u16)"
definition imm5_byte where "imm5_byte ia opcode s = ctx_reg ia (t_rs opcode) s + ucast (drop_bit 6 opcode AND 0x1F :: u16)"
definition imm5_half where "imm5_half ia opcode s = ctx_reg ia (t_rs opcode) s + ucast (drop_bit 5 opcode AND 0x3E :: u16)"

definition ldr_imm5_t where "ldr_imm5_t ia opcode s = load_word_t (imm5_word ia opcode s) (t_rd opcode) s"
definition ldrb_imm5_t where "ldrb_imm5_t ia opcode s = load_byte_t (imm5_byte ia opcode s) (t_rd opcode) s"
definition ldrh_imm5_t where "ldrh_imm5_t ia opcode s = load_half_t (imm5_half ia opcode s) (t_rd opcode) s"
definition str_imm5_t where "str_imm5_t ia opcode s = store_t 4 (imm5_word ia opcode s) (ctx_reg ia (t_rd opcode) s) s"
definition strb_imm5_t where "strb_imm5_t ia opcode s = store_t 1 (imm5_byte ia opcode s) (ctx_reg ia (t_rd opcode) s) s"
definition strh_imm5_t where "strh_imm5_t ia opcode s = store_t 2 (imm5_half ia opcode s) (ctx_reg ia (t_rd opcode) s) s"

definition ldr_pc_t where
  "ldr_pc_t ia opcode s = load_word_t (((ia + 4) AND NOT 3) + push_bit 2 (t_imm8 opcode)) (t_r8 opcode) s"

definition ldr_sp_t where
  "ldr_sp_t ia opcode s = load_word_t (ctx_reg ia 13 s + push_bit 2 (t_imm8 opcode)) (t_r8 opcode) s"

definition str_sp_t where
  "str_sp_t ia opcode s = store_t 4 (ctx_reg ia 13 s + push_bit 2 (t_imm8 opcode)) (ctx_reg ia (t_r8 opcode) s) s"

text \<open>The scatter loop of the block loads.\<close>

definition scatter :: "u32 \<Rightarrow> u32 list \<Rightarrow> emu \<Rightarrow> emu" where
  "scatter rlist values s = fold (\<lambda>(i, v). upd_reg i v) (zip (listed 8 rlist) values) s"

definition gather :: "u32 \<Rightarrow> u32 \<Rightarrow> emu \<Rightarrow> u32 list" where
  "gather ia rlist s = map (\<lambda>i. ctx_reg ia (of_nat i) s) (listed 8 rlist)"

definition ldmia_t :: "u32 \<Rightarrow> u16 \<Rightarrow> emu \<Rightarrow> (inst_result \<times> emu) option" where
  "ldmia_t ia opcode s =
     (let rb = t_r8 opcode; rlist = t_imm8 opcode; count = count_ones rlist; addr = ctx_reg ia rb s
      in if count = 0 then
           (let (target, s) = mem_read 4 addr s in Some (Branch 2 (target OR 1), ctx_set_reg rb (addr + 0x40) s))
         else
           (let (values, s) = mem_read_multiple_slice True 4 addr count s;
                s = ctx_set_reg rb (addr + of_nat count * 4) s
            in Some (Continue (of_nat count + 2), scatter rlist values s)))"

definition stmia_t :: "u32 \<Rightarrow> u16 \<Rightarrow> emu \<Rightarrow> (inst_result \<times> emu) option" where
  "stmia_t ia opcode s =
     (let rb = t_r8 opcode; rlist = t_imm8 opcode; count = count_ones rlist; addr = ctx_reg ia rb s
      in if count = 0 then
           do { s \<leftarrow> mem_write 4 addr (ia + 6) s; Some (ContinueStore 1, ctx_set_reg rb (addr + 0x40) s) }
         else
           (let final_base = addr + of_nat count * 4;
                s = (if push_bit (unat rb) 1 < rlist AND (push_bit (unat rb + 1) 1 - 1) then ctx_set_reg rb final_base s
                     else s)
            in do { s \<leftarrow> mem_write_multiple_slice 4 addr (Buf (gather ia rlist s)) s;
                    Some (ContinueStore (1 + of_nat count), ctx_set_reg rb final_base s) }))"

definition pop_t :: "u32 \<Rightarrow> u16 \<Rightarrow> emu \<Rightarrow> (inst_result \<times> emu) option" where
  "pop_t ia opcode s =
     (let rlist = t_imm8 opcode; count = count_ones rlist; sp = ctx_reg ia 13 s;
          (values, s) = mem_read_multiple_slice True 4 sp count s;
          s = scatter rlist values s
      in Some (Continue (of_nat count + 2), ctx_set_reg 13 (sp + of_nat count * 4) s))"

definition pop_pc_t :: "u32 \<Rightarrow> u16 \<Rightarrow> emu \<Rightarrow> (inst_result \<times> emu) option" where
  "pop_pc_t ia opcode s =
     (let rlist = t_imm8 opcode; count = count_ones rlist + 1; sp = ctx_reg ia 13 s;
          (values, s) = mem_read_multiple_slice True 4 sp count s;
          s = scatter rlist values s;
          target = (values ! (count - 1) AND NOT 1) OR 1
      in Some (BranchReturn (of_nat count + 2) target, ctx_set_reg 13 (sp + of_nat count * 4) s))"

definition push_t :: "u32 \<Rightarrow> u16 \<Rightarrow> emu \<Rightarrow> (inst_result \<times> emu) option" where
  "push_t ia opcode s =
     (let rlist = t_imm8 opcode; count = count_ones rlist; addr = ctx_reg ia 13 s - of_nat count * 4;
          s = ctx_set_reg 13 addr s
      in do { s \<leftarrow> mem_write_multiple_slice 4 addr (Buf (gather ia rlist s)) s;
              Some (ContinueStore (1 + of_nat count), s) })"

definition push_lr_t :: "u32 \<Rightarrow> u16 \<Rightarrow> emu \<Rightarrow> (inst_result \<times> emu) option" where
  "push_lr_t ia opcode s =
     (let rlist = t_imm8 opcode; count = count_ones rlist + 1; addr = ctx_reg ia 13 s - of_nat count * 4;
          s = ctx_set_reg 13 addr s
      in do { s \<leftarrow> mem_write_multiple_slice 4 addr (Buf (gather ia rlist s @ [ctx_reg ia 14 s])) s;
              Some (ContinueStore (1 + of_nat count), s) })"

end
