(* ===== verification/Dispatch.thy ===== *)
theory Dispatch
  imports InterpThumb
begin

text \<open>
  Instruction dispatch of the interpreter: the handler tables \<open>ARM_TABLE\<close> and \<open>THUMB_TABLE\<close> of
  \<open>src/src/jit/interpreter/arm_table.rs\<close> and \<open>thumb_table.rs\<close>, the condition table and the fetch-and-execute
  step of \<open>src/src/jit/interpreter/mod.rs\<close>. A table entry is a value of the datatype \<open>arm_fn\<close> or \<open>thumb_fn\<close>,
  one for each handler name the source generates (\<open>and_lli\<close> is \<open>FLogical And False Lli\<close>, \<open>strh_ptrm\<close> is
  \<open>FLdrhStrh False True False Pt False True\<close>), and \<open>arm_exec\<close>, \<open>thumb_exec\<close> run the handler. The 4096 ARM
  entries are kept in rows of 16 (one for each value of bits 27 to 20), the 1024 Thumb entries as runs.
  An undefined encoding aborts.
\<close>

section \<open>Handlers\<close>

datatype dsp_op =
  Qadd | Qsub | Qdadd | Qdsub | Smulbb | Smulbt | Smultb | Smultt | Smlabb | Smlabt | Smlatb | Smlatt | Smulwb
  | Smulwt | Smlawb | Smlawt | Smlalbb | Smlalbt | Smlaltb | Smlaltt

datatype arm_fn =
  FLogical logical_op bool shift_form
| FArith arith_op bool shift_form
| FTest test_op shift_form
| FMul32 bool bool
| FMul64 bool bool bool
| FLdrStr bool bool addr_mode bool off_kind
| FLdrhStrh bool bool bool addr_mode bool bool
| FLdrdStrd bool addr_mode bool bool
| FLdmStm bool bool bool bool bool
| FSwp bool
| FMrs bool
| FMsrR bool
| FMsrI bool
| FDsp dsp_op
| FClz | FB | FBl | FBx | FBlxReg | FSwi | FMcr | FMrc | FUndefined

fun arm_exec :: "host_math \<Rightarrow> arm_fn \<Rightarrow> u32 \<Rightarrow> u32 \<Rightarrow> emu \<Rightarrow> (inst_result \<times> emu) option" where
  "arm_exec h (FLogical p b f) ia opcode s = Some (logical p b f ia opcode s)"
| "arm_exec h (FArith p b f) ia opcode s = Some (arith p b f ia opcode s)"
| "arm_exec h (FTest p f) ia opcode s = Some (test p f ia opcode s)"
| "arm_exec h (FMul32 b acc) ia opcode s = Some (mul32 b acc ia opcode s)"
| "arm_exec h (FMul64 b acc sg) ia opcode s = Some (mul64 b acc sg ia opcode s)"
| "arm_exec h (FLdrStr load byte m up k) ia opcode s = ldr_str load byte m up k ia opcode s"
| "arm_exec h (FLdrhStrh load half sg m up r) ia opcode s = ldrh_strh load half sg m up r ia opcode s"
| "arm_exec h (FLdrdStrd store m up r) ia opcode s = Some (ldrd_strd ia opcode s)"
| "arm_exec h (FLdmStm load pre up usr wb) ia opcode s = ldm_stm load pre up usr wb ia opcode s"
| "arm_exec h (FSwp byte) ia opcode s = swp_common byte ia opcode s"
| "arm_exec h (FMrs sp) ia opcode s = Some (if sp then mrs_rs ia opcode s else mrs_rc ia opcode s)"
| "arm_exec h (FMsrR sp) ia opcode s = Some (msr_r sp ia opcode s)"
| "arm_exec h (FMsrI sp) ia opcode s = Some (msr_i sp ia opcode s)"
| "arm_exec h (FDsp p) ia opcode s = Some (dsp_nop ia opcode s)"
| "arm_exec h FClz ia opcode s = Some (clz ia opcode s)"
| "arm_exec h FB ia opcode s = Some (b_arm ia opcode s)"
| "arm_exec h FBl ia opcode s = Some (bl ia opcode s)"
| "arm_exec h FBx ia opcode s = Some (bx ia opcode s)"
| "arm_exec h FBlxReg ia opcode s = Some (blx_reg ia opcode s)"
| "arm_exec h FSwi ia opcode s = swi_arm h ia opcode s"
| "arm_exec h FMcr ia opcode s = Some (coprocessor_nop ia opcode s)"
| "arm_exec h FMrc ia opcode s = Some (coprocessor_nop ia opcode s)"
| "arm_exec h FUndefined ia opcode s = None"

datatype thumb_fn =
  TLslImm | TLsrImm | TAsrImm | TAddSub bool bool | TMovImm8 | TCmpImm8 | TAddImm8 | TSubImm8 | TDp logical_op
  | TLslDp | TLsrDp | TAsrDp | TAdcDp | TSbcDp | TRorDp | TTstDp | TNegDp | TCmpDp | TCmnDp | TMulDp | TAddH
  | TCmpH | TMovH | TBxReg | TBlxReg | TLdrPc | TStrReg | TStrhReg | TStrbReg | TLdrsbReg | TLdrReg | TLdrhReg
  | TLdrbReg | TLdrshReg | TStrImm5 | TLdrImm5 | TStrbImm5 | TLdrbImm5 | TStrhImm5 | TLdrhImm5 | TStrSp
  | TLdrSp | TAddPc | TAddSp | TAddSpImm | TUndefined | TPush | TPushLr | TPop | TPopPc | TStmia | TLdmia
  | TBcond condition | TSwi | TB | TBlxOff | TBlSetup | TBlOff

fun thumb_exec :: "host_math \<Rightarrow> thumb_fn \<Rightarrow> u32 \<Rightarrow> u16 \<Rightarrow> emu \<Rightarrow> (inst_result \<times> emu) option" where
  "thumb_exec h TLslImm ia opcode s = Some (lsl_imm_t ia opcode s)"
| "thumb_exec h TLsrImm ia opcode s = Some (lsr_imm_t ia opcode s)"
| "thumb_exec h TAsrImm ia opcode s = Some (asr_imm_t ia opcode s)"
| "thumb_exec h (TAddSub imm sub) ia opcode s = Some (add_sub_t imm sub ia opcode s)"
| "thumb_exec h TMovImm8 ia opcode s = Some (mov_imm8_t ia opcode s)"
| "thumb_exec h TCmpImm8 ia opcode s = Some (cmp_imm8_t ia opcode s)"
| "thumb_exec h TAddImm8 ia opcode s = Some (add_imm8_t ia opcode s)"
| "thumb_exec h TSubImm8 ia opcode s = Some (sub_imm8_t ia opcode s)"
| "thumb_exec h (TDp p) ia opcode s = Some (dp_logical_t p ia opcode s)"
| "thumb_exec h TLslDp ia opcode s = Some (lsl_dp_t ia opcode s)"
| "thumb_exec h TLsrDp ia opcode s = Some (lsr_dp_t ia opcode s)"
| "thumb_exec h TAsrDp ia opcode s = Some (asr_dp_t ia opcode s)"
| "thumb_exec h TAdcDp ia opcode s = Some (adc_dp_t ia opcode s)"
| "thumb_exec h TSbcDp ia opcode s = Some (sbc_dp_t ia opcode s)"
| "thumb_exec h TRorDp ia opcode s = Some (ror_dp_t ia opcode s)"
| "thumb_exec h TTstDp ia opcode s = Some (tst_dp_t ia opcode s)"
| "thumb_exec h TNegDp ia opcode s = Some (neg_dp_t ia opcode s)"
| "thumb_exec h TCmpDp ia opcode s = Some (cmp_dp_t ia opcode s)"
| "thumb_exec h TCmnDp ia opcode s = Some (cmn_dp_t ia opcode s)"
| "thumb_exec h TMulDp ia opcode s = Some (mul_dp_t ia opcode s)"
| "thumb_exec h TAddH ia opcode s = Some (add_h_t ia opcode s)"
| "thumb_exec h TCmpH ia opcode s = Some (cmp_h_t ia opcode s)"
| "thumb_exec h TMovH ia opcode s = Some (mov_h_t ia opcode s)"
| "thumb_exec h TBxReg ia opcode s = Some (bx_reg_t ia opcode s)"
| "thumb_exec h TBlxReg ia opcode s = Some (blx_nop_t ia opcode s)"
| "thumb_exec h TLdrPc ia opcode s = ldr_pc_t ia opcode s"
| "thumb_exec h TStrReg ia opcode s = str_reg_t ia opcode s"
| "thumb_exec h TStrhReg ia opcode s = strh_reg_t ia opcode s"
| "thumb_exec h TStrbReg ia opcode s = strb_reg_t ia opcode s"
| "thumb_exec h TLdrsbReg ia opcode s = ldrsb_reg_t ia opcode s"
| "thumb_exec h TLdrReg ia opcode s = ldr_reg_t ia opcode s"
| "thumb_exec h TLdrhReg ia opcode s = ldrh_reg_t ia opcode s"
| "thumb_exec h TLdrbReg ia opcode s = ldrb_reg_t ia opcode s"
| "thumb_exec h TLdrshReg ia opcode s = ldrsh_reg_t ia opcode s"
| "thumb_exec h TStrImm5 ia opcode s = str_imm5_t ia opcode s"
| "thumb_exec h TLdrImm5 ia opcode s = ldr_imm5_t ia opcode s"
| "thumb_exec h TStrbImm5 ia opcode s = strb_imm5_t ia opcode s"
| "thumb_exec h TLdrbImm5 ia opcode s = ldrb_imm5_t ia opcode s"
| "thumb_exec h TStrhImm5 ia opcode s = strh_imm5_t ia opcode s"
| "thumb_exec h TLdrhImm5 ia opcode s = ldrh_imm5_t ia opcode s"
| "thumb_exec h TStrSp ia opcode s = str_sp_t ia opcode s"
| "thumb_exec h TLdrSp ia opcode s = ldr_sp_t ia opcode s"
| "thumb_exec h TAddPc ia opcode s = Some (add_pc_t ia opcode s)"
| "thumb_exec h TAddSp ia opcode s = Some (add_sp_t ia opcode s)"
| "thumb_exec h TAddSpImm ia opcode s = Some (add_sp_imm_t ia opcode s)"
| "thumb_exec h TUndefined ia opcode s = None"
| "thumb_exec h TPush ia opcode s = push_t ia opcode s"
| "thumb_exec h TPushLr ia opcode s = push_lr_t ia opcode s"
| "thumb_exec h TPop ia opcode s = pop_t ia opcode s"
| "thumb_exec h TPopPc ia opcode s = pop_pc_t ia opcode s"
| "thumb_exec h TStmia ia opcode s = stmia_t ia opcode s"
| "thumb_exec h TLdmia ia opcode s = ldmia_t ia opcode s"
| "thumb_exec h (TBcond p) ia opcode s = Some (bcond_t p ia opcode s)"
| "thumb_exec h TSwi ia opcode s = swi_t h ia opcode s"
| "thumb_exec h TB ia opcode s = Some (b_t ia opcode s)"
| "thumb_exec h TBlxOff ia opcode s = Some (blx_nop_t ia opcode s)"
| "thumb_exec h TBlSetup ia opcode s = Some (bl_setup_t ia opcode s)"
| "thumb_exec h TBlOff ia opcode s = Some (bl_off_t ia opcode s)"

section \<open>ARM table (arm_table.rs)\<close>

definition ARM_ROWS_0 :: "arm_fn list list" where
  "ARM_ROWS_0 =
     [[FLogical And False Lli, FLogical And False Llr, FLogical And False Lri, FLogical And False Lrr,
      FLogical And False Ari, FLogical And False Arr, FLogical And False Rri, FLogical And False Rrr,
      FLogical And False Lli, FMul32 False False, FLogical And False Lri, FLdrhStrh False True False Pt False True,
      FLogical And False Ari, FLdrdStrd False Pt False True, FLogical And False Rri, FLdrdStrd True Pt False True],
      [FLogical And True Lli, FLogical And True Llr, FLogical And True Lri, FLogical And True Lrr, FLogical And True Ari,
      FLogical And True Arr, FLogical And True Rri, FLogical And True Rrr, FLogical And True Lli, FMul32 True False,
      FLogical And True Lri, FLdrhStrh True True False Pt False True, FLogical And True Ari,
      FLdrhStrh True False True Pt False True, FLogical And True Rri, FLdrhStrh True True True Pt False True],
      [FLogical Eor False Lli, FLogical Eor False Llr, FLogical Eor False Lri, FLogical Eor False Lrr,
      FLogical Eor False Ari, FLogical Eor False Arr, FLogical Eor False Rri, FLogical Eor False Rrr,
      FLogical Eor False Lli, FMul32 False True, FLogical Eor False Lri, FLdrhStrh False True False Pt False True,
      FLogical Eor False Ari, FLdrdStrd False Pt False True, FLogical Eor False Rri, FLdrdStrd True Pt False True],
      [FLogical Eor True Lli, FLogical Eor True Llr, FLogical Eor True Lri, FLogical Eor True Lrr, FLogical Eor True Ari,
      FLogical Eor True Arr, FLogical Eor True Rri, FLogical Eor True Rrr, FLogical Eor True Lli, FMul32 True True,
      FLogical Eor True Lri, FLdrhStrh True True False Pt False True, FLogical Eor True Ari,
      FLdrhStrh True False True Pt False True, FLogical Eor True Rri, FLdrhStrh True True True Pt False True],
      [FArith Sub False Lli, FArith Sub False Llr, FArith Sub False Lri, FArith Sub False Lrr, FArith Sub False Ari,
      FArith Sub False Arr, FArith Sub False Rri, FArith Sub False Rrr, FArith Sub False Lli, FUndefined,
      FArith Sub False Lri, FLdrhStrh False True False Pt False False, FArith Sub False Ari,
      FLdrdStrd False Pt False False, FArith Sub False Rri, FLdrdStrd True Pt False False],
      [FArith Sub True Lli, FArith Sub True Llr, FArith Sub True Lri, FArith Sub True Lrr, FArith Sub True Ari,
      FArith Sub True Arr, FArith Sub True Rri, FArith Sub True Rrr, FArith Sub True Lli, FUndefined, FArith Sub True Lri,
      FLdrhStrh True True False Pt False False, FArith Sub True Ari, FLdrhStrh True False True Pt False False,
      FArith Sub True Rri, FLdrhStrh True True True Pt False False],
      [FArith Rsb False Lli, FArith Rsb False Llr, FArith Rsb False Lri, FArith Rsb False Lrr, FArith Rsb False Ari,
      FArith Rsb False Arr, FArith Rsb False Rri, FArith Rsb False Rrr, FArith Rsb False Lli, FUndefined,
      FArith Rsb False Lri, FLdrhStrh False True False Pt False False, FArith Rsb False Ari,
      FLdrdStrd False Pt False False, FArith Rsb False Rri, FLdrdStrd True Pt False False],
      [FArith Rsb True Lli, FArith Rsb True Llr, FArith Rsb True Lri, FArith Rsb True Lrr, FArith Rsb True Ari,
      FArith Rsb True Arr, FArith Rsb True Rri, FArith Rsb True Rrr, FArith Rsb True Lli, FUndefined, FArith Rsb True Lri,
      FLdrhStrh True True False Pt False False, FArith Rsb True Ari, FLdrhStrh True False True Pt False False,
      FArith Rsb True Rri, FLdrhStrh True True True Pt False False]]"

definition ARM_ROWS_1 :: "arm_fn list list" where
  "ARM_ROWS_1 =
     [[FArith Add False Lli, FArith Add False Llr, FArith Add False Lri, FArith Add False Lrr, FArith Add False Ari,
      FArith Add False Arr, FArith Add False Rri, FArith Add False Rrr, FArith Add False Lli, FMul64 False False False,
      FArith Add False Lri, FLdrhStrh False True False Pt True True, FArith Add False Ari, FLdrdStrd False Pt True True,
      FArith Add False Rri, FLdrdStrd True Pt True True],
      [FArith Add True Lli, FArith Add True Llr, FArith Add True Lri, FArith Add True Lrr, FArith Add True Ari,
      FArith Add True Arr, FArith Add True Rri, FArith Add True Rrr, FArith Add True Lli, FMul64 True False False,
      FArith Add True Lri, FLdrhStrh True True False Pt True True, FArith Add True Ari,
      FLdrhStrh True False True Pt True True, FArith Add True Rri, FLdrhStrh True True True Pt True True],
      [FArith Adc False Lli, FArith Adc False Llr, FArith Adc False Lri, FArith Adc False Lrr, FArith Adc False Ari,
      FArith Adc False Arr, FArith Adc False Rri, FArith Adc False Rrr, FArith Adc False Lli, FMul64 False True False,
      FArith Adc False Lri, FLdrhStrh False True False Pt True True, FArith Adc False Ari, FLdrdStrd False Pt True True,
      FArith Adc False Rri, FLdrdStrd True Pt True True],
      [FArith Adc True Lli, FArith Adc True Llr, FArith Adc True Lri, FArith Adc True Lrr, FArith Adc True Ari,
      FArith Adc True Arr, FArith Adc True Rri, FArith Adc True Rrr, FArith Adc True Lli, FMul64 True True False,
      FArith Adc True Lri, FLdrhStrh True True False Pt True True, FArith Adc True Ari,
      FLdrhStrh True False True Pt True True, FArith Adc True Rri, FLdrhStrh True True True Pt True True],
      [FArith Sbc False Lli, FArith Sbc False Llr, FArith Sbc False Lri, FArith Sbc False Lrr, FArith Sbc False Ari,
      FArith Sbc False Arr, FArith Sbc False Rri, FArith Sbc False Rrr, FArith Sbc False Lli, FMul64 False False True,
      FArith Sbc False Lri, FLdrhStrh False True False Pt True False, FArith Sbc False Ari, FLdrdStrd False Pt True False,
      FArith Sbc False Rri, FLdrdStrd True Pt True False],
      [FArith Sbc True Lli, FArith Sbc True Llr, FArith Sbc True Lri, FArith Sbc True Lrr, FArith Sbc True Ari,
      FArith Sbc True Arr, FArith Sbc True Rri, FArith Sbc True Rrr, FArith Sbc True Lli, FMul64 True False True,
      FArith Sbc True Lri, FLdrhStrh True True False Pt True False, FArith Sbc True Ari,
      FLdrhStrh True False True Pt True False, FArith Sbc True Rri, FLdrhStrh True True True Pt True False],
      [FArith Rsc False Lli, FArith Rsc False Llr, FArith Rsc False Lri, FArith Rsc False Lrr, FArith Rsc False Ari,
      FArith Rsc False Arr, FArith Rsc False Rri, FArith Rsc False Rrr, FArith Rsc False Lli, FMul64 False True True,
      FArith Rsc False Lri, FLdrhStrh False True False Pt True False, FArith Rsc False Ari, FLdrdStrd False Pt True False,
      FArith Rsc False Rri, FLdrdStrd True Pt True False],
      [FArith Rsc True Lli, FArith Rsc True Llr, FArith Rsc True Lri, FArith Rsc True Lrr, FArith Rsc True Ari,
      FArith Rsc True Arr, FArith Rsc True Rri, FArith Rsc True Rrr, FArith Rsc True Lli, FMul64 True True True,
      FArith Rsc True Lri, FLdrhStrh True True False Pt True False, FArith Rsc True Ari,
      FLdrhStrh True False True Pt True False, FArith Rsc True Rri, FLdrhStrh True True True Pt True False]]"

definition ARM_ROWS_2 :: "arm_fn list list" where
  "ARM_ROWS_2 =
     [[FMrs False, FUndefined, FUndefined, FUndefined, FUndefined, FDsp Qadd, FUndefined, FUndefined, FDsp Smlabb,
      FSwp False, FDsp Smlatb, FLdrhStrh False True False Of False True, FDsp Smlabt, FLdrdStrd False Of False True,
      FDsp Smlatt, FLdrdStrd True Of False True],
      [FTest Tst Lli, FTest Tst Llr, FTest Tst Lri, FTest Tst Lrr, FTest Tst Ari, FTest Tst Arr, FTest Tst Rri,
      FTest Tst Rrr, FTest Tst Lli, FUndefined, FTest Tst Lri, FLdrhStrh True True False Of False True, FTest Tst Ari,
      FLdrhStrh True False True Of False True, FTest Tst Rri, FLdrhStrh True True True Of False True],
      [FMsrR False, FBx, FUndefined, FBlxReg, FUndefined, FDsp Qsub, FUndefined, FUndefined, FDsp Smlawb, FUndefined,
      FDsp Smulwb, FLdrhStrh False True False Pr False True, FDsp Smlawt, FLdrdStrd False Pr False True, FDsp Smulwt,
      FLdrdStrd True Pr False True],
      [FTest Teq Lli, FTest Teq Llr, FTest Teq Lri, FTest Teq Lrr, FTest Teq Ari, FTest Teq Arr, FTest Teq Rri,
      FTest Teq Rrr, FTest Teq Lli, FUndefined, FTest Teq Lri, FLdrhStrh True True False Pr False True, FTest Teq Ari,
      FLdrhStrh True False True Pr False True, FTest Teq Rri, FLdrhStrh True True True Pr False True],
      [FMrs True, FUndefined, FUndefined, FUndefined, FUndefined, FDsp Qdadd, FUndefined, FUndefined, FDsp Smlalbb,
      FSwp True, FDsp Smlaltb, FLdrhStrh False True False Of False False, FDsp Smlalbt, FLdrdStrd False Of False False,
      FDsp Smlaltt, FLdrdStrd True Of False False],
      [FTest Cmp Lli, FTest Cmp Llr, FTest Cmp Lri, FTest Cmp Lrr, FTest Cmp Ari, FTest Cmp Arr, FTest Cmp Rri,
      FTest Cmp Rrr, FTest Cmp Lli, FUndefined, FTest Cmp Lri, FLdrhStrh True True False Of False False, FTest Cmp Ari,
      FLdrhStrh True False True Of False False, FTest Cmp Rri, FLdrhStrh True True True Of False False],
      [FMsrR True, FClz, FUndefined, FUndefined, FUndefined, FDsp Qdsub, FUndefined, FUndefined, FDsp Smulbb, FUndefined,
      FDsp Smultb, FLdrhStrh False True False Pr False False, FDsp Smulbt, FLdrdStrd False Pr False False, FDsp Smultt,
      FLdrdStrd True Pr False False],
      [FTest Cmn Lli, FTest Cmn Llr, FTest Cmn Lri, FTest Cmn Lrr, FTest Cmn Ari, FTest Cmn Arr, FTest Cmn Rri,
      FTest Cmn Rrr, FTest Cmn Lli, FUndefined, FTest Cmn Lri, FLdrhStrh True True False Pr False False, FTest Cmn Ari,
      FLdrhStrh True False True Pr False False, FTest Cmn Rri, FLdrhStrh True True True Pr False False]]"

definition ARM_ROWS_3 :: "arm_fn list list" where
  "ARM_ROWS_3 =
     [[FLogical Orr False Lli, FLogical Orr False Llr, FLogical Orr False Lri, FLogical Orr False Lrr,
      FLogical Orr False Ari, FLogical Orr False Arr, FLogical Orr False Rri, FLogical Orr False Rrr,
      FLogical Orr False Lli, FUndefined, FLogical Orr False Lri, FLdrhStrh False True False Of True True,
      FLogical Orr False Ari, FLdrdStrd False Of True True, FLogical Orr False Rri, FLdrdStrd True Of True True],
      [FLogical Orr True Lli, FLogical Orr True Llr, FLogical Orr True Lri, FLogical Orr True Lrr, FLogical Orr True Ari,
      FLogical Orr True Arr, FLogical Orr True Rri, FLogical Orr True Rrr, FLogical Orr True Lli, FUndefined,
      FLogical Orr True Lri, FLdrhStrh True True False Of True True, FLogical Orr True Ari,
      FLdrhStrh True False True Of True True, FLogical Orr True Rri, FLdrhStrh True True True Of True True],
      [FLogical Mov False Lli, FLogical Mov False Llr, FLogical Mov False Lri, FLogical Mov False Lrr,
      FLogical Mov False Ari, FLogical Mov False Arr, FLogical Mov False Rri, FLogical Mov False Rrr,
      FLogical Mov False Lli, FUndefined, FLogical Mov False Lri, FLdrhStrh False True False Pr True True,
      FLogical Mov False Ari, FLdrdStrd False Pr True True, FLogical Mov False Rri, FLdrdStrd True Pr True True],
      [FLogical Mov True Lli, FLogical Mov True Llr, FLogical Mov True Lri, FLogical Mov True Lrr, FLogical Mov True Ari,
      FLogical Mov True Arr, FLogical Mov True Rri, FLogical Mov True Rrr, FLogical Mov True Lli, FUndefined,
      FLogical Mov True Lri, FLdrhStrh True True False Pr True True, FLogical Mov True Ari,
      FLdrhStrh True False True Pr True True, FLogical Mov True Rri, FLdrhStrh True True True Pr True True],
      [FLogical Bic False Lli, FLogical Bic False Llr, FLogical Bic False Lri, FLogical Bic False Lrr,
      FLogical Bic False Ari, FLogical Bic False Arr, FLogical Bic False Rri, FLogical Bic False Rrr,
      FLogical Bic False Lli, FUndefined, FLogical Bic False Lri, FLdrhStrh False True False Of True False,
      FLogical Bic False Ari, FLdrdStrd False Of True False, FLogical Bic False Rri, FLdrdStrd True Of True False],
      [FLogical Bic True Lli, FLogical Bic True Llr, FLogical Bic True Lri, FLogical Bic True Lrr, FLogical Bic True Ari,
      FLogical Bic True Arr, FLogical Bic True Rri, FLogical Bic True Rrr, FLogical Bic True Lli, FUndefined,
      FLogical Bic True Lri, FLdrhStrh True True False Of True False, FLogical Bic True Ari,
      FLdrhStrh True False True Of True False, FLogical Bic True Rri, FLdrhStrh True True True Of True False],
      [FLogical Mvn False Lli, FLogical Mvn False Llr, FLogical Mvn False Lri, FLogical Mvn False Lrr,
      FLogical Mvn False Ari, FLogical Mvn False Arr, FLogical Mvn False Rri, FLogical Mvn False Rrr,
      FLogical Mvn False Lli, FUndefined, FLogical Mvn False Lri, FLdrhStrh False True False Pr True False,
      FLogical Mvn False Ari, FLdrdStrd False Pr True False, FLogical Mvn False Rri, FLdrdStrd True Pr True False],
      [FLogical Mvn True Lli, FLogical Mvn True Llr, FLogical Mvn True Lri, FLogical Mvn True Lrr, FLogical Mvn True Ari,
      FLogical Mvn True Arr, FLogical Mvn True Rri, FLogical Mvn True Rrr, FLogical Mvn True Lli, FUndefined,
      FLogical Mvn True Lri, FLdrhStrh True True False Pr True False, FLogical Mvn True Ari,
      FLdrhStrh True False True Pr True False, FLogical Mvn True Rri, FLdrhStrh True True True Pr True False]]"

definition ARM_ROWS_4 :: "arm_fn list list" where
  "ARM_ROWS_4 =
     [replicate 16 (FLogical And False Imm),
      replicate 16 (FLogical And True Imm),
      replicate 16 (FLogical Eor False Imm),
      replicate 16 (FLogical Eor True Imm),
      replicate 16 (FArith Sub False Imm),
      replicate 16 (FArith Sub True Imm),
      replicate 16 (FArith Rsb False Imm),
      replicate 16 (FArith Rsb True Imm)]"

definition ARM_ROWS_5 :: "arm_fn list list" where
  "ARM_ROWS_5 =
     [replicate 16 (FArith Add False Imm),
      replicate 16 (FArith Add True Imm),
      replicate 16 (FArith Adc False Imm),
      replicate 16 (FArith Adc True Imm),
      replicate 16 (FArith Sbc False Imm),
      replicate 16 (FArith Sbc True Imm),
      replicate 16 (FArith Rsc False Imm),
      replicate 16 (FArith Rsc True Imm)]"

definition ARM_ROWS_6 :: "arm_fn list list" where
  "ARM_ROWS_6 =
     [replicate 16 FUndefined,
      replicate 16 (FTest Tst Imm),
      replicate 16 (FMsrI False),
      replicate 16 (FTest Teq Imm),
      replicate 16 FUndefined,
      replicate 16 (FTest Cmp Imm),
      replicate 16 (FMsrI True),
      replicate 16 (FTest Cmn Imm)]"

definition ARM_ROWS_7 :: "arm_fn list list" where
  "ARM_ROWS_7 =
     [replicate 16 (FLogical Orr False Imm),
      replicate 16 (FLogical Orr True Imm),
      replicate 16 (FLogical Mov False Imm),
      replicate 16 (FLogical Mov True Imm),
      replicate 16 (FLogical Bic False Imm),
      replicate 16 (FLogical Bic True Imm),
      replicate 16 (FLogical Mvn False Imm),
      replicate 16 (FLogical Mvn True Imm)]"

definition ARM_ROWS_8 :: "arm_fn list list" where
  "ARM_ROWS_8 =
     [replicate 16 (FLdrStr False False Pt False OffImm),
      replicate 16 (FLdrStr True False Pt False OffImm),
      replicate 16 FUndefined,
      replicate 16 FUndefined,
      replicate 16 (FLdrStr False True Pt False OffImm),
      replicate 16 (FLdrStr True True Pt False OffImm),
      replicate 16 FUndefined,
      replicate 16 FUndefined]"

definition ARM_ROWS_9 :: "arm_fn list list" where
  "ARM_ROWS_9 =
     [replicate 16 (FLdrStr False False Pt True OffImm),
      replicate 16 (FLdrStr True False Pt True OffImm),
      replicate 16 FUndefined,
      replicate 16 FUndefined,
      replicate 16 (FLdrStr False True Pt True OffImm),
      replicate 16 (FLdrStr True True Pt True OffImm),
      replicate 16 FUndefined,
      replicate 16 FUndefined]"

definition ARM_ROWS_10 :: "arm_fn list list" where
  "ARM_ROWS_10 =
     [replicate 16 (FLdrStr False False Of False OffImm),
      replicate 16 (FLdrStr True False Of False OffImm),
      replicate 16 (FLdrStr False False Pr False OffImm),
      replicate 16 (FLdrStr True False Pr False OffImm),
      replicate 16 (FLdrStr False True Of False OffImm),
      replicate 16 (FLdrStr True True Of False OffImm),
      replicate 16 (FLdrStr False True Pr False OffImm),
      replicate 16 (FLdrStr True True Pr False OffImm)]"

definition ARM_ROWS_11 :: "arm_fn list list" where
  "ARM_ROWS_11 =
     [replicate 16 (FLdrStr False False Of True OffImm),
      replicate 16 (FLdrStr True False Of True OffImm),
      replicate 16 (FLdrStr False False Pr True OffImm),
      replicate 16 (FLdrStr True False Pr True OffImm),
      replicate 16 (FLdrStr False True Of True OffImm),
      replicate 16 (FLdrStr True True Of True OffImm),
      replicate 16 (FLdrStr False True Pr True OffImm),
      replicate 16 (FLdrStr True True Pr True OffImm)]"

definition ARM_ROWS_12 :: "arm_fn list list" where
  "ARM_ROWS_12 =
     [[FLdrStr False False Pt False OffLsl, FUndefined, FLdrStr False False Pt False OffLsr, FUndefined,
      FLdrStr False False Pt False OffAsr, FUndefined, FLdrStr False False Pt False OffRor, FUndefined,
      FLdrStr False False Pt False OffLsl, FUndefined, FLdrStr False False Pt False OffLsr, FUndefined,
      FLdrStr False False Pt False OffAsr, FUndefined, FLdrStr False False Pt False OffRor, FUndefined],
      [FLdrStr True False Pt False OffLsl, FUndefined, FLdrStr True False Pt False OffLsr, FUndefined,
      FLdrStr True False Pt False OffAsr, FUndefined, FLdrStr True False Pt False OffRor, FUndefined,
      FLdrStr True False Pt False OffLsl, FUndefined, FLdrStr True False Pt False OffLsr, FUndefined,
      FLdrStr True False Pt False OffAsr, FUndefined, FLdrStr True False Pt False OffRor, FUndefined],
      replicate 16 FUndefined,
      replicate 16 FUndefined,
      [FLdrStr False True Pt False OffLsl, FUndefined, FLdrStr False True Pt False OffLsr, FUndefined,
      FLdrStr False True Pt False OffAsr, FUndefined, FLdrStr False True Pt False OffRor, FUndefined,
      FLdrStr False True Pt False OffLsl, FUndefined, FLdrStr False True Pt False OffLsr, FUndefined,
      FLdrStr False True Pt False OffAsr, FUndefined, FLdrStr False True Pt False OffRor, FUndefined],
      [FLdrStr True True Pt False OffLsl, FUndefined, FLdrStr True True Pt False OffLsr, FUndefined,
      FLdrStr True True Pt False OffAsr, FUndefined, FLdrStr True True Pt False OffRor, FUndefined,
      FLdrStr True True Pt False OffLsl, FUndefined, FLdrStr True True Pt False OffLsr, FUndefined,
      FLdrStr True True Pt False OffAsr, FUndefined, FLdrStr True True Pt False OffRor, FUndefined],
      replicate 16 FUndefined,
      replicate 16 FUndefined]"

definition ARM_ROWS_13 :: "arm_fn list list" where
  "ARM_ROWS_13 =
     [[FLdrStr False False Pt True OffLsl, FUndefined, FLdrStr False False Pt True OffLsr, FUndefined,
      FLdrStr False False Pt True OffAsr, FUndefined, FLdrStr False False Pt True OffRor, FUndefined,
      FLdrStr False False Pt True OffLsl, FUndefined, FLdrStr False False Pt True OffLsr, FUndefined,
      FLdrStr False False Pt True OffAsr, FUndefined, FLdrStr False False Pt True OffRor, FUndefined],
      [FLdrStr True False Pt True OffLsl, FUndefined, FLdrStr True False Pt True OffLsr, FUndefined,
      FLdrStr True False Pt True OffAsr, FUndefined, FLdrStr True False Pt True OffRor, FUndefined,
      FLdrStr True False Pt True OffLsl, FUndefined, FLdrStr True False Pt True OffLsr, FUndefined,
      FLdrStr True False Pt True OffAsr, FUndefined, FLdrStr True False Pt True OffRor, FUndefined],
      replicate 16 FUndefined,
      replicate 16 FUndefined,
      [FLdrStr False True Pt True OffLsl, FUndefined, FLdrStr False True Pt True OffLsr, FUndefined,
      FLdrStr False True Pt True OffAsr, FUndefined, FLdrStr False True Pt True OffRor, FUndefined,
      FLdrStr False True Pt True OffLsl, FUndefined, FLdrStr False True Pt True OffLsr, FUndefined,
      FLdrStr False True Pt True OffAsr, FUndefined, FLdrStr False True Pt True OffRor, FUndefined],
      [FLdrStr True True Pt True OffLsl, FUndefined, FLdrStr True True Pt True OffLsr, FUndefined,
      FLdrStr True True Pt True OffAsr, FUndefined, FLdrStr True True Pt True OffRor, FUndefined,
      FLdrStr True True Pt True OffLsl, FUndefined, FLdrStr True True Pt True OffLsr, FUndefined,
      FLdrStr True True Pt True OffAsr, FUndefined, FLdrStr True True Pt True OffRor, FUndefined],
      replicate 16 FUndefined,
      replicate 16 FUndefined]"

definition ARM_ROWS_14 :: "arm_fn list list" where
  "ARM_ROWS_14 =
     [[FLdrStr False False Of False OffLsl, FUndefined, FLdrStr False False Of False OffLsr, FUndefined,
      FLdrStr False False Of False OffAsr, FUndefined, FLdrStr False False Of False OffRor, FUndefined,
      FLdrStr False False Of False OffLsl, FUndefined, FLdrStr False False Of False OffLsr, FUndefined,
      FLdrStr False False Of False OffAsr, FUndefined, FLdrStr False False Of False OffRor, FUndefined],
      [FLdrStr True False Of False OffLsl, FUndefined, FLdrStr True False Of False OffLsr, FUndefined,
      FLdrStr True False Of False OffAsr, FUndefined, FLdrStr True False Of False OffRor, FUndefined,
      FLdrStr True False Of False OffLsl, FUndefined, FLdrStr True False Of False OffLsr, FUndefined,
      FLdrStr True False Of False OffAsr, FUndefined, FLdrStr True False Of False OffRor, FUndefined],
      [FLdrStr False False Pr False OffLsl, FUndefined, FLdrStr False False Pr False OffLsr, FUndefined,
      FLdrStr False False Pr False OffAsr, FUndefined, FLdrStr False False Pr False OffRor, FUndefined,
      FLdrStr False False Pr False OffLsl, FUndefined, FLdrStr False False Pr False OffLsr, FUndefined,
      FLdrStr False False Pr False OffAsr, FUndefined, FLdrStr False False Pr False OffRor, FUndefined],
      [FLdrStr True False Pr False OffLsl, FUndefined, FLdrStr True False Pr False OffLsr, FUndefined,
      FLdrStr True False Pr False OffAsr, FUndefined, FLdrStr True False Pr False OffRor, FUndefined,
      FLdrStr True False Pr False OffLsl, FUndefined, FLdrStr True False Pr False OffLsr, FUndefined,
      FLdrStr True False Pr False OffAsr, FUndefined, FLdrStr True False Pr False OffRor, FUndefined],
      [FLdrStr False True Of False OffLsl, FUndefined, FLdrStr False True Of False OffLsr, FUndefined,
      FLdrStr False True Of False OffAsr, FUndefined, FLdrStr False True Of False OffRor, FUndefined,
      FLdrStr False True Of False OffLsl, FUndefined, FLdrStr False True Of False OffLsr, FUndefined,
      FLdrStr False True Of False OffAsr, FUndefined, FLdrStr False True Of False OffRor, FUndefined],
      [FLdrStr True True Of False OffLsl, FUndefined, FLdrStr True True Of False OffLsr, FUndefined,
      FLdrStr True True Of False OffAsr, FUndefined, FLdrStr True True Of False OffRor, FUndefined,
      FLdrStr True True Of False OffLsl, FUndefined, FLdrStr True True Of False OffLsr, FUndefined,
      FLdrStr True True Of False OffAsr, FUndefined, FLdrStr True True Of False OffRor, FUndefined],
      [FLdrStr False True Pr False OffLsl, FUndefined, FLdrStr False True Pr False OffLsr, FUndefined,
      FLdrStr False True Pr False OffAsr, FUndefined, FLdrStr False True Pr False OffRor, FUndefined,
      FLdrStr False True Pr False OffLsl, FUndefined, FLdrStr False True Pr False OffLsr, FUndefined,
      FLdrStr False True Pr False OffAsr, FUndefined, FLdrStr False True Pr False OffRor, FUndefined],
      [FLdrStr True True Pr False OffLsl, FUndefined, FLdrStr True True Pr False OffLsr, FUndefined,
      FLdrStr True True Pr False OffAsr, FUndefined, FLdrStr True True Pr False OffRor, FUndefined,
      FLdrStr True True Pr False OffLsl, FUndefined, FLdrStr True True Pr False OffLsr, FUndefined,
      FLdrStr True True Pr False OffAsr, FUndefined, FLdrStr True True Pr False OffRor, FUndefined]]"

definition ARM_ROWS_15 :: "arm_fn list list" where
  "ARM_ROWS_15 =
     [[FLdrStr False False Of True OffLsl, FUndefined, FLdrStr False False Of True OffLsr, FUndefined,
      FLdrStr False False Of True OffAsr, FUndefined, FLdrStr False False Of True OffRor, FUndefined,
      FLdrStr False False Of True OffLsl, FUndefined, FLdrStr False False Of True OffLsr, FUndefined,
      FLdrStr False False Of True OffAsr, FUndefined, FLdrStr False False Of True OffRor, FUndefined],
      [FLdrStr True False Of True OffLsl, FUndefined, FLdrStr True False Of True OffLsr, FUndefined,
      FLdrStr True False Of True OffAsr, FUndefined, FLdrStr True False Of True OffRor, FUndefined,
      FLdrStr True False Of True OffLsl, FUndefined, FLdrStr True False Of True OffLsr, FUndefined,
      FLdrStr True False Of True OffAsr, FUndefined, FLdrStr True False Of True OffRor, FUndefined],
      [FLdrStr False False Pr True OffLsl, FUndefined, FLdrStr False False Pr True OffLsr, FUndefined,
      FLdrStr False False Pr True OffAsr, FUndefined, FLdrStr False False Pr True OffRor, FUndefined,
      FLdrStr False False Pr True OffLsl, FUndefined, FLdrStr False False Pr True OffLsr, FUndefined,
      FLdrStr False False Pr True OffAsr, FUndefined, FLdrStr False False Pr True OffRor, FUndefined],
      [FLdrStr True False Pr True OffLsl, FUndefined, FLdrStr True False Pr True OffLsr, FUndefined,
      FLdrStr True False Pr True OffAsr, FUndefined, FLdrStr True False Pr True OffRor, FUndefined,
      FLdrStr True False Pr True OffLsl, FUndefined, FLdrStr True False Pr True OffLsr, FUndefined,
      FLdrStr True False Pr True OffAsr, FUndefined, FLdrStr True False Pr True OffRor, FUndefined],
      [FLdrStr False True Of True OffLsl, FUndefined, FLdrStr False True Of True OffLsr, FUndefined,
      FLdrStr False True Of True OffAsr, FUndefined, FLdrStr False True Of True OffRor, FUndefined,
      FLdrStr False True Of True OffLsl, FUndefined, FLdrStr False True Of True OffLsr, FUndefined,
      FLdrStr False True Of True OffAsr, FUndefined, FLdrStr False True Of True OffRor, FUndefined],
      [FLdrStr True True Of True OffLsl, FUndefined, FLdrStr True True Of True OffLsr, FUndefined,
      FLdrStr True True Of True OffAsr, FUndefined, FLdrStr True True Of True OffRor, FUndefined,
      FLdrStr True True Of True OffLsl, FUndefined, FLdrStr True True Of True OffLsr, FUndefined,
      FLdrStr True True Of True OffAsr, FUndefined, FLdrStr True True Of True OffRor, FUndefined],
      [FLdrStr False True Pr True OffLsl, FUndefined, FLdrStr False True Pr True OffLsr, FUndefined,
      FLdrStr False True Pr True OffAsr, FUndefined, FLdrStr False True Pr True OffRor, FUndefined,
      FLdrStr False True Pr True OffLsl, FUndefined, FLdrStr False True Pr True OffLsr, FUndefined,
      FLdrStr False True Pr True OffAsr, FUndefined, FLdrStr False True Pr True OffRor, FUndefined],
      [FLdrStr True True Pr True OffLsl, FUndefined, FLdrStr True True Pr True OffLsr, FUndefined,
      FLdrStr True True Pr True OffAsr, FUndefined, FLdrStr True True Pr True OffRor, FUndefined,
      FLdrStr True True Pr True OffLsl, FUndefined, FLdrStr True True Pr True OffLsr, FUndefined,
      FLdrStr True True Pr True OffAsr, FUndefined, FLdrStr True True Pr True OffRor, FUndefined]]"

definition ARM_ROWS_16 :: "arm_fn list list" where
  "ARM_ROWS_16 =
     [replicate 16 (FLdmStm False False False False False),
      replicate 16 (FLdmStm True False False False False),
      replicate 16 (FLdmStm False False False False True),
      replicate 16 (FLdmStm True False False False True),
      replicate 16 (FLdmStm False False False True False),
      replicate 16 (FLdmStm True False False True False),
      replicate 16 (FLdmStm False False False True True),
      replicate 16 (FLdmStm True False False True True)]"

definition ARM_ROWS_17 :: "arm_fn list list" where
  "ARM_ROWS_17 =
     [replicate 16 (FLdmStm False False True False False),
      replicate 16 (FLdmStm True False True False False),
      replicate 16 (FLdmStm False False True False True),
      replicate 16 (FLdmStm True False True False True),
      replicate 16 (FLdmStm False False True True False),
      replicate 16 (FLdmStm True False True True False),
      replicate 16 (FLdmStm False False True True True),
      replicate 16 (FLdmStm True False True True True)]"

definition ARM_ROWS_18 :: "arm_fn list list" where
  "ARM_ROWS_18 =
     [replicate 16 (FLdmStm False True False False False),
      replicate 16 (FLdmStm True True False False False),
      replicate 16 (FLdmStm False True False False True),
      replicate 16 (FLdmStm True True False False True),
      replicate 16 (FLdmStm False True False True False),
      replicate 16 (FLdmStm True True False True False),
      replicate 16 (FLdmStm False True False True True),
      replicate 16 (FLdmStm True True False True True)]"

definition ARM_ROWS_19 :: "arm_fn list list" where
  "ARM_ROWS_19 =
     [replicate 16 (FLdmStm False True True False False),
      replicate 16 (FLdmStm True True True False False),
      replicate 16 (FLdmStm False True True False True),
      replicate 16 (FLdmStm True True True False True),
      replicate 16 (FLdmStm False True True True False),
      replicate 16 (FLdmStm True True True True False),
      replicate 16 (FLdmStm False True True True True),
      replicate 16 (FLdmStm True True True True True)]"

definition ARM_ROWS_20 :: "arm_fn list list" where
  "ARM_ROWS_20 =
     [replicate 16 FB,
      replicate 16 FB,
      replicate 16 FB,
      replicate 16 FB,
      replicate 16 FB,
      replicate 16 FB,
      replicate 16 FB,
      replicate 16 FB]"

definition ARM_ROWS_21 :: "arm_fn list list" where
  "ARM_ROWS_21 =
     [replicate 16 FB,
      replicate 16 FB,
      replicate 16 FB,
      replicate 16 FB,
      replicate 16 FB,
      replicate 16 FB,
      replicate 16 FB,
      replicate 16 FB]"

definition ARM_ROWS_22 :: "arm_fn list list" where
  "ARM_ROWS_22 =
     [replicate 16 FBl,
      replicate 16 FBl,
      replicate 16 FBl,
      replicate 16 FBl,
      replicate 16 FBl,
      replicate 16 FBl,
      replicate 16 FBl,
      replicate 16 FBl]"

definition ARM_ROWS_23 :: "arm_fn list list" where
  "ARM_ROWS_23 =
     [replicate 16 FBl,
      replicate 16 FBl,
      replicate 16 FBl,
      replicate 16 FBl,
      replicate 16 FBl,
      replicate 16 FBl,
      replicate 16 FBl,
      replicate 16 FBl]"

definition ARM_ROWS_24 :: "arm_fn list list" where
  "ARM_ROWS_24 =
     [replicate 16 FUndefined,
      replicate 16 FUndefined,
      replicate 16 FUndefined,
      replicate 16 FUndefined,
      replicate 16 FUndefined,
      replicate 16 FUndefined,
      replicate 16 FUndefined,
      replicate 16 FUndefined]"

definition ARM_ROWS_25 :: "arm_fn list list" where
  "ARM_ROWS_25 =
     [replicate 16 FUndefined,
      replicate 16 FUndefined,
      replicate 16 FUndefined,
      replicate 16 FUndefined,
      replicate 16 FUndefined,
      replicate 16 FUndefined,
      replicate 16 FUndefined,
      replicate 16 FUndefined]"

definition ARM_ROWS_26 :: "arm_fn list list" where
  "ARM_ROWS_26 =
     [replicate 16 FUndefined,
      replicate 16 FUndefined,
      replicate 16 FUndefined,
      replicate 16 FUndefined,
      replicate 16 FUndefined,
      replicate 16 FUndefined,
      replicate 16 FUndefined,
      replicate 16 FUndefined]"

definition ARM_ROWS_27 :: "arm_fn list list" where
  "ARM_ROWS_27 =
     [replicate 16 FUndefined,
      replicate 16 FUndefined,
      replicate 16 FUndefined,
      replicate 16 FUndefined,
      replicate 16 FUndefined,
      replicate 16 FUndefined,
      replicate 16 FUndefined,
      replicate 16 FUndefined]"

definition ARM_ROWS_28 :: "arm_fn list list" where
  "ARM_ROWS_28 =
     [[FUndefined, FMcr, FUndefined, FMcr, FUndefined, FMcr, FUndefined, FMcr, FUndefined, FMcr, FUndefined, FMcr,
      FUndefined, FMcr, FUndefined, FMcr],
      [FUndefined, FMrc, FUndefined, FMrc, FUndefined, FMrc, FUndefined, FMrc, FUndefined, FMrc, FUndefined, FMrc,
      FUndefined, FMrc, FUndefined, FMrc],
      [FUndefined, FMcr, FUndefined, FMcr, FUndefined, FMcr, FUndefined, FMcr, FUndefined, FMcr, FUndefined, FMcr,
      FUndefined, FMcr, FUndefined, FMcr],
      [FUndefined, FMrc, FUndefined, FMrc, FUndefined, FMrc, FUndefined, FMrc, FUndefined, FMrc, FUndefined, FMrc,
      FUndefined, FMrc, FUndefined, FMrc],
      [FUndefined, FMcr, FUndefined, FMcr, FUndefined, FMcr, FUndefined, FMcr, FUndefined, FMcr, FUndefined, FMcr,
      FUndefined, FMcr, FUndefined, FMcr],
      [FUndefined, FMrc, FUndefined, FMrc, FUndefined, FMrc, FUndefined, FMrc, FUndefined, FMrc, FUndefined, FMrc,
      FUndefined, FMrc, FUndefined, FMrc],
      [FUndefined, FMcr, FUndefined, FMcr, FUndefined, FMcr, FUndefined, FMcr, FUndefined, FMcr, FUndefined, FMcr,
      FUndefined, FMcr, FUndefined, FMcr],
      [FUndefined, FMrc, FUndefined, FMrc, FUndefined, FMrc, FUndefined, FMrc, FUndefined, FMrc, FUndefined, FMrc,
      FUndefined, FMrc, FUndefined, FMrc]]"

definition ARM_ROWS_29 :: "arm_fn list list" where
  "ARM_ROWS_29 =
     [[FUndefined, FMcr, FUndefined, FMcr, FUndefined, FMcr, FUndefined, FMcr, FUndefined, FMcr, FUndefined, FMcr,
      FUndefined, FMcr, FUndefined, FMcr],
      [FUndefined, FMrc, FUndefined, FMrc, FUndefined, FMrc, FUndefined, FMrc, FUndefined, FMrc, FUndefined, FMrc,
      FUndefined, FMrc, FUndefined, FMrc],
      [FUndefined, FMcr, FUndefined, FMcr, FUndefined, FMcr, FUndefined, FMcr, FUndefined, FMcr, FUndefined, FMcr,
      FUndefined, FMcr, FUndefined, FMcr],
      [FUndefined, FMrc, FUndefined, FMrc, FUndefined, FMrc, FUndefined, FMrc, FUndefined, FMrc, FUndefined, FMrc,
      FUndefined, FMrc, FUndefined, FMrc],
      [FUndefined, FMcr, FUndefined, FMcr, FUndefined, FMcr, FUndefined, FMcr, FUndefined, FMcr, FUndefined, FMcr,
      FUndefined, FMcr, FUndefined, FMcr],
      [FUndefined, FMrc, FUndefined, FMrc, FUndefined, FMrc, FUndefined, FMrc, FUndefined, FMrc, FUndefined, FMrc,
      FUndefined, FMrc, FUndefined, FMrc],
      [FUndefined, FMcr, FUndefined, FMcr, FUndefined, FMcr, FUndefined, FMcr, FUndefined, FMcr, FUndefined, FMcr,
      FUndefined, FMcr, FUndefined, FMcr],
      [FUndefined, FMrc, FUndefined, FMrc, FUndefined, FMrc, FUndefined, FMrc, FUndefined, FMrc, FUndefined, FMrc,
      FUndefined, FMrc, FUndefined, FMrc]]"

definition ARM_ROWS_30 :: "arm_fn list list" where
  "ARM_ROWS_30 =
     [replicate 16 FSwi,
      replicate 16 FSwi,
      replicate 16 FSwi,
      replicate 16 FSwi,
      replicate 16 FSwi,
      replicate 16 FSwi,
      replicate 16 FSwi,
      replicate 16 FSwi]"

definition ARM_ROWS_31 :: "arm_fn list list" where
  "ARM_ROWS_31 =
     [replicate 16 FSwi,
      replicate 16 FSwi,
      replicate 16 FSwi,
      replicate 16 FSwi,
      replicate 16 FSwi,
      replicate 16 FSwi,
      replicate 16 FSwi,
      replicate 16 FSwi]"

definition ARM_ROWS :: "arm_fn list list" where
  "ARM_ROWS = ARM_ROWS_0 @ ARM_ROWS_1 @ ARM_ROWS_2 @ ARM_ROWS_3 @ ARM_ROWS_4 @ ARM_ROWS_5 @ ARM_ROWS_6 @ ARM_ROWS_7 @
      ARM_ROWS_8 @ ARM_ROWS_9 @ ARM_ROWS_10 @ ARM_ROWS_11 @ ARM_ROWS_12 @ ARM_ROWS_13 @ ARM_ROWS_14 @
      ARM_ROWS_15 @ ARM_ROWS_16 @ ARM_ROWS_17 @ ARM_ROWS_18 @ ARM_ROWS_19 @ ARM_ROWS_20 @ ARM_ROWS_21 @
      ARM_ROWS_22 @ ARM_ROWS_23 @ ARM_ROWS_24 @ ARM_ROWS_25 @ ARM_ROWS_26 @ ARM_ROWS_27 @ ARM_ROWS_28 @
      ARM_ROWS_29 @ ARM_ROWS_30 @ ARM_ROWS_31"

definition ARM_TABLE :: "arm_fn list" where
  "ARM_TABLE = concat ARM_ROWS"

definition arm_index :: "u32 \<Rightarrow> nat" where
  "arm_index opcode = unat ((drop_bit 16 opcode AND 0xFF0) OR (drop_bit 4 opcode AND 0xF))"

section \<open>Thumb table (thumb_table.rs)\<close>

definition THUMB_RUNS :: "(nat \<times> thumb_fn) list" where
  "THUMB_RUNS =
     [(32, TLslImm), (32, TLsrImm), (32, TAsrImm), (8, TAddSub False False), (8, TAddSub False True), (8,
      TAddSub True False), (8, TAddSub True True), (32, TMovImm8), (32, TCmpImm8), (32, TAddImm8), (32, TSubImm8), (1,
      TDp And), (1, TDp Eor), (1, TLslDp), (1, TLsrDp), (1, TAsrDp), (1, TAdcDp), (1, TSbcDp), (1, TRorDp), (1, TTstDp),
      (1, TNegDp), (1, TCmpDp), (1, TCmnDp), (1, TDp Orr), (1, TMulDp), (1, TDp Bic), (1, TDp Mvn), (4, TAddH), (4,
      TCmpH), (4, TMovH), (2, TBxReg), (2, TBlxReg), (32, TLdrPc), (8, TStrReg), (8, TStrhReg), (8, TStrbReg), (8,
      TLdrsbReg), (8, TLdrReg), (8, TLdrhReg), (8, TLdrbReg), (8, TLdrshReg), (32, TStrImm5), (32, TLdrImm5), (32,
      TStrbImm5), (32, TLdrbImm5), (32, TStrhImm5), (32, TLdrhImm5), (32, TStrSp), (32, TLdrSp), (32, TAddPc), (32,
      TAddSp), (4, TAddSpImm), (12, TUndefined), (4, TPush), (4, TPushLr), (24, TUndefined), (4, TPop), (4, TPopPc), (8,
      TUndefined), (32, TStmia), (32, TLdmia), (4, TBcond Eq), (4, TBcond Ne), (4, TBcond Cs), (4, TBcond Cc), (4,
      TBcond Mi), (4, TBcond Pl), (4, TBcond Vs), (4, TBcond Vc), (4, TBcond Hi), (4, TBcond Ls), (4, TBcond Ge), (4,
      TBcond Lt), (4, TBcond Gt), (4, TBcond Le), (4, TUndefined), (4, TSwi), (32, TB), (32, TBlxOff), (32, TBlSetup),
      (32, TBlOff)]"

definition THUMB_TABLE :: "thumb_fn list" where
  "THUMB_TABLE = concat (map (\<lambda>(n, f). replicate n f) THUMB_RUNS)"

section \<open>Conditions and one instruction (mod.rs)\<close>

definition CONDITION :: "nat list" where
  "CONDITION =
     [0, 0, 0, 0, 1, 1, 1, 1, 0, 0, 0, 0, 1, 1, 1, 1,
      1, 1, 1, 1, 0, 0, 0, 0, 1, 1, 1, 1, 0, 0, 0, 0,
      0, 0, 1, 1, 0, 0, 1, 1, 0, 0, 1, 1, 0, 0, 1, 1,
      1, 1, 0, 0, 1, 1, 0, 0, 1, 1, 0, 0, 1, 1, 0, 0,
      0, 0, 0, 0, 0, 0, 0, 0, 1, 1, 1, 1, 1, 1, 1, 1,
      1, 1, 1, 1, 1, 1, 1, 1, 0, 0, 0, 0, 0, 0, 0, 0,
      0, 1, 0, 1, 0, 1, 0, 1, 0, 1, 0, 1, 0, 1, 0, 1,
      1, 0, 1, 0, 1, 0, 1, 0, 1, 0, 1, 0, 1, 0, 1, 0,
      0, 0, 1, 1, 0, 0, 0, 0, 0, 0, 1, 1, 0, 0, 0, 0,
      1, 1, 0, 0, 1, 1, 1, 1, 1, 1, 0, 0, 1, 1, 1, 1,
      1, 0, 1, 0, 1, 0, 1, 0, 0, 1, 0, 1, 0, 1, 0, 1,
      0, 1, 0, 1, 0, 1, 0, 1, 1, 0, 1, 0, 1, 0, 1, 0,
      1, 0, 1, 0, 0, 0, 0, 0, 0, 1, 0, 1, 0, 0, 0, 0,
      0, 1, 0, 1, 1, 1, 1, 1, 1, 0, 1, 0, 1, 1, 1, 1,
      1, 1, 1, 1, 1, 1, 1, 1, 1, 1, 1, 1, 1, 1, 1, 1,
      2, 2, 2, 2, 2, 2, 2, 2, 2, 2, 2, 2, 2, 2, 2, 2]"

definition condition_index :: "u32 \<Rightarrow> u32 \<Rightarrow> nat" where
  "condition_index opcode w = unat ((drop_bit 24 opcode AND 0xF0) OR drop_bit 28 w)"

definition execute_arm :: "host_math \<Rightarrow> u32 \<Rightarrow> u32 \<Rightarrow> emu \<Rightarrow> (inst_result \<times> emu) option" where
  "execute_arm h ia opcode s =
     (if opcode \<ge> 0xE0000000 then
        (if opcode < 0xF0000000 then arm_exec h (ARM_TABLE ! arm_index opcode) ia opcode s
         else Some (Continue 1, s))
      else if CONDITION ! condition_index opcode (ctx_cpsr s) = 0 then Some (Continue 1, s)
      else arm_exec h (ARM_TABLE ! arm_index opcode) ia opcode s)"

definition execute_thumb :: "host_math \<Rightarrow> u32 \<Rightarrow> u16 \<Rightarrow> emu \<Rightarrow> (inst_result \<times> emu) option" where
  "execute_thumb h ia opcode s = thumb_exec h (THUMB_TABLE ! unat (drop_bit 6 opcode)) ia opcode s"

end
