(* ===== verification/Disasm.thy ===== *)
theory Disasm
  imports Dispatch
begin

text \<open>
  The instruction tables of the compiler's disassembler: \<open>src/src/jit/disassembler/lookup_table.rs\<close>,
  \<open>src/src/jit/disassembler/thumb/lookup_table_thumb.rs\<close> and the operation codes of \<open>src/src/jit/op.rs\<close>. An
  entry pairs an operation code with the decoder function, which has the name of the interpreter's
  handler. The theorem says that the compiler and the interpreter read every encoding the same way.
\<close>

section \<open>Operation codes (op.rs)\<close>

text \<open>\<open>SingleTransfer\<close> and \<open>MultipleTransfer\<close> pack their flags into a byte.\<close>

definition st_new :: "bool \<Rightarrow> bool \<Rightarrow> bool \<Rightarrow> bool \<Rightarrow> u8 \<Rightarrow> u8" where
  "st_new pre write_back add sg sz =
     of_bool pre OR push_bit 1 (of_bool write_back) OR push_bit 2 (of_bool add) OR push_bit 3 (of_bool sg) OR push_bit 4 sz"

definition mt_new :: "bool \<Rightarrow> bool \<Rightarrow> bool \<Rightarrow> bool \<Rightarrow> u8" where
  "mt_new pre write_back add usr =
     of_bool pre OR push_bit 1 (of_bool write_back) OR push_bit 2 (of_bool add) OR push_bit 3 (of_bool usr)"

definition t_pre :: "u8 \<Rightarrow> bool" where "t_pre t = (t AND 1 \<noteq> 0)"
definition t_write_back :: "u8 \<Rightarrow> bool" where "t_write_back t = (t AND push_bit 1 1 \<noteq> 0)"
definition t_add :: "u8 \<Rightarrow> bool" where "t_add t = (t AND push_bit 2 1 \<noteq> 0)"
definition st_signed :: "u8 \<Rightarrow> bool" where "st_signed t = (t AND push_bit 3 1 \<noteq> 0)"
definition st_size :: "u8 \<Rightarrow> u8" where "st_size t = drop_bit 4 t"
definition mt_user :: "u8 \<Rightarrow> bool" where "mt_user t = (t AND push_bit 3 1 \<noteq> 0)"

datatype thumb_alu =
  AddT | SubT | CmpT | MovT | LslT | LsrT | AsrT | RorT | AndT | EorT | AdcT | SbcT | TstT | CmnT | OrrT
  | BicT | MvnT | NegT | MulT | AddPcT | AddSpT | AddSpImmT | AddHT | CmpHT | MovHT

datatype inst_op =
  OpLogical logical_op bool | OpArith arith_op bool | OpTest test_op
| OpLdr u8 | OpStr u8 | OpLdm u8 | OpStm u8
| OpMul32 bool bool | OpMul64 bool bool bool | OpDsp dsp_op
| OpMrs bool | OpMsrR bool | OpMsrI bool | OpSwp bool
| OpB | OpBl | OpBlx | OpBlxReg | OpBx | OpClz | OpMcr | OpMrc | OpSwi | OpUnkArm
| OpAluT thumb_alu
| OpLdrT u8 | OpStrT u8 | OpLdmT u8 | OpStmT u8
| OpBcondT condition | OpBT | OpBlOffT | OpBlSetupT | OpBlxOffT | OpBlxRegT | OpBxRegT | OpSwiT | OpUnkThumb

section \<open>ARM table (lookup_table.rs)\<close>

definition LOOKUP_ROWS_0 :: "(inst_op \<times> arm_fn) list list" where
  "LOOKUP_ROWS_0 =
     [[(OpLogical And False, FLogical And False Lli), (OpLogical And False, FLogical And False Llr), (OpLogical And False,
      FLogical And False Lri), (OpLogical And False, FLogical And False Lrr), (OpLogical And False,
      FLogical And False Ari), (OpLogical And False, FLogical And False Arr), (OpLogical And False,
      FLogical And False Rri), (OpLogical And False, FLogical And False Rrr), (OpLogical And False,
      FLogical And False Lli), (OpMul32 False False, FMul32 False False), (OpLogical And False, FLogical And False Lri),
      (OpStr (st_new False True False False 1), FLdrhStrh False True False Pt False True), (OpLogical And False,
      FLogical And False Ari), (OpLdr (st_new False True False False 3), FLdrdStrd False Pt False True),
      (OpLogical And False, FLogical And False Rri), (OpStr (st_new False True False False 3),
      FLdrdStrd True Pt False True)],
      [(OpLogical And True, FLogical And True Lli), (OpLogical And True, FLogical And True Llr), (OpLogical And True,
      FLogical And True Lri), (OpLogical And True, FLogical And True Lrr), (OpLogical And True, FLogical And True Ari),
      (OpLogical And True, FLogical And True Arr), (OpLogical And True, FLogical And True Rri), (OpLogical And True,
      FLogical And True Rrr), (OpLogical And True, FLogical And True Lli), (OpMul32 True False, FMul32 True False),
      (OpLogical And True, FLogical And True Lri), (OpLdr (st_new False True False False 1),
      FLdrhStrh True True False Pt False True), (OpLogical And True, FLogical And True Ari),
      (OpLdr (st_new False True False True 0), FLdrhStrh True False True Pt False True), (OpLogical And True,
      FLogical And True Rri), (OpLdr (st_new False True False True 1), FLdrhStrh True True True Pt False True)],
      [(OpLogical Eor False, FLogical Eor False Lli), (OpLogical Eor False, FLogical Eor False Llr), (OpLogical Eor False,
      FLogical Eor False Lri), (OpLogical Eor False, FLogical Eor False Lrr), (OpLogical Eor False,
      FLogical Eor False Ari), (OpLogical Eor False, FLogical Eor False Arr), (OpLogical Eor False,
      FLogical Eor False Rri), (OpLogical Eor False, FLogical Eor False Rrr), (OpLogical Eor False,
      FLogical Eor False Lli), (OpMul32 False True, FMul32 False True), (OpLogical Eor False, FLogical Eor False Lri),
      (OpStr (st_new False True False False 1), FLdrhStrh False True False Pt False True), (OpLogical Eor False,
      FLogical Eor False Ari), (OpLdr (st_new False True False False 3), FLdrdStrd False Pt False True),
      (OpLogical Eor False, FLogical Eor False Rri), (OpStr (st_new False True False False 3),
      FLdrdStrd True Pt False True)],
      [(OpLogical Eor True, FLogical Eor True Lli), (OpLogical Eor True, FLogical Eor True Llr), (OpLogical Eor True,
      FLogical Eor True Lri), (OpLogical Eor True, FLogical Eor True Lrr), (OpLogical Eor True, FLogical Eor True Ari),
      (OpLogical Eor True, FLogical Eor True Arr), (OpLogical Eor True, FLogical Eor True Rri), (OpLogical Eor True,
      FLogical Eor True Rrr), (OpLogical Eor True, FLogical Eor True Lli), (OpMul32 True True, FMul32 True True),
      (OpLogical Eor True, FLogical Eor True Lri), (OpLdr (st_new False True False False 1),
      FLdrhStrh True True False Pt False True), (OpLogical Eor True, FLogical Eor True Ari),
      (OpLdr (st_new False True False True 0), FLdrhStrh True False True Pt False True), (OpLogical Eor True,
      FLogical Eor True Rri), (OpLdr (st_new False True False True 1), FLdrhStrh True True True Pt False True)],
      [(OpArith Sub False, FArith Sub False Lli), (OpArith Sub False, FArith Sub False Llr), (OpArith Sub False,
      FArith Sub False Lri), (OpArith Sub False, FArith Sub False Lrr), (OpArith Sub False, FArith Sub False Ari),
      (OpArith Sub False, FArith Sub False Arr), (OpArith Sub False, FArith Sub False Rri), (OpArith Sub False,
      FArith Sub False Rrr), (OpArith Sub False, FArith Sub False Lli), (OpUnkArm, FUndefined), (OpArith Sub False,
      FArith Sub False Lri), (OpStr (st_new False True False False 1), FLdrhStrh False True False Pt False False),
      (OpArith Sub False, FArith Sub False Ari), (OpLdr (st_new False True False False 3),
      FLdrdStrd False Pt False False), (OpArith Sub False, FArith Sub False Rri),
      (OpStr (st_new False True False False 3), FLdrdStrd True Pt False False)],
      [(OpArith Sub True, FArith Sub True Lli), (OpArith Sub True, FArith Sub True Llr), (OpArith Sub True,
      FArith Sub True Lri), (OpArith Sub True, FArith Sub True Lrr), (OpArith Sub True, FArith Sub True Ari),
      (OpArith Sub True, FArith Sub True Arr), (OpArith Sub True, FArith Sub True Rri), (OpArith Sub True,
      FArith Sub True Rrr), (OpArith Sub True, FArith Sub True Lli), (OpUnkArm, FUndefined), (OpArith Sub True,
      FArith Sub True Lri), (OpLdr (st_new False True False False 1), FLdrhStrh True True False Pt False False),
      (OpArith Sub True, FArith Sub True Ari), (OpLdr (st_new False True False True 0),
      FLdrhStrh True False True Pt False False), (OpArith Sub True, FArith Sub True Rri),
      (OpLdr (st_new False True False True 1), FLdrhStrh True True True Pt False False)],
      [(OpArith Rsb False, FArith Rsb False Lli), (OpArith Rsb False, FArith Rsb False Llr), (OpArith Rsb False,
      FArith Rsb False Lri), (OpArith Rsb False, FArith Rsb False Lrr), (OpArith Rsb False, FArith Rsb False Ari),
      (OpArith Rsb False, FArith Rsb False Arr), (OpArith Rsb False, FArith Rsb False Rri), (OpArith Rsb False,
      FArith Rsb False Rrr), (OpArith Rsb False, FArith Rsb False Lli), (OpUnkArm, FUndefined), (OpArith Rsb False,
      FArith Rsb False Lri), (OpStr (st_new False True False False 1), FLdrhStrh False True False Pt False False),
      (OpArith Rsb False, FArith Rsb False Ari), (OpLdr (st_new False True False False 3),
      FLdrdStrd False Pt False False), (OpArith Rsb False, FArith Rsb False Rri),
      (OpStr (st_new False True False False 3), FLdrdStrd True Pt False False)],
      [(OpArith Rsb True, FArith Rsb True Lli), (OpArith Rsb True, FArith Rsb True Llr), (OpArith Rsb True,
      FArith Rsb True Lri), (OpArith Rsb True, FArith Rsb True Lrr), (OpArith Rsb True, FArith Rsb True Ari),
      (OpArith Rsb True, FArith Rsb True Arr), (OpArith Rsb True, FArith Rsb True Rri), (OpArith Rsb True,
      FArith Rsb True Rrr), (OpArith Rsb True, FArith Rsb True Lli), (OpUnkArm, FUndefined), (OpArith Rsb True,
      FArith Rsb True Lri), (OpLdr (st_new False True False False 1), FLdrhStrh True True False Pt False False),
      (OpArith Rsb True, FArith Rsb True Ari), (OpLdr (st_new False True False True 0),
      FLdrhStrh True False True Pt False False), (OpArith Rsb True, FArith Rsb True Rri),
      (OpLdr (st_new False True False True 1), FLdrhStrh True True True Pt False False)]]"

definition LOOKUP_ROWS_1 :: "(inst_op \<times> arm_fn) list list" where
  "LOOKUP_ROWS_1 =
     [[(OpArith Add False, FArith Add False Lli), (OpArith Add False, FArith Add False Llr), (OpArith Add False,
      FArith Add False Lri), (OpArith Add False, FArith Add False Lrr), (OpArith Add False, FArith Add False Ari),
      (OpArith Add False, FArith Add False Arr), (OpArith Add False, FArith Add False Rri), (OpArith Add False,
      FArith Add False Rrr), (OpArith Add False, FArith Add False Lli), (OpMul64 False False False,
      FMul64 False False False), (OpArith Add False, FArith Add False Lri), (OpStr (st_new False True True False 1),
      FLdrhStrh False True False Pt True True), (OpArith Add False, FArith Add False Ari),
      (OpLdr (st_new False True True False 3), FLdrdStrd False Pt True True), (OpArith Add False, FArith Add False Rri),
      (OpStr (st_new False True True False 3), FLdrdStrd True Pt True True)],
      [(OpArith Add True, FArith Add True Lli), (OpArith Add True, FArith Add True Llr), (OpArith Add True,
      FArith Add True Lri), (OpArith Add True, FArith Add True Lrr), (OpArith Add True, FArith Add True Ari),
      (OpArith Add True, FArith Add True Arr), (OpArith Add True, FArith Add True Rri), (OpArith Add True,
      FArith Add True Rrr), (OpArith Add True, FArith Add True Lli), (OpMul64 True False False, FMul64 True False False),
      (OpArith Add True, FArith Add True Lri), (OpLdr (st_new False True True False 1),
      FLdrhStrh True True False Pt True True), (OpArith Add True, FArith Add True Ari),
      (OpLdr (st_new False True True True 0), FLdrhStrh True False True Pt True True), (OpArith Add True,
      FArith Add True Rri), (OpLdr (st_new False True True True 1), FLdrhStrh True True True Pt True True)],
      [(OpArith Adc False, FArith Adc False Lli), (OpArith Adc False, FArith Adc False Llr), (OpArith Adc False,
      FArith Adc False Lri), (OpArith Adc False, FArith Adc False Lrr), (OpArith Adc False, FArith Adc False Ari),
      (OpArith Adc False, FArith Adc False Arr), (OpArith Adc False, FArith Adc False Rri), (OpArith Adc False,
      FArith Adc False Rrr), (OpArith Adc False, FArith Adc False Lli), (OpMul64 False True False,
      FMul64 False True False), (OpArith Adc False, FArith Adc False Lri), (OpStr (st_new False True True False 1),
      FLdrhStrh False True False Pt True True), (OpArith Adc False, FArith Adc False Ari),
      (OpLdr (st_new False True True False 3), FLdrdStrd False Pt True True), (OpArith Adc False, FArith Adc False Rri),
      (OpStr (st_new False True True False 3), FLdrdStrd True Pt True True)],
      [(OpArith Adc True, FArith Adc True Lli), (OpArith Adc True, FArith Adc True Llr), (OpArith Adc True,
      FArith Adc True Lri), (OpArith Adc True, FArith Adc True Lrr), (OpArith Adc True, FArith Adc True Ari),
      (OpArith Adc True, FArith Adc True Arr), (OpArith Adc True, FArith Adc True Rri), (OpArith Adc True,
      FArith Adc True Rrr), (OpArith Adc True, FArith Adc True Lli), (OpMul64 True True False, FMul64 True True False),
      (OpArith Adc True, FArith Adc True Lri), (OpLdr (st_new False True True False 1),
      FLdrhStrh True True False Pt True True), (OpArith Adc True, FArith Adc True Ari),
      (OpLdr (st_new False True True True 0), FLdrhStrh True False True Pt True True), (OpArith Adc True,
      FArith Adc True Rri), (OpLdr (st_new False True True True 1), FLdrhStrh True True True Pt True True)],
      [(OpArith Sbc False, FArith Sbc False Lli), (OpArith Sbc False, FArith Sbc False Llr), (OpArith Sbc False,
      FArith Sbc False Lri), (OpArith Sbc False, FArith Sbc False Lrr), (OpArith Sbc False, FArith Sbc False Ari),
      (OpArith Sbc False, FArith Sbc False Arr), (OpArith Sbc False, FArith Sbc False Rri), (OpArith Sbc False,
      FArith Sbc False Rrr), (OpArith Sbc False, FArith Sbc False Lli), (OpMul64 False False True,
      FMul64 False False True), (OpArith Sbc False, FArith Sbc False Lri), (OpStr (st_new False True True False 1),
      FLdrhStrh False True False Pt True False), (OpArith Sbc False, FArith Sbc False Ari),
      (OpLdr (st_new False True True False 3), FLdrdStrd False Pt True False), (OpArith Sbc False, FArith Sbc False Rri),
      (OpStr (st_new False True True False 3), FLdrdStrd True Pt True False)],
      [(OpArith Sbc True, FArith Sbc True Lli), (OpArith Sbc True, FArith Sbc True Llr), (OpArith Sbc True,
      FArith Sbc True Lri), (OpArith Sbc True, FArith Sbc True Lrr), (OpArith Sbc True, FArith Sbc True Ari),
      (OpArith Sbc True, FArith Sbc True Arr), (OpArith Sbc True, FArith Sbc True Rri), (OpArith Sbc True,
      FArith Sbc True Rrr), (OpArith Sbc True, FArith Sbc True Lli), (OpMul64 True False True, FMul64 True False True),
      (OpArith Sbc True, FArith Sbc True Lri), (OpLdr (st_new False True True False 1),
      FLdrhStrh True True False Pt True False), (OpArith Sbc True, FArith Sbc True Ari),
      (OpLdr (st_new False True True True 0), FLdrhStrh True False True Pt True False), (OpArith Sbc True,
      FArith Sbc True Rri), (OpLdr (st_new False True True True 1), FLdrhStrh True True True Pt True False)],
      [(OpArith Rsc False, FArith Rsc False Lli), (OpArith Rsc False, FArith Rsc False Llr), (OpArith Rsc False,
      FArith Rsc False Lri), (OpArith Rsc False, FArith Rsc False Lrr), (OpArith Rsc False, FArith Rsc False Ari),
      (OpArith Rsc False, FArith Rsc False Arr), (OpArith Rsc False, FArith Rsc False Rri), (OpArith Rsc False,
      FArith Rsc False Rrr), (OpArith Rsc False, FArith Rsc False Lli), (OpMul64 False True True, FMul64 False True True),
      (OpArith Rsc False, FArith Rsc False Lri), (OpStr (st_new False True True False 1),
      FLdrhStrh False True False Pt True False), (OpArith Rsc False, FArith Rsc False Ari),
      (OpLdr (st_new False True True False 3), FLdrdStrd False Pt True False), (OpArith Rsc False, FArith Rsc False Rri),
      (OpStr (st_new False True True False 3), FLdrdStrd True Pt True False)],
      [(OpArith Rsc True, FArith Rsc True Lli), (OpArith Rsc True, FArith Rsc True Llr), (OpArith Rsc True,
      FArith Rsc True Lri), (OpArith Rsc True, FArith Rsc True Lrr), (OpArith Rsc True, FArith Rsc True Ari),
      (OpArith Rsc True, FArith Rsc True Arr), (OpArith Rsc True, FArith Rsc True Rri), (OpArith Rsc True,
      FArith Rsc True Rrr), (OpArith Rsc True, FArith Rsc True Lli), (OpMul64 True True True, FMul64 True True True),
      (OpArith Rsc True, FArith Rsc True Lri), (OpLdr (st_new False True True False 1),
      FLdrhStrh True True False Pt True False), (OpArith Rsc True, FArith Rsc True Ari),
      (OpLdr (st_new False True True True 0), FLdrhStrh True False True Pt True False), (OpArith Rsc True,
      FArith Rsc True Rri), (OpLdr (st_new False True True True 1), FLdrhStrh True True True Pt True False)]]"

definition LOOKUP_ROWS_2 :: "(inst_op \<times> arm_fn) list list" where
  "LOOKUP_ROWS_2 =
     [[(OpMrs False, FMrs False), (OpUnkArm, FUndefined), (OpUnkArm, FUndefined), (OpUnkArm, FUndefined), (OpUnkArm,
      FUndefined), (OpDsp Qadd, FDsp Qadd), (OpUnkArm, FUndefined), (OpUnkArm, FUndefined), (OpDsp Smlabb, FDsp Smlabb),
      (OpSwp False, FSwp False), (OpDsp Smlatb, FDsp Smlatb), (OpStr (st_new True False False False 1),
      FLdrhStrh False True False Of False True), (OpDsp Smlabt, FDsp Smlabt), (OpLdr (st_new True False False False 3),
      FLdrdStrd False Of False True), (OpDsp Smlatt, FDsp Smlatt), (OpStr (st_new True False False False 3),
      FLdrdStrd True Of False True)],
      [(OpTest Tst, FTest Tst Lli), (OpTest Tst, FTest Tst Llr), (OpTest Tst, FTest Tst Lri), (OpTest Tst, FTest Tst Lrr),
      (OpTest Tst, FTest Tst Ari), (OpTest Tst, FTest Tst Arr), (OpTest Tst, FTest Tst Rri), (OpTest Tst, FTest Tst Rrr),
      (OpTest Tst, FTest Tst Lli), (OpUnkArm, FUndefined), (OpTest Tst, FTest Tst Lri),
      (OpLdr (st_new True False False False 1), FLdrhStrh True True False Of False True), (OpTest Tst, FTest Tst Ari),
      (OpLdr (st_new True False False True 0), FLdrhStrh True False True Of False True), (OpTest Tst, FTest Tst Rri),
      (OpLdr (st_new True False False True 1), FLdrhStrh True True True Of False True)],
      [(OpMsrR False, FMsrR False), (OpBx, FBx), (OpUnkArm, FUndefined), (OpBlxReg, FBlxReg), (OpUnkArm, FUndefined),
      (OpDsp Qsub, FDsp Qsub), (OpUnkArm, FUndefined), (OpUnkArm, FUndefined), (OpDsp Smlawb, FDsp Smlawb), (OpUnkArm,
      FUndefined), (OpDsp Smulwb, FDsp Smulwb), (OpStr (st_new True True False False 1),
      FLdrhStrh False True False Pr False True), (OpDsp Smlawt, FDsp Smlawt), (OpLdr (st_new True True False False 3),
      FLdrdStrd False Pr False True), (OpDsp Smulwt, FDsp Smulwt), (OpStr (st_new True True False False 3),
      FLdrdStrd True Pr False True)],
      [(OpTest Teq, FTest Teq Lli), (OpTest Teq, FTest Teq Llr), (OpTest Teq, FTest Teq Lri), (OpTest Teq, FTest Teq Lrr),
      (OpTest Teq, FTest Teq Ari), (OpTest Teq, FTest Teq Arr), (OpTest Teq, FTest Teq Rri), (OpTest Teq, FTest Teq Rrr),
      (OpTest Teq, FTest Teq Lli), (OpUnkArm, FUndefined), (OpTest Teq, FTest Teq Lri),
      (OpLdr (st_new True True False False 1), FLdrhStrh True True False Pr False True), (OpTest Teq, FTest Teq Ari),
      (OpLdr (st_new True True False True 0), FLdrhStrh True False True Pr False True), (OpTest Teq, FTest Teq Rri),
      (OpLdr (st_new True True False True 1), FLdrhStrh True True True Pr False True)],
      [(OpMrs True, FMrs True), (OpUnkArm, FUndefined), (OpUnkArm, FUndefined), (OpUnkArm, FUndefined), (OpUnkArm,
      FUndefined), (OpDsp Qdadd, FDsp Qdadd), (OpUnkArm, FUndefined), (OpUnkArm, FUndefined), (OpDsp Smlalbb,
      FDsp Smlalbb), (OpSwp True, FSwp True), (OpDsp Smlaltb, FDsp Smlaltb), (OpStr (st_new True False False False 1),
      FLdrhStrh False True False Of False False), (OpDsp Smlalbt, FDsp Smlalbt), (OpLdr (st_new True False False False 3),
      FLdrdStrd False Of False False), (OpDsp Smlaltt, FDsp Smlaltt), (OpStr (st_new True False False False 3),
      FLdrdStrd True Of False False)],
      [(OpTest Cmp, FTest Cmp Lli), (OpTest Cmp, FTest Cmp Llr), (OpTest Cmp, FTest Cmp Lri), (OpTest Cmp, FTest Cmp Lrr),
      (OpTest Cmp, FTest Cmp Ari), (OpTest Cmp, FTest Cmp Arr), (OpTest Cmp, FTest Cmp Rri), (OpTest Cmp, FTest Cmp Rrr),
      (OpTest Cmp, FTest Cmp Lli), (OpUnkArm, FUndefined), (OpTest Cmp, FTest Cmp Lri),
      (OpLdr (st_new True False False False 1), FLdrhStrh True True False Of False False), (OpTest Cmp, FTest Cmp Ari),
      (OpLdr (st_new True False False True 0), FLdrhStrh True False True Of False False), (OpTest Cmp, FTest Cmp Rri),
      (OpLdr (st_new True False False True 1), FLdrhStrh True True True Of False False)],
      [(OpMsrR True, FMsrR True), (OpClz, FClz), (OpUnkArm, FUndefined), (OpUnkArm, FUndefined), (OpUnkArm, FUndefined),
      (OpDsp Qdsub, FDsp Qdsub), (OpUnkArm, FUndefined), (OpUnkArm, FUndefined), (OpDsp Smulbb, FDsp Smulbb), (OpUnkArm,
      FUndefined), (OpDsp Smultb, FDsp Smultb), (OpStr (st_new True True False False 1),
      FLdrhStrh False True False Pr False False), (OpDsp Smulbt, FDsp Smulbt), (OpLdr (st_new True True False False 3),
      FLdrdStrd False Pr False False), (OpDsp Smultt, FDsp Smultt), (OpStr (st_new True True False False 3),
      FLdrdStrd True Pr False False)],
      [(OpTest Cmn, FTest Cmn Lli), (OpTest Cmn, FTest Cmn Llr), (OpTest Cmn, FTest Cmn Lri), (OpTest Cmn, FTest Cmn Lrr),
      (OpTest Cmn, FTest Cmn Ari), (OpTest Cmn, FTest Cmn Arr), (OpTest Cmn, FTest Cmn Rri), (OpTest Cmn, FTest Cmn Rrr),
      (OpTest Cmn, FTest Cmn Lli), (OpUnkArm, FUndefined), (OpTest Cmn, FTest Cmn Lri),
      (OpLdr (st_new True True False False 1), FLdrhStrh True True False Pr False False), (OpTest Cmn, FTest Cmn Ari),
      (OpLdr (st_new True True False True 0), FLdrhStrh True False True Pr False False), (OpTest Cmn, FTest Cmn Rri),
      (OpLdr (st_new True True False True 1), FLdrhStrh True True True Pr False False)]]"

definition LOOKUP_ROWS_3 :: "(inst_op \<times> arm_fn) list list" where
  "LOOKUP_ROWS_3 =
     [[(OpLogical Orr False, FLogical Orr False Lli), (OpLogical Orr False, FLogical Orr False Llr), (OpLogical Orr False,
      FLogical Orr False Lri), (OpLogical Orr False, FLogical Orr False Lrr), (OpLogical Orr False,
      FLogical Orr False Ari), (OpLogical Orr False, FLogical Orr False Arr), (OpLogical Orr False,
      FLogical Orr False Rri), (OpLogical Orr False, FLogical Orr False Rrr), (OpLogical Orr False,
      FLogical Orr False Lli), (OpUnkArm, FUndefined), (OpLogical Orr False, FLogical Orr False Lri),
      (OpStr (st_new True False True False 1), FLdrhStrh False True False Of True True), (OpLogical Orr False,
      FLogical Orr False Ari), (OpLdr (st_new True False True False 3), FLdrdStrd False Of True True),
      (OpLogical Orr False, FLogical Orr False Rri), (OpStr (st_new True False True False 3),
      FLdrdStrd True Of True True)],
      [(OpLogical Orr True, FLogical Orr True Lli), (OpLogical Orr True, FLogical Orr True Llr), (OpLogical Orr True,
      FLogical Orr True Lri), (OpLogical Orr True, FLogical Orr True Lrr), (OpLogical Orr True, FLogical Orr True Ari),
      (OpLogical Orr True, FLogical Orr True Arr), (OpLogical Orr True, FLogical Orr True Rri), (OpLogical Orr True,
      FLogical Orr True Rrr), (OpLogical Orr True, FLogical Orr True Lli), (OpUnkArm, FUndefined), (OpLogical Orr True,
      FLogical Orr True Lri), (OpLdr (st_new True False True False 1), FLdrhStrh True True False Of True True),
      (OpLogical Orr True, FLogical Orr True Ari), (OpLdr (st_new True False True True 0),
      FLdrhStrh True False True Of True True), (OpLogical Orr True, FLogical Orr True Rri),
      (OpLdr (st_new True False True True 1), FLdrhStrh True True True Of True True)],
      [(OpLogical Mov False, FLogical Mov False Lli), (OpLogical Mov False, FLogical Mov False Llr), (OpLogical Mov False,
      FLogical Mov False Lri), (OpLogical Mov False, FLogical Mov False Lrr), (OpLogical Mov False,
      FLogical Mov False Ari), (OpLogical Mov False, FLogical Mov False Arr), (OpLogical Mov False,
      FLogical Mov False Rri), (OpLogical Mov False, FLogical Mov False Rrr), (OpLogical Mov False,
      FLogical Mov False Lli), (OpUnkArm, FUndefined), (OpLogical Mov False, FLogical Mov False Lri),
      (OpStr (st_new True True True False 1), FLdrhStrh False True False Pr True True), (OpLogical Mov False,
      FLogical Mov False Ari), (OpLdr (st_new True True True False 3), FLdrdStrd False Pr True True),
      (OpLogical Mov False, FLogical Mov False Rri), (OpStr (st_new True True True False 3), FLdrdStrd True Pr True True)],
      [(OpLogical Mov True, FLogical Mov True Lli), (OpLogical Mov True, FLogical Mov True Llr), (OpLogical Mov True,
      FLogical Mov True Lri), (OpLogical Mov True, FLogical Mov True Lrr), (OpLogical Mov True, FLogical Mov True Ari),
      (OpLogical Mov True, FLogical Mov True Arr), (OpLogical Mov True, FLogical Mov True Rri), (OpLogical Mov True,
      FLogical Mov True Rrr), (OpLogical Mov True, FLogical Mov True Lli), (OpUnkArm, FUndefined), (OpLogical Mov True,
      FLogical Mov True Lri), (OpLdr (st_new True True True False 1), FLdrhStrh True True False Pr True True),
      (OpLogical Mov True, FLogical Mov True Ari), (OpLdr (st_new True True True True 0),
      FLdrhStrh True False True Pr True True), (OpLogical Mov True, FLogical Mov True Rri),
      (OpLdr (st_new True True True True 1), FLdrhStrh True True True Pr True True)],
      [(OpLogical Bic False, FLogical Bic False Lli), (OpLogical Bic False, FLogical Bic False Llr), (OpLogical Bic False,
      FLogical Bic False Lri), (OpLogical Bic False, FLogical Bic False Lrr), (OpLogical Bic False,
      FLogical Bic False Ari), (OpLogical Bic False, FLogical Bic False Arr), (OpLogical Bic False,
      FLogical Bic False Rri), (OpLogical Bic False, FLogical Bic False Rrr), (OpLogical Bic False,
      FLogical Bic False Lli), (OpUnkArm, FUndefined), (OpLogical Bic False, FLogical Bic False Lri),
      (OpStr (st_new True False True False 1), FLdrhStrh False True False Of True False), (OpLogical Bic False,
      FLogical Bic False Ari), (OpLdr (st_new True False True False 3), FLdrdStrd False Of True False),
      (OpLogical Bic False, FLogical Bic False Rri), (OpStr (st_new True False True False 3),
      FLdrdStrd True Of True False)],
      [(OpLogical Bic True, FLogical Bic True Lli), (OpLogical Bic True, FLogical Bic True Llr), (OpLogical Bic True,
      FLogical Bic True Lri), (OpLogical Bic True, FLogical Bic True Lrr), (OpLogical Bic True, FLogical Bic True Ari),
      (OpLogical Bic True, FLogical Bic True Arr), (OpLogical Bic True, FLogical Bic True Rri), (OpLogical Bic True,
      FLogical Bic True Rrr), (OpLogical Bic True, FLogical Bic True Lli), (OpUnkArm, FUndefined), (OpLogical Bic True,
      FLogical Bic True Lri), (OpLdr (st_new True False True False 1), FLdrhStrh True True False Of True False),
      (OpLogical Bic True, FLogical Bic True Ari), (OpLdr (st_new True False True True 0),
      FLdrhStrh True False True Of True False), (OpLogical Bic True, FLogical Bic True Rri),
      (OpLdr (st_new True False True True 1), FLdrhStrh True True True Of True False)],
      [(OpLogical Mvn False, FLogical Mvn False Lli), (OpLogical Mvn False, FLogical Mvn False Llr), (OpLogical Mvn False,
      FLogical Mvn False Lri), (OpLogical Mvn False, FLogical Mvn False Lrr), (OpLogical Mvn False,
      FLogical Mvn False Ari), (OpLogical Mvn False, FLogical Mvn False Arr), (OpLogical Mvn False,
      FLogical Mvn False Rri), (OpLogical Mvn False, FLogical Mvn False Rrr), (OpLogical Mvn False,
      FLogical Mvn False Lli), (OpUnkArm, FUndefined), (OpLogical Mvn False, FLogical Mvn False Lri),
      (OpStr (st_new True True True False 1), FLdrhStrh False True False Pr True False), (OpLogical Mvn False,
      FLogical Mvn False Ari), (OpLdr (st_new True True True False 3), FLdrdStrd False Pr True False),
      (OpLogical Mvn False, FLogical Mvn False Rri), (OpStr (st_new True True True False 3),
      FLdrdStrd True Pr True False)],
      [(OpLogical Mvn True, FLogical Mvn True Lli), (OpLogical Mvn True, FLogical Mvn True Llr), (OpLogical Mvn True,
      FLogical Mvn True Lri), (OpLogical Mvn True, FLogical Mvn True Lrr), (OpLogical Mvn True, FLogical Mvn True Ari),
      (OpLogical Mvn True, FLogical Mvn True Arr), (OpLogical Mvn True, FLogical Mvn True Rri), (OpLogical Mvn True,
      FLogical Mvn True Rrr), (OpLogical Mvn True, FLogical Mvn True Lli), (OpUnkArm, FUndefined), (OpLogical Mvn True,
      FLogical Mvn True Lri), (OpLdr (st_new True True True False 1), FLdrhStrh True True False Pr True False),
      (OpLogical Mvn True, FLogical Mvn True Ari), (OpLdr (st_new True True True True 0),
      FLdrhStrh True False True Pr True False), (OpLogical Mvn True, FLogical Mvn True Rri),
      (OpLdr (st_new True True True True 1), FLdrhStrh True True True Pr True False)]]"

definition LOOKUP_ROWS_4 :: "(inst_op \<times> arm_fn) list list" where
  "LOOKUP_ROWS_4 =
     [replicate 16 (OpLogical And False, FLogical And False Imm),
      replicate 16 (OpLogical And True, FLogical And True Imm),
      replicate 16 (OpLogical Eor False, FLogical Eor False Imm),
      replicate 16 (OpLogical Eor True, FLogical Eor True Imm),
      replicate 16 (OpArith Sub False, FArith Sub False Imm),
      replicate 16 (OpArith Sub True, FArith Sub True Imm),
      replicate 16 (OpArith Rsb False, FArith Rsb False Imm),
      replicate 16 (OpArith Rsb True, FArith Rsb True Imm)]"

definition LOOKUP_ROWS_5 :: "(inst_op \<times> arm_fn) list list" where
  "LOOKUP_ROWS_5 =
     [replicate 16 (OpArith Add False, FArith Add False Imm),
      replicate 16 (OpArith Add True, FArith Add True Imm),
      replicate 16 (OpArith Adc False, FArith Adc False Imm),
      replicate 16 (OpArith Adc True, FArith Adc True Imm),
      replicate 16 (OpArith Sbc False, FArith Sbc False Imm),
      replicate 16 (OpArith Sbc True, FArith Sbc True Imm),
      replicate 16 (OpArith Rsc False, FArith Rsc False Imm),
      replicate 16 (OpArith Rsc True, FArith Rsc True Imm)]"

definition LOOKUP_ROWS_6 :: "(inst_op \<times> arm_fn) list list" where
  "LOOKUP_ROWS_6 =
     [replicate 16 (OpUnkArm, FUndefined),
      replicate 16 (OpTest Tst, FTest Tst Imm),
      replicate 16 (OpMsrI False, FMsrI False),
      replicate 16 (OpTest Teq, FTest Teq Imm),
      replicate 16 (OpUnkArm, FUndefined),
      replicate 16 (OpTest Cmp, FTest Cmp Imm),
      replicate 16 (OpMsrI True, FMsrI True),
      replicate 16 (OpTest Cmn, FTest Cmn Imm)]"

definition LOOKUP_ROWS_7 :: "(inst_op \<times> arm_fn) list list" where
  "LOOKUP_ROWS_7 =
     [replicate 16 (OpLogical Orr False, FLogical Orr False Imm),
      replicate 16 (OpLogical Orr True, FLogical Orr True Imm),
      replicate 16 (OpLogical Mov False, FLogical Mov False Imm),
      replicate 16 (OpLogical Mov True, FLogical Mov True Imm),
      replicate 16 (OpLogical Bic False, FLogical Bic False Imm),
      replicate 16 (OpLogical Bic True, FLogical Bic True Imm),
      replicate 16 (OpLogical Mvn False, FLogical Mvn False Imm),
      replicate 16 (OpLogical Mvn True, FLogical Mvn True Imm)]"

definition LOOKUP_ROWS_8 :: "(inst_op \<times> arm_fn) list list" where
  "LOOKUP_ROWS_8 =
     [replicate 16 (OpStr (st_new False True False False 2), FLdrStr False False Pt False OffImm),
      replicate 16 (OpLdr (st_new False True False False 2), FLdrStr True False Pt False OffImm),
      replicate 16 (OpUnkArm, FUndefined),
      replicate 16 (OpUnkArm, FUndefined),
      replicate 16 (OpStr (st_new False True False False 0), FLdrStr False True Pt False OffImm),
      replicate 16 (OpLdr (st_new False True False False 0), FLdrStr True True Pt False OffImm),
      replicate 16 (OpUnkArm, FUndefined),
      replicate 16 (OpUnkArm, FUndefined)]"

definition LOOKUP_ROWS_9 :: "(inst_op \<times> arm_fn) list list" where
  "LOOKUP_ROWS_9 =
     [replicate 16 (OpStr (st_new False True True False 2), FLdrStr False False Pt True OffImm),
      replicate 16 (OpLdr (st_new False True True False 2), FLdrStr True False Pt True OffImm),
      replicate 16 (OpUnkArm, FUndefined),
      replicate 16 (OpUnkArm, FUndefined),
      replicate 16 (OpStr (st_new False True True False 0), FLdrStr False True Pt True OffImm),
      replicate 16 (OpLdr (st_new False True True False 0), FLdrStr True True Pt True OffImm),
      replicate 16 (OpUnkArm, FUndefined),
      replicate 16 (OpUnkArm, FUndefined)]"

definition LOOKUP_ROWS_10 :: "(inst_op \<times> arm_fn) list list" where
  "LOOKUP_ROWS_10 =
     [replicate 16 (OpStr (st_new True False False False 2), FLdrStr False False Of False OffImm),
      replicate 16 (OpLdr (st_new True False False False 2), FLdrStr True False Of False OffImm),
      replicate 16 (OpStr (st_new True True False False 2), FLdrStr False False Pr False OffImm),
      replicate 16 (OpLdr (st_new True True False False 2), FLdrStr True False Pr False OffImm),
      replicate 16 (OpStr (st_new True False False False 0), FLdrStr False True Of False OffImm),
      replicate 16 (OpLdr (st_new True False False False 0), FLdrStr True True Of False OffImm),
      replicate 16 (OpStr (st_new True True False False 0), FLdrStr False True Pr False OffImm),
      replicate 16 (OpLdr (st_new True True False False 0), FLdrStr True True Pr False OffImm)]"

definition LOOKUP_ROWS_11 :: "(inst_op \<times> arm_fn) list list" where
  "LOOKUP_ROWS_11 =
     [replicate 16 (OpStr (st_new True False True False 2), FLdrStr False False Of True OffImm),
      replicate 16 (OpLdr (st_new True False True False 2), FLdrStr True False Of True OffImm),
      replicate 16 (OpStr (st_new True True True False 2), FLdrStr False False Pr True OffImm),
      replicate 16 (OpLdr (st_new True True True False 2), FLdrStr True False Pr True OffImm),
      replicate 16 (OpStr (st_new True False True False 0), FLdrStr False True Of True OffImm),
      replicate 16 (OpLdr (st_new True False True False 0), FLdrStr True True Of True OffImm),
      replicate 16 (OpStr (st_new True True True False 0), FLdrStr False True Pr True OffImm),
      replicate 16 (OpLdr (st_new True True True False 0), FLdrStr True True Pr True OffImm)]"

definition LOOKUP_ROWS_12 :: "(inst_op \<times> arm_fn) list list" where
  "LOOKUP_ROWS_12 =
     [[(OpStr (st_new False True False False 2), FLdrStr False False Pt False OffLsl), (OpUnkArm, FUndefined),
      (OpStr (st_new False True False False 2), FLdrStr False False Pt False OffLsr), (OpUnkArm, FUndefined),
      (OpStr (st_new False True False False 2), FLdrStr False False Pt False OffAsr), (OpUnkArm, FUndefined),
      (OpStr (st_new False True False False 2), FLdrStr False False Pt False OffRor), (OpUnkArm, FUndefined),
      (OpStr (st_new False True False False 2), FLdrStr False False Pt False OffLsl), (OpUnkArm, FUndefined),
      (OpStr (st_new False True False False 2), FLdrStr False False Pt False OffLsr), (OpUnkArm, FUndefined),
      (OpStr (st_new False True False False 2), FLdrStr False False Pt False OffAsr), (OpUnkArm, FUndefined),
      (OpStr (st_new False True False False 2), FLdrStr False False Pt False OffRor), (OpUnkArm, FUndefined)],
      [(OpLdr (st_new False True False False 2), FLdrStr True False Pt False OffLsl), (OpUnkArm, FUndefined),
      (OpLdr (st_new False True False False 2), FLdrStr True False Pt False OffLsr), (OpUnkArm, FUndefined),
      (OpLdr (st_new False True False False 2), FLdrStr True False Pt False OffAsr), (OpUnkArm, FUndefined),
      (OpLdr (st_new False True False False 2), FLdrStr True False Pt False OffRor), (OpUnkArm, FUndefined),
      (OpLdr (st_new False True False False 2), FLdrStr True False Pt False OffLsl), (OpUnkArm, FUndefined),
      (OpLdr (st_new False True False False 2), FLdrStr True False Pt False OffLsr), (OpUnkArm, FUndefined),
      (OpLdr (st_new False True False False 2), FLdrStr True False Pt False OffAsr), (OpUnkArm, FUndefined),
      (OpLdr (st_new False True False False 2), FLdrStr True False Pt False OffRor), (OpUnkArm, FUndefined)],
      replicate 16 (OpUnkArm, FUndefined),
      replicate 16 (OpUnkArm, FUndefined),
      [(OpStr (st_new False True False False 0), FLdrStr False True Pt False OffLsl), (OpUnkArm, FUndefined),
      (OpStr (st_new False True False False 0), FLdrStr False True Pt False OffLsr), (OpUnkArm, FUndefined),
      (OpStr (st_new False True False False 0), FLdrStr False True Pt False OffAsr), (OpUnkArm, FUndefined),
      (OpStr (st_new False True False False 0), FLdrStr False True Pt False OffRor), (OpUnkArm, FUndefined),
      (OpStr (st_new False True False False 0), FLdrStr False True Pt False OffLsl), (OpUnkArm, FUndefined),
      (OpStr (st_new False True False False 0), FLdrStr False True Pt False OffLsr), (OpUnkArm, FUndefined),
      (OpStr (st_new False True False False 0), FLdrStr False True Pt False OffAsr), (OpUnkArm, FUndefined),
      (OpStr (st_new False True False False 0), FLdrStr False True Pt False OffRor), (OpUnkArm, FUndefined)],
      [(OpLdr (st_new False True False False 0), FLdrStr True True Pt False OffLsl), (OpUnkArm, FUndefined),
      (OpLdr (st_new False True False False 0), FLdrStr True True Pt False OffLsr), (OpUnkArm, FUndefined),
      (OpLdr (st_new False True False False 0), FLdrStr True True Pt False OffAsr), (OpUnkArm, FUndefined),
      (OpLdr (st_new False True False False 0), FLdrStr True True Pt False OffRor), (OpUnkArm, FUndefined),
      (OpLdr (st_new False True False False 0), FLdrStr True True Pt False OffLsl), (OpUnkArm, FUndefined),
      (OpLdr (st_new False True False False 0), FLdrStr True True Pt False OffLsr), (OpUnkArm, FUndefined),
      (OpLdr (st_new False True False False 0), FLdrStr True True Pt False OffAsr), (OpUnkArm, FUndefined),
      (OpLdr (st_new False True False False 0), FLdrStr True True Pt False OffRor), (OpUnkArm, FUndefined)],
      replicate 16 (OpUnkArm, FUndefined),
      replicate 16 (OpUnkArm, FUndefined)]"

definition LOOKUP_ROWS_13 :: "(inst_op \<times> arm_fn) list list" where
  "LOOKUP_ROWS_13 =
     [[(OpStr (st_new False True True False 2), FLdrStr False False Pt True OffLsl), (OpUnkArm, FUndefined),
      (OpStr (st_new False True True False 2), FLdrStr False False Pt True OffLsr), (OpUnkArm, FUndefined),
      (OpStr (st_new False True True False 2), FLdrStr False False Pt True OffAsr), (OpUnkArm, FUndefined),
      (OpStr (st_new False True True False 2), FLdrStr False False Pt True OffRor), (OpUnkArm, FUndefined),
      (OpStr (st_new False True True False 2), FLdrStr False False Pt True OffLsl), (OpUnkArm, FUndefined),
      (OpStr (st_new False True True False 2), FLdrStr False False Pt True OffLsr), (OpUnkArm, FUndefined),
      (OpStr (st_new False True True False 2), FLdrStr False False Pt True OffAsr), (OpUnkArm, FUndefined),
      (OpStr (st_new False True True False 2), FLdrStr False False Pt True OffRor), (OpUnkArm, FUndefined)],
      [(OpLdr (st_new False True True False 2), FLdrStr True False Pt True OffLsl), (OpUnkArm, FUndefined),
      (OpLdr (st_new False True True False 2), FLdrStr True False Pt True OffLsr), (OpUnkArm, FUndefined),
      (OpLdr (st_new False True True False 2), FLdrStr True False Pt True OffAsr), (OpUnkArm, FUndefined),
      (OpLdr (st_new False True True False 2), FLdrStr True False Pt True OffRor), (OpUnkArm, FUndefined),
      (OpLdr (st_new False True True False 2), FLdrStr True False Pt True OffLsl), (OpUnkArm, FUndefined),
      (OpLdr (st_new False True True False 2), FLdrStr True False Pt True OffLsr), (OpUnkArm, FUndefined),
      (OpLdr (st_new False True True False 2), FLdrStr True False Pt True OffAsr), (OpUnkArm, FUndefined),
      (OpLdr (st_new False True True False 2), FLdrStr True False Pt True OffRor), (OpUnkArm, FUndefined)],
      replicate 16 (OpUnkArm, FUndefined),
      replicate 16 (OpUnkArm, FUndefined),
      [(OpStr (st_new False True True False 0), FLdrStr False True Pt True OffLsl), (OpUnkArm, FUndefined),
      (OpStr (st_new False True True False 0), FLdrStr False True Pt True OffLsr), (OpUnkArm, FUndefined),
      (OpStr (st_new False True True False 0), FLdrStr False True Pt True OffAsr), (OpUnkArm, FUndefined),
      (OpStr (st_new False True True False 0), FLdrStr False True Pt True OffRor), (OpUnkArm, FUndefined),
      (OpStr (st_new False True True False 0), FLdrStr False True Pt True OffLsl), (OpUnkArm, FUndefined),
      (OpStr (st_new False True True False 0), FLdrStr False True Pt True OffLsr), (OpUnkArm, FUndefined),
      (OpStr (st_new False True True False 0), FLdrStr False True Pt True OffAsr), (OpUnkArm, FUndefined),
      (OpStr (st_new False True True False 0), FLdrStr False True Pt True OffRor), (OpUnkArm, FUndefined)],
      [(OpLdr (st_new False True True False 0), FLdrStr True True Pt True OffLsl), (OpUnkArm, FUndefined),
      (OpLdr (st_new False True True False 0), FLdrStr True True Pt True OffLsr), (OpUnkArm, FUndefined),
      (OpLdr (st_new False True True False 0), FLdrStr True True Pt True OffAsr), (OpUnkArm, FUndefined),
      (OpLdr (st_new False True True False 0), FLdrStr True True Pt True OffRor), (OpUnkArm, FUndefined),
      (OpLdr (st_new False True True False 0), FLdrStr True True Pt True OffLsl), (OpUnkArm, FUndefined),
      (OpLdr (st_new False True True False 0), FLdrStr True True Pt True OffLsr), (OpUnkArm, FUndefined),
      (OpLdr (st_new False True True False 0), FLdrStr True True Pt True OffAsr), (OpUnkArm, FUndefined),
      (OpLdr (st_new False True True False 0), FLdrStr True True Pt True OffRor), (OpUnkArm, FUndefined)],
      replicate 16 (OpUnkArm, FUndefined),
      replicate 16 (OpUnkArm, FUndefined)]"

definition LOOKUP_ROWS_14 :: "(inst_op \<times> arm_fn) list list" where
  "LOOKUP_ROWS_14 =
     [[(OpStr (st_new True False False False 2), FLdrStr False False Of False OffLsl), (OpUnkArm, FUndefined),
      (OpStr (st_new True False False False 2), FLdrStr False False Of False OffLsr), (OpUnkArm, FUndefined),
      (OpStr (st_new True False False False 2), FLdrStr False False Of False OffAsr), (OpUnkArm, FUndefined),
      (OpStr (st_new True False False False 2), FLdrStr False False Of False OffRor), (OpUnkArm, FUndefined),
      (OpStr (st_new True False False False 2), FLdrStr False False Of False OffLsl), (OpUnkArm, FUndefined),
      (OpStr (st_new True False False False 2), FLdrStr False False Of False OffLsr), (OpUnkArm, FUndefined),
      (OpStr (st_new True False False False 2), FLdrStr False False Of False OffAsr), (OpUnkArm, FUndefined),
      (OpStr (st_new True False False False 2), FLdrStr False False Of False OffRor), (OpUnkArm, FUndefined)],
      [(OpLdr (st_new True False False False 2), FLdrStr True False Of False OffLsl), (OpUnkArm, FUndefined),
      (OpLdr (st_new True False False False 2), FLdrStr True False Of False OffLsr), (OpUnkArm, FUndefined),
      (OpLdr (st_new True False False False 2), FLdrStr True False Of False OffAsr), (OpUnkArm, FUndefined),
      (OpLdr (st_new True False False False 2), FLdrStr True False Of False OffRor), (OpUnkArm, FUndefined),
      (OpLdr (st_new True False False False 2), FLdrStr True False Of False OffLsl), (OpUnkArm, FUndefined),
      (OpLdr (st_new True False False False 2), FLdrStr True False Of False OffLsr), (OpUnkArm, FUndefined),
      (OpLdr (st_new True False False False 2), FLdrStr True False Of False OffAsr), (OpUnkArm, FUndefined),
      (OpLdr (st_new True False False False 2), FLdrStr True False Of False OffRor), (OpUnkArm, FUndefined)],
      [(OpStr (st_new True True False False 2), FLdrStr False False Pr False OffLsl), (OpUnkArm, FUndefined),
      (OpStr (st_new True True False False 2), FLdrStr False False Pr False OffLsr), (OpUnkArm, FUndefined),
      (OpStr (st_new True True False False 2), FLdrStr False False Pr False OffAsr), (OpUnkArm, FUndefined),
      (OpStr (st_new True True False False 2), FLdrStr False False Pr False OffRor), (OpUnkArm, FUndefined),
      (OpStr (st_new True True False False 2), FLdrStr False False Pr False OffLsl), (OpUnkArm, FUndefined),
      (OpStr (st_new True True False False 2), FLdrStr False False Pr False OffLsr), (OpUnkArm, FUndefined),
      (OpStr (st_new True True False False 2), FLdrStr False False Pr False OffAsr), (OpUnkArm, FUndefined),
      (OpStr (st_new True True False False 2), FLdrStr False False Pr False OffRor), (OpUnkArm, FUndefined)],
      [(OpLdr (st_new True True False False 2), FLdrStr True False Pr False OffLsl), (OpUnkArm, FUndefined),
      (OpLdr (st_new True True False False 2), FLdrStr True False Pr False OffLsr), (OpUnkArm, FUndefined),
      (OpLdr (st_new True True False False 2), FLdrStr True False Pr False OffAsr), (OpUnkArm, FUndefined),
      (OpLdr (st_new True True False False 2), FLdrStr True False Pr False OffRor), (OpUnkArm, FUndefined),
      (OpLdr (st_new True True False False 2), FLdrStr True False Pr False OffLsl), (OpUnkArm, FUndefined),
      (OpLdr (st_new True True False False 2), FLdrStr True False Pr False OffLsr), (OpUnkArm, FUndefined),
      (OpLdr (st_new True True False False 2), FLdrStr True False Pr False OffAsr), (OpUnkArm, FUndefined),
      (OpLdr (st_new True True False False 2), FLdrStr True False Pr False OffRor), (OpUnkArm, FUndefined)],
      [(OpStr (st_new True False False False 0), FLdrStr False True Of False OffLsl), (OpUnkArm, FUndefined),
      (OpStr (st_new True False False False 0), FLdrStr False True Of False OffLsr), (OpUnkArm, FUndefined),
      (OpStr (st_new True False False False 0), FLdrStr False True Of False OffAsr), (OpUnkArm, FUndefined),
      (OpStr (st_new True False False False 0), FLdrStr False True Of False OffRor), (OpUnkArm, FUndefined),
      (OpStr (st_new True False False False 0), FLdrStr False True Of False OffLsl), (OpUnkArm, FUndefined),
      (OpStr (st_new True False False False 0), FLdrStr False True Of False OffLsr), (OpUnkArm, FUndefined),
      (OpStr (st_new True False False False 0), FLdrStr False True Of False OffAsr), (OpUnkArm, FUndefined),
      (OpStr (st_new True False False False 0), FLdrStr False True Of False OffRor), (OpUnkArm, FUndefined)],
      [(OpLdr (st_new True False False False 0), FLdrStr True True Of False OffLsl), (OpUnkArm, FUndefined),
      (OpLdr (st_new True False False False 0), FLdrStr True True Of False OffLsr), (OpUnkArm, FUndefined),
      (OpLdr (st_new True False False False 0), FLdrStr True True Of False OffAsr), (OpUnkArm, FUndefined),
      (OpLdr (st_new True False False False 0), FLdrStr True True Of False OffRor), (OpUnkArm, FUndefined),
      (OpLdr (st_new True False False False 0), FLdrStr True True Of False OffLsl), (OpUnkArm, FUndefined),
      (OpLdr (st_new True False False False 0), FLdrStr True True Of False OffLsr), (OpUnkArm, FUndefined),
      (OpLdr (st_new True False False False 0), FLdrStr True True Of False OffAsr), (OpUnkArm, FUndefined),
      (OpLdr (st_new True False False False 0), FLdrStr True True Of False OffRor), (OpUnkArm, FUndefined)],
      [(OpStr (st_new True True False False 0), FLdrStr False True Pr False OffLsl), (OpUnkArm, FUndefined),
      (OpStr (st_new True True False False 0), FLdrStr False True Pr False OffLsr), (OpUnkArm, FUndefined),
      (OpStr (st_new True True False False 0), FLdrStr False True Pr False OffAsr), (OpUnkArm, FUndefined),
      (OpStr (st_new True True False False 0), FLdrStr False True Pr False OffRor), (OpUnkArm, FUndefined),
      (OpStr (st_new True True False False 0), FLdrStr False True Pr False OffLsl), (OpUnkArm, FUndefined),
      (OpStr (st_new True True False False 0), FLdrStr False True Pr False OffLsr), (OpUnkArm, FUndefined),
      (OpStr (st_new True True False False 0), FLdrStr False True Pr False OffAsr), (OpUnkArm, FUndefined),
      (OpStr (st_new True True False False 0), FLdrStr False True Pr False OffRor), (OpUnkArm, FUndefined)],
      [(OpLdr (st_new True True False False 0), FLdrStr True True Pr False OffLsl), (OpUnkArm, FUndefined),
      (OpLdr (st_new True True False False 0), FLdrStr True True Pr False OffLsr), (OpUnkArm, FUndefined),
      (OpLdr (st_new True True False False 0), FLdrStr True True Pr False OffAsr), (OpUnkArm, FUndefined),
      (OpLdr (st_new True True False False 0), FLdrStr True True Pr False OffRor), (OpUnkArm, FUndefined),
      (OpLdr (st_new True True False False 0), FLdrStr True True Pr False OffLsl), (OpUnkArm, FUndefined),
      (OpLdr (st_new True True False False 0), FLdrStr True True Pr False OffLsr), (OpUnkArm, FUndefined),
      (OpLdr (st_new True True False False 0), FLdrStr True True Pr False OffAsr), (OpUnkArm, FUndefined),
      (OpLdr (st_new True True False False 0), FLdrStr True True Pr False OffRor), (OpUnkArm, FUndefined)]]"

definition LOOKUP_ROWS_15 :: "(inst_op \<times> arm_fn) list list" where
  "LOOKUP_ROWS_15 =
     [[(OpStr (st_new True False True False 2), FLdrStr False False Of True OffLsl), (OpUnkArm, FUndefined),
      (OpStr (st_new True False True False 2), FLdrStr False False Of True OffLsr), (OpUnkArm, FUndefined),
      (OpStr (st_new True False True False 2), FLdrStr False False Of True OffAsr), (OpUnkArm, FUndefined),
      (OpStr (st_new True False True False 2), FLdrStr False False Of True OffRor), (OpUnkArm, FUndefined),
      (OpStr (st_new True False True False 2), FLdrStr False False Of True OffLsl), (OpUnkArm, FUndefined),
      (OpStr (st_new True False True False 2), FLdrStr False False Of True OffLsr), (OpUnkArm, FUndefined),
      (OpStr (st_new True False True False 2), FLdrStr False False Of True OffAsr), (OpUnkArm, FUndefined),
      (OpStr (st_new True False True False 2), FLdrStr False False Of True OffRor), (OpUnkArm, FUndefined)],
      [(OpLdr (st_new True False True False 2), FLdrStr True False Of True OffLsl), (OpUnkArm, FUndefined),
      (OpLdr (st_new True False True False 2), FLdrStr True False Of True OffLsr), (OpUnkArm, FUndefined),
      (OpLdr (st_new True False True False 2), FLdrStr True False Of True OffAsr), (OpUnkArm, FUndefined),
      (OpLdr (st_new True False True False 2), FLdrStr True False Of True OffRor), (OpUnkArm, FUndefined),
      (OpLdr (st_new True False True False 2), FLdrStr True False Of True OffLsl), (OpUnkArm, FUndefined),
      (OpLdr (st_new True False True False 2), FLdrStr True False Of True OffLsr), (OpUnkArm, FUndefined),
      (OpLdr (st_new True False True False 2), FLdrStr True False Of True OffAsr), (OpUnkArm, FUndefined),
      (OpLdr (st_new True False True False 2), FLdrStr True False Of True OffRor), (OpUnkArm, FUndefined)],
      [(OpStr (st_new True True True False 2), FLdrStr False False Pr True OffLsl), (OpUnkArm, FUndefined),
      (OpStr (st_new True True True False 2), FLdrStr False False Pr True OffLsr), (OpUnkArm, FUndefined),
      (OpStr (st_new True True True False 2), FLdrStr False False Pr True OffAsr), (OpUnkArm, FUndefined),
      (OpStr (st_new True True True False 2), FLdrStr False False Pr True OffRor), (OpUnkArm, FUndefined),
      (OpStr (st_new True True True False 2), FLdrStr False False Pr True OffLsl), (OpUnkArm, FUndefined),
      (OpStr (st_new True True True False 2), FLdrStr False False Pr True OffLsr), (OpUnkArm, FUndefined),
      (OpStr (st_new True True True False 2), FLdrStr False False Pr True OffAsr), (OpUnkArm, FUndefined),
      (OpStr (st_new True True True False 2), FLdrStr False False Pr True OffRor), (OpUnkArm, FUndefined)],
      [(OpLdr (st_new True True True False 2), FLdrStr True False Pr True OffLsl), (OpUnkArm, FUndefined),
      (OpLdr (st_new True True True False 2), FLdrStr True False Pr True OffLsr), (OpUnkArm, FUndefined),
      (OpLdr (st_new True True True False 2), FLdrStr True False Pr True OffAsr), (OpUnkArm, FUndefined),
      (OpLdr (st_new True True True False 2), FLdrStr True False Pr True OffRor), (OpUnkArm, FUndefined),
      (OpLdr (st_new True True True False 2), FLdrStr True False Pr True OffLsl), (OpUnkArm, FUndefined),
      (OpLdr (st_new True True True False 2), FLdrStr True False Pr True OffLsr), (OpUnkArm, FUndefined),
      (OpLdr (st_new True True True False 2), FLdrStr True False Pr True OffAsr), (OpUnkArm, FUndefined),
      (OpLdr (st_new True True True False 2), FLdrStr True False Pr True OffRor), (OpUnkArm, FUndefined)],
      [(OpStr (st_new True False True False 0), FLdrStr False True Of True OffLsl), (OpUnkArm, FUndefined),
      (OpStr (st_new True False True False 0), FLdrStr False True Of True OffLsr), (OpUnkArm, FUndefined),
      (OpStr (st_new True False True False 0), FLdrStr False True Of True OffAsr), (OpUnkArm, FUndefined),
      (OpStr (st_new True False True False 0), FLdrStr False True Of True OffRor), (OpUnkArm, FUndefined),
      (OpStr (st_new True False True False 0), FLdrStr False True Of True OffLsl), (OpUnkArm, FUndefined),
      (OpStr (st_new True False True False 0), FLdrStr False True Of True OffLsr), (OpUnkArm, FUndefined),
      (OpStr (st_new True False True False 0), FLdrStr False True Of True OffAsr), (OpUnkArm, FUndefined),
      (OpStr (st_new True False True False 0), FLdrStr False True Of True OffRor), (OpUnkArm, FUndefined)],
      [(OpLdr (st_new True False True False 0), FLdrStr True True Of True OffLsl), (OpUnkArm, FUndefined),
      (OpLdr (st_new True False True False 0), FLdrStr True True Of True OffLsr), (OpUnkArm, FUndefined),
      (OpLdr (st_new True False True False 0), FLdrStr True True Of True OffAsr), (OpUnkArm, FUndefined),
      (OpLdr (st_new True False True False 0), FLdrStr True True Of True OffRor), (OpUnkArm, FUndefined),
      (OpLdr (st_new True False True False 0), FLdrStr True True Of True OffLsl), (OpUnkArm, FUndefined),
      (OpLdr (st_new True False True False 0), FLdrStr True True Of True OffLsr), (OpUnkArm, FUndefined),
      (OpLdr (st_new True False True False 0), FLdrStr True True Of True OffAsr), (OpUnkArm, FUndefined),
      (OpLdr (st_new True False True False 0), FLdrStr True True Of True OffRor), (OpUnkArm, FUndefined)],
      [(OpStr (st_new True True True False 0), FLdrStr False True Pr True OffLsl), (OpUnkArm, FUndefined),
      (OpStr (st_new True True True False 0), FLdrStr False True Pr True OffLsr), (OpUnkArm, FUndefined),
      (OpStr (st_new True True True False 0), FLdrStr False True Pr True OffAsr), (OpUnkArm, FUndefined),
      (OpStr (st_new True True True False 0), FLdrStr False True Pr True OffRor), (OpUnkArm, FUndefined),
      (OpStr (st_new True True True False 0), FLdrStr False True Pr True OffLsl), (OpUnkArm, FUndefined),
      (OpStr (st_new True True True False 0), FLdrStr False True Pr True OffLsr), (OpUnkArm, FUndefined),
      (OpStr (st_new True True True False 0), FLdrStr False True Pr True OffAsr), (OpUnkArm, FUndefined),
      (OpStr (st_new True True True False 0), FLdrStr False True Pr True OffRor), (OpUnkArm, FUndefined)],
      [(OpLdr (st_new True True True False 0), FLdrStr True True Pr True OffLsl), (OpUnkArm, FUndefined),
      (OpLdr (st_new True True True False 0), FLdrStr True True Pr True OffLsr), (OpUnkArm, FUndefined),
      (OpLdr (st_new True True True False 0), FLdrStr True True Pr True OffAsr), (OpUnkArm, FUndefined),
      (OpLdr (st_new True True True False 0), FLdrStr True True Pr True OffRor), (OpUnkArm, FUndefined),
      (OpLdr (st_new True True True False 0), FLdrStr True True Pr True OffLsl), (OpUnkArm, FUndefined),
      (OpLdr (st_new True True True False 0), FLdrStr True True Pr True OffLsr), (OpUnkArm, FUndefined),
      (OpLdr (st_new True True True False 0), FLdrStr True True Pr True OffAsr), (OpUnkArm, FUndefined),
      (OpLdr (st_new True True True False 0), FLdrStr True True Pr True OffRor), (OpUnkArm, FUndefined)]]"

definition LOOKUP_ROWS_16 :: "(inst_op \<times> arm_fn) list list" where
  "LOOKUP_ROWS_16 =
     [replicate 16 (OpStm (mt_new False False False False), FLdmStm False False False False False),
      replicate 16 (OpLdm (mt_new False False False False), FLdmStm True False False False False),
      replicate 16 (OpStm (mt_new False True False False), FLdmStm False False False False True),
      replicate 16 (OpLdm (mt_new False True False False), FLdmStm True False False False True),
      replicate 16 (OpStm (mt_new False False False True), FLdmStm False False False True False),
      replicate 16 (OpLdm (mt_new False False False True), FLdmStm True False False True False),
      replicate 16 (OpStm (mt_new False True False True), FLdmStm False False False True True),
      replicate 16 (OpLdm (mt_new False True False True), FLdmStm True False False True True)]"

definition LOOKUP_ROWS_17 :: "(inst_op \<times> arm_fn) list list" where
  "LOOKUP_ROWS_17 =
     [replicate 16 (OpStm (mt_new False False True False), FLdmStm False False True False False),
      replicate 16 (OpLdm (mt_new False False True False), FLdmStm True False True False False),
      replicate 16 (OpStm (mt_new False True True False), FLdmStm False False True False True),
      replicate 16 (OpLdm (mt_new False True True False), FLdmStm True False True False True),
      replicate 16 (OpStm (mt_new False False True True), FLdmStm False False True True False),
      replicate 16 (OpLdm (mt_new False False True True), FLdmStm True False True True False),
      replicate 16 (OpStm (mt_new False True True True), FLdmStm False False True True True),
      replicate 16 (OpLdm (mt_new False True True True), FLdmStm True False True True True)]"

definition LOOKUP_ROWS_18 :: "(inst_op \<times> arm_fn) list list" where
  "LOOKUP_ROWS_18 =
     [replicate 16 (OpStm (mt_new True False False False), FLdmStm False True False False False),
      replicate 16 (OpLdm (mt_new True False False False), FLdmStm True True False False False),
      replicate 16 (OpStm (mt_new True True False False), FLdmStm False True False False True),
      replicate 16 (OpLdm (mt_new True True False False), FLdmStm True True False False True),
      replicate 16 (OpStm (mt_new True False False True), FLdmStm False True False True False),
      replicate 16 (OpLdm (mt_new True False False True), FLdmStm True True False True False),
      replicate 16 (OpStm (mt_new True True False True), FLdmStm False True False True True),
      replicate 16 (OpLdm (mt_new True True False True), FLdmStm True True False True True)]"

definition LOOKUP_ROWS_19 :: "(inst_op \<times> arm_fn) list list" where
  "LOOKUP_ROWS_19 =
     [replicate 16 (OpStm (mt_new True False True False), FLdmStm False True True False False),
      replicate 16 (OpLdm (mt_new True False True False), FLdmStm True True True False False),
      replicate 16 (OpStm (mt_new True True True False), FLdmStm False True True False True),
      replicate 16 (OpLdm (mt_new True True True False), FLdmStm True True True False True),
      replicate 16 (OpStm (mt_new True False True True), FLdmStm False True True True False),
      replicate 16 (OpLdm (mt_new True False True True), FLdmStm True True True True False),
      replicate 16 (OpStm (mt_new True True True True), FLdmStm False True True True True),
      replicate 16 (OpLdm (mt_new True True True True), FLdmStm True True True True True)]"

definition LOOKUP_ROWS_20 :: "(inst_op \<times> arm_fn) list list" where
  "LOOKUP_ROWS_20 =
     [replicate 16 (OpB, FB),
      replicate 16 (OpB, FB),
      replicate 16 (OpB, FB),
      replicate 16 (OpB, FB),
      replicate 16 (OpB, FB),
      replicate 16 (OpB, FB),
      replicate 16 (OpB, FB),
      replicate 16 (OpB, FB)]"

definition LOOKUP_ROWS_21 :: "(inst_op \<times> arm_fn) list list" where
  "LOOKUP_ROWS_21 =
     [replicate 16 (OpB, FB),
      replicate 16 (OpB, FB),
      replicate 16 (OpB, FB),
      replicate 16 (OpB, FB),
      replicate 16 (OpB, FB),
      replicate 16 (OpB, FB),
      replicate 16 (OpB, FB),
      replicate 16 (OpB, FB)]"

definition LOOKUP_ROWS_22 :: "(inst_op \<times> arm_fn) list list" where
  "LOOKUP_ROWS_22 =
     [replicate 16 (OpBl, FBl),
      replicate 16 (OpBl, FBl),
      replicate 16 (OpBl, FBl),
      replicate 16 (OpBl, FBl),
      replicate 16 (OpBl, FBl),
      replicate 16 (OpBl, FBl),
      replicate 16 (OpBl, FBl),
      replicate 16 (OpBl, FBl)]"

definition LOOKUP_ROWS_23 :: "(inst_op \<times> arm_fn) list list" where
  "LOOKUP_ROWS_23 =
     [replicate 16 (OpBl, FBl),
      replicate 16 (OpBl, FBl),
      replicate 16 (OpBl, FBl),
      replicate 16 (OpBl, FBl),
      replicate 16 (OpBl, FBl),
      replicate 16 (OpBl, FBl),
      replicate 16 (OpBl, FBl),
      replicate 16 (OpBl, FBl)]"

definition LOOKUP_ROWS_24 :: "(inst_op \<times> arm_fn) list list" where
  "LOOKUP_ROWS_24 =
     [replicate 16 (OpUnkArm, FUndefined),
      replicate 16 (OpUnkArm, FUndefined),
      replicate 16 (OpUnkArm, FUndefined),
      replicate 16 (OpUnkArm, FUndefined),
      replicate 16 (OpUnkArm, FUndefined),
      replicate 16 (OpUnkArm, FUndefined),
      replicate 16 (OpUnkArm, FUndefined),
      replicate 16 (OpUnkArm, FUndefined)]"

definition LOOKUP_ROWS_25 :: "(inst_op \<times> arm_fn) list list" where
  "LOOKUP_ROWS_25 =
     [replicate 16 (OpUnkArm, FUndefined),
      replicate 16 (OpUnkArm, FUndefined),
      replicate 16 (OpUnkArm, FUndefined),
      replicate 16 (OpUnkArm, FUndefined),
      replicate 16 (OpUnkArm, FUndefined),
      replicate 16 (OpUnkArm, FUndefined),
      replicate 16 (OpUnkArm, FUndefined),
      replicate 16 (OpUnkArm, FUndefined)]"

definition LOOKUP_ROWS_26 :: "(inst_op \<times> arm_fn) list list" where
  "LOOKUP_ROWS_26 =
     [replicate 16 (OpUnkArm, FUndefined),
      replicate 16 (OpUnkArm, FUndefined),
      replicate 16 (OpUnkArm, FUndefined),
      replicate 16 (OpUnkArm, FUndefined),
      replicate 16 (OpUnkArm, FUndefined),
      replicate 16 (OpUnkArm, FUndefined),
      replicate 16 (OpUnkArm, FUndefined),
      replicate 16 (OpUnkArm, FUndefined)]"

definition LOOKUP_ROWS_27 :: "(inst_op \<times> arm_fn) list list" where
  "LOOKUP_ROWS_27 =
     [replicate 16 (OpUnkArm, FUndefined),
      replicate 16 (OpUnkArm, FUndefined),
      replicate 16 (OpUnkArm, FUndefined),
      replicate 16 (OpUnkArm, FUndefined),
      replicate 16 (OpUnkArm, FUndefined),
      replicate 16 (OpUnkArm, FUndefined),
      replicate 16 (OpUnkArm, FUndefined),
      replicate 16 (OpUnkArm, FUndefined)]"

definition LOOKUP_ROWS_28 :: "(inst_op \<times> arm_fn) list list" where
  "LOOKUP_ROWS_28 =
     [[(OpUnkArm, FUndefined), (OpMcr, FMcr), (OpUnkArm, FUndefined), (OpMcr, FMcr), (OpUnkArm, FUndefined), (OpMcr,
      FMcr), (OpUnkArm, FUndefined), (OpMcr, FMcr), (OpUnkArm, FUndefined), (OpMcr, FMcr), (OpUnkArm, FUndefined), (OpMcr,
      FMcr), (OpUnkArm, FUndefined), (OpMcr, FMcr), (OpUnkArm, FUndefined), (OpMcr, FMcr)],
      [(OpUnkArm, FUndefined), (OpMrc, FMrc), (OpUnkArm, FUndefined), (OpMrc, FMrc), (OpUnkArm, FUndefined), (OpMrc,
      FMrc), (OpUnkArm, FUndefined), (OpMrc, FMrc), (OpUnkArm, FUndefined), (OpMrc, FMrc), (OpUnkArm, FUndefined), (OpMrc,
      FMrc), (OpUnkArm, FUndefined), (OpMrc, FMrc), (OpUnkArm, FUndefined), (OpMrc, FMrc)],
      [(OpUnkArm, FUndefined), (OpMcr, FMcr), (OpUnkArm, FUndefined), (OpMcr, FMcr), (OpUnkArm, FUndefined), (OpMcr,
      FMcr), (OpUnkArm, FUndefined), (OpMcr, FMcr), (OpUnkArm, FUndefined), (OpMcr, FMcr), (OpUnkArm, FUndefined), (OpMcr,
      FMcr), (OpUnkArm, FUndefined), (OpMcr, FMcr), (OpUnkArm, FUndefined), (OpMcr, FMcr)],
      [(OpUnkArm, FUndefined), (OpMrc, FMrc), (OpUnkArm, FUndefined), (OpMrc, FMrc), (OpUnkArm, FUndefined), (OpMrc,
      FMrc), (OpUnkArm, FUndefined), (OpMrc, FMrc), (OpUnkArm, FUndefined), (OpMrc, FMrc), (OpUnkArm, FUndefined), (OpMrc,
      FMrc), (OpUnkArm, FUndefined), (OpMrc, FMrc), (OpUnkArm, FUndefined), (OpMrc, FMrc)],
      [(OpUnkArm, FUndefined), (OpMcr, FMcr), (OpUnkArm, FUndefined), (OpMcr, FMcr), (OpUnkArm, FUndefined), (OpMcr,
      FMcr), (OpUnkArm, FUndefined), (OpMcr, FMcr), (OpUnkArm, FUndefined), (OpMcr, FMcr), (OpUnkArm, FUndefined), (OpMcr,
      FMcr), (OpUnkArm, FUndefined), (OpMcr, FMcr), (OpUnkArm, FUndefined), (OpMcr, FMcr)],
      [(OpUnkArm, FUndefined), (OpMrc, FMrc), (OpUnkArm, FUndefined), (OpMrc, FMrc), (OpUnkArm, FUndefined), (OpMrc,
      FMrc), (OpUnkArm, FUndefined), (OpMrc, FMrc), (OpUnkArm, FUndefined), (OpMrc, FMrc), (OpUnkArm, FUndefined), (OpMrc,
      FMrc), (OpUnkArm, FUndefined), (OpMrc, FMrc), (OpUnkArm, FUndefined), (OpMrc, FMrc)],
      [(OpUnkArm, FUndefined), (OpMcr, FMcr), (OpUnkArm, FUndefined), (OpMcr, FMcr), (OpUnkArm, FUndefined), (OpMcr,
      FMcr), (OpUnkArm, FUndefined), (OpMcr, FMcr), (OpUnkArm, FUndefined), (OpMcr, FMcr), (OpUnkArm, FUndefined), (OpMcr,
      FMcr), (OpUnkArm, FUndefined), (OpMcr, FMcr), (OpUnkArm, FUndefined), (OpMcr, FMcr)],
      [(OpUnkArm, FUndefined), (OpMrc, FMrc), (OpUnkArm, FUndefined), (OpMrc, FMrc), (OpUnkArm, FUndefined), (OpMrc,
      FMrc), (OpUnkArm, FUndefined), (OpMrc, FMrc), (OpUnkArm, FUndefined), (OpMrc, FMrc), (OpUnkArm, FUndefined), (OpMrc,
      FMrc), (OpUnkArm, FUndefined), (OpMrc, FMrc), (OpUnkArm, FUndefined), (OpMrc, FMrc)]]"

definition LOOKUP_ROWS_29 :: "(inst_op \<times> arm_fn) list list" where
  "LOOKUP_ROWS_29 =
     [[(OpUnkArm, FUndefined), (OpMcr, FMcr), (OpUnkArm, FUndefined), (OpMcr, FMcr), (OpUnkArm, FUndefined), (OpMcr,
      FMcr), (OpUnkArm, FUndefined), (OpMcr, FMcr), (OpUnkArm, FUndefined), (OpMcr, FMcr), (OpUnkArm, FUndefined), (OpMcr,
      FMcr), (OpUnkArm, FUndefined), (OpMcr, FMcr), (OpUnkArm, FUndefined), (OpMcr, FMcr)],
      [(OpUnkArm, FUndefined), (OpMrc, FMrc), (OpUnkArm, FUndefined), (OpMrc, FMrc), (OpUnkArm, FUndefined), (OpMrc,
      FMrc), (OpUnkArm, FUndefined), (OpMrc, FMrc), (OpUnkArm, FUndefined), (OpMrc, FMrc), (OpUnkArm, FUndefined), (OpMrc,
      FMrc), (OpUnkArm, FUndefined), (OpMrc, FMrc), (OpUnkArm, FUndefined), (OpMrc, FMrc)],
      [(OpUnkArm, FUndefined), (OpMcr, FMcr), (OpUnkArm, FUndefined), (OpMcr, FMcr), (OpUnkArm, FUndefined), (OpMcr,
      FMcr), (OpUnkArm, FUndefined), (OpMcr, FMcr), (OpUnkArm, FUndefined), (OpMcr, FMcr), (OpUnkArm, FUndefined), (OpMcr,
      FMcr), (OpUnkArm, FUndefined), (OpMcr, FMcr), (OpUnkArm, FUndefined), (OpMcr, FMcr)],
      [(OpUnkArm, FUndefined), (OpMrc, FMrc), (OpUnkArm, FUndefined), (OpMrc, FMrc), (OpUnkArm, FUndefined), (OpMrc,
      FMrc), (OpUnkArm, FUndefined), (OpMrc, FMrc), (OpUnkArm, FUndefined), (OpMrc, FMrc), (OpUnkArm, FUndefined), (OpMrc,
      FMrc), (OpUnkArm, FUndefined), (OpMrc, FMrc), (OpUnkArm, FUndefined), (OpMrc, FMrc)],
      [(OpUnkArm, FUndefined), (OpMcr, FMcr), (OpUnkArm, FUndefined), (OpMcr, FMcr), (OpUnkArm, FUndefined), (OpMcr,
      FMcr), (OpUnkArm, FUndefined), (OpMcr, FMcr), (OpUnkArm, FUndefined), (OpMcr, FMcr), (OpUnkArm, FUndefined), (OpMcr,
      FMcr), (OpUnkArm, FUndefined), (OpMcr, FMcr), (OpUnkArm, FUndefined), (OpMcr, FMcr)],
      [(OpUnkArm, FUndefined), (OpMrc, FMrc), (OpUnkArm, FUndefined), (OpMrc, FMrc), (OpUnkArm, FUndefined), (OpMrc,
      FMrc), (OpUnkArm, FUndefined), (OpMrc, FMrc), (OpUnkArm, FUndefined), (OpMrc, FMrc), (OpUnkArm, FUndefined), (OpMrc,
      FMrc), (OpUnkArm, FUndefined), (OpMrc, FMrc), (OpUnkArm, FUndefined), (OpMrc, FMrc)],
      [(OpUnkArm, FUndefined), (OpMcr, FMcr), (OpUnkArm, FUndefined), (OpMcr, FMcr), (OpUnkArm, FUndefined), (OpMcr,
      FMcr), (OpUnkArm, FUndefined), (OpMcr, FMcr), (OpUnkArm, FUndefined), (OpMcr, FMcr), (OpUnkArm, FUndefined), (OpMcr,
      FMcr), (OpUnkArm, FUndefined), (OpMcr, FMcr), (OpUnkArm, FUndefined), (OpMcr, FMcr)],
      [(OpUnkArm, FUndefined), (OpMrc, FMrc), (OpUnkArm, FUndefined), (OpMrc, FMrc), (OpUnkArm, FUndefined), (OpMrc,
      FMrc), (OpUnkArm, FUndefined), (OpMrc, FMrc), (OpUnkArm, FUndefined), (OpMrc, FMrc), (OpUnkArm, FUndefined), (OpMrc,
      FMrc), (OpUnkArm, FUndefined), (OpMrc, FMrc), (OpUnkArm, FUndefined), (OpMrc, FMrc)]]"

definition LOOKUP_ROWS_30 :: "(inst_op \<times> arm_fn) list list" where
  "LOOKUP_ROWS_30 =
     [replicate 16 (OpSwi, FSwi),
      replicate 16 (OpSwi, FSwi),
      replicate 16 (OpSwi, FSwi),
      replicate 16 (OpSwi, FSwi),
      replicate 16 (OpSwi, FSwi),
      replicate 16 (OpSwi, FSwi),
      replicate 16 (OpSwi, FSwi),
      replicate 16 (OpSwi, FSwi)]"

definition LOOKUP_ROWS_31 :: "(inst_op \<times> arm_fn) list list" where
  "LOOKUP_ROWS_31 =
     [replicate 16 (OpSwi, FSwi),
      replicate 16 (OpSwi, FSwi),
      replicate 16 (OpSwi, FSwi),
      replicate 16 (OpSwi, FSwi),
      replicate 16 (OpSwi, FSwi),
      replicate 16 (OpSwi, FSwi),
      replicate 16 (OpSwi, FSwi),
      replicate 16 (OpSwi, FSwi)]"

definition LOOKUP_ROWS :: "(inst_op \<times> arm_fn) list list" where
  "LOOKUP_ROWS = LOOKUP_ROWS_0 @ LOOKUP_ROWS_1 @ LOOKUP_ROWS_2 @ LOOKUP_ROWS_3 @ LOOKUP_ROWS_4 @ LOOKUP_ROWS_5 @
      LOOKUP_ROWS_6 @ LOOKUP_ROWS_7 @ LOOKUP_ROWS_8 @ LOOKUP_ROWS_9 @ LOOKUP_ROWS_10 @ LOOKUP_ROWS_11 @
      LOOKUP_ROWS_12 @ LOOKUP_ROWS_13 @ LOOKUP_ROWS_14 @ LOOKUP_ROWS_15 @ LOOKUP_ROWS_16 @ LOOKUP_ROWS_17 @
      LOOKUP_ROWS_18 @ LOOKUP_ROWS_19 @ LOOKUP_ROWS_20 @ LOOKUP_ROWS_21 @ LOOKUP_ROWS_22 @ LOOKUP_ROWS_23 @
      LOOKUP_ROWS_24 @ LOOKUP_ROWS_25 @ LOOKUP_ROWS_26 @ LOOKUP_ROWS_27 @ LOOKUP_ROWS_28 @ LOOKUP_ROWS_29 @
      LOOKUP_ROWS_30 @ LOOKUP_ROWS_31"

definition LOOKUP_TABLE :: "(inst_op \<times> arm_fn) list" where
  "LOOKUP_TABLE = concat LOOKUP_ROWS"

definition lookup_opcode :: "u32 \<Rightarrow> inst_op \<times> arm_fn" where
  "lookup_opcode opcode = LOOKUP_TABLE ! unat ((drop_bit 16 opcode AND 0xFF0) OR (drop_bit 4 opcode AND 0xF))"

section \<open>Thumb table (lookup_table_thumb.rs)\<close>

definition LOOKUP_THUMB_0 :: "(nat \<times> (inst_op \<times> thumb_fn)) list" where
  "LOOKUP_THUMB_0 =
     [(32, (OpAluT LslT, TLslImm)), (32, (OpAluT LsrT, TLsrImm)), (32, (OpAluT AsrT, TAsrImm)), (8, (OpAluT AddT,
      TAddSub False False)), (8, (OpAluT SubT, TAddSub False True)), (8, (OpAluT AddT, TAddSub True False)), (8,
      (OpAluT SubT, TAddSub True True))]"

definition LOOKUP_THUMB_1 :: "(nat \<times> (inst_op \<times> thumb_fn)) list" where
  "LOOKUP_THUMB_1 =
     [(32, (OpAluT MovT, TMovImm8)), (32, (OpAluT CmpT, TCmpImm8)), (32, (OpAluT AddT, TAddImm8)), (32, (OpAluT SubT,
      TSubImm8))]"

definition LOOKUP_THUMB_2 :: "(nat \<times> (inst_op \<times> thumb_fn)) list" where
  "LOOKUP_THUMB_2 =
     [(1, (OpAluT AndT, TDp And)), (1, (OpAluT EorT, TDp Eor)), (1, (OpAluT LslT, TLslDp)), (1, (OpAluT LsrT, TLsrDp)),
      (1, (OpAluT AsrT, TAsrDp)), (1, (OpAluT AdcT, TAdcDp)), (1, (OpAluT SbcT, TSbcDp)), (1, (OpAluT RorT, TRorDp)), (1,
      (OpAluT TstT, TTstDp)), (1, (OpAluT NegT, TNegDp)), (1, (OpAluT CmpT, TCmpDp)), (1, (OpAluT CmnT, TCmnDp)), (1,
      (OpAluT OrrT, TDp Orr)), (1, (OpAluT MulT, TMulDp)), (1, (OpAluT BicT, TDp Bic)), (1, (OpAluT MvnT, TDp Mvn)), (4,
      (OpAluT AddHT, TAddH)), (4, (OpAluT CmpHT, TCmpH)), (4, (OpAluT MovHT, TMovH)), (2, (OpBxRegT, TBxReg)), (2,
      (OpBlxRegT, TBlxReg)), (32, (OpLdrT (st_new True False True False 2), TLdrPc)), (8,
      (OpStrT (st_new True False True False 2), TStrReg)), (8, (OpStrT (st_new True False True False 1), TStrhReg)), (8,
      (OpStrT (st_new True False True False 0), TStrbReg)), (8, (OpLdrT (st_new True False True True 0), TLdrsbReg)), (8,
      (OpLdrT (st_new True False True False 2), TLdrReg)), (8, (OpLdrT (st_new True False True False 1), TLdrhReg)), (8,
      (OpLdrT (st_new True False True False 0), TLdrbReg)), (8, (OpLdrT (st_new True False True True 1), TLdrshReg))]"

definition LOOKUP_THUMB_3 :: "(nat \<times> (inst_op \<times> thumb_fn)) list" where
  "LOOKUP_THUMB_3 =
     [(32, (OpStrT (st_new True False True False 2), TStrImm5)), (32, (OpLdrT (st_new True False True False 2),
      TLdrImm5)), (32, (OpStrT (st_new True False True False 0), TStrbImm5)), (32,
      (OpLdrT (st_new True False True False 0), TLdrbImm5))]"

definition LOOKUP_THUMB_4 :: "(nat \<times> (inst_op \<times> thumb_fn)) list" where
  "LOOKUP_THUMB_4 =
     [(32, (OpStrT (st_new True False True False 1), TStrhImm5)), (32, (OpLdrT (st_new True False True False 1),
      TLdrhImm5)), (32, (OpStrT (st_new True False True False 2), TStrSp)), (32, (OpLdrT (st_new True False True False 2),
      TLdrSp))]"

definition LOOKUP_THUMB_5 :: "(nat \<times> (inst_op \<times> thumb_fn)) list" where
  "LOOKUP_THUMB_5 =
     [(32, (OpAluT AddPcT, TAddPc)), (32, (OpAluT AddSpT, TAddSp)), (4, (OpAluT AddSpImmT, TAddSpImm)), (12, (OpUnkThumb,
      TUndefined)), (4, (OpStmT (mt_new True True False False), TPush)), (4, (OpStmT (mt_new True True False False),
      TPushLr)), (24, (OpUnkThumb, TUndefined)), (4, (OpLdmT (mt_new False True True False), TPop)), (4,
      (OpLdmT (mt_new False True True False), TPopPc)), (8, (OpUnkThumb, TUndefined))]"

definition LOOKUP_THUMB_6 :: "(nat \<times> (inst_op \<times> thumb_fn)) list" where
  "LOOKUP_THUMB_6 =
     [(32, (OpStmT (mt_new False True True False), TStmia)), (32, (OpLdmT (mt_new False True True False), TLdmia)), (4,
      (OpBcondT Eq, TBcond Eq)), (4, (OpBcondT Ne, TBcond Ne)), (4, (OpBcondT Cs, TBcond Cs)), (4, (OpBcondT Cc,
      TBcond Cc)), (4, (OpBcondT Mi, TBcond Mi)), (4, (OpBcondT Pl, TBcond Pl)), (4, (OpBcondT Vs, TBcond Vs)), (4,
      (OpBcondT Vc, TBcond Vc)), (4, (OpBcondT Hi, TBcond Hi)), (4, (OpBcondT Ls, TBcond Ls)), (4, (OpBcondT Ge,
      TBcond Ge)), (4, (OpBcondT Lt, TBcond Lt)), (4, (OpBcondT Gt, TBcond Gt)), (4, (OpBcondT Le, TBcond Le)), (4,
      (OpUnkThumb, TUndefined)), (4, (OpSwiT, TSwi))]"

definition LOOKUP_THUMB_7 :: "(nat \<times> (inst_op \<times> thumb_fn)) list" where
  "LOOKUP_THUMB_7 =
     [(32, (OpBT, TB)), (32, (OpBlxOffT, TBlxOff)), (32, (OpBlSetupT, TBlSetup)), (32, (OpBlOffT, TBlOff))]"

definition LOOKUP_THUMB :: "(inst_op \<times> thumb_fn) list" where
  "LOOKUP_THUMB = concat (map (\<lambda>(n, f). replicate n f)
     (LOOKUP_THUMB_0 @ LOOKUP_THUMB_1 @ LOOKUP_THUMB_2 @ LOOKUP_THUMB_3 @ LOOKUP_THUMB_4 @ LOOKUP_THUMB_5 @ LOOKUP_THUMB_6 @ LOOKUP_THUMB_7))"

definition lookup_thumb_opcode :: "u16 \<Rightarrow> inst_op \<times> thumb_fn" where
  "lookup_thumb_opcode opcode = LOOKUP_THUMB ! unat (drop_bit 6 opcode AND 0x3FF)"

end
