(* ===== verification/InstInfo.thy ===== *)
theory InstInfo
  imports Disasm
begin

text \<open>
  The decoded instructions of the compiler: register sets (\<open>RegReserve\<close> of \<open>src/vixl/src/lib.rs\<close>),
  \<open>src/src/jit/inst_info.rs\<close>, \<open>inst_info_thumb.rs\<close>, the predicates of \<open>op.rs\<close> and the operand decoders of
  \<open>src/src/jit/disassembler\<close>. A decoder has the name of the source function with the suffix \<open>_d\<close>; the
  wrappers that the macros of \<open>delegations.rs\<close> generate are the branches of \<open>decode_arm\<close>. Registers are
  numbered as in the source (13 is SP, 14 LR, 15 PC, 16 CPSR), conditions too (14 is AL, 15 NV).
\<close>

section \<open>Register sets (vixl)\<close>

type_synonym reg_reserve = u32

definition reserve :: "nat list \<Rightarrow> reg_reserve" where
  "reserve rs = fold (\<lambda>r w. w OR push_bit r 1) rs 0"

definition is_reserved :: "reg_reserve \<Rightarrow> nat \<Rightarrow> bool" where
  "is_reserved w r = (drop_bit r w AND 1 = 1)"

text \<open>\<open>+\<close>, \<open>-\<close> and \<open>&\<close> on register sets.\<close>

definition rr_add :: "reg_reserve \<Rightarrow> reg_reserve \<Rightarrow> reg_reserve" where "rr_add a b = a OR b"
definition rr_sub :: "reg_reserve \<Rightarrow> reg_reserve \<Rightarrow> reg_reserve" where "rr_sub a b = a AND NOT b"
definition rr_and :: "reg_reserve \<Rightarrow> reg_reserve \<Rightarrow> reg_reserve" where "rr_and a b = a AND b"
definition rr_len :: "reg_reserve \<Rightarrow> nat" where "rr_len w = count_ones w"
definition rr_is_empty :: "reg_reserve \<Rightarrow> bool" where "rr_is_empty w = (w = 0)"

section \<open>Instructions (inst_info.rs, inst_info_thumb.rs)\<close>

datatype shift_type = Lsl | Lsr | Asr | Ror
datatype shift_value = ShiftReg nat | ShiftImm u8
datatype operand = OReg nat "(shift_type \<times> shift_value) option" | OImm u32 | ORegList reg_reserve

abbreviation op_reg :: "nat \<Rightarrow> operand" where "op_reg r \<equiv> OReg r None"

definition reg_imm_shift :: "nat \<Rightarrow> shift_type \<Rightarrow> u8 \<Rightarrow> operand" where
  "reg_imm_shift r t n = OReg r (Some (t, ShiftImm n))"

definition reg_reg_shift :: "nat \<Rightarrow> shift_type \<Rightarrow> nat \<Rightarrow> operand" where
  "reg_reg_shift r t n = OReg r (Some (t, ShiftReg n))"

fun as_reg_no_shift :: "operand \<Rightarrow> nat option" where
  "as_reg_no_shift (OReg r None) = Some r"
| "as_reg_no_shift _ = None"

fun as_imm :: "operand \<Rightarrow> u32 option" where
  "as_imm (OImm v) = Some v"
| "as_imm _ = None"

fun as_reg_list :: "operand \<Rightarrow> reg_reserve option" where
  "as_reg_list (ORegList w) = Some w"
| "as_reg_list _ = None"

record inst_info =
  ii_opcode :: u32
  ii_op :: inst_op
  ii_cond :: nat
  operands :: "operand list"
  src_regs :: reg_reserve
  out_regs :: reg_reserve
  ii_cycle :: u8

record inst_info_thumb =
  it_opcode :: u16
  it_op :: inst_op
  it_operands :: "operand list"
  it_src_regs :: reg_reserve
  it_out_regs :: reg_reserve
  it_cycle :: u8

definition inst_info_new :: "u32 \<Rightarrow> inst_op \<Rightarrow> operand list \<Rightarrow> reg_reserve \<Rightarrow> reg_reserve \<Rightarrow> u8 \<Rightarrow> inst_info" where
  "inst_info_new opcode p ops src out cycle =
     (let cond = unat (drop_bit 28 opcode)
      in \<lparr>ii_opcode = opcode, ii_op = p, ii_cond = cond, operands = ops,
          src_regs = (if cond \<noteq> 14 then rr_add src (reserve [16]) else src), out_regs = out, ii_cycle = cycle\<rparr>)"

definition inst_info_thumb_new :: "u16 \<Rightarrow> inst_op \<Rightarrow> operand list \<Rightarrow> reg_reserve \<Rightarrow> reg_reserve \<Rightarrow> u8 \<Rightarrow> inst_info_thumb" where
  "inst_info_thumb_new opcode p ops src out cycle =
     \<lparr>it_opcode = opcode, it_op = p, it_operands = ops, it_src_regs = src, it_out_regs = out, it_cycle = cycle\<rparr>"

definition set_cond :: "nat \<Rightarrow> inst_info \<Rightarrow> inst_info" where
  "set_cond c i =
     i\<lparr>ii_cond := c, ii_opcode := (ii_opcode i AND NOT (push_bit 28 0xF)) OR push_bit 28 (of_nat c)\<rparr>"

section \<open>Predicates on operation codes (op.rs)\<close>

fun is_branch :: "inst_op \<Rightarrow> bool" where
  "is_branch OpBx = True"
| "is_branch OpBlxReg = True"
| "is_branch OpB = True"
| "is_branch OpBl = True"
| "is_branch OpBlx = True"
| "is_branch OpBxRegT = True"
| "is_branch OpBlxRegT = True"
| "is_branch OpBT = True"
| "is_branch (OpBcondT p) = True"
| "is_branch OpBlOffT = True"
| "is_branch OpBlxOffT = True"
| "is_branch _ = False"

fun is_uncond_branch :: "inst_op \<Rightarrow> bool" where
  "is_uncond_branch (OpBcondT p) = False"
| "is_uncond_branch i = is_branch i"

fun is_labelled_branch :: "inst_op \<Rightarrow> bool" where
  "is_labelled_branch OpB = True"
| "is_labelled_branch OpBl = True"
| "is_labelled_branch OpBlx = True"
| "is_labelled_branch OpBT = True"
| "is_labelled_branch (OpBcondT p) = True"
| "is_labelled_branch _ = False"

fun is_single_mem_transfer :: "inst_op \<Rightarrow> bool" where
  "is_single_mem_transfer (OpLdr t) = True"
| "is_single_mem_transfer (OpLdrT t) = True"
| "is_single_mem_transfer (OpStr t) = True"
| "is_single_mem_transfer (OpStrT t) = True"
| "is_single_mem_transfer _ = False"

fun is_multiple_mem_transfer :: "inst_op \<Rightarrow> bool" where
  "is_multiple_mem_transfer (OpLdm t) = True"
| "is_multiple_mem_transfer (OpLdmT t) = True"
| "is_multiple_mem_transfer (OpStm t) = True"
| "is_multiple_mem_transfer (OpStmT t) = True"
| "is_multiple_mem_transfer _ = False"

fun is_write_mem_transfer :: "inst_op \<Rightarrow> bool" where
  "is_write_mem_transfer (OpStr t) = True"
| "is_write_mem_transfer (OpStrT t) = True"
| "is_write_mem_transfer (OpStm t) = True"
| "is_write_mem_transfer (OpStmT t) = True"
| "is_write_mem_transfer _ = False"

fun is_alu :: "inst_op \<Rightarrow> bool" where
  "is_alu (OpLogical p b) = True"
| "is_alu (OpArith p b) = True"
| "is_alu (OpTest p) = True"
| "is_alu (OpAluT p) = True"
| "is_alu _ = False"

fun is_thumb_alu_high :: "inst_op \<Rightarrow> bool" where
  "is_thumb_alu_high (OpAluT p) = (p \<in> {AddSpImmT, AddHT, CmpHT, MovHT})"
| "is_thumb_alu_high _ = False"

fun is_arm_alu2 :: "inst_op \<Rightarrow> bool" where
  "is_arm_alu2 (OpTest p) = True"
| "is_arm_alu2 (OpLogical p b) = (p = Mov \<or> p = Mvn)"
| "is_arm_alu2 _ = False"

fun is_mov :: "inst_op \<Rightarrow> bool" where
  "is_mov (OpLogical p b) = (p = Mov)"
| "is_mov (OpAluT p) = (p = MovT \<or> p = MovHT)"
| "is_mov _ = False"

fun is_mul :: "inst_op \<Rightarrow> bool" where
  "is_mul (OpMul32 b acc) = True"
| "is_mul (OpMul64 b acc sg) = True"
| "is_mul (OpDsp p) = (p \<notin> {Qadd, Qsub, Qdadd, Qdsub})"
| "is_mul _ = False"

text \<open>\<open>MemoryAmount::from(op)\<close> in bytes; anything else is \<open>unreachable!()\<close>.\<close>

fun memory_amount :: "inst_op \<Rightarrow> nat option" where
  "memory_amount (OpLdr t) = (if st_size t < 4 then Some (2 ^ unat (st_size t)) else None)"
| "memory_amount (OpLdrT t) = (if st_size t < 4 then Some (2 ^ unat (st_size t)) else None)"
| "memory_amount (OpStr t) = (if st_size t < 4 then Some (2 ^ unat (st_size t)) else None)"
| "memory_amount (OpStrT t) = (if st_size t < 4 then Some (2 ^ unat (st_size t)) else None)"
| "memory_amount _ = None"

section \<open>More of inst_info.rs\<close>

definition info_is_branch :: "inst_info \<Rightarrow> bool" where
  "info_is_branch i = (is_reserved (out_regs i) 15 \<or> is_branch (ii_op i))"

definition info_is_uncond_branch :: "inst_info \<Rightarrow> bool" where
  "info_is_uncond_branch i = (ii_cond i = 14 \<and> is_reserved (out_regs i) 15)"

fun bcond_number :: "condition \<Rightarrow> nat" where
  "bcond_number Eq = 0"
| "bcond_number Ne = 1"
| "bcond_number Cs = 2"
| "bcond_number Cc = 3"
| "bcond_number Mi = 4"
| "bcond_number Pl = 5"
| "bcond_number Vs = 6"
| "bcond_number Vc = 7"
| "bcond_number Hi = 8"
| "bcond_number Ls = 9"
| "bcond_number Ge = 10"
| "bcond_number Lt = 11"
| "bcond_number Gt = 12"
| "bcond_number Le = 13"

definition get_branch_cond :: "inst_info \<Rightarrow> nat" where
  "get_branch_cond i = (case ii_op i of OpBcondT p \<Rightarrow> bcond_number p | _ \<Rightarrow> ii_cond i)"

definition from_thumb :: "inst_info_thumb \<Rightarrow> inst_info" where
  "from_thumb v =
     (let i = \<lparr>ii_opcode = ucast (it_opcode v), ii_op = it_op v, ii_cond = 14, operands = it_operands v,
               src_regs = it_src_regs v, out_regs = it_out_regs v, ii_cycle = it_cycle v\<rparr>
      in if is_branch (ii_op i) then i\<lparr>ii_cond := get_branch_cond i\<rparr> else i)"

text \<open>\<open>imm_transfer_addr\<close>: the address of a program-counter relative transfer. Indexing past the operands
  panics, which no decoded transfer does.\<close>

definition imm_transfer_addr :: "inst_info \<Rightarrow> u32 \<Rightarrow> u32 option option" where
  "imm_transfer_addr i pc =
     (let rel = (\<lambda>thumb t.
        if t_write_back t then Some None
        else if length (operands i) < 2 then None
        else if as_reg_no_shift (operands i ! 1) \<noteq> Some 15 then Some None
        else if length (operands i) < 3 then None
        else (case as_imm (operands i ! 2) of
                None \<Rightarrow> Some None
              | Some offset \<Rightarrow>
                  (let pc = pc + (if thumb then 4 else 8); addr = (if t_add t then pc + offset else pc - offset)
                   in Some (Some (if thumb then addr AND NOT 3 else addr)))))
      in case ii_op i of OpLdr t \<Rightarrow> rel False t | OpStr t \<Rightarrow> rel False t | OpLdrT t \<Rightarrow> rel True t | OpStrT t \<Rightarrow> rel True t
         | _ \<Rightarrow> Some None)"

section \<open>ARM data processing (alu_instructions.rs)\<close>

text \<open>The register fields, as numbers.\<close>

definition f0 :: "u32 \<Rightarrow> nat" where "f0 opcode = unat (opcode AND 0xF)"
definition f8 :: "u32 \<Rightarrow> nat" where "f8 opcode = unat (drop_bit 8 opcode AND 0xF)"
definition f12 :: "u32 \<Rightarrow> nat" where "f12 opcode = unat (drop_bit 12 opcode AND 0xF)"
definition f16 :: "u32 \<Rightarrow> nat" where "f16 opcode = unat (drop_bit 16 opcode AND 0xF)"

definition imm_shift :: "u32 \<Rightarrow> nat \<times> u8" where
  "imm_shift opcode = (f0 opcode, ucast (drop_bit 7 opcode AND 0x1F))"

definition reg_shift :: "u32 \<Rightarrow> nat \<times> nat" where
  "reg_shift opcode = (f0 opcode, f8 opcode)"

definition imm_d :: "u32 \<Rightarrow> u32" where
  "imm_d opcode = word_rotr (unat (drop_bit 7 opcode AND 0x1E)) (opcode AND 0xFF)"

definition cpsr_if :: "bool \<Rightarrow> reg_reserve" where
  "cpsr_if b = (if b then reserve [16] else reserve [])"

definition alu3_imm :: "bool \<Rightarrow> bool \<Rightarrow> u32 \<Rightarrow> inst_op \<Rightarrow> u32 \<Rightarrow> inst_info" where
  "alu3_imm ci co opcode p v =
     (let op0 = f12 opcode; op1 = f16 opcode
      in inst_info_new opcode p [op_reg op0, op_reg op1, OImm v]
           (rr_add (reserve [op1]) (cpsr_if ci)) (rr_add (reserve [op0]) (cpsr_if co)) 1)"

definition alu3_imm_shift :: "shift_type \<Rightarrow> bool \<Rightarrow> bool \<Rightarrow> u32 \<Rightarrow> inst_op \<Rightarrow> nat \<times> u8 \<Rightarrow> inst_info" where
  "alu3_imm_shift t ci co opcode p v =
     (let op0 = f12 opcode; op1 = f16 opcode; ror_with_carry = (t = Ror \<and> snd v = 0)
      in inst_info_new opcode p [op_reg op0, op_reg op1, reg_imm_shift (fst v) t (snd v)]
           (rr_add (reserve [op1, fst v]) (cpsr_if (ci \<or> ror_with_carry))) (rr_add (reserve [op0]) (cpsr_if co)) 1)"

definition alu3_reg_shift :: "shift_type \<Rightarrow> bool \<Rightarrow> bool \<Rightarrow> u32 \<Rightarrow> inst_op \<Rightarrow> nat \<times> nat \<Rightarrow> inst_info" where
  "alu3_reg_shift t ci co opcode p v =
     (let op0 = f12 opcode; op1 = f16 opcode
      in inst_info_new opcode p [op_reg op0, op_reg op1, reg_reg_shift (fst v) t (snd v)]
           (rr_add (reserve [op1, fst v, snd v]) (cpsr_if ci)) (rr_add (reserve [op0]) (cpsr_if co)) 1)"

definition alu2_op1_imm :: "bool \<Rightarrow> u32 \<Rightarrow> inst_op \<Rightarrow> u32 \<Rightarrow> inst_info" where
  "alu2_op1_imm ci opcode p v =
     (let op1 = f16 opcode
      in inst_info_new opcode p [op_reg op1, OImm v] (rr_add (reserve [op1]) (cpsr_if ci)) (reserve [16]) 1)"

definition alu2_op1_imm_shift :: "shift_type \<Rightarrow> bool \<Rightarrow> u32 \<Rightarrow> inst_op \<Rightarrow> nat \<times> u8 \<Rightarrow> inst_info" where
  "alu2_op1_imm_shift t ci opcode p v =
     (let op1 = f16 opcode; ror_with_carry = (t = Ror \<and> snd v = 0)
      in inst_info_new opcode p [op_reg op1, reg_imm_shift (fst v) t (snd v)]
           (rr_add (reserve [op1, fst v]) (cpsr_if (ci \<or> ror_with_carry))) (reserve [16]) 1)"

definition alu2_op1_reg_shift :: "shift_type \<Rightarrow> bool \<Rightarrow> u32 \<Rightarrow> inst_op \<Rightarrow> nat \<times> nat \<Rightarrow> inst_info" where
  "alu2_op1_reg_shift t ci opcode p v =
     (let op1 = f16 opcode
      in inst_info_new opcode p [op_reg op1, reg_reg_shift (fst v) t (snd v)]
           (rr_add (reserve [op1, fst v, snd v]) (cpsr_if ci)) (reserve [16]) 1)"

definition alu2_op0_imm :: "bool \<Rightarrow> bool \<Rightarrow> u32 \<Rightarrow> inst_op \<Rightarrow> u32 \<Rightarrow> inst_info" where
  "alu2_op0_imm ci co opcode p v =
     (let op0 = f12 opcode
      in inst_info_new opcode p [op_reg op0, OImm v] (cpsr_if ci) (rr_add (reserve [op0]) (cpsr_if co)) 1)"

definition alu2_op0_imm_shift :: "shift_type \<Rightarrow> bool \<Rightarrow> bool \<Rightarrow> u32 \<Rightarrow> inst_op \<Rightarrow> nat \<times> u8 \<Rightarrow> inst_info" where
  "alu2_op0_imm_shift t ci co opcode p v =
     (let op0 = f12 opcode; ror_with_carry = (t = Ror \<and> snd v = 0)
      in inst_info_new opcode p [op_reg op0, reg_imm_shift (fst v) t (snd v)]
           (rr_add (reserve [fst v]) (cpsr_if (ci \<or> ror_with_carry))) (rr_add (reserve [op0]) (cpsr_if co)) 1)"

definition alu2_op0_reg_shift :: "shift_type \<Rightarrow> bool \<Rightarrow> bool \<Rightarrow> u32 \<Rightarrow> inst_op \<Rightarrow> nat \<times> nat \<Rightarrow> inst_info" where
  "alu2_op0_reg_shift t ci co opcode p v =
     (let op0 = f12 opcode
      in inst_info_new opcode p [op_reg op0, reg_reg_shift (fst v) t (snd v)]
           (rr_add (reserve [fst v, snd v]) (cpsr_if ci)) (rr_add (reserve [op0]) (cpsr_if co)) 1)"

text \<open>The nine forms that \<open>generate_alu3\<close>, \<open>generate_alu2_op1\<close> and \<open>generate_alu2_op0\<close> name.\<close>

fun form_shift :: "shift_form \<Rightarrow> shift_type" where
  "form_shift Lli = Lsl"
| "form_shift Llr = Lsl"
| "form_shift Lri = Lsr"
| "form_shift Lrr = Lsr"
| "form_shift Ari = Asr"
| "form_shift Arr = Asr"
| "form_shift Rri = Ror"
| "form_shift Rrr = Ror"
| "form_shift Imm = Lsl"

definition alu3 :: "bool \<Rightarrow> bool \<Rightarrow> shift_form \<Rightarrow> u32 \<Rightarrow> inst_op \<Rightarrow> inst_info" where
  "alu3 ci co f opcode p =
     (if f = Imm then alu3_imm ci co opcode p (imm_d opcode)
      else if by_reg f then alu3_reg_shift (form_shift f) ci co opcode p (reg_shift opcode)
      else alu3_imm_shift (form_shift f) ci co opcode p (imm_shift opcode))"

definition alu2_op1 :: "bool \<Rightarrow> shift_form \<Rightarrow> u32 \<Rightarrow> inst_op \<Rightarrow> inst_info" where
  "alu2_op1 ci f opcode p =
     (if f = Imm then alu2_op1_imm ci opcode p (imm_d opcode)
      else if by_reg f then alu2_op1_reg_shift (form_shift f) ci opcode p (reg_shift opcode)
      else alu2_op1_imm_shift (form_shift f) ci opcode p (imm_shift opcode))"

definition alu2_op0 :: "bool \<Rightarrow> bool \<Rightarrow> shift_form \<Rightarrow> u32 \<Rightarrow> inst_op \<Rightarrow> inst_info" where
  "alu2_op0 ci co f opcode p =
     (if f = Imm then alu2_op0_imm ci co opcode p (imm_d opcode)
      else if by_reg f then alu2_op0_reg_shift (form_shift f) ci co opcode p (reg_shift opcode)
      else alu2_op0_imm_shift (form_shift f) ci co opcode p (imm_shift opcode))"

section \<open>Multiplications and the rest of alu_instructions.rs\<close>

text \<open>\<open>mul\<close>, \<open>mla\<close>, \<open>muls\<close>, \<open>mlas\<close>.\<close>

definition mul_d :: "u32 \<Rightarrow> inst_op \<Rightarrow> inst_info" where
  "mul_d opcode p =
     (let op0 = f16 opcode; op1 = f0 opcode; op2 = f8 opcode
      in inst_info_new opcode p [op_reg op0, op_reg op1, op_reg op2] (reserve [op1, op2]) (reserve [op0]) 5)"

definition mla_d :: "u32 \<Rightarrow> inst_op \<Rightarrow> inst_info" where
  "mla_d opcode p =
     (let op0 = f16 opcode; op1 = f0 opcode; op2 = f8 opcode; op3 = f12 opcode
      in inst_info_new opcode p [op_reg op0, op_reg op1, op_reg op2, op_reg op3] (reserve [op1, op2, op3]) (reserve [op0]) 6)"

definition muls_d :: "u32 \<Rightarrow> inst_op \<Rightarrow> inst_info" where
  "muls_d opcode p =
     (let op0 = f16 opcode; op1 = f0 opcode; op2 = f8 opcode
      in inst_info_new opcode p [op_reg op0, op_reg op1, op_reg op2] (reserve [op1, op2, 16]) (reserve [op0, 16]) 5)"

definition mlas_d :: "u32 \<Rightarrow> inst_op \<Rightarrow> inst_info" where
  "mlas_d opcode p =
     (let op0 = f16 opcode; op1 = f0 opcode; op2 = f8 opcode; op3 = f12 opcode
      in inst_info_new opcode p [op_reg op0, op_reg op1, op_reg op2, op_reg op3] (reserve [op1, op2, op3, 16])
           (reserve [op0, 16]) 6)"

text \<open>\<open>umull\<close>, \<open>umlal\<close>, \<open>umulls\<close>, \<open>umlals\<close>; the signed ones are the same.\<close>

definition umull_d :: "u32 \<Rightarrow> inst_op \<Rightarrow> inst_info" where
  "umull_d opcode p =
     (let op0 = f12 opcode; op1 = f16 opcode; op2 = f0 opcode; op3 = f8 opcode
      in inst_info_new opcode p [op_reg op0, op_reg op1, op_reg op2, op_reg op3] (reserve [op2, op3]) (reserve [op0, op1]) 6)"

definition umlal_d :: "u32 \<Rightarrow> inst_op \<Rightarrow> inst_info" where
  "umlal_d opcode p =
     (let op0 = f12 opcode; op1 = f16 opcode; op2 = f0 opcode; op3 = f8 opcode
      in inst_info_new opcode p [op_reg op0, op_reg op1, op_reg op2, op_reg op3] (reserve [op0, op1, op2, op3])
           (reserve [op0, op1]) 7)"

definition umulls_d :: "u32 \<Rightarrow> inst_op \<Rightarrow> inst_info" where
  "umulls_d opcode p =
     (let op0 = f12 opcode; op1 = f16 opcode; op2 = f0 opcode; op3 = f8 opcode
      in inst_info_new opcode p [op_reg op0, op_reg op1, op_reg op2, op_reg op3] (reserve [op2, op3, 16])
           (reserve [op0, op1, 16]) 6)"

definition umlals_d :: "u32 \<Rightarrow> inst_op \<Rightarrow> inst_info" where
  "umlals_d opcode p =
     (let op0 = f12 opcode; op1 = f16 opcode; op2 = f0 opcode; op3 = f8 opcode
      in inst_info_new opcode p [op_reg op0, op_reg op1, op_reg op2, op_reg op3] (reserve [op0, op1, op2, op3, 16])
           (reserve [op0, op1, 16]) 7)"

definition smulbb_d :: "u32 \<Rightarrow> inst_op \<Rightarrow> inst_info" where
  "smulbb_d opcode p =
     (let op0 = f16 opcode; op1 = f0 opcode; op2 = f8 opcode
      in inst_info_new opcode p [op_reg op0, op_reg op1, op_reg op2] (reserve [op1, op2]) (reserve [op0]) 1)"

definition smlabb_d :: "u32 \<Rightarrow> inst_op \<Rightarrow> inst_info" where
  "smlabb_d opcode p =
     (let op0 = f16 opcode; op1 = f0 opcode; op2 = f8 opcode; op3 = f12 opcode
      in inst_info_new opcode p [op_reg op0, op_reg op1, op_reg op2, op_reg op3] (reserve [op1, op2, op3, 16])
           (reserve [op0, 16]) 1)"

definition smlalbb_d :: "u32 \<Rightarrow> inst_op \<Rightarrow> inst_info" where
  "smlalbb_d opcode p =
     (let op0 = f12 opcode; op1 = f16 opcode; op2 = f0 opcode; op3 = f8 opcode
      in inst_info_new opcode p [op_reg op0, op_reg op1, op_reg op2, op_reg op3] (reserve [op0, op1, op2, op3])
           (reserve [op0, op1]) 1)"

definition qadd_d :: "u32 \<Rightarrow> inst_op \<Rightarrow> inst_info" where
  "qadd_d opcode p =
     (let op0 = f12 opcode; op1 = f0 opcode; op2 = f16 opcode
      in inst_info_new opcode p [op_reg op0, op_reg op1, op_reg op2] (reserve [op1, op2, 16]) (reserve [op0, 16]) 1)"

definition clz_d :: "u32 \<Rightarrow> inst_op \<Rightarrow> inst_info" where
  "clz_d opcode p =
     (let op0 = f12 opcode; op1 = f0 opcode
      in inst_info_new opcode p [op_reg op0, op_reg op1] (reserve [op1]) (reserve [op0]) 1)"

section \<open>ARM branches (branch_instructions.rs)\<close>

definition bx_d :: "u32 \<Rightarrow> inst_op \<Rightarrow> inst_info" where
  "bx_d opcode p = inst_info_new opcode p [op_reg (f0 opcode)] (reserve [f0 opcode]) (reserve [15]) 1"

definition blx_reg_d :: "u32 \<Rightarrow> inst_op \<Rightarrow> inst_info" where
  "blx_reg_d opcode p = inst_info_new opcode p [op_reg (f0 opcode)] (reserve [f0 opcode]) (reserve [14, 15]) 1"

text \<open>With the condition NV the two label branches are a \<open>blx\<close> to a label.\<close>

definition blx_label_d :: "u32 \<Rightarrow> inst_info" where
  "blx_label_d opcode =
     (let op0 = signed_drop_bit 6 (push_bit 8 opcode) OR drop_bit 23 (opcode AND push_bit 24 1)
      in inst_info_new ((opcode AND NOT (push_bit 28 0xF)) OR push_bit 28 14) OpBlx [OImm op0] (reserve []) (reserve [14, 15]) 1)"

definition b_d :: "u32 \<Rightarrow> inst_op \<Rightarrow> inst_info" where
  "b_d opcode p =
     (let inst = inst_info_new opcode p [OImm (signed_drop_bit 6 (push_bit 8 opcode))] (reserve []) (reserve [15]) 1
      in if ii_cond inst = 15 then blx_label_d opcode else inst)"

definition bl_d :: "u32 \<Rightarrow> inst_op \<Rightarrow> inst_info" where
  "bl_d opcode p =
     (let inst = inst_info_new opcode p [OImm (signed_drop_bit 6 (push_bit 8 opcode))] (reserve []) (reserve [14, 15]) 1
      in if ii_cond inst = 15 then blx_label_d opcode else inst)"

definition swi_d :: "u32 \<Rightarrow> inst_op \<Rightarrow> inst_info" where
  "swi_d opcode p = inst_info_new opcode p [] (reserve []) (reserve []) 3"

definition unk_arm :: "u32 \<Rightarrow> inst_op \<Rightarrow> inst_info" where
  "unk_arm opcode p = inst_info_new opcode p [] (reserve []) (reserve []) 1"

section \<open>ARM transfers (transfer_instructions.rs)\<close>

definition imm_t_d :: "u32 \<Rightarrow> u32" where "imm_t_d opcode = opcode AND 0xFFF"
definition imm_h_d :: "u32 \<Rightarrow> u32" where "imm_h_d opcode = (drop_bit 4 opcode AND 0xF0) OR (opcode AND 0xF)"

text \<open>The body that \<open>mem_transfer_imm\<close>, \<open>mem_transfer_reg\<close> and \<open>mem_transfer_reg_shift\<close> share: \<open>extra\<close> are the
  registers of the offset, \<open>third\<close> its operand.\<close>

definition mem_transfer :: "nat list \<Rightarrow> operand \<Rightarrow> bool \<Rightarrow> bool \<Rightarrow> bool \<Rightarrow> u32 \<Rightarrow> inst_op \<Rightarrow> inst_info" where
  "mem_transfer extra third is_write write_back is_64bit opcode p =
     (let op0 = f12 opcode; op1 = f16 opcode;
          src = (if is_write then reserve ([op0, op1] @ extra) else reserve ([op1] @ extra));
          out = (if is_write then (if write_back then reserve [op1] else reserve [])
                 else if write_back then reserve [op0, op1] else reserve [op0])
      in if is_64bit \<and> (odd op0 \<or> op0 > 12) then inst_info_new opcode OpUnkArm [] (reserve []) (reserve []) 0
         else inst_info_new opcode p [op_reg op0, op_reg op1, third]
                (if is_64bit \<and> is_write then rr_add src (reserve [op0 + 1]) else src)
                (if is_64bit \<and> \<not> is_write then rr_add out (reserve [op0 + 1]) else out)
                (if is_write then 2 else 3))"

definition mem_transfer_imm :: "bool \<Rightarrow> bool \<Rightarrow> bool \<Rightarrow> u32 \<Rightarrow> inst_op \<Rightarrow> u32 \<Rightarrow> inst_info" where
  "mem_transfer_imm is_write write_back is_64bit opcode p v = mem_transfer [] (OImm v) is_write write_back is_64bit opcode p"

definition mem_transfer_reg :: "bool \<Rightarrow> bool \<Rightarrow> bool \<Rightarrow> u32 \<Rightarrow> inst_op \<Rightarrow> nat \<Rightarrow> inst_info" where
  "mem_transfer_reg is_write write_back is_64bit opcode p r = mem_transfer [r] (op_reg r) is_write write_back is_64bit opcode p"

definition mem_transfer_reg_shift :: "bool \<Rightarrow> bool \<Rightarrow> shift_type \<Rightarrow> bool \<Rightarrow> u32 \<Rightarrow> inst_op \<Rightarrow> nat \<times> u8 \<Rightarrow> inst_info" where
  "mem_transfer_reg_shift is_write write_back t is_64bit opcode p v =
     mem_transfer [fst v] (reg_imm_shift (fst v) t (snd v)) is_write write_back is_64bit opcode p"

definition swp_d :: "u32 \<Rightarrow> inst_op \<Rightarrow> inst_info" where
  "swp_d opcode p =
     (let op0 = f12 opcode; op1 = f0 opcode; op2 = f16 opcode
      in inst_info_new opcode p [op_reg op0, op_reg op1, op_reg op2] (reserve [op1, op2]) (reserve [op0]) 4)"

text \<open>\<open>ldmda\<close>, \<open>stmda\<close>, \<open>ldmda_w\<close>, \<open>stmda_w\<close>, \<open>ldmda_u\<close>, \<open>stmda_u\<close>, \<open>ldmda_u_w\<close>, \<open>stmda_u_w\<close>; the other addressing
  modes call these.\<close>

definition block_transfer_d :: "reg_reserve \<Rightarrow> reg_reserve \<Rightarrow> u8 \<Rightarrow> u32 \<Rightarrow> inst_op \<Rightarrow> inst_info" where
  "block_transfer_d src out extra opcode p =
     (let rlist = opcode AND 0xFFFF
      in inst_info_new opcode p [op_reg (f16 opcode), ORegList rlist] src out (of_nat (rr_len rlist) + extra))"

definition if_empty :: "reg_reserve \<Rightarrow> nat \<Rightarrow> reg_reserve" where
  "if_empty rlist r = (if rr_is_empty rlist then reserve [r] else reserve [])"

definition if_pc :: "reg_reserve \<Rightarrow> reg_reserve" where
  "if_pc rlist = (if is_reserved rlist 15 then rlist else reserve [])"

definition ldmda_d :: "u32 \<Rightarrow> inst_op \<Rightarrow> inst_info" where
  "ldmda_d opcode p =
     (let op0 = f16 opcode; rlist = opcode AND 0xFFFF
      in block_transfer_d (reserve [op0]) (rr_add rlist (if_empty rlist op0)) 2 opcode p)"

definition stmda_d :: "u32 \<Rightarrow> inst_op \<Rightarrow> inst_info" where
  "stmda_d opcode p =
     (let op0 = f16 opcode; rlist = opcode AND 0xFFFF
      in block_transfer_d (rr_add rlist (reserve [op0])) (if_empty rlist op0) 1 opcode p)"

definition ldmda_w_d :: "u32 \<Rightarrow> inst_op \<Rightarrow> inst_info" where
  "ldmda_w_d opcode p =
     (let op0 = f16 opcode; rlist = opcode AND 0xFFFF
      in block_transfer_d (reserve [op0]) (rr_add rlist (reserve [op0])) 2 opcode p)"

definition stmda_w_d :: "u32 \<Rightarrow> inst_op \<Rightarrow> inst_info" where
  "stmda_w_d opcode p =
     (let op0 = f16 opcode; rlist = opcode AND 0xFFFF
      in block_transfer_d (rr_add rlist (reserve [op0])) (reserve [op0]) 1 opcode p)"

definition ldmda_u_d :: "u32 \<Rightarrow> inst_op \<Rightarrow> inst_info" where
  "ldmda_u_d opcode p =
     (let op0 = f16 opcode; rlist = opcode AND 0xFFFF
      in block_transfer_d (reserve [op0]) (rr_add (if_pc rlist) (if_empty rlist op0)) 2 opcode p)"

definition stmda_u_d :: "u32 \<Rightarrow> inst_op \<Rightarrow> inst_info" where
  "stmda_u_d opcode p =
     (let op0 = f16 opcode; rlist = opcode AND 0xFFFF
      in block_transfer_d (rr_add rlist (reserve [op0])) (rr_add (if_pc rlist) (if_empty rlist op0)) 1 opcode p)"

definition ldmda_u_w_d :: "u32 \<Rightarrow> inst_op \<Rightarrow> inst_info" where
  "ldmda_u_w_d opcode p =
     (let op0 = f16 opcode; rlist = opcode AND 0xFFFF
      in block_transfer_d (rr_add rlist (reserve [op0])) (rr_add (if_pc rlist) (reserve [op0])) 2 opcode p)"

definition stmda_u_w_d :: "u32 \<Rightarrow> inst_op \<Rightarrow> inst_info" where
  "stmda_u_w_d opcode p =
     (let op0 = f16 opcode; rlist = opcode AND 0xFFFF
      in block_transfer_d (rr_add rlist (reserve [op0])) (reserve [op0]) 1 opcode p)"

text \<open>Status register and coprocessor moves. \<open>msr_ic\<close> and \<open>msr_is\<close> differ in nothing that is kept.\<close>

definition msr_r_d :: "u32 \<Rightarrow> inst_op \<Rightarrow> inst_info" where
  "msr_r_d opcode p = inst_info_new opcode p [op_reg (f0 opcode)] (reserve [f0 opcode]) (reserve []) 1"

definition msr_i_d :: "u32 \<Rightarrow> inst_op \<Rightarrow> inst_info" where
  "msr_i_d opcode p =
     (let v = opcode AND 0xFF; shift = unat (drop_bit 7 opcode AND 0x1E);
          v = (if shift = 0 then v else push_bit (32 - shift) v OR drop_bit shift v)
      in inst_info_new opcode p [OImm v] (reserve []) (reserve []) 1)"

definition mrs_rc_d :: "u32 \<Rightarrow> inst_op \<Rightarrow> inst_info" where
  "mrs_rc_d opcode p = inst_info_new opcode p [op_reg (f12 opcode)] (reserve [16]) (reserve [f12 opcode]) 1"

definition mrs_rs_d :: "u32 \<Rightarrow> inst_op \<Rightarrow> inst_info" where
  "mrs_rs_d opcode p = inst_info_new opcode p [op_reg (f12 opcode)] (reserve []) (reserve [f12 opcode]) 1"

definition mrc_d :: "u32 \<Rightarrow> inst_op \<Rightarrow> inst_info" where
  "mrc_d opcode p = inst_info_new opcode p [op_reg (f12 opcode)] (reserve []) (reserve [f12 opcode]) 1"

definition mcr_d :: "u32 \<Rightarrow> inst_op \<Rightarrow> inst_info" where
  "mcr_d opcode p = inst_info_new opcode p [op_reg (f12 opcode)] (reserve [f12 opcode]) (reserve []) 1"

section \<open>The decoder of a table entry (delegations.rs)\<close>

fun off_shift :: "off_kind \<Rightarrow> shift_type" where
  "off_shift OffLsl = Lsl"
| "off_shift OffLsr = Lsr"
| "off_shift OffAsr = Asr"
| "off_shift OffRor = Ror"
| "off_shift OffImm = Lsl"

definition decode_logical :: "logical_op \<Rightarrow> bool \<Rightarrow> shift_form \<Rightarrow> u32 \<Rightarrow> inst_op \<Rightarrow> inst_info" where
  "decode_logical p b f = (if p = Mov \<or> p = Mvn then alu2_op0 b b f else alu3 b b f)"

definition decode_arith :: "arith_op \<Rightarrow> bool \<Rightarrow> shift_form \<Rightarrow> u32 \<Rightarrow> inst_op \<Rightarrow> inst_info" where
  "decode_arith p b f = alu3 (p = Adc \<or> p = Sbc \<or> p = Rsc) b f"

definition decode_test :: "test_op \<Rightarrow> shift_form \<Rightarrow> u32 \<Rightarrow> inst_op \<Rightarrow> inst_info" where
  "decode_test p f = alu2_op1 (p = Tst \<or> p = Teq) f"

definition decode_ldm :: "bool \<Rightarrow> bool \<Rightarrow> bool \<Rightarrow> u32 \<Rightarrow> inst_op \<Rightarrow> inst_info" where
  "decode_ldm load usr wb =
     (if load then (if usr then (if wb then ldmda_u_w_d else ldmda_u_d) else if wb then ldmda_w_d else ldmda_d)
      else (if usr then (if wb then stmda_u_w_d else stmda_u_d) else if wb then stmda_w_d else stmda_d))"

definition decode_dsp :: "dsp_op \<Rightarrow> u32 \<Rightarrow> inst_op \<Rightarrow> inst_info" where
  "decode_dsp p =
     (if p \<in> {Qadd, Qsub, Qdadd, Qdsub} then qadd_d
      else if p \<in> {Smulbb, Smulbt, Smultb, Smultt, Smulwb, Smulwt} then smulbb_d
      else if p \<in> {Smlalbb, Smlalbt, Smlaltb, Smlaltt} then smlalbb_d else smlabb_d)"

fun decode_arm :: "arm_fn \<Rightarrow> u32 \<Rightarrow> inst_op \<Rightarrow> inst_info" where
  "decode_arm (FLogical p b f) opcode i = decode_logical p b f opcode i"
| "decode_arm (FArith p b f) opcode i = decode_arith p b f opcode i"
| "decode_arm (FTest p f) opcode i = decode_test p f opcode i"
| "decode_arm (FMul32 b acc) opcode i =
     (if b then (if acc then mlas_d else muls_d) else if acc then mla_d else mul_d) opcode i"
| "decode_arm (FMul64 b acc sg) opcode i =
     (if b then (if acc then umlals_d else umulls_d) else if acc then umlal_d else umull_d) opcode i"
| "decode_arm (FLdrStr load byte m up k) opcode i =
     (if k = OffImm then mem_transfer_imm (\<not> load) (m \<noteq> Of) False opcode i (imm_t_d opcode)
      else mem_transfer_reg_shift (\<not> load) (m \<noteq> Of) (off_shift k) False opcode i (imm_shift opcode))"
| "decode_arm (FLdrhStrh load half sg m up r) opcode i =
     (if r then mem_transfer_reg (\<not> load) (m \<noteq> Of) False opcode i (f0 opcode)
      else mem_transfer_imm (\<not> load) (m \<noteq> Of) False opcode i (imm_h_d opcode))"
| "decode_arm (FLdrdStrd store m up r) opcode i =
     (if r then mem_transfer_reg store (m \<noteq> Of) True opcode i (f0 opcode)
      else mem_transfer_imm store (m \<noteq> Of) True opcode i (imm_h_d opcode))"
| "decode_arm (FLdmStm load pre up usr wb) opcode i = decode_ldm load usr wb opcode i"
| "decode_arm (FSwp byte) opcode i = swp_d opcode i"
| "decode_arm (FMrs sp) opcode i = (if sp then mrs_rs_d else mrs_rc_d) opcode i"
| "decode_arm (FMsrR sp) opcode i = msr_r_d opcode i"
| "decode_arm (FMsrI sp) opcode i = msr_i_d opcode i"
| "decode_arm (FDsp p) opcode i = decode_dsp p opcode i"
| "decode_arm FClz opcode i = clz_d opcode i"
| "decode_arm FB opcode i = b_d opcode i"
| "decode_arm FBl opcode i = bl_d opcode i"
| "decode_arm FBx opcode i = bx_d opcode i"
| "decode_arm FBlxReg opcode i = blx_reg_d opcode i"
| "decode_arm FSwi opcode i = swi_d opcode i"
| "decode_arm FMcr opcode i = mcr_d opcode i"
| "decode_arm FMrc opcode i = mrc_d opcode i"
| "decode_arm FUndefined opcode i = unk_arm opcode i"

text \<open>An opcode decoded, as \<open>jit_asm.rs\<close> does it.\<close>

definition decode_opcode :: "u32 \<Rightarrow> inst_info" where
  "decode_opcode opcode = (let (i, f) = lookup_opcode opcode in decode_arm f opcode i)"

end
