(* ===== verification/InstThumb.thy ===== *)
theory InstThumb
  imports InstInfo
begin

text \<open>
  The operand decoders of the Thumb half of the disassembler:
  \<open>src/src/jit/disassembler/thumb/alu_instructions_thumb.rs\<close>, \<open>branch_instructions_thumb.rs\<close>,
  \<open>transfer_instructions_thumb.rs\<close> and \<open>delegations_thumb.rs\<close>, and the decoding of an opcode. A decoder has
  the name of the source function with the suffix \<open>_d\<close>; functions that only call another one are the
  branches of \<open>decode_thumb\<close>.
\<close>

section \<open>Arithmetic and logic\<close>

text \<open>The register fields, as numbers.\<close>

definition g0 :: "u16 \<Rightarrow> nat" where "g0 opcode = unat (opcode AND 0x7)"
definition g3 :: "u16 \<Rightarrow> nat" where "g3 opcode = unat (drop_bit 3 opcode AND 0x7)"
definition g6 :: "u16 \<Rightarrow> nat" where "g6 opcode = unat (drop_bit 6 opcode AND 0x7)"
definition g8 :: "u16 \<Rightarrow> nat" where "g8 opcode = unat (drop_bit 8 opcode AND 0x7)"
definition gh0 :: "u16 \<Rightarrow> nat" where "gh0 opcode = unat ((drop_bit 4 opcode AND 0x8) OR (opcode AND 0x7))"
definition gh3 :: "u16 \<Rightarrow> nat" where "gh3 opcode = unat (drop_bit 3 opcode AND 0xF)"

definition add_reg_t_d :: "u16 \<Rightarrow> inst_op \<Rightarrow> inst_info_thumb" where
  "add_reg_t_d opcode p =
     (let op0 = g0 opcode; op1 = g3 opcode; op2 = g6 opcode
      in inst_info_thumb_new opcode p [op_reg op0, op_reg op1, op_reg op2] (reserve [op1, op2]) (reserve [op0, 16]) 1)"

definition add_h_t_d :: "u16 \<Rightarrow> inst_op \<Rightarrow> inst_info_thumb" where
  "add_h_t_d opcode p =
     (let op0 = gh0 opcode; op2 = gh3 opcode
      in inst_info_thumb_new opcode p [op_reg op0, op_reg op0, op_reg op2] (reserve [op0, op2]) (reserve [op0]) 1)"

definition cmp_h_t_d :: "u16 \<Rightarrow> inst_op \<Rightarrow> inst_info_thumb" where
  "cmp_h_t_d opcode p =
     (let op1 = gh0 opcode; op2 = gh3 opcode
      in inst_info_thumb_new opcode p [op_reg op1, op_reg op2] (reserve [op1, op2]) (reserve [16]) 1)"

definition mov_h_t_d :: "u16 \<Rightarrow> inst_op \<Rightarrow> inst_info_thumb" where
  "mov_h_t_d opcode p =
     (let op0 = gh0 opcode; op2 = gh3 opcode
      in inst_info_thumb_new opcode p [op_reg op0, op_reg op2] (reserve [op2]) (reserve [op0]) 1)"

definition add_pc_t_d :: "u16 \<Rightarrow> inst_op \<Rightarrow> inst_info_thumb" where
  "add_pc_t_d opcode p =
     (let op0 = g8 opcode; op2 = push_bit 2 (opcode AND 0xFF)
      in inst_info_thumb_new opcode p [op_reg op0, op_reg 15, OImm (ucast op2)] (reserve [15]) (reserve [op0]) 1)"

definition add_sp_t_d :: "u16 \<Rightarrow> inst_op \<Rightarrow> inst_info_thumb" where
  "add_sp_t_d opcode p =
     (let op0 = g8 opcode; op2 = push_bit 2 (opcode AND 0xFF)
      in inst_info_thumb_new opcode p [op_reg op0, op_reg 13, OImm (ucast op2)] (reserve [13]) (reserve [op0]) 1)"

definition add_sp_imm_t_d :: "u16 \<Rightarrow> inst_op \<Rightarrow> inst_info_thumb" where
  "add_sp_imm_t_d opcode p =
     inst_info_thumb_new opcode p [op_reg 13, op_reg 13, OImm (push_bit 2 (ucast (opcode AND 0x7F)))] (reserve [13]) (reserve [13]) 1"

definition lsl_imm_t_d :: "u16 \<Rightarrow> inst_op \<Rightarrow> inst_info_thumb" where
  "lsl_imm_t_d opcode p =
     (let op0 = g0 opcode; op1 = g3 opcode; op2 = drop_bit 6 opcode AND 0x1F
      in inst_info_thumb_new opcode p [op_reg op0, op_reg op1, OImm (ucast op2)] (reserve [op1, 16]) (reserve [op0, 16]) 1)"

definition add_imm3_t_d :: "u16 \<Rightarrow> inst_op \<Rightarrow> inst_info_thumb" where
  "add_imm3_t_d opcode p =
     (let op0 = g0 opcode; op1 = g3 opcode; op2 = drop_bit 6 opcode AND 0x7
      in inst_info_thumb_new opcode p [op_reg op0, op_reg op1, OImm (ucast op2)] (reserve [op1]) (reserve [op0, 16]) 1)"

definition add_imm8_t_d :: "u16 \<Rightarrow> inst_op \<Rightarrow> inst_info_thumb" where
  "add_imm8_t_d opcode p =
     (let op0 = g8 opcode
      in inst_info_thumb_new opcode p [op_reg op0, op_reg op0, OImm (ucast (opcode AND 0xFF))] (reserve [op0]) (reserve [op0, 16]) 1)"

definition cmp_imm8_t_d :: "u16 \<Rightarrow> inst_op \<Rightarrow> inst_info_thumb" where
  "cmp_imm8_t_d opcode p =
     (let op0 = g8 opcode
      in inst_info_thumb_new opcode p [op_reg op0, OImm (ucast (opcode AND 0xFF))] (reserve [op0]) (reserve [16]) 1)"

definition mov_imm8_t_d :: "u16 \<Rightarrow> inst_op \<Rightarrow> inst_info_thumb" where
  "mov_imm8_t_d opcode p =
     (let op0 = g8 opcode
      in inst_info_thumb_new opcode p [op_reg op0, OImm (ucast (opcode AND 0xFF))] (reserve [16]) (reserve [op0, 16]) 1)"

definition lsl_dp_t_d :: "u16 \<Rightarrow> inst_op \<Rightarrow> inst_info_thumb" where
  "lsl_dp_t_d opcode p =
     (let op0 = g0 opcode; op2 = g3 opcode
      in inst_info_thumb_new opcode p [op_reg op0, op_reg op0, op_reg op2] (reserve [op0, op2, 16]) (reserve [op0, 16]) 1)"

definition tst_dp_t_d :: "u16 \<Rightarrow> inst_op \<Rightarrow> inst_info_thumb" where
  "tst_dp_t_d opcode p =
     (let op1 = g0 opcode; op2 = g3 opcode
      in inst_info_thumb_new opcode p [op_reg op1, op_reg op2] (reserve [op1, op2, 16]) (reserve [16]) 1)"

definition cmp_dp_t_d :: "u16 \<Rightarrow> inst_op \<Rightarrow> inst_info_thumb" where
  "cmp_dp_t_d opcode p =
     (let op1 = g0 opcode; op2 = g3 opcode
      in inst_info_thumb_new opcode p [op_reg op1, op_reg op2] (reserve [op1, op2]) (reserve [16]) 1)"

definition mvn_dp_t_d :: "u16 \<Rightarrow> inst_op \<Rightarrow> inst_info_thumb" where
  "mvn_dp_t_d opcode p =
     (let op0 = g0 opcode; op2 = g3 opcode
      in inst_info_thumb_new opcode p [op_reg op0, op_reg op2] (reserve [op2, 16]) (reserve [op0, 16]) 1)"

definition neg_dp_t_d :: "u16 \<Rightarrow> inst_op \<Rightarrow> inst_info_thumb" where
  "neg_dp_t_d opcode p =
     (let op0 = g0 opcode; op2 = g3 opcode
      in inst_info_thumb_new opcode p [op_reg op0, op_reg op2, OImm 0] (reserve [op2]) (reserve [op0, 16]) 1)"

definition mul_dp_t_d :: "u16 \<Rightarrow> inst_op \<Rightarrow> inst_info_thumb" where
  "mul_dp_t_d opcode p =
     (let op0 = g0 opcode; op2 = g3 opcode
      in inst_info_thumb_new opcode p [op_reg op0, op_reg op2] (reserve [op0, op2, 16]) (reserve [op0, 16]) 4)"

section \<open>Branches\<close>

definition bx_reg_t_d :: "u16 \<Rightarrow> inst_op \<Rightarrow> inst_info_thumb" where
  "bx_reg_t_d opcode p = inst_info_thumb_new opcode p [op_reg (gh3 opcode)] (reserve [gh3 opcode]) (reserve [15]) 1"

definition blx_reg_t_d :: "u16 \<Rightarrow> inst_op \<Rightarrow> inst_info_thumb" where
  "blx_reg_t_d opcode p = inst_info_thumb_new opcode p [op_reg (gh3 opcode)] (reserve [gh3 opcode]) (reserve [14, 15]) 1"

definition b_t_d :: "u16 \<Rightarrow> inst_op \<Rightarrow> inst_info_thumb" where
  "b_t_d opcode p =
     inst_info_thumb_new opcode p [OImm (scast (signed_drop_bit 4 (push_bit 5 opcode)))] (reserve []) (reserve [15]) 1"

definition b_cond_d :: "u16 \<Rightarrow> inst_op \<Rightarrow> inst_info_thumb" where
  "b_cond_d opcode p =
     inst_info_thumb_new opcode p [OImm (push_bit 1 (scast (ucast (opcode AND 0xFF) :: u8)))] (reserve [16]) (reserve [15]) 1"

definition bl_setup_t_d :: "u16 \<Rightarrow> inst_op \<Rightarrow> inst_info_thumb" where
  "bl_setup_t_d opcode p =
     inst_info_thumb_new opcode p [OImm (signed_drop_bit 9 (push_bit 21 (ucast opcode)))] (reserve []) (reserve []) 1"

text \<open>\<open>bl_off_t\<close> and \<open>blx_off_t\<close>.\<close>

definition bl_off_t_d :: "u16 \<Rightarrow> inst_op \<Rightarrow> inst_info_thumb" where
  "bl_off_t_d opcode p =
     inst_info_thumb_new opcode p [OImm (ucast (push_bit 1 (opcode AND 0x7FF)))] (reserve []) (reserve [14, 15]) 1"

definition swi_t_d :: "u16 \<Rightarrow> inst_op \<Rightarrow> inst_info_thumb" where
  "swi_t_d opcode p = inst_info_thumb_new opcode p [] (reserve []) (reserve []) 3"

definition unk_t :: "u16 \<Rightarrow> inst_op \<Rightarrow> inst_info_thumb" where
  "unk_t opcode p = inst_info_thumb_new opcode p [] (reserve []) (reserve []) 1"

section \<open>Transfers\<close>

definition ldrsb_reg_t_d :: "u16 \<Rightarrow> inst_op \<Rightarrow> inst_info_thumb" where
  "ldrsb_reg_t_d opcode p =
     (let op0 = g0 opcode; op1 = g3 opcode; op2 = g6 opcode
      in inst_info_thumb_new opcode p [op_reg op0, op_reg op1, op_reg op2] (reserve [op1, op2]) (reserve [op0]) 3)"

definition strb_reg_t_d :: "u16 \<Rightarrow> inst_op \<Rightarrow> inst_info_thumb" where
  "strb_reg_t_d opcode p =
     (let op0 = g0 opcode; op1 = g3 opcode; op2 = g6 opcode
      in inst_info_thumb_new opcode p [op_reg op0, op_reg op1, op_reg op2] (reserve [op0, op1, op2]) (reserve []) 2)"

text \<open>The six transfers with a 5-bit immediate, which differ in its scale.\<close>

definition load_imm5_d :: "u16 \<Rightarrow> u16 \<Rightarrow> inst_op \<Rightarrow> inst_info_thumb" where
  "load_imm5_d imm opcode p =
     (let op0 = g0 opcode; op1 = g3 opcode
      in inst_info_thumb_new opcode p [op_reg op0, op_reg op1, OImm (ucast imm)] (reserve [op1]) (reserve [op0]) 3)"

definition store_imm5_d :: "u16 \<Rightarrow> u16 \<Rightarrow> inst_op \<Rightarrow> inst_info_thumb" where
  "store_imm5_d imm opcode p =
     (let op0 = g0 opcode; op1 = g3 opcode
      in inst_info_thumb_new opcode p [op_reg op0, op_reg op1, OImm (ucast imm)] (reserve [op0, op1]) (reserve []) 2)"

definition ldrb_imm5_t_d where "ldrb_imm5_t_d opcode p = load_imm5_d (drop_bit 6 (opcode AND 0x07C0)) opcode p"
definition strb_imm5_t_d where "strb_imm5_t_d opcode p = store_imm5_d (drop_bit 6 (opcode AND 0x07C0)) opcode p"
definition ldrh_imm5_t_d where "ldrh_imm5_t_d opcode p = load_imm5_d (drop_bit 5 opcode AND 0x3E) opcode p"
definition strh_imm5_t_d where "strh_imm5_t_d opcode p = store_imm5_d (drop_bit 5 opcode AND 0x3E) opcode p"
definition ldr_imm5_t_d where "ldr_imm5_t_d opcode p = load_imm5_d (drop_bit 4 opcode AND 0x7C) opcode p"
definition str_imm5_t_d where "str_imm5_t_d opcode p = store_imm5_d (drop_bit 4 opcode AND 0x7C) opcode p"

definition ldr_pc_t_d :: "u16 \<Rightarrow> inst_op \<Rightarrow> inst_info_thumb" where
  "ldr_pc_t_d opcode p =
     (let op0 = g8 opcode; op2 = push_bit 2 (opcode AND 0xFF)
      in inst_info_thumb_new opcode p [op_reg op0, op_reg 15, OImm (ucast op2)] (reserve [15]) (reserve [op0]) 3)"

definition ldr_sp_t_d :: "u16 \<Rightarrow> inst_op \<Rightarrow> inst_info_thumb" where
  "ldr_sp_t_d opcode p =
     (let op0 = g8 opcode; op2 = push_bit 2 (opcode AND 0xFF)
      in inst_info_thumb_new opcode p [op_reg op0, op_reg 13, OImm (ucast op2)] (reserve [13]) (reserve [op0]) 3)"

definition str_sp_t_d :: "u16 \<Rightarrow> inst_op \<Rightarrow> inst_info_thumb" where
  "str_sp_t_d opcode p =
     (let op0 = g8 opcode; op2 = push_bit 2 (opcode AND 0xFF)
      in inst_info_thumb_new opcode p [op_reg op0, op_reg 13, OImm (ucast op2)] (reserve [op0, 13]) (reserve []) 2)"

definition ldmia_t_d :: "u16 \<Rightarrow> inst_op \<Rightarrow> inst_info_thumb" where
  "ldmia_t_d opcode p =
     (let op0 = g8 opcode; rlist = ucast (opcode AND 0xFF)
      in inst_info_thumb_new opcode p [op_reg op0, ORegList rlist] (reserve [op0]) (rr_add rlist (reserve [op0]))
           (of_nat (rr_len rlist) + 2))"

definition stmia_t_d :: "u16 \<Rightarrow> inst_op \<Rightarrow> inst_info_thumb" where
  "stmia_t_d opcode p =
     (let op0 = g8 opcode; rlist = ucast (opcode AND 0xFF)
      in inst_info_thumb_new opcode p [op_reg op0, ORegList rlist] (rr_add (reserve [op0]) rlist) (reserve [op0])
           (of_nat (rr_len rlist) + 1))"

definition pop_d :: "reg_reserve \<Rightarrow> u16 \<Rightarrow> inst_op \<Rightarrow> inst_info_thumb" where
  "pop_d rlist opcode p =
     inst_info_thumb_new opcode p [op_reg 13, ORegList rlist] (reserve [13]) (rr_add rlist (reserve [13])) (of_nat (rr_len rlist) + 2)"

definition push_d :: "reg_reserve \<Rightarrow> u16 \<Rightarrow> inst_op \<Rightarrow> inst_info_thumb" where
  "push_d rlist opcode p =
     inst_info_thumb_new opcode p [op_reg 13, ORegList rlist] (rr_add rlist (reserve [13])) (reserve [13]) (of_nat (rr_len rlist) + 1)"

definition pop_t_d where "pop_t_d opcode p = pop_d (ucast (opcode AND 0xFF :: u16)) opcode p"
definition push_t_d where "push_t_d opcode p = push_d (ucast (opcode AND 0xFF :: u16)) opcode p"
definition pop_pc_t_d where "pop_pc_t_d opcode p = pop_d (rr_add (ucast (opcode AND 0xFF :: u16)) (reserve [15])) opcode p"
definition push_lr_t_d where "push_lr_t_d opcode p = push_d (rr_add (ucast (opcode AND 0xFF :: u16)) (reserve [14])) opcode p"

section \<open>The decoder of a table entry\<close>

fun decode_thumb :: "thumb_fn \<Rightarrow> u16 \<Rightarrow> inst_op \<Rightarrow> inst_info_thumb" where
  "decode_thumb (TAddSub imm sub) = (if imm then add_imm3_t_d else add_reg_t_d)"
| "decode_thumb TMovImm8 = mov_imm8_t_d"
| "decode_thumb TCmpImm8 = cmp_imm8_t_d"
| "decode_thumb TAddImm8 = add_imm8_t_d"
| "decode_thumb TSubImm8 = add_imm8_t_d"
| "decode_thumb TLslImm = lsl_imm_t_d"
| "decode_thumb TLsrImm = lsl_imm_t_d"
| "decode_thumb TAsrImm = lsl_imm_t_d"
| "decode_thumb (TDp p) = (if p = Mvn then mvn_dp_t_d else lsl_dp_t_d)"
| "decode_thumb TLslDp = lsl_dp_t_d"
| "decode_thumb TLsrDp = lsl_dp_t_d"
| "decode_thumb TAsrDp = lsl_dp_t_d"
| "decode_thumb TAdcDp = lsl_dp_t_d"
| "decode_thumb TSbcDp = lsl_dp_t_d"
| "decode_thumb TRorDp = lsl_dp_t_d"
| "decode_thumb TTstDp = tst_dp_t_d"
| "decode_thumb TNegDp = neg_dp_t_d"
| "decode_thumb TCmpDp = cmp_dp_t_d"
| "decode_thumb TCmnDp = cmp_dp_t_d"
| "decode_thumb TMulDp = mul_dp_t_d"
| "decode_thumb TAddH = add_h_t_d"
| "decode_thumb TCmpH = cmp_h_t_d"
| "decode_thumb TMovH = mov_h_t_d"
| "decode_thumb TAddPc = add_pc_t_d"
| "decode_thumb TAddSp = add_sp_t_d"
| "decode_thumb TAddSpImm = add_sp_imm_t_d"
| "decode_thumb TBxReg = bx_reg_t_d"
| "decode_thumb TBlxReg = blx_reg_t_d"
| "decode_thumb (TBcond p) = b_cond_d"
| "decode_thumb TB = b_t_d"
| "decode_thumb TBlSetup = bl_setup_t_d"
| "decode_thumb TBlOff = bl_off_t_d"
| "decode_thumb TBlxOff = bl_off_t_d"
| "decode_thumb TSwi = swi_t_d"
| "decode_thumb TUndefined = unk_t"
| "decode_thumb TLdrPc = ldr_pc_t_d"
| "decode_thumb TLdrSp = ldr_sp_t_d"
| "decode_thumb TStrSp = str_sp_t_d"
| "decode_thumb TLdrReg = ldrsb_reg_t_d"
| "decode_thumb TLdrbReg = ldrsb_reg_t_d"
| "decode_thumb TLdrhReg = ldrsb_reg_t_d"
| "decode_thumb TLdrsbReg = ldrsb_reg_t_d"
| "decode_thumb TLdrshReg = ldrsb_reg_t_d"
| "decode_thumb TStrReg = strb_reg_t_d"
| "decode_thumb TStrbReg = strb_reg_t_d"
| "decode_thumb TStrhReg = strb_reg_t_d"
| "decode_thumb TLdrImm5 = ldr_imm5_t_d"
| "decode_thumb TLdrbImm5 = ldrb_imm5_t_d"
| "decode_thumb TLdrhImm5 = ldrh_imm5_t_d"
| "decode_thumb TStrImm5 = str_imm5_t_d"
| "decode_thumb TStrbImm5 = strb_imm5_t_d"
| "decode_thumb TStrhImm5 = strh_imm5_t_d"
| "decode_thumb TPush = push_t_d"
| "decode_thumb TPushLr = push_lr_t_d"
| "decode_thumb TPop = pop_t_d"
| "decode_thumb TPopPc = pop_pc_t_d"
| "decode_thumb TStmia = stmia_t_d"
| "decode_thumb TLdmia = ldmia_t_d"

definition decode_thumb_opcode :: "u16 \<Rightarrow> inst_info" where
  "decode_thumb_opcode opcode = (let (i, f) = lookup_thumb_opcode opcode in from_thumb (decode_thumb f opcode i))"

end
