(* ===== verification/Analyzer.thy ===== *)
theory Analyzer
  imports InstThumb
begin

text \<open>
  The compiler's front end: \<open>fill_jit_insts_buf\<close> of \<open>src/src/jit/jit_asm.rs\<close>, which decodes a block of guest
  code, and the analysis of the block in \<open>src/src/jit/analyzer/asm_analyzer.rs\<close> and \<open>basic_block.rs\<close>: idle
  loops, local branches, basic blocks and live registers. Release build (\<open>DEBUG_LOG\<close> is false). An
  operand that is not there or not an immediate makes the analysis panic (\<open>None\<close>).
\<close>

section \<open>Decoding a block (jit_asm.rs)\<close>

definition get_inst_info :: "bool \<Rightarrow> u32 \<Rightarrow> emu \<Rightarrow> inst_info \<times> emu" where
  "get_inst_info thumb pc s =
     (if thumb then (let (v, s) = mem_read 2 pc s in (decode_thumb_opcode (ucast v), s))
      else (let (v, s) = mem_read 4 pc s in (decode_opcode v, s)))"

text \<open>The loop's state: the instructions and running cycle counts so far, newest last.\<close>

record fill_state =
  fs_insts :: "inst_info list"
  fs_cycles :: "u16 list"
  fs_offset :: u32
  fs_min_imm :: u32

definition next_cycles :: "u16 list \<Rightarrow> u8 \<Rightarrow> u16 list" where
  "next_cycles cs c = cs @ [if cs = [] then ucast c else last cs + ucast c]"

definition lower_min_imm :: "u32 option \<Rightarrow> u32 \<Rightarrow> u32 \<Rightarrow> u32" where
  "lower_min_imm a pc m = (case a of Some x \<Rightarrow> if pc < x \<and> x < m then x else m | None \<Rightarrow> m)"

definition unreturnable_branch :: "inst_info \<Rightarrow> bool" where
  "unreturnable_branch i = (\<not> is_reserved (out_regs i) 14 \<and> info_is_uncond_branch i)"

definition skip_one_branch :: "inst_info \<Rightarrow> bool option" where
  "skip_one_branch i =
     (if \<not> (unreturnable_branch i \<and> is_labelled_branch (ii_op i)) then Some False
      else if operands i = [] then None else Some (as_imm (hd (operands i)) = Some 0))"

definition ends_block :: "bool \<Rightarrow> inst_info \<Rightarrow> nat \<Rightarrow> bool \<Rightarrow> u32 \<Rightarrow> bool" where
  "ends_block until_bx i n skip_one min_imm =
     (((ii_op i = OpBx \<or> ii_op i = OpBxRegT) \<and> ii_cond i = 14)
      \<or> (500 \<le> n \<and> ii_op i \<noteq> OpBlSetupT)
      \<or> (\<not> until_bx \<and> unreturnable_branch i \<and> \<not> skip_one \<and> min_imm = 0xFFFFFFFF))"

partial_function (option) fill_loop ::
    "bool \<Rightarrow> bool \<Rightarrow> u32 \<Rightarrow> fill_state \<Rightarrow> emu \<Rightarrow> (fill_state \<times> emu) option" where
  "fill_loop thumb until_bx guest_pc st s =
     (let pc = guest_pc + fs_offset st; (i, s) = get_inst_info thumb pc s
      in if ii_op i = OpUnkArm \<or> ii_op i = OpUnkThumb \<or> ii_cond i = 15 then Some (st, s)
         else Option.bind (imm_transfer_addr i pc) (\<lambda>imm. Option.bind (skip_one_branch i) (\<lambda>skip_one.
           (let st = st\<lparr>fs_cycles := next_cycles (fs_cycles st) (ii_cycle i),
                        fs_min_imm := lower_min_imm imm pc (fs_min_imm st), fs_insts := fs_insts st @ [i]\<rparr>
            in if ends_block until_bx i (length (fs_insts st)) skip_one (fs_min_imm st) \<or> fs_min_imm st \<le> pc
               then Some (st, s)
               else fill_loop thumb until_bx guest_pc (st\<lparr>fs_offset := fs_offset st + (if thumb then 2 else 4)\<rparr>) s))))"

definition fill_jit_insts_buf :: "emu \<Rightarrow> u32 \<Rightarrow> bool \<Rightarrow> bool \<Rightarrow> (inst_info list \<times> u16 list \<times> u32 \<times> emu) option" where
  "fill_jit_insts_buf s guest_pc thumb until_bx =
     map_option (\<lambda>(st, s). (fs_insts st, fs_cycles st, guest_pc + fs_offset st, s))
       (fill_loop thumb until_bx guest_pc \<lparr>fs_insts = [], fs_cycles = [], fs_offset = 0, fs_min_imm = 0xFFFFFFFF\<rparr> s)"

section \<open>Idle loops (asm_analyzer.rs)\<close>

fun leaves_idle :: "inst_op \<Rightarrow> bool" where
  "leaves_idle OpSwi = True"
| "leaves_idle OpSwiT = True"
| "leaves_idle OpMcr = True"
| "leaves_idle OpMrc = True"
| "leaves_idle (OpMrs sp) = True"
| "leaves_idle (OpMsrI sp) = True"
| "leaves_idle (OpMsrR sp) = True"
| "leaves_idle (OpSwp byte) = True"
| "leaves_idle _ = False"

fun idle_scan :: "reg_reserve \<Rightarrow> reg_reserve \<Rightarrow> inst_info list \<Rightarrow> bool" where
  "idle_scan written disallowed [] = True"
| "idle_scan written disallowed (i # is) =
     (if info_is_branch i \<or> leaves_idle (ii_op i) \<or> is_write_mem_transfer (ii_op i) then False
      else (let src = rr_sub (src_regs i) (reserve [15, 16]); out = rr_sub (out_regs i) (reserve [15]);
                disallowed = rr_add disallowed (rr_sub src written)
            in if \<not> rr_is_empty (rr_and out disallowed) then False
               else idle_scan (rr_add written out) disallowed is))"

definition is_idle_loop :: "inst_info list \<Rightarrow> bool" where
  "is_idle_loop insts = idle_scan 0 0 (butlast insts)"

section \<open>Branches (asm_analyzer.rs)\<close>

datatype jit_branch_info = Idle nat | Local nat | NotLocal

definition pc_shift :: "bool \<Rightarrow> nat" where "pc_shift thumb = (if thumb then 1 else 2)"

definition analyze_branch_label :: "inst_info list \<Rightarrow> bool \<Rightarrow> nat \<Rightarrow> nat \<Rightarrow> u32 \<Rightarrow> u32 \<Rightarrow> jit_branch_info" where
  "analyze_branch_label insts thumb branch_index cond pc target_pc =
     (let diff = unat (drop_bit (pc_shift thumb) (pc - target_pc)); jump_to_index = branch_index - diff
      in if cond < 14 \<and> target_pc < pc \<and> diff \<le> branch_index
            \<and> is_idle_loop (drop jump_to_index (take (branch_index + 1) insts))
         then Idle jump_to_index
         else (let relative_index = signed_drop_bit (pc_shift thumb) (target_pc - pc);
                   target_index = of_nat branch_index + relative_index
               in if 0 \<le> sint target_index \<and> unat target_index < length insts then Local (unat target_index) else NotLocal))"

record inst_metadata =
  idle_loop :: bool
  external_branch :: bool
  local_branch_entry :: bool

definition metadata_default :: inst_metadata where
  "metadata_default = \<lparr>idle_loop = False, external_branch = False, local_branch_entry = False\<rparr>"

text \<open>A branch the analysis resolves: to a label, without a link.\<close>

definition label_branch :: "inst_info \<Rightarrow> bool" where
  "label_branch i = (is_labelled_branch (ii_op i) \<and> \<not> is_reserved (out_regs i) 14)"

definition inst_pc :: "bool \<Rightarrow> u32 \<Rightarrow> nat \<Rightarrow> u32" where
  "inst_pc thumb start_pc i = start_pc + push_bit (pc_shift thumb) (of_nat i)"

definition branch_target :: "bool \<Rightarrow> u32 \<Rightarrow> inst_info \<Rightarrow> u32 option" where
  "branch_target thumb pc i =
     (if operands i = [] then None
      else map_option (\<lambda>v. pc + (v + push_bit (pc_shift thumb) 2)) (as_imm (hd (operands i))))"

definition mark_branch :: "jit_branch_info \<Rightarrow> nat \<Rightarrow> inst_metadata list \<Rightarrow> inst_metadata list" where
  "mark_branch b i md =
     (case b of
        Idle t \<Rightarrow> (let md = md[i := (md ! i)\<lparr>idle_loop := True\<rparr>] in md[t := (md ! t)\<lparr>local_branch_entry := True\<rparr>])
      | Local t \<Rightarrow> md[t := (md ! t)\<lparr>local_branch_entry := True\<rparr>]
      | NotLocal \<Rightarrow> md[i := (md ! i)\<lparr>external_branch := True\<rparr>])"

text \<open>The first loop of \<open>create_basic_blocks\<close>, at instruction \<open>i\<close>.\<close>

definition mark_inst :: "bool \<Rightarrow> u32 \<Rightarrow> inst_info list \<Rightarrow> nat \<Rightarrow> inst_metadata list \<times> u32 list
    \<Rightarrow> (inst_metadata list \<times> u32 list) option" where
  "mark_inst thumb start_pc insts i st =
     (case st of (md, stores) \<Rightarrow>
        (let pc = inst_pc thumb start_pc i; inst = insts ! i in
         do { imm \<leftarrow> imm_transfer_addr inst pc;
              let stores = (case imm of Some a \<Rightarrow> if is_write_mem_transfer (ii_op inst) then a # stores else stores
                                      | None \<Rightarrow> stores);
              if label_branch inst then
                do { target_pc \<leftarrow> branch_target thumb pc inst;
                     Some (mark_branch (analyze_branch_label insts thumb i (ii_cond inst) pc target_pc) i md, stores) }
              else Some (md, stores) }))"

section \<open>Basic blocks (asm_analyzer.rs, basic_block.rs)\<close>

record basic_block =
  bb_start_pc :: u32
  start_index :: nat
  end_index :: nat
  live_regs :: "reg_reserve list"
  output_regs :: reg_reserve

definition basic_block_new :: "u32 \<Rightarrow> nat \<Rightarrow> nat \<Rightarrow> basic_block" where
  "basic_block_new pc a b = \<lparr>bb_start_pc = pc, start_index = a, end_index = b, live_regs = [], output_regs = 0\<rparr>"

text \<open>The live sets before each instruction and after the last, computed from the end.\<close>

fun live_back :: "inst_info list \<Rightarrow> reg_reserve list" where
  "live_back [] = [0]"
| "live_back (i # is) =
     (let later = live_back is; live = rr_add (rr_sub (hd later) (out_regs i)) (src_regs i)
      in (if ii_cond i \<noteq> 14 then rr_add live (out_regs i) else live) # later)"

definition resolve_live_regs :: "inst_info list \<Rightarrow> basic_block \<Rightarrow> basic_block" where
  "resolve_live_regs insts b =
     (let body = drop (start_index b) (take (end_index b + 1) insts)
      in b\<lparr>live_regs := live_back body, output_regs := fold (\<lambda>i w. rr_add w (out_regs i)) (rev body) (output_regs b)\<rparr>)"

text \<open>The second loop of \<open>create_basic_blocks\<close>, at instruction \<open>i\<close>: where the current block started, and the
  blocks so far.\<close>

definition block_step :: "(nat \<Rightarrow> nat \<Rightarrow> basic_block) \<Rightarrow> inst_metadata list \<Rightarrow> inst_info list \<Rightarrow> nat
    \<Rightarrow> nat \<times> basic_block list \<Rightarrow> nat \<times> basic_block list" where
  "block_step mk md insts i st =
     (let (start, bs) = st;
          (start, bs) = (if local_branch_entry (md ! i)
                         then (i, if start < i then bs @ [mk start (i - 1)] else bs) else (start, bs))
      in if label_branch (insts ! i) then (i + 1, bs @ [mk start i]) else (start, bs))"

definition close_block :: "(nat \<Rightarrow> nat \<Rightarrow> basic_block) \<Rightarrow> nat \<Rightarrow> nat \<times> basic_block list \<Rightarrow> basic_block list" where
  "close_block mk n st = (let (start, bs) = st in if start < n then bs @ [mk start (n - 1)] else bs)"

record asm_analyzer =
  az_thumb :: bool
  basic_blocks :: "basic_block list"
  insts_metadata :: "inst_metadata list"
  imm_store_addrs :: "u32 list"

definition analyze :: "u32 \<Rightarrow> inst_info list \<Rightarrow> bool \<Rightarrow> asm_analyzer option" where
  "analyze start_pc insts thumb =
     (let n = length insts; mk = (\<lambda>a b. basic_block_new (inst_pc thumb start_pc a) a b) in
      do { (md, stores) \<leftarrow> fold (\<lambda>i st. Option.bind st (mark_inst thumb start_pc insts i)) [0..<n]
             (Some (replicate n metadata_default, []));
           let bs = close_block mk n (fold (block_step mk md insts) [0..<n] (0, []));
           Some \<lparr>az_thumb = thumb, basic_blocks = map (resolve_live_regs insts) bs, insts_metadata = md,
                 imm_store_addrs = stores\<rparr> })"

section \<open>Queries of the emitter (asm_analyzer.rs)\<close>

definition get_next_live_regs :: "asm_analyzer \<Rightarrow> nat \<Rightarrow> nat \<Rightarrow> reg_reserve" where
  "get_next_live_regs az k i = (let b = basic_blocks az ! k in live_regs b ! (i - start_index b + 1))"

definition get_basic_block_from_inst :: "asm_analyzer \<Rightarrow> nat \<Rightarrow> nat option" where
  "get_basic_block_from_inst az i =
     map_option fst (find (\<lambda>(k, b). start_index b \<le> i \<and> i \<le> end_index b) (enumerate 0 (basic_blocks az)))"

definition get_pc_from_inst :: "asm_analyzer \<Rightarrow> nat \<Rightarrow> u32" where
  "get_pc_from_inst az i = inst_pc (az_thumb az) (bb_start_pc (basic_blocks az ! 0)) i"

definition can_imm_load :: "asm_analyzer \<Rightarrow> u32 \<Rightarrow> bool" where
  "can_imm_load az a = (a \<notin> set (imm_store_addrs az))"

end
