(* ===== verification/DecodeLaws.thy ===== *)
theory DecodeLaws
  imports Disasm
begin

text \<open>
  The laws of instruction decoding. The condition table of the interpreter is the architecture's
  sixteen conditions; the two handler tables are the decoding of the architecture's instruction
  formats, written here as short functions of the format bits; and the tables of the compiler's
  disassembler agree with them entry by entry. The table comparisons are evaluated in the kernel.
\<close>

section \<open>The condition field\<close>

text \<open>The fifteen conditions of the architecture and the reserved one, on the flags N, Z, C, V.\<close>

definition cond_ref :: "nat \<Rightarrow> bool \<Rightarrow> bool \<Rightarrow> bool \<Rightarrow> bool \<Rightarrow> bool" where
  "cond_ref k n z c v =
     [z, \<not> z, c, \<not> c, n, \<not> n, v, \<not> v, c \<and> \<not> z, \<not> c \<or> z, n = v, n \<noteq> v, \<not> z \<and> n = v, z \<or> n \<noteq> v, True, False] ! k"

fun cond_number :: "condition \<Rightarrow> nat" where
  "cond_number Eq = 0"
| "cond_number Ne = 1"
| "cond_number Cs = 2"
| "cond_number Cc = 3"
| "cond_number Mi = 4"
| "cond_number Pl = 5"
| "cond_number Vs = 6"
| "cond_number Vc = 7"
| "cond_number Hi = 8"
| "cond_number Ls = 9"
| "cond_number Ge = 10"
| "cond_number Lt = 11"
| "cond_number Gt = 12"
| "cond_number Le = 13"

lemma condition_rows:
  "list_all (\<lambda>k. list_all (\<lambda>f. (CONDITION ! (16 * k + f) \<noteq> 0)
       = cond_ref k (odd (f div 8)) (odd (f div 4)) (odd (f div 2)) (odd f)) [0..<16]) [0..<14]"
  by code_simp

lemma taken_ref: "taken p w = cond_ref (cond_number p) (bit w 31) (bit w 30) (bit w 29) (bit w 28)"
  by (cases p) (auto simp: cond_ref_def bit_xor_iff bit_push_bit_iff)

lemma flag_nibble:
  "odd (unat (drop_bit 28 w) div 8) = bit w 31" "odd (unat (drop_bit 28 w) div 4) = bit w 30"
  "odd (unat (drop_bit 28 w) div 2) = bit w 29" "odd (unat (drop_bit 28 w)) = bit w 28" for w :: u32
proof -
  have "odd (unat (drop_bit 28 w) div 2 ^ k) = bit w (28 + k)" for k
    using bit_imp_le_length [of w "28 + k"]
    by (auto simp: bit_unsigned_iff bit_drop_bit_eq simp flip: bit_iff_odd)
  from this [of 3] this [of 2] this [of 1] this [of 0]
  show "odd (unat (drop_bit 28 w) div 8) = bit w 31" "odd (unat (drop_bit 28 w) div 4) = bit w 30"
    "odd (unat (drop_bit 28 w) div 2) = bit w 29" "odd (unat (drop_bit 28 w)) = bit w 28" by simp_all
qed

lemma unat_top_nibble: "unat (drop_bit 28 w :: u32) = unat w div 2 ^ 28" "unat (drop_bit 28 w :: u32) < 16"
  using unat_u32_bound [of w] by (simp_all add: unat_drop_bit_eq drop_bit_eq_div [where 'a = nat] less_mult_imp_div_less)

lemma unat_or_disjoint: "x AND y = 0 \<Longrightarrow> unat (x OR y) = unat x + unat y" for x y :: "'a::len word"
  by (metis disjunctive_add_eq_or unsigned_0 unsigned_and_eq unsigned_or_eq)

lemma top_nibble_high: "unat (drop_bit 24 w AND 0xF0 :: u32) = 16 * unat (drop_bit 28 w)"
proof -
  have "(0xF0 :: u32) = mask 8 AND NOT (mask 4)" by (simp add: mask_eq_exp_minus_1)
  then have "unat (drop_bit 24 w AND 0xF0) = unat w div 2 ^ 24 mod 2 ^ 8 div 2 ^ 4 * 2 ^ 4"
    by (simp only: unat_and_not_mask unat_and_mask unat_drop_bit_eq drop_bit_eq_div [where 'a = nat] flip: and.assoc)
  also have "unat w div 2 ^ 24 mod 2 ^ 8 = unat w div 2 ^ 24"
    using unat_u32_bound [of w] by (simp add: less_mult_imp_div_less)
  also have "unat w div 2 ^ 24 div 2 ^ 4 = unat w div 2 ^ 28" by (simp add: div_mult2_eq [symmetric])
  finally show ?thesis by (simp add: unat_top_nibble)
qed

lemma condition_index_eq: "condition_index opcode w = 16 * unat (drop_bit 28 opcode) + unat (drop_bit 28 w)"
proof -
  have "(drop_bit 24 opcode AND 0xF0) AND drop_bit 28 w = 0"
  proof -
    have "drop_bit 28 w = drop_bit 28 w AND mask 4"
      using unat_top_nibble(2) [of w] by (simp only: word_unat_eq_iff unat_and_mask) simp
    moreover have "(x AND 0xF0) AND (y AND mask 4) = (x AND y) AND (0xF0 AND mask 4)" for x y :: u32
      by (simp only: ac_simps)
    moreover have "(0xF0 :: u32) AND mask 4 = 0" by (simp add: mask_eq_exp_minus_1)
    ultimately show ?thesis by (metis and_zero_eq)
  qed
  then show ?thesis unfolding condition_index_def by (simp add: unat_or_disjoint top_nibble_high)
qed

text \<open>
  Every ARM instruction is executed exactly when its condition field holds of the flags, by the
  architecture's sixteen conditions (the last one never holds), and is otherwise skipped for one cycle
  with the machine unchanged; and the conditional Thumb branches, which test the flags themselves,
  decide by the same conditions.
\<close>
theorem condition_exact:
  "let w = ctx_cpsr s; holds = (\<lambda>k. cond_ref k (bit w 31) (bit w 30) (bit w 29) (bit w 28))
   in execute_arm h ia opcode s =
        (if holds (unat (drop_bit 28 opcode)) then arm_exec h (ARM_TABLE ! arm_index opcode) ia opcode s
         else Some (Continue 1, s))
      \<and> bcond_t p ia op16 s =
        (if holds (cond_number p) then (Branch 1 ((ia + 4 + push_bit 1 (scast (ucast op16 :: u8))) OR 1), s)
         else (Continue 1, s))"
proof -
  let ?k = "unat (drop_bit 28 opcode)" and ?w = "ctx_cpsr s"
  have k: "?k < 16" by (rule unat_top_nibble)
  have cmp: "opcode \<ge> 0xE0000000 \<longleftrightarrow> ?k \<ge> 14" "opcode < 0xF0000000 \<longleftrightarrow> ?k < 15"
    unfolding unat_top_nibble word_le_nat_alt word_less_nat_alt by auto
  have t: "(CONDITION ! condition_index opcode ?w \<noteq> 0)
      = cond_ref ?k (bit ?w 31) (bit ?w 30) (bit ?w 29) (bit ?w 28)" if "?k < 14"
    using condition_rows that unat_top_nibble(2) [of ?w]
    by (simp add: list_all_iff condition_index_eq flip: flag_nibble)
  have "cond_ref 14 n z c v" "\<not> cond_ref 15 n z c v" for n z c v by (simp_all add: cond_ref_def)
  then show ?thesis
    unfolding Let_def execute_arm_def cmp bcond_t_def taken_ref using k t
    by (cases "?k < 14"; cases "?k = 14"; cases "?k = 15") auto
qed

section \<open>The ARM table against the instruction format\<close>

text \<open>The instruction formats of the architecture on bits 27 to 20 (\<open>hi\<close>) and 7 to 4 (\<open>lo\<close>).\<close>

definition data_proc_ref :: "int \<Rightarrow> bool \<Rightarrow> shift_form \<Rightarrow> arm_fn" where
  "data_proc_ref p b f =
     [FLogical And b f, FLogical Eor b f, FArith Sub b f, FArith Rsb b f, FArith Add b f, FArith Adc b f, FArith Sbc b f,
      FArith Rsc b f, FTest Tst f, FTest Teq f, FTest Cmp f, FTest Cmn f, FLogical Orr b f, FLogical Mov b f,
      FLogical Bic b f, FLogical Mvn b f] ! nat p"

definition shift_form_ref :: "int \<Rightarrow> shift_form" where
  "shift_form_ref lo = [Lli, Llr, Lri, Lrr, Ari, Arr, Rri, Rrr] ! nat (lo mod 8)"

definition mode_ref :: "int \<Rightarrow> addr_mode" where
  "mode_ref hi = (if odd (hi div 16) then (if odd (hi div 2) then Pr else Of) else Pt)"

definition multiply_ref :: "int \<Rightarrow> arm_fn" where
  "multiply_ref hi =
     (if hi < 4 then FMul32 (odd hi) (odd (hi div 2))
      else if 8 \<le> hi \<and> hi < 16 then FMul64 (odd hi) (odd (hi div 2)) (odd (hi div 4))
      else if hi = 16 then FSwp False else if hi = 20 then FSwp True else FUndefined)"

definition half_ref :: "int \<Rightarrow> int \<Rightarrow> arm_fn" where
  "half_ref hi lo =
     (let m = mode_ref hi; up = odd (hi div 8); r = even (hi div 4)
      in if lo = 11 then FLdrhStrh (odd hi) True False m up r
         else if odd hi then FLdrhStrh True (lo = 15) True m up r else FLdrdStrd (lo = 15) m up r)"

definition misc_ref :: "int \<Rightarrow> int \<Rightarrow> arm_fn" where
  "misc_ref p lo =
     (if lo = 0 then [FMrs False, FMsrR False, FMrs True, FMsrR True] ! nat p
      else if lo = 1 then [FUndefined, FBx, FUndefined, FClz] ! nat p
      else if lo = 3 then (if p = 1 then FBlxReg else FUndefined)
      else if lo = 5 then FDsp ([Qadd, Qsub, Qdadd, Qdsub] ! nat p)
      else if lo < 8 \<or> odd lo then FUndefined
      else FDsp ([[Smlabb, Smlatb, Smlabt, Smlatt], [Smlawb, Smulwb, Smlawt, Smulwt],
                  [Smlalbb, Smlaltb, Smlalbt, Smlaltt], [Smulbb, Smultb, Smulbt, Smultt]] ! nat p ! nat ((lo - 8) div 2)))"

definition transfer_ref :: "int \<Rightarrow> off_kind \<Rightarrow> arm_fn" where
  "transfer_ref hi k =
     FLdrStr (odd hi) (odd (hi div 4)) (mode_ref hi) (odd (hi div 8)) k"

definition decode_ref :: "int \<Rightarrow> int \<Rightarrow> arm_fn" where
  "decode_ref hi lo =
     (if hi < 32 then
        (if lo = 9 then multiply_ref hi
         else if 8 \<le> lo \<and> odd lo then half_ref hi lo
         else if 16 \<le> hi \<and> hi < 24 \<and> even hi then misc_ref ((hi - 16) div 2) lo
         else data_proc_ref (hi div 2) (odd hi) (shift_form_ref lo))
      else if hi < 64 then
        (if hi = 0x30 \<or> hi = 0x34 then FUndefined else if hi = 0x32 \<or> hi = 0x36 then FMsrI (hi = 0x36)
         else data_proc_ref ((hi - 32) div 2) (odd hi) Imm)
      else if hi < 96 then transfer_ref hi OffImm
      else if hi < 128 then
        (if odd lo then FUndefined else transfer_ref hi ([OffLsl, OffLsr, OffAsr, OffRor] ! nat (lo div 2 mod 4)))
      else if hi < 160 then FLdmStm (odd hi) (odd (hi div 16)) (odd (hi div 8)) (odd (hi div 4)) (odd (hi div 2))
      else if hi < 176 then FB else if hi < 192 then FBl else if hi < 224 then FUndefined
      else if hi < 240 then (if even lo then FUndefined else if odd hi then FMrc else FMcr)
      else FSwi)"

text \<open>LDRT, STRT, LDRBT and STRBT: the post-indexed transfers with the write-back bit. To the architecture
  they are post-indexed transfers made with user privileges, which on a machine without memory
  protection is no difference. The interpreter's table has no handler for them.\<close>

definition user_transfer :: "int \<Rightarrow> int \<Rightarrow> bool" where
  "user_transfer hi lo = (64 \<le> hi \<and> hi < 128 \<and> even (hi div 16) \<and> odd (hi div 2) \<and> (hi < 96 \<or> even lo))"

definition handler_ref :: "int \<Rightarrow> int \<Rightarrow> arm_fn" where
  "handler_ref hi lo = (if user_transfer hi lo then FUndefined else decode_ref hi lo)"

definition ref_rows :: "int \<Rightarrow> arm_fn list list" where
  "ref_rows k = map (\<lambda>hi. map (handler_ref hi) [0..15]) [8 * k..8 * k + 7]"

lemma arm_rows_0:
  "ARM_ROWS_0 = ref_rows 0"
  "ARM_ROWS_1 = ref_rows 1"
  "ARM_ROWS_2 = ref_rows 2"
  "ARM_ROWS_3 = ref_rows 3"
  "ARM_ROWS_4 = ref_rows 4"
  "ARM_ROWS_5 = ref_rows 5"
  "ARM_ROWS_6 = ref_rows 6"
  "ARM_ROWS_7 = ref_rows 7"
  by code_simp+

lemma arm_rows_1:
  "ARM_ROWS_8 = ref_rows 8"
  "ARM_ROWS_9 = ref_rows 9"
  "ARM_ROWS_10 = ref_rows 10"
  "ARM_ROWS_11 = ref_rows 11"
  "ARM_ROWS_12 = ref_rows 12"
  "ARM_ROWS_13 = ref_rows 13"
  "ARM_ROWS_14 = ref_rows 14"
  "ARM_ROWS_15 = ref_rows 15"
  by code_simp+

lemma arm_rows_2:
  "ARM_ROWS_16 = ref_rows 16"
  "ARM_ROWS_17 = ref_rows 17"
  "ARM_ROWS_18 = ref_rows 18"
  "ARM_ROWS_19 = ref_rows 19"
  "ARM_ROWS_20 = ref_rows 20"
  "ARM_ROWS_21 = ref_rows 21"
  "ARM_ROWS_22 = ref_rows 22"
  "ARM_ROWS_23 = ref_rows 23"
  by code_simp+

lemma arm_rows_3:
  "ARM_ROWS_24 = ref_rows 24"
  "ARM_ROWS_25 = ref_rows 25"
  "ARM_ROWS_26 = ref_rows 26"
  "ARM_ROWS_27 = ref_rows 27"
  "ARM_ROWS_28 = ref_rows 28"
  "ARM_ROWS_29 = ref_rows 29"
  "ARM_ROWS_30 = ref_rows 30"
  "ARM_ROWS_31 = ref_rows 31"
  by code_simp+


lemma upto_append: "[a..b] @ [b + 1..c] = [a..c]" if "a \<le> b + 1" "b \<le> c" for a b c :: int
proof (cases "a \<le> b")
  case False
  then have "a = b + 1" using that by simp
  then show ?thesis by simp
qed (use that in \<open>simp add: upto_split2 [of a b c]\<close>)

lemma ref_rows_append: "map (\<lambda>hi. map (handler_ref hi) [0..15]) [0..8 * k - 1] @ ref_rows k
    = map (\<lambda>hi. map (handler_ref hi) [0..15]) [0..8 * (k + 1) - 1]" if "0 \<le> k"
  using that upto_append [of 0 "8 * k - 1" "8 * k + 7"]
  by (simp add: ref_rows_def algebra_simps flip: map_append)

lemma arm_rows_eq: "ARM_ROWS = map (\<lambda>hi. map (handler_ref hi) [0..15]) [0..255]"
proof -
  have "concat (map (\<lambda>k. ref_rows (int k)) [0..<n]) = map (\<lambda>hi. map (handler_ref hi) [0..15]) [0..8 * int n - 1]" for n
  proof (induction n)
    case (Suc n)
    then show ?case using ref_rows_append [of "int n"] by (simp add: algebra_simps)
  qed simp
  from this [of 32] show ?thesis
    unfolding ARM_ROWS_def arm_rows_0 arm_rows_1 arm_rows_2 arm_rows_3 by (simp add: upt_rec)
qed


lemma row_index_less: "m * i + j < m * n" if "i < n" "j < m" for m n :: nat
  using mult_le_mono2 [of "Suc i" n m] that by simp

lemma concat_rows_nth:
  "concat (map (\<lambda>i. map (f i) [0..<m]) [0..<n]) ! (m * i + j) = f i j"
  "length (concat (map (\<lambda>i. map (f i) [0..<m]) [0..<n])) = m * n" if "i < n" "j < m" for m n :: nat
proof -
  have len: "length (concat (map (\<lambda>i. map (f i) [0..<m]) [0..<k])) = m * k" for k
    by (induction k) simp_all
  show "length (concat (map (\<lambda>i. map (f i) [0..<m]) [0..<n])) = m * n" by (rule len)
  show "concat (map (\<lambda>i. map (f i) [0..<m]) [0..<n]) ! (m * i + j) = f i j" using that(1)
  proof (induction n)
    case (Suc n)
    show ?case
    proof (cases "i = n")
      case False
      then have "m * i + j < m * n" using Suc.prems that(2) by (simp add: row_index_less)
      then show ?thesis using False Suc by (simp add: nth_append len)
    qed (use that(2) in \<open>simp add: nth_append len\<close>)
  qed simp
qed

lemma upto_as_upt: "[0..int n - 1] = map int [0..<n]"
  by (induction n) (simp_all add: upto_rec2)

lemma arm_table_eq:
  "ARM_TABLE = concat (map (\<lambda>hi. map (\<lambda>lo. handler_ref (int hi) (int lo)) [0..<16]) [0..<256])"
  using upto_as_upt [of 16] upto_as_upt [of 256] by (simp add: ARM_TABLE_def arm_rows_eq comp_def)

lemma unat_bits: "unat (drop_bit m w AND mask n :: u32) = unat w div 2 ^ m mod 2 ^ n"
  by (simp only: unat_and_mask unat_drop_bit_eq drop_bit_eq_div [where 'a = nat])

lemma arm_index_eq: "arm_index opcode = 16 * (unat opcode div 2 ^ 20 mod 2 ^ 8) + unat opcode div 2 ^ 4 mod 2 ^ 4"
proof -
  have m: "(0xFF0 :: u32) = mask 12 AND NOT (mask 4)" "(0xF :: u32) = mask 4" by (simp_all add: mask_eq_exp_minus_1)
  have "(x AND (mask 12 AND NOT (mask 4))) AND (y AND mask 4) = 0" for x y :: u32
    by (rule bit_word_eqI) (simp add: bit_and_iff bit_not_iff)
  moreover have "unat (drop_bit 16 opcode AND (mask 12 AND NOT (mask 4))) = 16 * (unat opcode div 2 ^ 20 mod 2 ^ 8)"
  proof -
    have "unat (drop_bit 16 opcode AND (mask 12 AND NOT (mask 4))) = unat opcode div 2 ^ 16 mod 2 ^ 12 div 2 ^ 4 * 2 ^ 4"
      by (simp only: unat_and_not_mask unat_bits flip: and.assoc)
    also have "unat opcode div 2 ^ 16 mod 2 ^ 12 div 2 ^ 4 = unat opcode div 2 ^ 16 div 2 ^ 4 mod 2 ^ 8"
      using mod_mult2_eq [of "unat opcode div 2 ^ 16" "2 ^ 4" "2 ^ 8"] by simp
    also have "unat opcode div 2 ^ 16 div 2 ^ 4 = unat opcode div 2 ^ 20"
      using div_mult2_eq [of "unat opcode" "2 ^ 16" "2 ^ 4"] by simp
    finally show ?thesis by simp
  qed
  ultimately show ?thesis unfolding arm_index_def m by (simp add: unat_or_disjoint unat_bits)
qed

lemma arm_index_less: "arm_index opcode < length ARM_TABLE"
proof -
  have "unat opcode div 2 ^ 20 mod 2 ^ 8 < 256" "unat opcode div 2 ^ 4 mod 2 ^ 4 < 16" by simp_all
  then show ?thesis unfolding arm_index_eq arm_table_eq by (simp only: concat_rows_nth(2) row_index_less)
qed

text \<open>The Thumb formats on bits 15 to 8 (\<open>hi\<close>) and 7 to 6 (\<open>lo\<close>).\<close>

definition thumb_alu_ref :: "int \<Rightarrow> thumb_fn" where
  "thumb_alu_ref p =
     [TDp And, TDp Eor, TLslDp, TLsrDp, TAsrDp, TAdcDp, TSbcDp, TRorDp, TTstDp, TNegDp, TCmpDp, TCmnDp, TDp Orr, TMulDp,
      TDp Bic, TDp Mvn] ! nat p"

definition thumb_misc_ref :: "int \<Rightarrow> thumb_fn" where
  "thumb_misc_ref hi =
     (if hi = 0xB0 then TAddSpImm else if hi = 0xB4 then TPush else if hi = 0xB5 then TPushLr
      else if hi = 0xBC then TPop else if hi = 0xBD then TPopPc else TUndefined)"

definition thumb_ref :: "int \<Rightarrow> int \<Rightarrow> thumb_fn" where
  "thumb_ref hi lo =
     (if hi < 0x18 then [TLslImm, TLsrImm, TAsrImm] ! nat (hi div 8)
      else if hi < 0x20 then TAddSub (odd (hi div 4)) (odd (hi div 2))
      else if hi < 0x40 then [TMovImm8, TCmpImm8, TAddImm8, TSubImm8] ! nat ((hi - 0x20) div 8)
      else if hi < 0x44 then thumb_alu_ref (4 * (hi - 0x40) + lo)
      else if hi < 0x47 then [TAddH, TCmpH, TMovH] ! nat (hi - 0x44)
      else if hi = 0x47 then (if lo < 2 then TBxReg else TBlxReg)
      else if hi < 0x50 then TLdrPc
      else if hi < 0x60 then
        [TStrReg, TStrhReg, TStrbReg, TLdrsbReg, TLdrReg, TLdrhReg, TLdrbReg, TLdrshReg] ! nat ((hi - 0x50) div 2)
      else if hi < 0xB0 then
        [TStrImm5, TLdrImm5, TStrbImm5, TLdrbImm5, TStrhImm5, TLdrhImm5, TStrSp, TLdrSp, TAddPc, TAddSp] ! nat ((hi - 0x60) div 8)
      else if hi < 0xC0 then thumb_misc_ref hi
      else if hi < 0xD0 then (if hi < 0xC8 then TStmia else TLdmia)
      else if hi < 0xDE then TBcond ([Eq, Ne, Cs, Cc, Mi, Pl, Vs, Vc, Hi, Ls, Ge, Lt, Gt, Le] ! nat (hi - 0xD0))
      else if hi = 0xDE then TUndefined else if hi = 0xDF then TSwi
      else [TB, TBlxOff, TBlSetup, TBlOff] ! nat ((hi - 0xE0) div 8))"

lemma thumb_table_rows: "THUMB_TABLE = concat (map (\<lambda>hi. map (thumb_ref hi) [0..3]) [0..255])"
  by code_simp

lemma thumb_table_ref:
  "THUMB_TABLE = concat (map (\<lambda>hi. map (\<lambda>lo. thumb_ref (int hi) (int lo)) [0..<4]) [0..<256])"
  using upto_as_upt [of 4] upto_as_upt [of 256] by (simp add: thumb_table_rows comp_def)

lemma thumb_table_length: "length THUMB_TABLE = 1024"
  by (simp add: THUMB_TABLE_def THUMB_RUNS_def)

lemma thumb_index_less: "unat (drop_bit 6 opcode) < 1024" for opcode :: u16
  using unsigned_less [of opcode] less_mult_imp_div_less [of "unat opcode" 1024 64] by (simp add: unat_drop_bit_eq drop_bit_eq_div [where 'a = nat])

lemma thumb_index_mask: "drop_bit 6 opcode AND 0x3FF = drop_bit 6 opcode" for opcode :: u16
proof -
  have "(0x3FF :: u16) = mask 10" by (simp add: mask_eq_exp_minus_1)
  then have "unat (drop_bit 6 opcode AND 0x3FF) = unat (drop_bit 6 opcode) mod 2 ^ 10" by (simp only: unat_and_mask)
  then show ?thesis using thumb_index_less [of opcode] by (simp add: word_unat_eq_iff)
qed

lemma thumb_index_split:
  "unat (drop_bit 6 opcode) = 4 * (unat opcode div 2 ^ 8) + unat opcode div 2 ^ 6 mod 2 ^ 2"
  "unat opcode div 2 ^ 8 < 256" for opcode :: u16
proof -
  have "unat opcode div 2 ^ 8 = unat opcode div 2 ^ 6 div 2 ^ 2"
    using div_mult2_eq [of "unat opcode" "2 ^ 6" "2 ^ 2"] by simp
  then show "unat (drop_bit 6 opcode) = 4 * (unat opcode div 2 ^ 8) + unat opcode div 2 ^ 6 mod 2 ^ 2"
    by (simp add: unat_drop_bit_eq drop_bit_eq_div [where 'a = nat])
  show "unat opcode div 2 ^ 8 < 256"
    using unsigned_less [of opcode] less_mult_imp_div_less [of "unat opcode" 256 256] by simp
qed

text \<open>
  C8: the interpreter's handler tables decode every opcode by its instruction format, but for four
  instructions. For every 32-bit opcode the index computed from it is inside the 4096-entry table. The handler
  found there is the one that the format read off bits 27 to 20 and 7 to 4 asks for: the data-processing
  operations with their eight register shifts and the immediate form, multiplies, swaps, the halfword and
  signed transfers, the status register moves, single and block transfers with their addressing modes,
  branches, coprocessor register transfers and software interrupts, with the extensions of ARMv5TE
  (CLZ, BLX, the saturating and halfword arithmetic, doubleword transfers); the other coprocessor
  instructions and the unallocated encodings are undefined. The exceptions are the
  user-mode transfers LDRT, STRT, LDRBT and STRBT, valid instructions whose slots hold the undefined handler.
  For every 16-bit opcode the handler is the one of the Thumb format read off bits 15 to 6.
\<close>
theorem decode_exact:
  "arm_index opcode < length ARM_TABLE
   \<and> (let hi = int (unat opcode div 2 ^ 20 mod 2 ^ 8); lo = int (unat opcode div 2 ^ 4 mod 2 ^ 4)
      in ARM_TABLE ! arm_index opcode = (if user_transfer hi lo then FUndefined else decode_ref hi lo))
   \<and> unat (drop_bit 6 op16) < length THUMB_TABLE
   \<and> THUMB_TABLE ! unat (drop_bit 6 op16)
       = thumb_ref (int (unat (op16 :: u16) div 2 ^ 8)) (int (unat op16 div 2 ^ 6 mod 2 ^ 2))"
proof -
  have "unat opcode div 2 ^ 20 mod 2 ^ 8 < 256" "unat opcode div 2 ^ 4 mod 2 ^ 4 < 16"
    "unat op16 div 2 ^ 6 mod 2 ^ 2 < 4" by simp_all
  then show ?thesis
    unfolding arm_index_eq arm_table_eq thumb_index_split(1) thumb_table_ref
    by (simp only: concat_rows_nth thumb_index_split(2) row_index_less simp_thms Let_def handler_ref_def)
qed

section \<open>The disassembler reads the encodings as the interpreter does\<close>

text \<open>The operation code that describes a handler.\<close>

fun op_of :: "arm_fn \<Rightarrow> inst_op" where
  "op_of (FLogical p b f) = OpLogical p b"
| "op_of (FArith p b f) = OpArith p b"
| "op_of (FTest p f) = OpTest p"
| "op_of (FMul32 b acc) = OpMul32 b acc"
| "op_of (FMul64 b acc sg) = OpMul64 b acc sg"
| "op_of (FLdrStr load byte m up k) =
     (let t = st_new (m \<noteq> Pt) (m \<noteq> Of) up False (if byte then 0 else 2) in if load then OpLdr t else OpStr t)"
| "op_of (FLdrhStrh load half sg m up r) =
     (let t = st_new (m \<noteq> Pt) (m \<noteq> Of) up sg (of_bool half) in if load then OpLdr t else OpStr t)"
| "op_of (FLdrdStrd store m up r) =
     (let t = st_new (m \<noteq> Pt) (m \<noteq> Of) up False 3 in if store then OpStr t else OpLdr t)"
| "op_of (FLdmStm load pre up usr wb) = (let t = mt_new pre wb up usr in if load then OpLdm t else OpStm t)"
| "op_of (FSwp byte) = OpSwp byte"
| "op_of (FMrs sp) = OpMrs sp"
| "op_of (FMsrR sp) = OpMsrR sp"
| "op_of (FMsrI sp) = OpMsrI sp"
| "op_of (FDsp p) = OpDsp p"
| "op_of FClz = OpClz"
| "op_of FB = OpB"
| "op_of FBl = OpBl"
| "op_of FBx = OpBx"
| "op_of FBlxReg = OpBlxReg"
| "op_of FSwi = OpSwi"
| "op_of FMcr = OpMcr"
| "op_of FMrc = OpMrc"
| "op_of FUndefined = OpUnkArm"

lemma lookup_rows_0:
  "LOOKUP_ROWS_0 = map (map (\<lambda>f. (op_of f, f))) ARM_ROWS_0"
  "LOOKUP_ROWS_1 = map (map (\<lambda>f. (op_of f, f))) ARM_ROWS_1"
  "LOOKUP_ROWS_2 = map (map (\<lambda>f. (op_of f, f))) ARM_ROWS_2"
  "LOOKUP_ROWS_3 = map (map (\<lambda>f. (op_of f, f))) ARM_ROWS_3"
  "LOOKUP_ROWS_4 = map (map (\<lambda>f. (op_of f, f))) ARM_ROWS_4"
  "LOOKUP_ROWS_5 = map (map (\<lambda>f. (op_of f, f))) ARM_ROWS_5"
  "LOOKUP_ROWS_6 = map (map (\<lambda>f. (op_of f, f))) ARM_ROWS_6"
  "LOOKUP_ROWS_7 = map (map (\<lambda>f. (op_of f, f))) ARM_ROWS_7"
  by (simp_all add: LOOKUP_ROWS_0_def ARM_ROWS_0_def LOOKUP_ROWS_1_def ARM_ROWS_1_def LOOKUP_ROWS_2_def ARM_ROWS_2_def LOOKUP_ROWS_3_def ARM_ROWS_3_def LOOKUP_ROWS_4_def ARM_ROWS_4_def LOOKUP_ROWS_5_def ARM_ROWS_5_def LOOKUP_ROWS_6_def ARM_ROWS_6_def LOOKUP_ROWS_7_def ARM_ROWS_7_def)

lemma lookup_rows_1:
  "LOOKUP_ROWS_8 = map (map (\<lambda>f. (op_of f, f))) ARM_ROWS_8"
  "LOOKUP_ROWS_9 = map (map (\<lambda>f. (op_of f, f))) ARM_ROWS_9"
  "LOOKUP_ROWS_10 = map (map (\<lambda>f. (op_of f, f))) ARM_ROWS_10"
  "LOOKUP_ROWS_11 = map (map (\<lambda>f. (op_of f, f))) ARM_ROWS_11"
  "LOOKUP_ROWS_12 = map (map (\<lambda>f. (op_of f, f))) ARM_ROWS_12"
  "LOOKUP_ROWS_13 = map (map (\<lambda>f. (op_of f, f))) ARM_ROWS_13"
  "LOOKUP_ROWS_14 = map (map (\<lambda>f. (op_of f, f))) ARM_ROWS_14"
  "LOOKUP_ROWS_15 = map (map (\<lambda>f. (op_of f, f))) ARM_ROWS_15"
  by (simp_all add: LOOKUP_ROWS_8_def ARM_ROWS_8_def LOOKUP_ROWS_9_def ARM_ROWS_9_def LOOKUP_ROWS_10_def ARM_ROWS_10_def LOOKUP_ROWS_11_def ARM_ROWS_11_def LOOKUP_ROWS_12_def ARM_ROWS_12_def LOOKUP_ROWS_13_def ARM_ROWS_13_def LOOKUP_ROWS_14_def ARM_ROWS_14_def LOOKUP_ROWS_15_def ARM_ROWS_15_def)

lemma lookup_rows_2:
  "LOOKUP_ROWS_16 = map (map (\<lambda>f. (op_of f, f))) ARM_ROWS_16"
  "LOOKUP_ROWS_17 = map (map (\<lambda>f. (op_of f, f))) ARM_ROWS_17"
  "LOOKUP_ROWS_18 = map (map (\<lambda>f. (op_of f, f))) ARM_ROWS_18"
  "LOOKUP_ROWS_19 = map (map (\<lambda>f. (op_of f, f))) ARM_ROWS_19"
  "LOOKUP_ROWS_20 = map (map (\<lambda>f. (op_of f, f))) ARM_ROWS_20"
  "LOOKUP_ROWS_21 = map (map (\<lambda>f. (op_of f, f))) ARM_ROWS_21"
  "LOOKUP_ROWS_22 = map (map (\<lambda>f. (op_of f, f))) ARM_ROWS_22"
  "LOOKUP_ROWS_23 = map (map (\<lambda>f. (op_of f, f))) ARM_ROWS_23"
  by (simp_all add: LOOKUP_ROWS_16_def ARM_ROWS_16_def LOOKUP_ROWS_17_def ARM_ROWS_17_def LOOKUP_ROWS_18_def ARM_ROWS_18_def LOOKUP_ROWS_19_def ARM_ROWS_19_def LOOKUP_ROWS_20_def ARM_ROWS_20_def LOOKUP_ROWS_21_def ARM_ROWS_21_def LOOKUP_ROWS_22_def ARM_ROWS_22_def LOOKUP_ROWS_23_def ARM_ROWS_23_def)

lemma lookup_rows_3:
  "LOOKUP_ROWS_24 = map (map (\<lambda>f. (op_of f, f))) ARM_ROWS_24"
  "LOOKUP_ROWS_25 = map (map (\<lambda>f. (op_of f, f))) ARM_ROWS_25"
  "LOOKUP_ROWS_26 = map (map (\<lambda>f. (op_of f, f))) ARM_ROWS_26"
  "LOOKUP_ROWS_27 = map (map (\<lambda>f. (op_of f, f))) ARM_ROWS_27"
  "LOOKUP_ROWS_28 = map (map (\<lambda>f. (op_of f, f))) ARM_ROWS_28"
  "LOOKUP_ROWS_29 = map (map (\<lambda>f. (op_of f, f))) ARM_ROWS_29"
  "LOOKUP_ROWS_30 = map (map (\<lambda>f. (op_of f, f))) ARM_ROWS_30"
  "LOOKUP_ROWS_31 = map (map (\<lambda>f. (op_of f, f))) ARM_ROWS_31"
  by (simp_all add: LOOKUP_ROWS_24_def ARM_ROWS_24_def LOOKUP_ROWS_25_def ARM_ROWS_25_def LOOKUP_ROWS_26_def ARM_ROWS_26_def LOOKUP_ROWS_27_def ARM_ROWS_27_def LOOKUP_ROWS_28_def ARM_ROWS_28_def LOOKUP_ROWS_29_def ARM_ROWS_29_def LOOKUP_ROWS_30_def ARM_ROWS_30_def LOOKUP_ROWS_31_def ARM_ROWS_31_def)

lemma lookup_table_eq: "LOOKUP_TABLE = map (\<lambda>f. (op_of f, f)) ARM_TABLE"
  unfolding LOOKUP_TABLE_def LOOKUP_ROWS_def ARM_TABLE_def ARM_ROWS_def lookup_rows_0 lookup_rows_1 lookup_rows_2 lookup_rows_3
  by (simp only: map_append map_concat)

fun thumb_op_of :: "thumb_fn \<Rightarrow> inst_op" where
  "thumb_op_of TLslImm = OpAluT LslT"
| "thumb_op_of TLsrImm = OpAluT LsrT"
| "thumb_op_of TAsrImm = OpAluT AsrT"
| "thumb_op_of (TAddSub imm sub) = OpAluT (if sub then SubT else AddT)"
| "thumb_op_of TMovImm8 = OpAluT MovT"
| "thumb_op_of TCmpImm8 = OpAluT CmpT"
| "thumb_op_of TAddImm8 = OpAluT AddT"
| "thumb_op_of TSubImm8 = OpAluT SubT"
| "thumb_op_of TLslDp = OpAluT LslT"
| "thumb_op_of TLsrDp = OpAluT LsrT"
| "thumb_op_of TAsrDp = OpAluT AsrT"
| "thumb_op_of TAdcDp = OpAluT AdcT"
| "thumb_op_of TSbcDp = OpAluT SbcT"
| "thumb_op_of TRorDp = OpAluT RorT"
| "thumb_op_of TTstDp = OpAluT TstT"
| "thumb_op_of TNegDp = OpAluT NegT"
| "thumb_op_of TCmpDp = OpAluT CmpT"
| "thumb_op_of TCmnDp = OpAluT CmnT"
| "thumb_op_of TMulDp = OpAluT MulT"
| "thumb_op_of TAddH = OpAluT AddHT"
| "thumb_op_of TCmpH = OpAluT CmpHT"
| "thumb_op_of TMovH = OpAluT MovHT"
| "thumb_op_of TBxReg = OpBxRegT"
| "thumb_op_of TBlxReg = OpBlxRegT"
| "thumb_op_of TLdrPc = OpLdrT (st_new True False True False 2)"
| "thumb_op_of TStrReg = OpStrT (st_new True False True False 2)"
| "thumb_op_of TStrhReg = OpStrT (st_new True False True False 1)"
| "thumb_op_of TStrbReg = OpStrT (st_new True False True False 0)"
| "thumb_op_of TLdrsbReg = OpLdrT (st_new True False True True 0)"
| "thumb_op_of TLdrReg = OpLdrT (st_new True False True False 2)"
| "thumb_op_of TLdrhReg = OpLdrT (st_new True False True False 1)"
| "thumb_op_of TLdrbReg = OpLdrT (st_new True False True False 0)"
| "thumb_op_of TLdrshReg = OpLdrT (st_new True False True True 1)"
| "thumb_op_of TStrImm5 = OpStrT (st_new True False True False 2)"
| "thumb_op_of TLdrImm5 = OpLdrT (st_new True False True False 2)"
| "thumb_op_of TStrbImm5 = OpStrT (st_new True False True False 0)"
| "thumb_op_of TLdrbImm5 = OpLdrT (st_new True False True False 0)"
| "thumb_op_of TStrhImm5 = OpStrT (st_new True False True False 1)"
| "thumb_op_of TLdrhImm5 = OpLdrT (st_new True False True False 1)"
| "thumb_op_of TStrSp = OpStrT (st_new True False True False 2)"
| "thumb_op_of TLdrSp = OpLdrT (st_new True False True False 2)"
| "thumb_op_of TAddPc = OpAluT AddPcT"
| "thumb_op_of TAddSp = OpAluT AddSpT"
| "thumb_op_of TAddSpImm = OpAluT AddSpImmT"
| "thumb_op_of TUndefined = OpUnkThumb"
| "thumb_op_of TPush = OpStmT (mt_new True True False False)"
| "thumb_op_of TPushLr = OpStmT (mt_new True True False False)"
| "thumb_op_of TPop = OpLdmT (mt_new False True True False)"
| "thumb_op_of TPopPc = OpLdmT (mt_new False True True False)"
| "thumb_op_of TStmia = OpStmT (mt_new False True True False)"
| "thumb_op_of TLdmia = OpLdmT (mt_new False True True False)"
| "thumb_op_of (TBcond p) = OpBcondT p"
| "thumb_op_of TSwi = OpSwiT"
| "thumb_op_of TB = OpBT"
| "thumb_op_of TBlxOff = OpBlxOffT"
| "thumb_op_of TBlSetup = OpBlSetupT"
| "thumb_op_of TBlOff = OpBlOffT"
| "thumb_op_of (TDp And) = OpAluT AndT"
| "thumb_op_of (TDp Eor) = OpAluT EorT"
| "thumb_op_of (TDp Orr) = OpAluT OrrT"
| "thumb_op_of (TDp Bic) = OpAluT BicT"
| "thumb_op_of (TDp Mvn) = OpAluT MvnT"
| "thumb_op_of (TDp Mov) = OpAluT MovT"

lemma lookup_thumb_eq: "LOOKUP_THUMB = map (\<lambda>f. (thumb_op_of f, f)) THUMB_TABLE"
proof -
  have "LOOKUP_THUMB_0 @ LOOKUP_THUMB_1 @ LOOKUP_THUMB_2 @ LOOKUP_THUMB_3 @ LOOKUP_THUMB_4 @ LOOKUP_THUMB_5 @ LOOKUP_THUMB_6
      @ LOOKUP_THUMB_7 = map (\<lambda>(n, f). (n, (thumb_op_of f, f))) THUMB_RUNS"
    by (simp add: LOOKUP_THUMB_0_def LOOKUP_THUMB_1_def LOOKUP_THUMB_2_def LOOKUP_THUMB_3_def LOOKUP_THUMB_4_def
      LOOKUP_THUMB_5_def LOOKUP_THUMB_6_def LOOKUP_THUMB_7_def THUMB_RUNS_def)
  then show ?thesis
    unfolding LOOKUP_THUMB_def THUMB_TABLE_def by (simp add: map_concat comp_def case_prod_beta)
qed

lemma test_bit: "(t AND push_bit k 1 \<noteq> 0) = bit t k" for t :: "'a::len word"
  using bit_iff_and_push_bit_not_eq_0 [of t k] by simp

lemma test_bit_0: "(t AND 1 \<noteq> 0) = bit t 0" for t :: "'a::len word"
  by (simp add: and_one_of_bool)

lemmas flag_defs = t_pre_def t_write_back_def t_add_def st_signed_def mt_user_def test_bit test_bit_0 bit_or_iff bit_push_of_bool
  bit_push_bit_iff bit_of_bool_word

lemma transfer_flags:
  "t_pre (st_new p w u sg sz) = p" "t_write_back (st_new p w u sg sz) = w" "t_add (st_new p w u sg sz) = u"
  "st_signed (st_new p w u sg sz) = sg"
  by (simp_all only: flag_defs st_new_def) simp_all

lemma multiple_flags:
  "t_pre (mt_new p w u usr) = p" "t_write_back (mt_new p w u usr) = w" "t_add (mt_new p w u usr) = u"
  "mt_user (mt_new p w u usr) = usr"
  by (simp_all only: flag_defs mt_new_def) simp_all

lemma transfer_size: "st_size (st_new p w u sg sz) = sz" if "sz < 16"
proof (rule bit_word_eqI)
  fix n
  assume n: "n < LENGTH(8)"
  have "\<not> bit sz n" if "4 \<le> n"
  proof -
    have "unat sz < 2 ^ 4" using \<open>sz < 16\<close> by (simp add: word_less_nat_alt)
    then have "unat sz < 2 ^ n" using power_increasing [OF that, of "2 :: nat"] by simp
    then have "\<not> bit (unat sz) n" by (simp add: bit_iff_odd)
    then show ?thesis by (simp add: bit_unsigned_iff)
  qed
  then have "bit sz n \<longrightarrow> n < 4" by (meson leI)
  then show "bit (st_size (st_new p w u sg sz)) n = bit sz n"
    using n by (simp only: st_size_def st_new_def bit_drop_bit_eq bit_or_iff bit_push_of_bool bit_push_bit_iff comp_def
        bit_of_bool_word) auto
qed

text \<open>
  C15: the compiler's disassembler and the interpreter read every instruction the same way. For every ARM
  and every Thumb opcode the entry of the disassembler's table names the very handler the interpreter's
  table has there, and the operation code beside it is the one that describes this handler, with the
  addressing mode, the direction, the sign extension and the width packed into its transfer byte, from
  which the accessors return them.
\<close>
theorem decode_tables_agree:
  "lookup_opcode opcode = (let f = ARM_TABLE ! arm_index opcode in (op_of f, f))
   \<and> lookup_thumb_opcode op16 = (let f = THUMB_TABLE ! unat (drop_bit 6 op16) in (thumb_op_of f, f))
   \<and> (let t = st_new p w u sg (ucast sz :: u8)
      in t_pre t = p \<and> t_write_back t = w \<and> t_add t = u \<and> st_signed t = sg \<and> st_size t = ucast (sz :: 4 word))"
proof -
  have "unat sz < 16" using unsigned_less [of sz] by simp
  then have "take_bit 8 (unat sz) = unat sz" by (simp add: take_bit_nat_eq_self)
  then have "(ucast sz :: u8) < 16"
    using \<open>unat sz < 16\<close> by (simp add: word_less_nat_alt unsigned_ucast_eq)
  then show ?thesis
    using arm_index_less [of opcode] thumb_index_less [of op16]
    by (simp add: Let_def lookup_opcode_def lookup_table_eq arm_index_def lookup_thumb_opcode_def lookup_thumb_eq
        thumb_index_mask thumb_table_length transfer_flags transfer_size)
qed

end
