(* ===== verification/AnalyzerLaws.thy ===== *)
theory AnalyzerLaws
  imports Analyzer DecodeLaws
begin

text \<open>
  Laws of the compiler's front end (\<open>Analyzer\<close>): the basic blocks partition the instructions at exactly
  their leaders, and the live sets are exact along every block; the front end returns on all ARM code.
\<close>

section \<open>Basic blocks\<close>

definition block_range :: "basic_block \<Rightarrow> nat list" where
  "block_range b = [start_index b..<Suc (end_index b)]"

text \<open>The state of the second loop before instruction \<open>k\<close>: the blocks so far cover everything before the
  current start, and no leader lies strictly between the start and \<open>k\<close>.\<close>

definition leader :: "inst_metadata list \<Rightarrow> inst_info list \<Rightarrow> nat \<Rightarrow> bool" where
  "leader md insts i = (i = 0 \<or> local_branch_entry (md ! i) \<or> label_branch (insts ! (i - 1)))"

definition split_ok :: "(nat \<Rightarrow> nat \<Rightarrow> basic_block) \<Rightarrow> inst_metadata list \<Rightarrow> inst_info list \<Rightarrow> nat \<Rightarrow> nat \<times> basic_block list \<Rightarrow> bool" where
  "split_ok mk md insts k st =
     (case st of (start, bs) \<Rightarrow>
        start \<le> k \<and> concat (map block_range bs) = [0..<start]
        \<and> (\<forall>b \<in> set bs. \<exists>a c. b = mk a c \<and> a \<le> c)
        \<and> (\<forall>i < start. i \<in> start_index ` set bs \<longleftrightarrow> leader md insts i)
        \<and> (start < k \<longrightarrow> leader md insts start) \<and> (start = k \<and> 0 < k \<longrightarrow> label_branch (insts ! (k - 1)))
        \<and> (\<forall>i. start < i \<and> i \<le> k \<longrightarrow> \<not> label_branch (insts ! (i - 1)))
        \<and> (\<forall>i. start < i \<and> i < k \<longrightarrow> \<not> local_branch_entry (md ! i)))"

lemma close_range:
  assumes "start < k"
    and mk: "\<And>a b. start_index (mk a b) = a" "\<And>a b. end_index (mk a b) = b"
    and c: "concat (map block_range bs) = [0..<start]" and ok: "\<forall>b \<in> set bs. \<exists>a c. b = mk a c \<and> a \<le> c"
    and st: "\<forall>i < start. i \<in> start_index ` set bs \<longleftrightarrow> leader md insts i" and l: "leader md insts start"
    and nl: "\<And>i. start < i \<Longrightarrow> i < k \<Longrightarrow> \<not> leader md insts i"
  shows "concat (map block_range (bs @ [mk start (k - 1)])) = [0..<k]
    \<and> (\<forall>b \<in> set (bs @ [mk start (k - 1)]). \<exists>a c. b = mk a c \<and> a \<le> c)
    \<and> (\<forall>i < k. i \<in> start_index ` set (bs @ [mk start (k - 1)]) \<longleftrightarrow> leader md insts i)"
proof (intro conjI)
  have "[0..<start] @ [start..<k] = [0..<k]" using upt_add_eq_append [of 0 start "k - start"] assms(1) by simp
  then show "concat (map block_range (bs @ [mk start (k - 1)])) = [0..<k]"
    using c assms(1) by (simp add: block_range_def mk)
  have lt: "start_index b < start" if "b \<in> set bs" for b
  proof -
    have "start_index b \<in> set (block_range b)" using ok that by (force simp: block_range_def mk)
    then have "start_index b \<in> set (concat (map block_range bs))" using that by auto
    then show ?thesis by (simp add: c)
  qed
  show "\<forall>i < k. i \<in> start_index ` set (bs @ [mk start (k - 1)]) \<longleftrightarrow> leader md insts i"
  proof (intro allI impI)
    fix i assume i: "i < k"
    consider "i < start" | "i = start" | "start < i" by linarith
    then show "i \<in> start_index ` set (bs @ [mk start (k - 1)]) \<longleftrightarrow> leader md insts i"
    proof cases
      case 3
      then show ?thesis using nl [OF 3 i] by (auto simp: mk dest!: lt)
    qed (use st l in \<open>auto simp: mk\<close>)
  qed
  have "start \<le> k - 1" using assms(1) by simp
  then show "\<forall>b \<in> set (bs @ [mk start (k - 1)]). \<exists>a c. b = mk a c \<and> a \<le> c" using ok by auto
qed

lemma block_step_ok:
  assumes "split_ok mk md insts k st"
    and mk: "\<And>a b. start_index (mk a b) = a" "\<And>a b. end_index (mk a b) = b"
  shows "split_ok mk md insts (Suc k) (block_step mk md insts k st)"
proof -
  obtain start bs where st: "st = (start, bs)" by (cases st)
  note ok = assms(1) [unfolded st split_ok_def prod.case]
  define a where "a = (if local_branch_entry (md ! k) then k else start)"
  define cs where "cs = (if local_branch_entry (md ! k) \<and> start < k then bs @ [mk start (k - 1)] else bs)"
  have step: "block_step mk md insts k st = (if label_branch (insts ! k) then (k + 1, cs @ [mk a k]) else (a, cs))"
    by (auto simp: block_step_def st a_def cs_def Let_def)
  have nl: "\<not> leader md insts i" if "start < i" "i < k" for i using ok that by (simp add: leader_def)
  have ls: "leader md insts start" using ok by (cases "start = k") (auto simp: leader_def)
  have ak: "a \<le> k" using ok by (simp add: a_def)
  have la: "leader md insts a" using ls by (simp add: a_def leader_def)
  have range: "concat (map block_range cs) = [0..<a] \<and> (\<forall>b \<in> set cs. \<exists>a c. b = mk a c \<and> a \<le> c)
      \<and> (\<forall>i < a. i \<in> start_index ` set cs \<longleftrightarrow> leader md insts i)"
  proof (cases "local_branch_entry (md ! k) \<and> start < k")
    case True
    then show ?thesis using close_range [of start k mk bs md insts, OF _ mk _ _ _ ls nl] ok by (simp add: a_def cs_def)
  next
    case False
    then have "a = start" using ok by (auto simp: a_def)
    moreover have "cs = bs" unfolding cs_def using False by (rule if_not_P)
    ultimately show ?thesis using ok by simp
  qed
  have lb: "\<not> label_branch (insts ! (i - 1))" if "a < i" "i \<le> k" for i
    using ok that by (auto simp: a_def split: if_splits)
  have en: "\<not> local_branch_entry (md ! i)" if "a < i" "i \<le> k" for i
    using ok that by (cases "i = k") (auto simp: a_def split: if_splits)
  show ?thesis
  proof (cases "label_branch (insts ! k)")
    case True
    have "concat (map block_range (cs @ [mk a (Suc k - 1)])) = [0..<Suc k]
        \<and> (\<forall>b \<in> set (cs @ [mk a (Suc k - 1)]). \<exists>a c. b = mk a c \<and> a \<le> c)
        \<and> (\<forall>i < Suc k. i \<in> start_index ` set (cs @ [mk a (Suc k - 1)]) \<longleftrightarrow> leader md insts i)"
      by (rule close_range) (use mk range la lb en ak in \<open>auto simp: leader_def\<close>)
    then show ?thesis using True unfolding step split_ok_def by (auto simp del: upt_Suc)
  next
    case False
    then show ?thesis using range la lb en ak unfolding step split_ok_def
      by (auto simp: le_Suc_eq less_Suc_eq_le)
  qed
qed

section \<open>Register sets as sets\<close>

definition set_of :: "reg_reserve \<Rightarrow> nat set" where
  "set_of w = {r. bit w r}"

lemma is_reserved_bit: "is_reserved w r = bit w r"
  by (simp add: is_reserved_def and_one_of_bool bit_drop_bit_eq)

lemma bit_reserve: "bit (reserve rs) r = (r \<in> set rs \<and> r < 32)"
proof -
  have "bit (fold (\<lambda>r w. w OR push_bit r 1) rs w) r = (bit w r \<or> r \<in> set rs \<and> r < 32)" for w :: u32
  proof (induction rs arbitrary: w)
    case (Cons a rs)
    have "bit (w OR push_bit a 1) r = (bit w r \<or> r = a \<and> r < 32)" unfolding bit_or_iff bit_push_one by auto
    then show ?case unfolding fold_simps Cons.IH list.set(2) insert_iff by blast
  qed simp
  then show ?thesis unfolding reserve_def by simp
qed

lemma set_of_add [simp]: "set_of (rr_add a b) = set_of a \<union> set_of b"
  unfolding set_of_def rr_add_def bit_or_iff by blast

lemma set_of_and [simp]: "set_of (rr_and a b) = set_of a \<inter> set_of b"
  unfolding set_of_def rr_and_def bit_and_iff by blast

lemma set_of_0 [simp]: "set_of 0 = {}"
  by (simp add: set_of_def)

lemma set_of_sub [simp]: "set_of (rr_sub a b) = set_of a - set_of b"
proof -
  have "bit (rr_sub a b) r = (bit a r \<and> \<not> bit b r)" for r
    unfolding rr_sub_def bit_and_iff bit_not_iff possible_bit_word using bit_imp_le_length [of a r] by blast
  then show ?thesis unfolding set_of_def by blast
qed

lemma set_of_reserve [simp]: "set_of (reserve rs) = set rs \<inter> {..<32}"
  unfolding set_of_def bit_reserve by blast

lemma empty_set_of [simp]: "rr_is_empty w = (set_of w = {})"
proof
  assume "set_of w = {}"
  then have "w = 0" by (intro bit_word_eqI) (auto simp: set_of_def)
  then show "rr_is_empty w" by (simp add: rr_is_empty_def)
qed (simp add: rr_is_empty_def)

section \<open>Branch targets\<close>

lemma sint_small: "sint (word_of_int k :: u32) = k" if "- (2 ^ 31) \<le> k" "k < 2 ^ 31"
  using that by (simp add: signed_of_int signed_take_bit_int_eq_self)

lemma inst_pc_diff: "inst_pc thumb p t - inst_pc thumb p i = word_of_int ((int t - int i) * 2 ^ pc_shift thumb)"
  by (simp add: inst_pc_def push_bit_eq_mult left_diff_distrib)

lemma relative_index:
  assumes "i < 2 ^ 24" "t < 2 ^ 24"
  shows "of_nat i + signed_drop_bit (pc_shift thumb) (inst_pc thumb p t - inst_pc thumb p i) = (of_nat t :: u32)"
proof -
  let ?w = "inst_pc thumb p t - inst_pc thumb p i" and ?k = "pc_shift thumb"
  have "sint ?w = (int t - int i) * 2 ^ ?k"
    unfolding inst_pc_diff by (rule sint_small) (use assms in \<open>simp_all add: pc_shift_def\<close>)
  then have "sint (signed_drop_bit ?k ?w) = int t - int i"
    by (simp add: sint_signed_drop_bit_eq drop_bit_eq_div)
  moreover have "sint (word_of_int (int t - int i) :: u32) = int t - int i" by (rule sint_small) (use assms in simp_all)
  ultimately have "sint (signed_drop_bit ?k ?w) = sint (word_of_int (int t - int i) :: u32)" by simp
  then have "signed_drop_bit ?k ?w = word_of_int (int t - int i)" by (rule signed_word_eqI)
  then show ?thesis by simp
qed

lemma backward_diff:
  fixes p thumb
  assumes "i < 2 ^ 24" "t < 2 ^ 24"
  defines "diff \<equiv> unat (drop_bit (pc_shift thumb) (inst_pc thumb p i - inst_pc thumb p t))"
  shows "t \<le> i \<Longrightarrow> diff = i - t" "i < t \<Longrightarrow> i < diff"
proof -
  let ?k = "pc_shift thumb" and ?d = "(int i - int t) * 2 ^ pc_shift thumb"
  have k: "?k = 1 \<or> ?k = 2" by (simp add: pc_shift_def)
  have "int diff = ?d mod 2 ^ 32 div 2 ^ ?k"
    unfolding diff_def inst_pc_diff unat_drop_bit_eq
    by (simp only: drop_bit_eq_div [where 'a = nat] zdiv_int of_nat_power of_nat_numeral of_nat_unat
        uint_word_of_int_eq take_bit_eq_mod) simp
  moreover have "?d mod 2 ^ 32 = ?d" if "t \<le> i" using that assms(1,2) k by auto
  moreover have "?d mod 2 ^ 32 = ?d + 2 ^ 32" if "i < t"
  proof -
    have "(?d + 2 ^ 32) mod 2 ^ 32 = ?d + 2 ^ 32" using that assms(1,2) k by (intro mod_pos_pos_trivial) auto
    then show ?thesis by simp
  qed
  ultimately show "t \<le> i \<Longrightarrow> diff = i - t" "i < t \<Longrightarrow> i < diff" using assms(1,2) k by auto
qed

lemma analyze_target:
  assumes "i < length insts" "t < length insts" "length insts \<le> 2 ^ 24"
  shows "analyze_branch_label insts thumb i cond (inst_pc thumb p i) (inst_pc thumb p t) \<in> {Idle t, Local t}"
proof -
  have b: "i < 2 ^ 24" "t < 2 ^ 24" using assms by simp_all
  have u: "unat (of_nat t :: u32) = t" using b by (intro unat_of_nat_u32) simp
  have "sint (word_of_int (int t) :: u32) = int t" by (rule sint_small) (use b in simp_all)
  then have s: "0 \<le> sint (of_nat t :: u32)" by simp
  have d: "i - unat (drop_bit (pc_shift thumb) (inst_pc thumb p i - inst_pc thumb p t)) = t"
    if "unat (drop_bit (pc_shift thumb) (inst_pc thumb p i - inst_pc thumb p t)) \<le> i"
    using backward_diff [OF b, where p = p and thumb = thumb] that by (cases "t \<le> i") auto
  show ?thesis
    unfolding analyze_branch_label_def Let_def relative_index [OF b] u using s d assms(2) by auto
qed

text \<open>What the first loop has recorded about the branch at \<open>i\<close>.\<close>

definition branch_marked :: "jit_branch_info \<Rightarrow> nat \<Rightarrow> inst_metadata list \<Rightarrow> bool" where
  "branch_marked b i md =
     (case b of Idle t \<Rightarrow> idle_loop (md ! i) \<and> local_branch_entry (md ! t) | Local t \<Rightarrow> local_branch_entry (md ! t)
      | NotLocal \<Rightarrow> external_branch (md ! i))"

fun in_block :: "nat \<Rightarrow> jit_branch_info \<Rightarrow> bool" where
  "in_block n (Idle t) = (t < n)"
| "in_block n (Local t) = (t < n)"
| "in_block n NotLocal = True"

lemma analyze_in_block: "i < length insts \<Longrightarrow> in_block (length insts) (analyze_branch_label insts thumb i cond pc target)"
  by (auto simp: analyze_branch_label_def Let_def)

lemma mark_branch_marks:
  assumes "i < length md" "in_block (length md) b"
  shows "length (mark_branch b i md) = length md" "branch_marked b i (mark_branch b i md)"
    "in_block (length md) c \<Longrightarrow> branch_marked c j md \<Longrightarrow> j < length md \<Longrightarrow> branch_marked c j (mark_branch b i md)"
  using assms by (auto simp: mark_branch_def branch_marked_def Let_def nth_list_update split: jit_branch_info.splits)

abbreviation mark_all :: "bool \<Rightarrow> u32 \<Rightarrow> inst_info list \<Rightarrow> nat \<Rightarrow> (inst_metadata list \<times> u32 list) option" where
  "mark_all thumb p insts k \<equiv> fold (\<lambda>i st. Option.bind st (mark_inst thumb p insts i)) [0..<k]
     (Some (replicate (length insts) metadata_default, []))"

lemma mark_all_marks:
  assumes "mark_all thumb p insts k = Some (md, stores)" "k \<le> length insts"
  shows "length md = length insts \<and> (\<forall>i < k. label_branch (insts ! i) \<longrightarrow>
    (\<exists>target. branch_target thumb (inst_pc thumb p i) (insts ! i) = Some target
       \<and> branch_marked (analyze_branch_label insts thumb i (ii_cond (insts ! i)) (inst_pc thumb p i) target) i md))"
  using assms
proof (induction k arbitrary: md stores)
  case (Suc k)
  obtain md0 stores0 where before: "mark_all thumb p insts k = Some (md0, stores0)"
    and step: "mark_inst thumb p insts k (md0, stores0) = Some (md, stores)"
    using Suc.prems(1) by (cases "mark_all thumb p insts k") auto
  note IH = Suc.IH [OF before]
  show ?case
  proof (cases "label_branch (insts ! k)")
    case False
    then have "md = md0" using step by (auto simp: mark_inst_def Let_def split: bind_splits)
    then show ?thesis using IH False Suc.prems(2) by (auto simp: less_Suc_eq)
  next
    case True
    obtain target where t: "branch_target thumb (inst_pc thumb p k) (insts ! k) = Some target"
      and md: "md = mark_branch (analyze_branch_label insts thumb k (ii_cond (insts ! k)) (inst_pc thumb p k) target) k md0"
      using step True by (auto simp: mark_inst_def Let_def split: bind_splits)
    have l: "length md0 = length insts" "k < length insts" using IH Suc.prems(2) by auto
    have b: "in_block (length md0) (analyze_branch_label insts thumb i cond pc target)" if "i < length insts" for i cond pc target
      using analyze_in_block [OF that] l by simp
    show ?thesis
      using IH Suc.prems(2) t mark_branch_marks(1,2) [OF _ b] mark_branch_marks(3) [OF _ b b] l
      unfolding md by (auto simp: less_Suc_eq)
  qed
qed simp

lemma resolve_range [simp]:
  "start_index (resolve_live_regs insts b) = start_index b" "end_index (resolve_live_regs insts b) = end_index b"
  "bb_start_pc (resolve_live_regs insts b) = bb_start_pc b" "block_range (resolve_live_regs insts b) = block_range b"
  by (simp_all add: resolve_live_regs_def Let_def block_range_def)

lemma split_all:
  fixes mk md insts n
  assumes mk: "\<And>a b. start_index (mk a b) = a" "\<And>a b. end_index (mk a b) = b"
  defines "bs \<equiv> close_block mk n (fold (block_step mk md insts) [0..<n] (0, []))"
  shows "concat (map block_range bs) = [0..<n] \<and> (\<forall>b \<in> set bs. \<exists>a c. b = mk a c \<and> a \<le> c)
    \<and> (\<forall>i < n. i \<in> start_index ` set bs \<longleftrightarrow> leader md insts i)"
proof -
  have "split_ok mk md insts k (fold (block_step mk md insts) [0..<k] (0, []))" for k
    by (induction k) (simp_all add: block_step_ok mk, simp add: split_ok_def)
  then obtain start cs where st: "fold (block_step mk md insts) [0..<n] (0, []) = (start, cs)"
    and ok: "split_ok mk md insts n (start, cs)" by (metis surj_pair)
  show ?thesis
  proof (cases "start < n")
    case True
    then have "bs = cs @ [mk start (n - 1)]" by (simp add: bs_def close_block_def st)
    moreover have "\<not> leader md insts i" if "start < i" "i < n" for i
      using ok that by (simp add: split_ok_def leader_def)
    ultimately show ?thesis
      using close_range [of start n mk cs md insts] True mk ok by (simp add: split_ok_def)
  next
    case False
    then have "start = n" "bs = cs" using ok by (simp_all add: split_ok_def bs_def close_block_def st)
    then show ?thesis using ok by (simp add: split_ok_def)
  qed
qed

lemma find_block:
  assumes "i \<in> set (concat (map block_range bs))"
  shows "\<exists>k. find (\<lambda>(k, b). start_index b \<le> i \<and> i \<le> end_index b) (enumerate m bs) = Some (m + k, bs ! k)
     \<and> k < length bs \<and> i \<in> set (block_range (bs ! k))"
  using assms
proof (induction bs arbitrary: m)
  case (Cons b bs)
  show ?case
  proof (cases "start_index b \<le> i \<and> i \<le> end_index b")
    case True
    then show ?thesis by (intro exI [of _ 0]) (auto simp: block_range_def)
  next
    case False
    then have "i \<in> set (concat (map block_range bs))" using Cons.prems by (auto simp: block_range_def)
    from Cons.IH [OF this, of "Suc m"] obtain k where
      "find (\<lambda>(k, b). start_index b \<le> i \<and> i \<le> end_index b) (enumerate (Suc m) bs) = Some (Suc m + k, bs ! k)"
      "k < length bs" "i \<in> set (block_range (bs ! k))" by blast
    then show ?thesis using False by (intro exI [of _ "Suc k"]) simp
  qed
qed simp

text \<open>The blocks of an analysis, and what the first loop recorded.\<close>

lemma analyze_blocks:
  assumes "analyze p insts thumb = Some az"
  defines "n \<equiv> length insts"
  obtains md stores cs where "mark_all thumb p insts n = Some (md, stores)" "insts_metadata az = md"
    "basic_blocks az = map (resolve_live_regs insts) cs" "concat (map block_range cs) = [0..<n]"
    "\<forall>b \<in> set cs. \<exists>a c. b = basic_block_new (inst_pc thumb p a) a c \<and> a \<le> c"
    "\<forall>i < n. i \<in> start_index ` set cs \<longleftrightarrow> leader md insts i"
proof -
  let ?mk = "\<lambda>a b. basic_block_new (inst_pc thumb p a) a b"
  obtain md stores where m: "mark_all thumb p insts n = Some (md, stores)"
    and az: "insts_metadata az = md"
      "basic_blocks az = map (resolve_live_regs insts) (close_block ?mk n (fold (block_step ?mk md insts) [0..<n] (0, [])))"
    using assms(1) by (auto simp: analyze_def Let_def n_def split: bind_splits)
  have "concat (map block_range (close_block ?mk n (fold (block_step ?mk md insts) [0..<n] (0, [])))) = [0..<n]
      \<and> (\<forall>b \<in> set (close_block ?mk n (fold (block_step ?mk md insts) [0..<n] (0, []))). \<exists>a c. b = ?mk a c \<and> a \<le> c)
      \<and> (\<forall>i < n. i \<in> start_index ` set (close_block ?mk n (fold (block_step ?mk md insts) [0..<n] (0, []))) \<longleftrightarrow> leader md insts i)"
    by (rule split_all) (simp_all add: basic_block_new_def)
  then show thesis using that [OF m az] by blast
qed

text \<open>
  C28: the basic blocks of the analysis are exactly the basic blocks of the decoded code. They cover the
  instructions in order without gap or overlap; a block starts at instruction 0, at each instruction
  marked as a branch entry and behind each label branch, and nowhere else, so control can enter a block
  only at its first instruction and leave by a branch only at its last; every label branch whose target
  address is an instruction of the decoded code (at any of the addresses the 32-bit program counter
  can have, wrap-around included) leads to the start of a block; and the emitter's lookup finds the block
  of every instruction.
\<close>
theorem basic_blocks_exact:
  assumes "analyze p insts thumb = Some az" "length insts \<le> 2 ^ 24"
  defines "n \<equiv> length insts" and "bs \<equiv> basic_blocks az"
  shows "concat (map block_range bs) = [0..<n]
    \<and> (\<forall>b \<in> set bs. start_index b \<le> end_index b \<and> bb_start_pc b = inst_pc thumb p (start_index b))
    \<and> (\<forall>i < n. i \<in> start_index ` set bs \<longleftrightarrow> leader (insts_metadata az) insts i)
    \<and> (\<forall>i < n. \<forall>t < n. label_branch (insts ! i)
          \<and> branch_target thumb (inst_pc thumb p i) (insts ! i) = Some (inst_pc thumb p t) \<longrightarrow> t \<in> start_index ` set bs)
    \<and> (\<forall>i < n. \<exists>k. get_basic_block_from_inst az i = Some k \<and> k < length bs \<and> i \<in> set (block_range (bs ! k)))"
proof -
  obtain md stores cs where m: "mark_all thumb p insts n = Some (md, stores)" and az: "insts_metadata az = md"
    and bs: "bs = map (resolve_live_regs insts) cs" and cs: "concat (map block_range cs) = [0..<n]"
      "\<forall>b \<in> set cs. \<exists>a c. b = basic_block_new (inst_pc thumb p a) a c \<and> a \<le> c"
      "\<forall>i < n. i \<in> start_index ` set cs \<longleftrightarrow> leader md insts i"
    using analyze_blocks [OF assms(1)] unfolding n_def bs_def by blast
  have r: "map block_range bs = map block_range cs" "start_index ` set bs = start_index ` set cs"
    by (simp_all add: bs image_image)
  have c: "concat (map block_range bs) = [0..<n]" using cs r by simp
  have lead: "i \<in> start_index ` set bs \<longleftrightarrow> leader (insts_metadata az) insts i" if "i < n" for i
    using cs(3) that unfolding r az by blast
  have "t \<in> start_index ` set bs"
    if "i < n" "t < n" "label_branch (insts ! i)"
      "branch_target thumb (inst_pc thumb p i) (insts ! i) = Some (inst_pc thumb p t)" for i t
  proof -
    have "branch_marked (analyze_branch_label insts thumb i (ii_cond (insts ! i)) (inst_pc thumb p i) (inst_pc thumb p t)) i md"
      using mark_all_marks [OF m [unfolded n_def]] that by (auto simp: n_def)
    then have "local_branch_entry (md ! t)"
      using analyze_target [of i insts t thumb "ii_cond (insts ! i)" p, OF _ _ assms(2)] that(1,2)
      by (auto simp: branch_marked_def n_def)
    then show ?thesis using lead [OF that(2)] az by (simp add: leader_def)
  qed
  moreover have "\<exists>k. get_basic_block_from_inst az i = Some k \<and> k < length bs \<and> i \<in> set (block_range (bs ! k))" if "i < n" for i
    using find_block [of i bs 0] c that by (fastforce simp: get_basic_block_from_inst_def bs_def)
  moreover have "start_index b \<le> end_index b \<and> bb_start_pc b = inst_pc thumb p (start_index b)" if b: "b \<in> set bs" for b
  proof -
    obtain x where x: "x \<in> set cs" "b = resolve_live_regs insts x" using b bs by auto
    then obtain a c where "x = basic_block_new (inst_pc thumb p a) a c" "a \<le> c" using cs(2) by blast
    then show ?thesis using x(2) by (simp add: basic_block_new_def)
  qed
  ultimately show ?thesis using c lead by blast
qed

theorem basic_blocks_exact_witness:
  "\<exists>az. analyze 0x8000 (map decode_thumb_opcode [0x2005, 0x3801, 0xD1FD, 0x4770]) True = Some az
     \<and> concat (map block_range (basic_blocks az)) = [0..<4] \<and> 1 \<in> start_index ` set (basic_blocks az)"
proof -
  define insts where "insts = map decode_thumb_opcode [0x2005, 0x3801, 0xD1FD, 0x4770]"
  have n: "length insts = 4" by (simp add: insts_def)
  have "analyze 0x8000 insts True \<noteq> None" unfolding insts_def by code_simp
  then obtain az where az: "analyze 0x8000 insts True = Some az" by auto
  have branch: "label_branch (insts ! 2) \<and> branch_target True (inst_pc True 0x8000 2) (insts ! 2) = Some (inst_pc True 0x8000 1)"
    unfolding insts_def by code_simp
  have "length insts \<le> 2 ^ 24" by (simp add: n)
  note ok = basic_blocks_exact [OF az this, unfolded n]
  have "1 \<in> start_index ` set (basic_blocks az)" 
    by (rule ok [THEN conjunct2, THEN conjunct2, THEN conjunct2, THEN conjunct1, rule_format, OF _ _ branch]) simp_all
  then show ?thesis using az ok unfolding insts_def by blast
qed

section \<open>Live registers\<close>

text \<open>An instruction needs its sources, and its outputs too if it may not execute; it overwrites its outputs
  if it surely executes.\<close>

definition needs_reg :: "inst_info \<Rightarrow> nat \<Rightarrow> bool" where
  "needs_reg i r = (is_reserved (src_regs i) r \<or> ii_cond i \<noteq> 14 \<and> is_reserved (out_regs i) r)"

definition overwrites :: "inst_info \<Rightarrow> nat \<Rightarrow> bool" where
  "overwrites i r = (ii_cond i = 14 \<and> is_reserved (out_regs i) r)"

lemma is_reserved_set: "is_reserved w r = (r \<in> set_of w)"
  by (simp add: is_reserved_bit set_of_def)

lemma live_back_length: "length (live_back is) = Suc (length is)"
  by (induction "is") (simp_all add: Let_def)

lemma live_back_step:
  "is_reserved (live_back (i # is) ! 0) r = (needs_reg i r \<or> \<not> overwrites i r \<and> is_reserved (live_back is ! 0) r)"
  by (cases "live_back is")
    (auto simp: Let_def needs_reg_def overwrites_def is_reserved_set live_back_length [of "is"] dest: arg_cong [of _ _ length])

lemma ex_shift: "(\<exists>j. Suc l \<le> j \<and> P j) = (\<exists>j. l \<le> j \<and> P (Suc j))"
  by (metis Suc_le_D Suc_le_mono)

lemma all_shift: "(\<forall>m. Suc l \<le> m \<and> m < Suc j \<longrightarrow> P m) = (\<forall>m. l \<le> m \<and> m < j \<longrightarrow> P (Suc m))"
  by (metis Suc_le_D Suc_le_mono Suc_less_eq)

lemma live_back_exact:
  assumes "k \<le> length is"
  shows "is_reserved (live_back is ! k) r \<longleftrightarrow>
    (\<exists>j. k \<le> j \<and> j < length is \<and> needs_reg (is ! j) r \<and> (\<forall>m. k \<le> m \<and> m < j \<longrightarrow> \<not> overwrites (is ! m) r))"
  using assms
proof (induction "is" arbitrary: k)
  case Nil
  then show ?case by (simp add: is_reserved_set)
next
  case (Cons i "is")
  show ?case
  proof (cases k)
    case 0
    show ?thesis
      unfolding 0 live_back_step Cons.IH [of 0, simplified]
      by (auto simp: Ex_less_Suc2 All_less_Suc2)
  next
    case (Suc l)
    then show ?thesis using Cons.IH [of l] Cons.prems by (simp add: ex_shift all_shift Let_def)
  qed
qed

lemma output_regs_exact:
  "is_reserved (fold (\<lambda>i w. rr_add w (out_regs i)) is w) r \<longleftrightarrow> is_reserved w r \<or> (\<exists>i \<in> set is. is_reserved (out_regs i) r)"
  by (induction "is" arbitrary: w) (auto simp: is_reserved_set)

lemma ex_range: "a \<le> e \<Longrightarrow> (\<exists>k < e - a + 1. P (a + k)) = (\<exists>j. a \<le> j \<and> j \<le> e \<and> P j)" for a e :: nat
proof
  assume "\<exists>j. a \<le> j \<and> j \<le> e \<and> P j"
  then obtain j where "a \<le> j" "j \<le> e" "P j" by blast
  then show "\<exists>k < e - a + 1. P (a + k)" by (intro exI [of _ "j - a"]) auto
next
  assume "a \<le> e" "\<exists>k < e - a + 1. P (a + k)"
  then obtain k where "k < e - a + 1" "P (a + k)" "a \<le> e" by blast
  then show "\<exists>j. a \<le> j \<and> j \<le> e \<and> P j" by (intro exI [of _ "a + k"]) auto
qed

definition block_body :: "inst_info list \<Rightarrow> basic_block \<Rightarrow> inst_info list" where
  "block_body insts b = drop (start_index b) (take (end_index b + 1) insts)"

lemma block_bounds:
  assumes "analyze p insts thumb = Some az" "b \<in> set (basic_blocks az)"
  shows "start_index b \<le> end_index b" "end_index b < length insts" "live_regs b = live_back (block_body insts b)"
    "output_regs b = fold (\<lambda>i w. rr_add w (out_regs i)) (rev (block_body insts b)) 0"
proof -
  obtain md stores cs where "mark_all thumb p insts (length insts) = Some (md, stores)" "insts_metadata az = md"
    and bs: "basic_blocks az = map (resolve_live_regs insts) cs" and r: "concat (map block_range cs) = [0..<length insts]"
    and mk: "\<forall>b \<in> set cs. \<exists>a c. b = basic_block_new (inst_pc thumb p a) a c \<and> a \<le> c"
    and "\<forall>i < length insts. i \<in> start_index ` set cs \<longleftrightarrow> leader md insts i"
    by (rule analyze_blocks [OF assms(1)])
  obtain c where c: "c \<in> set cs" and b: "b = resolve_live_regs insts c" using assms(2) bs by auto
  obtain a e where "c = basic_block_new (inst_pc thumb p a) a e" "a \<le> e" using mk c by blast
  then have le: "start_index c \<le> end_index c" "output_regs c = 0" by (simp_all add: basic_block_new_def)
  then have "end_index c \<in> set (block_range c)" by (simp add: block_range_def)
  then have "end_index c \<in> set (concat (map block_range cs))" using c by auto
  then have "end_index c < length insts" unfolding r by simp
  with le show "start_index b \<le> end_index b" "end_index b < length insts" unfolding b by simp_all
  show "live_regs b = live_back (block_body insts b)"
    "output_regs b = fold (\<lambda>i w. rr_add w (out_regs i)) (rev (block_body insts b)) 0"
    unfolding b using le by (simp_all add: resolve_live_regs_def block_body_def Let_def)
qed

text \<open>
  C29: the live registers the emitter works with are exact. For every basic block of an analysis, the set
  kept at an instruction, or behind the last one, has a register exactly if some instruction from there
  to the end of the block needs it (it is a source, or an output of a conditional instruction, which may
  leave it as it was) and no unconditional instruction in between overwrites it; and the outputs of the
  block are exactly the registers some instruction of it may write.
\<close>
theorem live_regs_exact:
  assumes "analyze p insts thumb = Some az" "b \<in> set (basic_blocks az)" "start_index b \<le> i" "i \<le> end_index b + 1"
  shows "length (live_regs b) = end_index b - start_index b + 2
    \<and> (is_reserved (live_regs b ! (i - start_index b)) r \<longleftrightarrow>
         (\<exists>j. i \<le> j \<and> j \<le> end_index b \<and> needs_reg (insts ! j) r \<and> (\<forall>m. i \<le> m \<and> m < j \<longrightarrow> \<not> overwrites (insts ! m) r)))
    \<and> (is_reserved (output_regs b) r \<longleftrightarrow>
         (\<exists>j. start_index b \<le> j \<and> j \<le> end_index b \<and> is_reserved (out_regs (insts ! j)) r))"
proof -
  note b = block_bounds [OF assms(1,2)]
  let ?a = "start_index b" and ?body = "block_body insts b"
  have len: "length ?body = end_index b - ?a + 1" using b(1,2) by (simp add: block_body_def)
  have nth: "?body ! k = insts ! (?a + k)" if "k < length ?body" for k
    using that b(1,2) by (simp add: block_body_def)
  have "is_reserved (live_regs b ! (i - ?a)) r \<longleftrightarrow>
      (\<exists>j. i - ?a \<le> j \<and> j < length ?body \<and> needs_reg (?body ! j) r \<and> (\<forall>m. i - ?a \<le> m \<and> m < j \<longrightarrow> \<not> overwrites (?body ! m) r))"
    unfolding b(3) by (rule live_back_exact) (use len assms in simp)
  also have "\<dots> \<longleftrightarrow> (\<exists>j. i \<le> j \<and> j \<le> end_index b \<and> needs_reg (insts ! j) r \<and> (\<forall>m. i \<le> m \<and> m < j \<longrightarrow> \<not> overwrites (insts ! m) r))"
    (is "?L \<longleftrightarrow> ?R")
  proof
    assume ?L
    then obtain j where j: "i - ?a \<le> j" "j < length ?body" "needs_reg (?body ! j) r"
      "\<forall>m. i - ?a \<le> m \<and> m < j \<longrightarrow> \<not> overwrites (?body ! m) r" by blast
    have "\<not> overwrites (insts ! m) r" if "i \<le> m" "m < ?a + j" for m
    proof -
      have k: "i - ?a \<le> m - ?a" "m - ?a < j" "?a + (m - ?a) = m" using that assms(3) by linarith+
      show ?thesis using j(4) [rule_format, of "m - ?a"] nth [of "m - ?a"] j(2) k by simp
    qed
    then show ?R using j nth [OF j(2)] len assms(3) b(1) by (intro exI [of _ "?a + j"]) auto
  next
    assume ?R
    then obtain j where j: "i \<le> j" "j \<le> end_index b" "needs_reg (insts ! j) r"
      "\<forall>m. i \<le> m \<and> m < j \<longrightarrow> \<not> overwrites (insts ! m) r" by blast
    moreover have "\<not> overwrites (?body ! m) r" if "i - ?a \<le> m" "m < j - ?a" for m
    proof -
      have "i \<le> ?a + m" "?a + m < j" using that assms(3) by linarith+
      then show ?thesis using j(4) nth [of m] len j(2) by simp
    qed
    ultimately show ?L using nth [of "j - ?a"] assms(3) len by (intro exI [of _ "j - ?a"]) auto
  qed
  finally have live: "is_reserved (live_regs b ! (i - ?a)) r \<longleftrightarrow> ?R" .
  have "is_reserved (output_regs b) r \<longleftrightarrow> (\<exists>k < length ?body. is_reserved (out_regs (insts ! (?a + k))) r)"
    unfolding b(4) output_regs_exact set_rev using nth by (auto simp: is_reserved_set Bex_def in_set_conv_nth)
  also have "\<dots> \<longleftrightarrow> (\<exists>j. ?a \<le> j \<and> j \<le> end_index b \<and> is_reserved (out_regs (insts ! j)) r)"
    unfolding len by (rule ex_range [OF b(1)])
  finally show ?thesis using live by (simp add: b(3) live_back_length len)
qed

theorem live_regs_exact_witness:
  "\<exists>az b. analyze 0x8000 (map decode_thumb_opcode [0x2005, 0x3801, 0xD1FD, 0x4770]) True = Some az
     \<and> b \<in> set (basic_blocks az) \<and> start_index b = 1 \<and> length (live_regs b) = 3 \<and> is_reserved (live_regs b ! 0) 0"
proof -
  define insts where "insts = map decode_thumb_opcode [0x2005, 0x3801, 0xD1FD, 0x4770]"
  have "case analyze 0x8000 insts True of None \<Rightarrow> False
      | Some az \<Rightarrow> length (basic_blocks az) = 3 \<and> start_index (basic_blocks az ! 1) = 1 \<and> end_index (basic_blocks az ! 1) = 2"
    unfolding insts_def by code_simp
  then obtain az where az: "analyze 0x8000 insts True = Some az" and l: "length (basic_blocks az) = 3"
    and b: "start_index (basic_blocks az ! 1) = 1" "end_index (basic_blocks az ! 1) = 2"
    by (auto split: option.splits)
  let ?b = "basic_blocks az ! 1"
  have m: "?b \<in> set (basic_blocks az)" using l by simp
  have r: "needs_reg (insts ! 1) 0" unfolding insts_def by code_simp
  note ok = live_regs_exact [OF az m, of 1 0, unfolded b]
  have "length (live_regs ?b) = 3" "is_reserved (live_regs ?b ! 0) 0" using ok r by auto
  then show ?thesis using az m b(1) unfolding insts_def by blast
qed

section \<open>The front end returns\<close>

text \<open>Neither looking for a relative address nor resolving a branch reads an operand that is not there.\<close>

definition decodes_safely :: "inst_info \<Rightarrow> bool" where
  "decodes_safely i \<longleftrightarrow> (\<forall>pc. imm_transfer_addr i pc \<noteq> None)
     \<and> (is_labelled_branch (ii_op i) \<longrightarrow> operands i \<noteq> [] \<and> as_imm (hd (operands i)) \<noteq> None)"

lemma info_new_simps [simp]: "ii_op (inst_info_new opcode p ops src out c) = p" "operands (inst_info_new opcode p ops src out c) = ops"
  by (simp_all add: inst_info_new_def Let_def)

lemmas arm_decoders = decode_logical_def decode_arith_def decode_test_def decode_ldm_def decode_dsp_def
  alu3_def alu3_imm_def alu3_imm_shift_def alu3_reg_shift_def alu2_op1_def alu2_op1_imm_def alu2_op1_imm_shift_def
  alu2_op1_reg_shift_def alu2_op0_def alu2_op0_imm_def alu2_op0_imm_shift_def alu2_op0_reg_shift_def
  mul_d_def mla_d_def muls_d_def mlas_d_def umull_d_def umlal_d_def umulls_d_def umlals_d_def
  smulbb_d_def smlabb_d_def smlalbb_d_def qadd_d_def clz_d_def bx_d_def blx_reg_d_def swi_d_def unk_arm_def swp_d_def
  ldmda_d_def stmda_d_def ldmda_w_d_def stmda_w_d_def ldmda_u_d_def stmda_u_d_def ldmda_u_w_d_def stmda_u_w_d_def
  block_transfer_d_def msr_r_d_def msr_i_d_def mrs_rc_d_def mrs_rs_d_def mrc_d_def mcr_d_def
  mem_transfer_def mem_transfer_imm_def mem_transfer_reg_def mem_transfer_reg_shift_def b_d_def bl_d_def blx_label_d_def

lemma lookup_arm: "lookup_opcode opcode = (op_of (ARM_TABLE ! arm_index opcode), ARM_TABLE ! arm_index opcode)"
  using arm_index_less [of opcode] by (simp add: lookup_opcode_def lookup_table_eq arm_index_def)

lemma arm_safe: "decodes_safely (decode_opcode opcode)" "ii_op (decode_opcode opcode) \<noteq> OpBlSetupT"
proof -
  obtain f where f: "lookup_opcode opcode = (op_of f, f)" using lookup_arm by blast
  show "ii_op (decode_opcode opcode) \<noteq> OpBlSetupT" "decodes_safely (decode_opcode opcode)"
    unfolding decode_opcode_def f decodes_safely_def
    by (cases f; simp add: arm_decoders Let_def imm_transfer_addr_def split: option.split)+
qed

lemmas thumb_decoders = add_reg_t_d_def add_h_t_d_def cmp_h_t_d_def mov_h_t_d_def add_pc_t_d_def add_sp_t_d_def add_sp_imm_t_d_def
  lsl_imm_t_d_def add_imm3_t_d_def add_imm8_t_d_def cmp_imm8_t_d_def mov_imm8_t_d_def lsl_dp_t_d_def tst_dp_t_d_def
  cmp_dp_t_d_def mvn_dp_t_d_def neg_dp_t_d_def mul_dp_t_d_def ldrsb_reg_t_d_def load_imm5_d_def ldrb_imm5_t_d_def
  ldrh_imm5_t_d_def ldr_imm5_t_d_def ldr_pc_t_d_def ldr_sp_t_d_def strb_reg_t_d_def store_imm5_d_def strb_imm5_t_d_def
  strh_imm5_t_d_def str_imm5_t_d_def str_sp_t_d_def ldmia_t_d_def stmia_t_d_def pop_d_def push_d_def pop_t_d_def push_t_d_def
  pop_pc_t_d_def push_lr_t_d_def bx_reg_t_d_def blx_reg_t_d_def b_t_d_def b_cond_d_def bl_setup_t_d_def bl_off_t_d_def
  swi_t_d_def unk_t_def inst_info_thumb_new_def

lemma lookup_thumb:
  "lookup_thumb_opcode opcode = (thumb_op_of (THUMB_TABLE ! unat (drop_bit 6 opcode)), THUMB_TABLE ! unat (drop_bit 6 opcode))"
  using thumb_index_less [of opcode] by (simp add: lookup_thumb_opcode_def lookup_thumb_eq thumb_index_mask thumb_table_length)

lemma thumb_safe: "decodes_safely (decode_thumb_opcode opcode)"
proof -
  obtain f where f: "lookup_thumb_opcode opcode = (thumb_op_of f, f)" using lookup_thumb by blast
  have dp: "thumb_op_of (TDp p) = OpAluT (case p of And \<Rightarrow> AndT | Eor \<Rightarrow> EorT | Orr \<Rightarrow> OrrT | Bic \<Rightarrow> BicT | Mov \<Rightarrow> MovT
      | Mvn \<Rightarrow> MvnT)" for p
    by (cases p) simp_all
  show ?thesis
    unfolding decode_thumb_opcode_def f decodes_safely_def
    by (cases f; simp add: thumb_decoders from_thumb_def dp Let_def imm_transfer_addr_def split: option.split)
qed

lemma fill_step_safe:
  assumes "decodes_safely i"
  obtains imm skip_one where "imm_transfer_addr i pc = Some imm" "skip_one_branch i = Some skip_one"
proof -
  obtain imm where "imm_transfer_addr i pc = Some imm" using assms unfolding decodes_safely_def by blast
  moreover have "skip_one_branch i \<noteq> None" using assms by (auto simp: decodes_safely_def skip_one_branch_def)
  ultimately show thesis using that by blast
qed

lemma fill_loop_arm:
  assumes "length (fs_insts st) + n = 500" "0 < n" "\<forall>i \<in> set (fs_insts st). decodes_safely i"
  shows "\<exists>st' s'. fill_loop False until_bx guest_pc st s = Some (st', s') \<and> length (fs_insts st') \<le> 500
    \<and> (\<forall>i \<in> set (fs_insts st'). decodes_safely i)"
  using assms
proof (induction n arbitrary: st s)
  case (Suc n)
  obtain w s1 where r: "mem_read 4 (guest_pc + fs_offset st) s = (w, s1)" by fastforce
  let ?i = "decode_opcode w"
  obtain imm skip_one where ok: "imm_transfer_addr ?i (guest_pc + fs_offset st) = Some imm" "skip_one_branch ?i = Some skip_one"
    using fill_step_safe [OF arm_safe(1)] by blast
  show ?case
  proof (cases "ii_op ?i = OpUnkArm \<or> ii_op ?i = OpUnkThumb \<or> ii_cond ?i = 15")
    case True
    then show ?thesis using Suc.prems by (subst fill_loop.simps) (simp add: get_inst_info_def r Let_def)
  next
    case False
    define st1 where "st1 = st\<lparr>fs_cycles := next_cycles (fs_cycles st) (ii_cycle ?i),
      fs_min_imm := lower_min_imm imm (guest_pc + fs_offset st) (fs_min_imm st), fs_insts := fs_insts st @ [?i]\<rparr>"
    have l: "length (fs_insts st1) = Suc (length (fs_insts st))" "\<forall>i \<in> set (fs_insts st1). decodes_safely i"
      using Suc.prems(3) by (auto simp: st1_def arm_safe)
    let ?stop = "ends_block until_bx ?i (length (fs_insts st1)) skip_one (fs_min_imm st1) \<or> fs_min_imm st1 \<le> guest_pc + fs_offset st"
    have step: "fill_loop False until_bx guest_pc st s = (if ?stop then Some (st1, s1)
        else fill_loop False until_bx guest_pc (st1\<lparr>fs_offset := fs_offset st1 + 4\<rparr>) s1)"
      using False by (subst fill_loop.simps) (simp add: get_inst_info_def r Let_def ok st1_def)
    show ?thesis
    proof (cases "?stop")
      case True
      then show ?thesis using l Suc.prems(1) by (simp add: step)
    next
      case False
      then have "length (fs_insts st1) < 500" using arm_safe(2) [of w] by (auto simp: ends_block_def)
      then show ?thesis
        using Suc.IH [of "st1\<lparr>fs_offset := fs_offset st1 + 4\<rparr>" s1] l Suc.prems(1) False by (simp add: step)
    qed
  qed
qed simp

lemma mark_all_safe:
  assumes "\<forall>i \<in> set insts. decodes_safely i" "k \<le> length insts"
  shows "mark_all thumb p insts k \<noteq> None"
  using assms(2)
proof (induction k)
  case (Suc k)
  then obtain md stores where before: "mark_all thumb p insts k = Some (md, stores)" by fastforce
  have safe: "decodes_safely (insts ! k)" using assms(1) Suc.prems by simp
  then obtain imm where "imm_transfer_addr (insts ! k) (inst_pc thumb p k) = Some imm" unfolding decodes_safely_def by blast
  moreover have "label_branch (insts ! k) \<Longrightarrow> branch_target thumb (inst_pc thumb p k) (insts ! k) \<noteq> None"
    using safe by (auto simp: decodes_safely_def label_branch_def branch_target_def)
  ultimately have "mark_inst thumb p insts k (md, stores) \<noteq> None" by (auto simp: mark_inst_def Let_def)
  then show ?case using before by simp
qed simp

lemma analyze_safe: "analyze p insts thumb \<noteq> None" if "\<forall>i \<in> set insts. decodes_safely i"
  using mark_all_safe [OF that order_refl, of thumb p] by (auto simp: analyze_def Let_def)

text \<open>
  C30: the compiler's front end returns on any ARM code and panics on none. Whatever words the memory holds
  from an address on, whatever reads of it do, and whichever end condition is asked for, the decoding loop
  stops after at most 500 instructions, every operand it and the analysis unwrap is there, and the analysis
  of the decoded block returns. The analysis of any decoded Thumb code returns too.
\<close>
theorem front_end_returns:
  "\<exists>insts cycles pc s'. fill_jit_insts_buf s guest_pc False until_bx = Some (insts, cycles, pc, s')
     \<and> length insts \<le> 500 \<and> analyze guest_pc insts False \<noteq> None
     \<and> analyze guest_pc (map decode_thumb_opcode ops) True \<noteq> None"
proof -
  let ?st = "\<lparr>fs_insts = [], fs_cycles = [], fs_offset = 0, fs_min_imm = 0xFFFFFFFF\<rparr>"
  obtain st' s' where r: "fill_loop False until_bx guest_pc ?st s = Some (st', s')" "length (fs_insts st') \<le> 500"
    "\<forall>i \<in> set (fs_insts st'). decodes_safely i"
    using fill_loop_arm [of ?st 500 until_bx guest_pc s] by auto
  have "fill_jit_insts_buf s guest_pc False until_bx = Some (fs_insts st', fs_cycles st', guest_pc + fs_offset st', s')"
    by (simp add: fill_jit_insts_buf_def r(1))
  moreover have "analyze guest_pc (map decode_thumb_opcode ops) True \<noteq> None" by (rule analyze_safe) (simp add: thumb_safe)
  ultimately show ?thesis using r(2) analyze_safe [OF r(3)] by (intro exI conjI)
qed

end
