(* ===== verification/InfoLaws.thy ===== *)
theory InfoLaws
  imports AnalyzerLaws
begin

text \<open>
  The decoded instructions are well formed: what the decoders of \<open>InstInfo\<close> and \<open>InstThumb\<close> put into an
  instruction names registers that exist.
\<close>

definition operand_ok :: "operand \<Rightarrow> bool" where
  "operand_ok p = (case p of
     OReg r s \<Rightarrow> r < 16 \<and> (case s of Some (t, ShiftReg q) \<Rightarrow> q < 16 | Some (t, ShiftImm n) \<Rightarrow> unat n < 32 | None \<Rightarrow> True)
   | OImm v \<Rightarrow> True
   | ORegList w \<Rightarrow> set_of w \<subseteq> {..<16})"

definition info_ok :: "inst_info \<Rightarrow> bool" where
  "info_ok i \<longleftrightarrow> list_all operand_ok (operands i) \<and> length (operands i) \<le> 4
     \<and> set_of (src_regs i) \<subseteq> {..<17} \<and> set_of (out_regs i) \<subseteq> {..<17} \<and> ii_cond i < 16"

lemma unat_low: "unat (w AND 0xF) < 16" "unat (w AND 0x7) < 8" "unat (w AND 0x1F) < 32" for w :: "'a::len word"
proof -
  have m: "(0x7 :: 'a word) = mask 3" "(0xF :: 'a word) = mask 4" "(0x1F :: 'a word) = mask 5" by (simp_all add: mask_eq_exp_minus_1)
  have t: "take_bit n k < (2 :: nat) ^ n" for n k by simp
  show "unat (w AND 0xF) < 16" "unat (w AND 0x7) < 8" "unat (w AND 0x1F) < 32"
    unfolding m unat_and_mask using t [of 4 "unat w"] t [of 3 "unat w"] t [of 5 "unat w"] by (simp_all add: take_bit_eq_mod)
qed

lemma field_less: "f0 w < 16" "f8 w < 16" "f12 w < 16" "f16 w < 16"
  unfolding f0_def f8_def f12_def f16_def by (rule unat_low)+

lemma field_less_thumb: "g0 w < 8" "g3 w < 8" "g6 w < 8" "g8 w < 8" "gh3 w < 16" "gh0 w < 16"
proof -
  show "g0 w < 8" "g3 w < 8" "g6 w < 8" "g8 w < 8" "gh3 w < 16"
    unfolding g0_def g3_def g6_def g8_def gh3_def by (rule unat_low)+
  have "(a AND 0x8) OR (b AND 0x7) = ((a AND 0x8) OR (b AND 0x7)) AND 0xF" for a b :: u16
    by (simp add: bit.conj_disj_distrib2 and.assoc)
  then show "gh0 w < 16" unfolding gh0_def using unat_low(1) [of "(drop_bit 4 w AND 0x8) OR (w AND 0x7)"] by metis
qed

lemma field_in [simp]: "f0 w < 17" "f8 w < 17" "f12 w < 17" "f16 w < 17" "f0 w < 32" "f8 w < 32" "f12 w < 32" "f16 w < 32"
  "g0 t < 17" "g3 t < 17" "g6 t < 17" "g8 t < 17" "gh0 t < 17" "gh3 t < 17" "g0 t < 16" "g3 t < 16" "g6 t < 16" "g8 t < 16"
  using field_less [of w] field_less_thumb [of t] by simp_all

lemma shift_less: "unat (snd (imm_shift w)) < 32"
proof -
  have "unat (drop_bit 7 w AND 0x1F) < 32" by (rule unat_low)
  then show ?thesis by (simp add: imm_shift_def unsigned_ucast_eq take_bit_nat_eq_self)
qed

lemma list_set: "set_of (w AND 0xFFFF) \<subseteq> {..<16}" "set_of (ucast (t AND 0xFF :: u16)) \<subseteq> {..<8}"
proof -
  have m: "(0xFFFF :: u32) = mask 16" "(0xFF :: u16) = mask 8" by (simp_all add: mask_eq_exp_minus_1)
  show "set_of (w AND 0xFFFF) \<subseteq> {..<16}"
    unfolding m set_of_def is_reserved_bit bit_and_iff bit_mask_iff by auto
  show "set_of (ucast (t AND 0xFF :: u16)) \<subseteq> {..<8}"
    unfolding m set_of_def is_reserved_bit bit_unsigned_iff bit_and_iff bit_mask_iff by auto
qed

lemma set_of_cpsr [simp]: "set_of (cpsr_if b) \<subseteq> {..<17}"
  by (simp add: cpsr_if_def)

lemma set_of_list: "set_of (w AND 0xFFFF) \<subseteq> {..<17}" "set_of (ucast (t AND 0xFF :: u16)) \<subseteq> {..<17}" "set_of (ucast (t AND 0xFF :: u16)) \<subseteq> {..<16}"
  using list_set(1) [of w] list_set(2) [of t] by auto

lemma info_new_ok:
  assumes "list_all operand_ok ops" "length ops \<le> 4" "set_of src \<subseteq> {..<17}" "set_of out \<subseteq> {..<17}"
  shows "info_ok (inst_info_new opcode p ops src out c)"
proof -
  have "unat opcode < 2 ^ 32" using unsigned_less [of opcode] by simp
  then have "unat (drop_bit 28 opcode) < 16" unfolding unat_drop_bit_eq by (simp add: drop_bit_eq_div)
  then show ?thesis using assms by (simp add: info_ok_def inst_info_new_def Let_def)
qed

lemma in_sets:
  "x \<in> set_of (cpsr_if b) \<Longrightarrow> x < 17"
  "x \<in> set_of (w AND 0xFFFF) \<Longrightarrow> x < 17"
  "x \<in> set_of (w AND 0xFFFF) \<Longrightarrow> x < 16"
  "x \<in> set_of (ucast (t AND 0xFF :: u16)) \<Longrightarrow> x < 17"
  "x \<in> set_of (ucast (t AND 0xFF :: u16)) \<Longrightarrow> x < 16"
  "x \<in> set_of (if_empty v r) \<Longrightarrow> r < 17 \<Longrightarrow> x < 17"
  "x \<in> set_of (if_pc (w AND 0xFFFF)) \<Longrightarrow> x < 17"
  using list_set(1) [of w] list_set(2) [of t]
  by (auto simp: cpsr_if_def if_empty_def if_pc_def split: if_splits dest!: subsetD)

lemmas other_decoders = decode_logical_def decode_arith_def decode_test_def decode_dsp_def
  alu3_def alu3_imm_def alu3_imm_shift_def alu3_reg_shift_def alu2_op1_def alu2_op1_imm_def alu2_op1_imm_shift_def
  alu2_op1_reg_shift_def alu2_op0_def alu2_op0_imm_def alu2_op0_imm_shift_def alu2_op0_reg_shift_def
  mul_d_def mla_d_def muls_d_def mlas_d_def umull_d_def umlal_d_def umulls_d_def umlals_d_def
  smulbb_d_def smlabb_d_def smlalbb_d_def qadd_d_def clz_d_def bx_d_def blx_reg_d_def swi_d_def unk_arm_def swp_d_def
  msr_r_d_def msr_i_d_def mrs_rc_d_def mrs_rs_d_def mrc_d_def mcr_d_def
  mem_transfer_def mem_transfer_imm_def mem_transfer_reg_def mem_transfer_reg_shift_def b_d_def bl_d_def blx_label_d_def

lemmas operand_simps = operand_ok_def reg_imm_shift_def reg_reg_shift_def reg_shift_def shift_less field_less

lemma imm_shift_reg: "fst (imm_shift w) = f0 w"
  by (simp add: imm_shift_def)

lemma block_info_ok: "info_ok (decode_ldm load usr wb opcode i)"
proof -
  have sets: "set_of (if_empty v (f16 opcode)) \<subseteq> {..<17}" "set_of (if_pc (opcode AND 0xFFFF)) \<subseteq> {..<17}" "set_of (opcode AND 0xFFFF) \<subseteq> {..<17}" for v
    using in_sets by auto
  show ?thesis using list_set(1) [of opcode]
    by (cases load; cases usr; cases wb) (simp_all add: arm_decoders Let_def operand_simps sets info_new_ok)
qed

lemma arm_info_ok: "info_ok (decode_arm f opcode i)"
  using block_info_ok by (cases f) (auto simp: other_decoders Let_def operand_simps imm_shift_reg block_info_ok intro!: info_new_ok dest: in_sets)

lemma from_thumb_ok:
  assumes "list_all operand_ok (it_operands v)" "length (it_operands v) \<le> 4" "set_of (it_src_regs v) \<subseteq> {..<17}" "set_of (it_out_regs v) \<subseteq> {..<17}"
  shows "info_ok (from_thumb v)"
proof -
  have "bcond_number c < 16" for c by (cases c) simp_all
  then show ?thesis using assms by (simp add: info_ok_def from_thumb_def get_branch_cond_def Let_def split: inst_op.split)
qed

lemma thumb_info_ok: "info_ok (from_thumb (decode_thumb f opcode i))"
  by (cases f) (auto simp: thumb_decoders Let_def operand_simps field_less_thumb intro!: from_thumb_ok dest: in_sets)

text \<open>
  C35: every instruction the decoders produce, for any ARM word and any Thumb halfword, is well formed:
  it has at most four operands, which fit the array of \<open>Operands\<close>; every register operand and every
  register of a list or shift is one of the sixteen registers, so the unchecked conversions to \<open>Reg\<close> and
  \<open>Cond\<close> are defined; shifts by an immediate are below 32; and both register sets hold registers and the
  status register only. In particular the second register of a doubleword transfer exists.
\<close>

theorem decoded_well_formed: "info_ok (decode_opcode word) \<and> info_ok (decode_thumb_opcode half)"
  using arm_info_ok thumb_info_ok by (simp add: decode_opcode_def decode_thumb_opcode_def split: prod.split)

end
