(* ===== verification/BiosLaws.thy ===== *)
theory BiosLaws
  imports Bios
begin

text \<open>
  What the BIOS calls that touch memory guarantee: interrupt entry and return, the block copies, the
  decompressors against reference decoders on byte lists, and the soft reset.
\<close>

section \<open>Interrupt entry and return\<close>

text \<open>What a handler may do between entry (state \<open>s\<close>) and return (state \<open>t\<close>): use r0 to r3, r12, lr and
  the flags freely and write memory outside its six stacked words; it returns in interrupt mode with
  the stack pointer, the saved status and the banks as it found them.\<close>

definition handler_returned :: "emu \<Rightarrow> emu \<Rightarrow> bool" where
  "handler_returned s t \<longleftrightarrow>
     (let r = regs s; q = regs t; p = ram_offset (align_addr 4 (reg_sp r)) in
      cpsr_mode (cpsr q) = 0x12 \<and> reg_sp q = reg_sp r \<and> spsr q = spsr r
      \<and> (\<forall>i < 13. i \<notin> {0, 1, 2, 3, 12} \<longrightarrow> gp_regs q i = gp_regs r i)
      \<and> user q = user r \<and> fiq q = fiq r \<and> svc q = svc r \<and> abt q = abt r \<and> und q = und r
      \<and> (\<forall>k. p \<le> k \<and> k < p + 24 \<longrightarrow> shm (mem t) k = shm (mem s) k)
      \<and> mmu_ok t \<and> bios_wait_flags (cpu t) = 0)"

lemma check_for_interrupt_frame [simp]:
  "regs (cpu_check_for_interrupt s) = regs s" "mem (cpu_check_for_interrupt s) = mem s"
  "cpu (cpu_check_for_interrupt s) = cpu s" "cart (cpu_check_for_interrupt s) = cart s" "jit (cpu_check_for_interrupt s) = jit s"
  by (simp_all add: cpu_check_for_interrupt_def cpu_schedule_interrupt_def upd_cm_def Let_def)

lemma thread_set_cpsr_frame [simp]:
  "mem (thread_set_cpsr v b s) = mem s" "cpu (thread_set_cpsr v b s) = cpu s" "cart (thread_set_cpsr v b s) = cart s"
  "jit (thread_set_cpsr v b s) = jit s"
  "regs (thread_set_cpsr v b s) =
     (let r = switch_mode (cpsr_mode (cpsr (regs s))) (cpsr_mode v) (regs s)
      in (if b then r\<lparr>spsr := cpsr r\<rparr> else r)\<lparr>cpsr := v\<rparr>)"
  by (simp_all add: thread_set_cpsr_def upd_regs_def Let_def)

lemma cpsr_mode_irq [simp]: "cpsr_mode (irq_cpsr w) = 0x12"
proof -
  have m: "(0x1F :: u32) = mask 5" by (simp add: mask_eq_exp_minus_1)
  have "cpsr_mode (irq_cpsr w) = irq_cpsr w AND 0x1F"
    unfolding m by (simp add: cpsr_mode_def field_def take_bit_eq_mask)
  also have "\<dots> = 0x12"
    by (simp add: irq_cpsr_def bit.conj_disj_distrib2 and.assoc)
  finally show ?thesis .
qed

lemma bit_or_push: "bit (w OR push_bit k 1) n \<longleftrightarrow> bit w n \<or> n = k \<and> k < LENGTH('a)" for w :: "'a::len word"
  by (auto simp: bit_or_iff bit_push_bit_iff bit_exp_iff)

lemma bit_and_not_push: "bit (w AND NOT (push_bit k 1)) n \<longleftrightarrow> bit w n \<and> n \<noteq> k" for w :: "'a::len word"
  using bit_imp_le_length [of w n] by (auto simp: bit_and_iff bit_not_iff bit_push_bit_iff bit_exp_iff)

lemma bit_set_thumb: "bit (set_thumb_bit b w) n = (if n = 5 then b else bit w n)"
  unfolding set_thumb_bit_def by (cases b) (simp_all only: if_True if_False bit_or_push bit_and_not_push, auto)

lemma cpsr_mode_set_thumb [simp]: "cpsr_mode (set_thumb_bit b w) = cpsr_mode w"
  unfolding cpsr_mode_def field_def by (rule bit_word_eqI) (simp add: bit_simps bit_set_thumb)

lemma set_thumb_id: "set_thumb_bit b w = w" if "b = cpsr_thumb w"
  using that by (intro bit_word_eqI) (simp add: bit_set_thumb cpsr_thumb_def)

lemma cpsr_thumb_set [simp]: "cpsr_thumb (set_thumb_bit b w) = b"
  by (simp add: cpsr_thumb_def bit_set_thumb)

text \<open>The state after the six stores, before the vector is read.\<close>

lemma interrupt_state:
  assumes "mmu_ok s" "jit_ok (jit s)"
    and "r = (let r = switch_mode (cpsr_mode (cpsr (regs s))) 0x12 (regs s) in r\<lparr>spsr := cpsr r, cpsr := irq_cpsr (cpsr (regs s))\<rparr>)"
    and "sp = reg_sp r - 24" and "ram_block 4 (align_addr 4 sp) 6"
  shows "\<exists>t. interrupt s = Some t
    \<and> regs t = r\<lparr>spsr := set_thumb_bit (reg_pc r AND 1 = 1) (spsr r), reg_sp := sp, reg_lr := 0xFFF00000,
                 reg_pc := read_mem 4 (shm (mem t)) (P_IWRAM_OFFSET + 0x7FFC)\<rparr>
    \<and> shm (mem t) = block_store 4 (ram_offset (align_addr 4 sp))
        (\<lambda>i. [gp_regs r 0, gp_regs r 1, gp_regs r 2, gp_regs r 3, gp_regs r 12, reg_pc r + 4] ! i) 6 (shm (mem s))
    \<and> cpu t = (cpu s)\<lparr>bios_open_bus := 0xE25EF004\<rparr> \<and> mmu_ok t \<and> jit_ok (jit t) \<and> cart t = cart s"
proof -
  define s0 where "s0 = thread_set_cpsr (irq_cpsr (cpsr (regs s))) True (set_open_bus 0xE25EF004 s)"
  have s0: "mem s0 = mem s" "jit s0 = jit s" "cart s0 = cart s" "cpu s0 = (cpu s)\<lparr>bios_open_bus := 0xE25EF004\<rparr>" "regs s0 = r"
    by (simp_all add: s0_def set_open_bus_def upd_cpu_def assms(3) Let_def)
  have cp: "cpsr (regs (set_open_bus w s)) = cpsr (regs s)" for w by (simp add: set_open_bus_def upd_cpu_def)
  define s1 where "s1 = s0\<lparr>regs := r\<lparr>spsr := set_thumb_bit (reg_pc r AND 1 = 1) (spsr r), reg_sp := sp\<rparr>\<rparr>"
  let ?vs = "[gp_regs r 0, gp_regs r 1, gp_regs r 2, gp_regs r 3, gp_regs r 12, reg_pc r + 4]"
  have s1: "mem s1 = mem s" "jit s1 = jit s" "cart s1 = cart s" "cpu s1 = (cpu s)\<lparr>bios_open_bus := 0xE25EF004\<rparr>"
      "regs s1 = r\<lparr>spsr := set_thumb_bit (reg_pc r AND 1 = 1) (spsr r), reg_sp := sp\<rparr>"
    by (simp_all add: s1_def s0)
  have ok: "mmu_ok s1" "jit_ok (jit s1)" using assms(1,2) by (simp_all add: mmu_ok_def s1)
  obtain u where u: "mem_write_multiple_slice 4 sp (Buf ?vs) s1 = Some u" "block_stored 4 (align_addr 4 sp) (\<lambda>i. ?vs ! i) 6 s1 u"
  proof -
    have l: "length ?vs = 6" by simp
    show ?thesis using that write_multiple_buf [of 4 "align_addr 4 sp" ?vs s1 sp, unfolded l, OF assms(5) ok refl] by blast
  qed
  note fr = ram_frameD [of s1 u]
  let ?u = "upd_regs (\<lambda>q. q\<lparr>reg_lr := 0xFFF00000\<rparr>) u"
  have al: "align_addr 4 0x3FFFFFC = 0x3FFFFFC" by (simp add: align_addr_def)
  have "mmu_ok ?u" using u(2) by (simp add: block_stored_def mmu_ok_def upd_regs_def)
  then have rd: "mem_read 4 0x3FFFFFC ?u = (read_mem 4 (shm (mem u)) (P_IWRAM_OFFSET + 0x7FFC), ?u)"
    by (subst mem_read_ram) (simp_all add: al ram_region_def ram_offset_def upd_regs_def)
  have "interrupt s = Some (upd_regs (\<lambda>q. q\<lparr>reg_pc := read_mem 4 (shm (mem u)) (P_IWRAM_OFFSET + 0x7FFC)\<rparr>) ?u)"
    using u(1) rd unfolding interrupt_def Let_def cp s0_def [symmetric]
    by (simp add: upd_regs_def s0(5) assms(4) s1_def)
  then show ?thesis
    using u(2) fr s1 by (auto simp: block_stored_def upd_regs_def mmu_ok_def)
qed

lemma read_stacked_ram:
  assumes "ram_block 4 (align_addr 4 sp) 6" "mmu_ok s"
  shows "read_stacked sp s = (map (\<lambda>i. read_mem 4 (shm (mem s)) (ram_offset (align_addr 4 sp) + i * 4)) [0..<6], s)"
  using get_shm_offset_read_ram [OF assms(2)] read_multiple_ram [OF assms refl] assms(1)
  by (simp add: read_stacked_def Let_def ram_block_def del: upt_rec_numeral)

lemma six_words: "map f [0..<6] = [f 0, f 1, f 2, f 3, f 4, f (5 :: nat)]"
  by (simp add: upt_rec numeral_eq_Suc)

text \<open>Leaving a mode for interrupt mode and coming back, on the register file alone.\<close>

lemma switch_mode_back:
  assumes "valid_mode m" "m \<noteq> 0x12"
    and "user q = user (switch_mode m 0x12 r)" "fiq q = fiq (switch_mode m 0x12 r)" "svc q = svc (switch_mode m 0x12 r)"
      "abt q = abt (switch_mode m 0x12 r)" "und q = und (switch_mode m 0x12 r)"
    and "\<forall>i < 13. gp_regs q i = gp_regs (switch_mode m 0x12 r) i"
  defines "p \<equiv> switch_mode 0x12 m q"
  shows "\<forall>i < 13. gp_regs p i = gp_regs r i" "reg_sp p = reg_sp r" "reg_lr p = reg_lr r" "reg_pc p = reg_pc q"
  using assms(1-8) unfolding p_def valid_mode_def
  by (auto simp: switch_mode_def is_user_mode_def thread_set_cpsr_mode_slow_def save_mode_def load_mode_def
      save_user_high_def save_other_def load_other_def load_high_def save_high_def)

lemma uninterrupt_regs:
  assumes "mmu_ok t" "bios_wait_flags (cpu t) = 0" "ram_block 4 (align_addr 4 (reg_sp (regs t))) 6"
  defines "w \<equiv> \<lambda>i. read_mem 4 (shm (mem t)) (ram_offset (align_addr 4 (reg_sp (regs t))) + i * 4)"
  shows "\<exists>u. uninterrupt t = Some u \<and> mem u = mem t \<and> jit u = jit t
    \<and> regs u = (switch_mode (cpsr_mode (cpsr (regs t))) (cpsr_mode (spsr (regs t))) (unstack [w 0, w 1, w 2, w 3, w 4, w 5] (regs t)))
        \<lparr>cpsr := spsr (regs t)\<rparr>"
proof -
  let ?t = "set_open_bus 0xE55EC002 t"
  have t: "regs ?t = regs t" "mem ?t = mem t" "jit ?t = jit t" "bios_wait_flags (cpu ?t) = 0" "mmu_ok ?t"
    using assms(1,2) by (simp_all add: set_open_bus_def upd_cpu_def mmu_ok_def)
  have "read_stacked (reg_sp (regs t)) ?t = ([w 0, w 1, w 2, w 3, w 4, w 5], ?t)"
    using read_stacked_ram [OF assms(3) t(5)] by (simp only: six_words t(2) w_def)
  then show ?thesis
    by (simp add: uninterrupt_def Let_def t upd_regs_def unstack_def)
qed

lemma trunc_size_4 [simp]: "trunc_size 4 v = v"
  by (rule bit_word_eqI) (simp add: trunc_size_bit)

lemma pc_thumb: "(p AND NOT 1) OR of_bool (p AND 1 = 1) = (p :: u32)"
  by (rule bit_word_eqI) (auto simp: bit_simps and_one_eq odd_iff_mod_2_eq_one [symmetric] bit_0 split: if_splits)

text \<open>
  C5: an interrupt taken in any mode but interrupt mode is transparent. Entry stacks r0 to r3, r12 and
  the return address on the interrupt stack and jumps through the vector at the top of IWRAM with
  interrupts masked, ARM state and interrupt mode. Whatever the handler did within its rights, the
  return restores r0 to r12, the stack pointer and the link register of the interrupted mode, the
  program counter and the status register (whose state bit follows the program counter's lowest bit).
\<close>

theorem interrupt_transparent:
  fixes s
  defines "m \<equiv> cpsr_mode (cpsr (regs s))"
  defines "sp \<equiv> reg_sp (switch_mode m 0x12 (regs s)) - 24"
  assumes "mmu_ok s" "jit_ok (jit s)" "valid_mode m" "m \<noteq> 0x12" "ram_block 4 (align_addr 4 sp) 6"
    and "bit (reg_pc (regs s)) 0 = cpsr_thumb (cpsr (regs s))"
  shows "\<exists>s1. interrupt s = Some s1 \<and> cpsr (regs s1) = irq_cpsr (cpsr (regs s)) \<and> reg_lr (regs s1) = 0xFFF00000
     \<and> reg_pc (regs s1) = read_mem 4 (shm (mem s1)) (P_IWRAM_OFFSET + 0x7FFC)
     \<and> (\<forall>t. handler_returned s1 t \<longrightarrow>
          (\<exists>u. uninterrupt t = Some u \<and> (\<forall>i < 13. gp_regs (regs u) i = gp_regs (regs s) i)
             \<and> reg_sp (regs u) = reg_sp (regs s) \<and> reg_lr (regs u) = reg_lr (regs s) \<and> reg_pc (regs u) = reg_pc (regs s)
             \<and> cpsr (regs u) = cpsr (regs s) \<and> mem u = mem t))"
proof -
  let ?r = "let r = switch_mode m 0x12 (regs s) in r\<lparr>spsr := cpsr r, cpsr := irq_cpsr (cpsr (regs s))\<rparr>"
  let ?a = "ram_offset (align_addr 4 sp)"
  have sp: "sp = reg_sp ?r - 24" by (simp add: sp_def Let_def)
  obtain s1 where s1: "interrupt s = Some s1"
    and rg: "regs s1 = ?r\<lparr>spsr := set_thumb_bit (reg_pc ?r AND 1 = 1) (spsr ?r), reg_sp := sp, reg_lr := 0xFFF00000,
                 reg_pc := read_mem 4 (shm (mem s1)) (P_IWRAM_OFFSET + 0x7FFC)\<rparr>"
    and sh: "shm (mem s1) = block_store 4 ?a
        (\<lambda>i. [gp_regs ?r 0, gp_regs ?r 1, gp_regs ?r 2, gp_regs ?r 3, gp_regs ?r 12, reg_pc ?r + 4] ! i) 6 (shm (mem s))"
    using interrupt_state [OF assms(3,4) refl, folded m_def, OF sp assms(7)] by blast
  have pc: "reg_pc (switch_mode m 0x12 (regs s)) = reg_pc (regs s)" "cpsr (switch_mode m 0x12 (regs s)) = cpsr (regs s)"
    by simp_all
  have th: "(reg_pc (regs s) AND 1 = 1) = cpsr_thumb (cpsr (regs s))"
    using assms(8) by (simp add: and_one_eq odd_iff_mod_2_eq_one bit_0)
  have ret: "\<exists>u. uninterrupt t = Some u \<and> (\<forall>i < 13. gp_regs (regs u) i = gp_regs (regs s) i)
             \<and> reg_sp (regs u) = reg_sp (regs s) \<and> reg_lr (regs u) = reg_lr (regs s) \<and> reg_pc (regs u) = reg_pc (regs s)
             \<and> cpsr (regs u) = cpsr (regs s) \<and> mem u = mem t" if t: "handler_returned s1 t" for t
  proof -
    let ?vs = "[gp_regs ?r 0, gp_regs ?r 1, gp_regs ?r 2, gp_regs ?r 3, gp_regs ?r 12, reg_pc ?r + 4]"
    define q where "q = unstack ?vs (regs t)"
    have sp1: "reg_sp (regs s1) = sp" using rg by (simp add: Let_def)
    note tD = t [unfolded handler_returned_def Let_def sp1]
    have "read_mem 4 (shm (mem t)) (?a + i * 4) = ?vs ! i" if "i < 6" for i
    proof -
      have "read_mem 4 (shm (mem t)) (?a + i * 4) = read_mem 4 (shm (mem s1)) (?a + i * 4)"
        using tD that by (intro read_mem_cong) auto
      also have "\<dots> = ?vs ! i" unfolding sh using that by (subst read_block_store) (simp_all add: trunc_size_4)
      finally show ?thesis .
    qed
    from this [of 0] this [of 1] this [of 2] this [of 3] this [of 4] this [of 5]
    obtain u where u: "uninterrupt t = Some u" "mem u = mem t"
        "regs u = (switch_mode 0x12 (cpsr_mode (spsr (regs t))) q)\<lparr>cpsr := spsr (regs t)\<rparr>"
      using uninterrupt_regs [of t] tD assms(7) by (auto simp: q_def)
    have sps: "spsr (regs t) = cpsr (regs s)"
      using tD rg th by (simp add: Let_def set_thumb_id)
    have gp: "\<forall>i < 13. gp_regs q i = gp_regs (switch_mode m 0x12 (regs s)) i"
      using tD rg by (auto simp: q_def unstack_def Let_def)
    have "user q = user (switch_mode m 0x12 (regs s))" "fiq q = fiq (switch_mode m 0x12 (regs s))"
        "svc q = svc (switch_mode m 0x12 (regs s))" "abt q = abt (switch_mode m 0x12 (regs s))"
        "und q = und (switch_mode m 0x12 (regs s))"
      using tD rg by (simp_all add: q_def unstack_def Let_def)
    note bk = switch_mode_back [OF assms(5,6) this gp]
    have "reg_pc q = reg_pc (regs s)"
    proof -
      have "reg_pc q = (reg_pc (regs s) AND NOT 1) OR of_bool (cpsr_thumb (cpsr (regs s)))"
        by (simp only: q_def unstack_def Let_def sps) simp
      then show ?thesis unfolding th [symmetric] pc_thumb .
    qed
    then show ?thesis using u bk by (simp add: sps m_def [symmetric])
  qed
  show ?thesis using s1 rg ret by (auto simp: Let_def)
qed

text \<open>System mode, ARM state, with the stacks of the boot code.\<close>

definition irq_sample :: emu where
  "irq_sample = emu_mapped\<lparr>regs := thread_regs_default\<lparr>cpsr := 0x1F, reg_pc := 0x08000100, reg_sp := 0x03007F00,
     gp_regs := (\<lambda>i. of_nat i), irq := other_mode_default\<lparr>m_sp := 0x03007FA0\<rparr>\<rparr>\<rparr>"

theorem interrupt_transparent_witness:
  "\<exists>s1 u. interrupt irq_sample = Some s1 \<and> uninterrupt s1 = Some u \<and> reg_pc (regs u) = 0x08000100
     \<and> reg_sp (regs u) = 0x03007F00 \<and> gp_regs (regs u) 12 = 12 \<and> cpsr (regs u) = 0x1F"
proof -
  have r: "regs irq_sample = thread_regs_default\<lparr>cpsr := 0x1F, reg_pc := 0x08000100, reg_sp := 0x03007F00,
     gp_regs := (\<lambda>i. of_nat i), irq := other_mode_default\<lparr>m_sp := 0x03007FA0\<rparr>\<rparr>"
    by (simp add: irq_sample_def)
  have m: "cpsr_mode 0x1F = 0x1F" by (simp add: cpsr_mode_def field_def)
  have sw: "switch_mode 0x1F 0x12 (regs irq_sample) = (regs irq_sample)\<lparr>user := \<lparr>u_gp_regs = (\<lambda>_. 0), u_sp = 0x03007F00, u_lr = 0\<rparr>,
      reg_sp := 0x03007FA0, reg_lr := 0\<rparr>"
    by (simp add: switch_mode_def is_user_mode_def r thread_regs_default_def other_mode_default_def)
  have "jit emu_mapped = jit_init" by (simp add: emu_mapped_def mmu_update_all_def upd_mem_def emu_new_def)
  then have j: "jit_ok (jit irq_sample)" by (simp add: jit_ok_def jit_init_def irq_sample_def)
  have mm: "mmu_ok irq_sample" using emu_mapped_ok(1) by (simp add: irq_sample_def mmu_ok_def)
  have al: "align_addr 4 0x03007F88 = 0x03007F88" by (simp add: align_addr_def)
  have bl: "ram_block 4 (align_addr 4 0x03007F88) 6" by (simp add: al ram_block_def ram_len_def ram_region_def)
  have cp: "cpsr (regs irq_sample) = 0x1F" by (simp add: r)
  let ?r = "let r = switch_mode 0x1F 0x12 (regs irq_sample) in r\<lparr>spsr := cpsr r, cpsr := irq_cpsr 0x1F\<rparr>"
  have e: "\<exists>t. interrupt irq_sample = Some t \<and> cpu t = (cpu irq_sample)\<lparr>bios_open_bus := 0xE25EF004\<rparr> \<and> mmu_ok t"
    using interrupt_state [OF mm j refl refl] by (simp add: cp m sw bl) blast
  have w0: "bios_wait_flags (cpu irq_sample) = 0"
    by (simp add: irq_sample_def emu_mapped_def mmu_update_all_def upd_mem_def emu_new_def cpu_regs_new_def)
  have "\<exists>s1. interrupt irq_sample = Some s1 \<and> cpsr (regs s1) = irq_cpsr 0x1F \<and> (\<forall>t. handler_returned s1 t \<longrightarrow>
      (\<exists>u. uninterrupt t = Some u \<and> (\<forall>i < 13. gp_regs (regs u) i = gp_regs (regs irq_sample) i)
             \<and> reg_sp (regs u) = 0x03007F00 \<and> reg_pc (regs u) = 0x08000100 \<and> cpsr (regs u) = 0x1F))"
    using interrupt_transparent [of irq_sample, OF mm j] 
    unfolding cp m sw by (fastforce simp: valid_mode_def bl r cpsr_thumb_def)
  then obtain s1 where s1: "interrupt irq_sample = Some s1" "cpsr (regs s1) = irq_cpsr 0x1F" "\<forall>t. handler_returned s1 t \<longrightarrow>
      (\<exists>u. uninterrupt t = Some u \<and> (\<forall>i < 13. gp_regs (regs u) i = gp_regs (regs irq_sample) i)
             \<and> reg_sp (regs u) = 0x03007F00 \<and> reg_pc (regs u) = 0x08000100 \<and> cpsr (regs u) = 0x1F)"
    by blast
  moreover have "handler_returned s1 s1"
    using e s1(1,2) w0 by (auto simp: handler_returned_def Let_def)
  ultimately show ?thesis by (fastforce simp: r)
qed

section \<open>Block copies\<close>

lemma copy_element_ram:
  assumes "ram_block sz a n" "ram_block sz b n" "i < n" "mmu_ok t" "jit_ok (jit t)"
  shows "\<exists>t'. copy_element sz fill a b i t = Some t'
    \<and> stored sz (b + of_nat (i * sz)) (read_mem sz (shm (mem t)) (ram_offset a + (if fill then 0 else i) * sz)) t t'"
proof -
  define c where "c = (if fill then a else a + of_nat (i * sz))"
  have n: "0 < n" using assms(3) by simp
  have c: "align_addr sz c = c" "ram_region c \<in> {2, 3}" "ram_offset c = ram_offset a + (if fill then 0 else i) * sz"
    using ram_block_elem [OF assms(1,3)] ram_block_elem [OF assms(1) n] align_ram_elem [OF assms(1,3)] align_ram_elem [OF assms(1) n]
    by (auto simp: c_def simp del: of_nat_mult)
  have b: "align_addr sz (b + of_nat (i * sz)) = b + of_nat (i * sz)" by (rule align_ram_elem [OF assms(2,3)])
  have sz: "sz \<in> {1, 2, 4}" using assms(1) by (simp add: ram_block_def)
  have "mem_read sz c t = (read_mem sz (shm (mem t)) (ram_offset c), t)"
    using mem_read_ram [OF assms(4), of sz c] c by simp
  moreover obtain t' where "mem_write sz (b + of_nat (i * sz)) (read_mem sz (shm (mem t)) (ram_offset c)) t = Some t'"
      "stored sz (b + of_nat (i * sz)) (read_mem sz (shm (mem t)) (ram_offset c)) t t'"
    by (rule mem_write_ram [OF sz assms(4,5), of "b + of_nat (i * sz)"])
      (use b ram_block_elem [OF assms(2,3)] in \<open>simp_all del: of_nat_mult\<close>)
  ultimately show ?thesis unfolding copy_element_def c_def [symmetric] c(3) by (auto simp: Let_def)
qed

lemma copy_loop_ram:
  assumes "ram_block sz a n" "ram_block sz b n" "mmu_ok s" "jit_ok (jit s)"
    and disj: "ram_offset a + n * sz \<le> ram_offset b \<or> ram_offset b + n * sz \<le> ram_offset a"
  shows "\<exists>s'. foldM (copy_element sz fill a b) [0..<n] s = Some s'
    \<and> block_stored sz b (\<lambda>i. read_mem sz (shm (mem s)) (ram_offset a + (if fill then 0 else i) * sz)) n s s'"
proof (rule foldM_block_stored [OF assms(2-4)])
  fix i t
  let ?f = "\<lambda>i. read_mem sz (shm (mem s)) (ram_offset a + (if fill then 0 else i) * sz)"
  assume i: "i < n" and t: "block_stored sz b ?f i s t"
  have sz: "sz \<in> {1, 2, 4}" using assms(1) by (simp add: ram_block_def)
  have le: "Suc i * sz \<le> n * sz" "i * sz \<le> n * sz" using i by (intro mult_le_mono1, simp)+
  have "read_mem sz (shm (mem t)) (ram_offset a + (if fill then 0 else i) * sz) = ?f i"
  proof -
    have "read_mem sz (block_store sz (ram_offset b) ?f i (shm (mem s))) (ram_offset a + k * sz) = read_mem sz (shm (mem s)) (ram_offset a + k * sz)"
      if "Suc k * sz \<le> n * sz" for k
      using disj le that by (intro read_block_store_other [OF sz]) auto
    moreover have "Suc (if fill then 0 else i) * sz \<le> n * sz" using i by (intro mult_le_mono1) simp
    ultimately show ?thesis using t by (simp add: block_stored_def)
  qed
  then show "\<exists>t'. copy_element sz fill a b i t = Some t' \<and> stored sz (b + of_nat (i * sz)) (?f i) t t'"
    using copy_element_ram [OF assms(1,2) i, of t fill] t by (auto simp: block_stored_def)
qed

text \<open>
  The memory-set calls. \<open>CpuSet\<close> with a count of \<open>n\<close> halfwords or words, between runs of main memory
  that do not overlap, gives every destination element the value of the corresponding source element
  (of the first one, when it fills) and changes no other byte and no register; \<open>CpuFastSet\<close> is the same
  call at word size, whatever size bit it is given.
\<close>

theorem cpu_set_copies:
  fixes s
  defines "w \<equiv> reg 2 s" and "a \<equiv> reg 0 s" and "b \<equiv> reg 1 s"
  defines "n \<equiv> unat (w AND 0x1FFFFF)" and "fill \<equiv> bit w 24" and "sz \<equiv> (if bit w 26 then 4 else 2 :: nat)"
  assumes "mmu_ok s" "jit_ok (jit s)" "ram_block sz a n" "ram_block sz b n"
    and "ram_offset a + n * sz \<le> ram_offset b \<or> ram_offset b + n * sz \<le> ram_offset a"
  shows "\<exists>s'. cpu_set s = Some s'
    \<and> (\<forall>i < n. read_mem sz (shm (mem s')) (ram_offset b + i * sz)
              = read_mem sz (shm (mem s)) (ram_offset a + (if fill then 0 else i) * sz))
    \<and> (\<forall>k. k < ram_offset b \<or> ram_offset b + n * sz \<le> k \<longrightarrow> shm (mem s') k = shm (mem s) k)
    \<and> regs s' = regs s \<and> (sz = 4 \<longrightarrow> cpu_fast_set s = Some s')"
proof -
  have sz: "sz \<in> {1, 2, 4}" by (simp add: sz_def)
  have fl: "(w AND push_bit k 1 \<noteq> 0) = bit w k" for k using and_bit_eq_0_iff [of w k] by blast
  obtain s' where s': "foldM (copy_element sz fill a b) [0..<n] s = Some s'"
      "block_stored sz b (\<lambda>i. read_mem sz (shm (mem s)) (ram_offset a + (if fill then 0 else i) * sz)) n s s'"
    using copy_loop_ram [OF assms(9,10,7,8,11), of fill] by blast
  have "cpu_set s = Some s'"
    using s'(1) unfolding cpu_set_def Let_def w_def [symmetric] a_def [symmetric] b_def [symmetric] fl
      n_def [symmetric] fill_def [symmetric] sz_def [symmetric] .
  moreover have "cpu_fast_set s = Some s'" if "sz = 4"
  proof -
    have "w AND 0x1FFFFF = w AND mask 21" by (simp add: mask_eq_exp_minus_1)
    then have "n < 2 ^ 21" unfolding n_def by (simp only: unat_and_mask) simp
    then have "unat (push_bit 2 (w AND 0x1FFFFF)) div 4 = n"
      by (simp add: push_bit_eq_mult unat_word_ariths n_def)
    then show ?thesis
      using s'(1) that unfolding cpu_fast_set_def Let_def w_def [symmetric] a_def [symmetric] b_def [symmetric] fl
      by (simp add: fill_def)
  qed
  ultimately show ?thesis using s'(2)
    by (auto simp: block_stored_def read_block_store [OF sz] trunc_read_mem [OF sz] block_store_outside ram_frameD [of s s'])
qed

definition set_sample :: emu where
  "set_sample = upd_reg 2 0x05000008 (upd_reg 1 0x02000100 (upd_reg 0 0x03000010 emu_mapped))"

theorem cpu_set_copies_witness:
  "\<exists>s'. cpu_set set_sample = Some s' \<and> cpu_fast_set set_sample = Some s'
     \<and> read_mem 4 (shm (mem s')) (P_EWRAM_OFFSET + 0x11C) = read_mem 4 (shm (mem set_sample)) (P_IWRAM_OFFSET + 0x10)"
proof -
  have r: "reg 0 set_sample = 0x03000010" "reg 1 set_sample = 0x02000100" "reg 2 set_sample = 0x05000008"
    by (simp_all add: set_sample_def reg_def upd_reg_def upd_regs_def get_reg_def set_reg_def)
  have "jit emu_mapped = jit_init" by (simp add: emu_mapped_def mmu_update_all_def upd_mem_def emu_new_def)
  then have j: "jit_ok (jit set_sample)" by (simp add: jit_ok_def jit_init_def set_sample_def upd_reg_def upd_regs_def)
  have m: "mmu_ok set_sample" using emu_mapped_ok(1) by (simp add: set_sample_def mmu_ok_def upd_reg_def upd_regs_def)
  have b: "ram_block 4 0x03000010 8" "ram_block 4 0x02000100 8" "ram_offset 0x02000100 = P_EWRAM_OFFSET + 0x100"
      "ram_offset 0x03000010 = P_IWRAM_OFFSET + 0x10" "P_EWRAM_OFFSET + 0x100 + 8 * 4 \<le> P_IWRAM_OFFSET + 0x10"
    by (simp_all add: ram_block_def ram_len_def ram_region_def ram_offset_def P_IWRAM_OFFSET_def EWRAM_SIZE_def)
  have w: "unat (0x05000008 AND 0x1FFFFF :: u32) = 8" "bit (0x05000008 :: u32) 24" "bit (0x05000008 :: u32) 26" by simp_all
  from cpu_set_copies [of set_sample, OF m j, unfolded r w(1)] obtain s' where
    "cpu_set set_sample = Some s'" "cpu_fast_set set_sample = Some s'"
    "\<forall>i < 8. read_mem 4 (shm (mem s')) (P_EWRAM_OFFSET + 0x100 + i * 4) = read_mem 4 (shm (mem set_sample)) (P_IWRAM_OFFSET + 0x10)"
    using w b by auto
  moreover from this(3) have "read_mem 4 (shm (mem s')) (P_EWRAM_OFFSET + 0x100 + 7 * 4) = read_mem 4 (shm (mem set_sample)) (P_IWRAM_OFFSET + 0x10)"
    by (rule allE [where x = 7]) simp
  ultimately show ?thesis by (auto simp: add.commute)
qed

section \<open>Decompression\<close>

lemma ucast_ucast_u8: "ucast (ucast w :: u32) = (w :: u8)"
  by (rule bit_word_eqI) (simp add: bit_ucast_iff)

lemma ram_len_even: "unat a mod ram_len a mod 2 = unat a mod 2"
  by (simp add: ram_len_def mod_mod_cancel)

lemma ram_halfword:
  assumes "ram_region a \<in> {2, 3}"
  defines "h \<equiv> a AND NOT 1"
  shows "align_addr 2 h = h" "ram_region h = ram_region a" "ram_offset a = ram_offset h + unat a mod 2" "unat h mod 2 = 0"
proof -
  have u: "unat h = unat a div 2 * 2" unfolding h_def using unat_and_not_mask [of a 1] by (simp add: mask_eq_exp_minus_1)
  then show m: "unat h mod 2 = 0" by simp
  have lt: "unat a < 0x4000000" by (rule ram_addr_less [OF assms(1)])
  then show "align_addr 2 h = h" using u m by (intro align_addr_id) auto
  show r: "ram_region h = ram_region a"
    using u div_split_page [of "unat a" 2 "0x800000"] by (simp add: ram_region_def)
  have l: "ram_len a = 2 * (ram_len a div 2)" "ram_len h = ram_len a" using r by (simp_all add: ram_len_def)
  then have "unat h mod ram_len a + unat a mod 2 = unat a mod ram_len a"
    using mod_split_page [of "unat a" 2 "ram_len a div 2"] u by simp
  then show "ram_offset a = ram_offset h + unat a mod 2" using l(2) r by (simp add: ram_offset_len)
qed

lemma merge_halfword:
  fixes v :: u8
  assumes "b < 2"
  shows "write_mem 2 p (ucast (((ucast (read_mem 2 m p) :: u16) AND NOT (push_bit (8 * b) 0xFF)) OR push_bit (8 * b) (ucast v))) m
    = m(p + b := v)"
proof (rule ext)
  fix k
  let ?c = "ucast (read_mem 2 m p) :: u16" and ?F = "(0xFF :: u16)"
  let ?n = "(?c AND NOT (push_bit (8 * b) ?F)) OR push_bit (8 * b) (ucast v)"
  have F: "?F = mask 8" by (simp add: mask_eq_exp_minus_1)
  have "ucast (drop_bit (8 * j) (ucast ?n :: u32)) = (if j = b then v else m (p + j))" if j: "j < 2" for j
  proof (rule bit_word_eqI)
    fix n assume "n < LENGTH(8)"
    then have n: "n < 8" "8 * j + n < 16" "(8 * j + n) div 8 = j" "(8 * j + n) mod 8 = n" using j by simp_all
    have rb: "bit (read_mem 2 m p) (8 * j + n) = bit (m (p + j)) n" using n read_mem_bit [of 2 m p "8 * j + n"] by simp
    have lhs: "bit (ucast (drop_bit (8 * j) (ucast ?n :: u32)) :: u8) n = bit ?n (8 * j + n)"
      using n by (simp add: bit_ucast_iff bit_drop_bit_eq)
    consider "j = b" | "8 * j + n < 8 * b" "j \<noteq> b" | "8 * b + 8 \<le> 8 * j + n" "j \<noteq> b" using n(1) by linarith
    then show "bit (ucast (drop_bit (8 * j) (ucast ?n :: u32)) :: u8) n = bit (if j = b then v else m (p + j)) n"
    proof cases
      case 1
      then show ?thesis unfolding lhs unfolding F using n
        by (simp add: bit_or_iff bit_and_iff bit_not_iff bit_push_bit_iff bit_mask_iff bit_ucast_iff)
    next
      case 2
      then show ?thesis unfolding lhs unfolding F using n rb
        by (simp add: bit_or_iff bit_and_iff bit_not_iff bit_push_bit_iff bit_mask_iff bit_ucast_iff)
    next
      case 3
      moreover have "\<not> bit v (8 * j + n - 8 * b)" using 3 bit_imp_le_length [of v "8 * j + n - 8 * b"] by auto
      ultimately show ?thesis unfolding lhs unfolding F using n rb
        by (auto simp: bit_or_iff bit_and_iff bit_not_iff bit_push_bit_iff bit_mask_iff bit_ucast_iff)
    qed
  qed
  then show "write_mem 2 p (ucast ?n) m k = (m(p + b := v)) k"
    using assms by (auto simp: write_mem_def le_less_Suc_eq dest!: le_Suc_ex)
qed

text \<open>A run of bytes put into memory, and what the state is after it.\<close>

definition put_bytes :: "nat \<Rightarrow> u8 list \<Rightarrow> (nat \<Rightarrow> u8) \<Rightarrow> nat \<Rightarrow> u8" where
  "put_bytes p xs m = (\<lambda>k. if p \<le> k \<and> k < p + length xs then xs ! (k - p) else m k)"

lemma put_bytes_snoc: "(put_bytes p xs m)(p + length xs := v) = put_bytes p (xs @ [v]) m"
  by (auto simp: put_bytes_def nth_append fun_eq_iff)

definition bytes_stored :: "u32 \<Rightarrow> u8 list \<Rightarrow> emu \<Rightarrow> emu \<Rightarrow> bool" where
  "bytes_stored b xs s s' \<longleftrightarrow> shm (mem s') = put_bytes (ram_offset b) xs (shm (mem s))
     \<and> ram_frame s s' \<and> mmu_ok s' \<and> jit_ok (jit s')"

lemma uncomp_write_byte_ram:
  assumes "ram_region a \<in> {2, 3}" "mmu_ok s" "jit_ok (jit s)"
  shows "\<exists>s'. uncomp_write_byte a v s = Some s' \<and> shm (mem s') = (shm (mem s))(ram_offset a := v)
    \<and> ram_frame s s' \<and> mmu_ok s' \<and> jit_ok (jit s')"
proof -
  let ?h = "a AND NOT 1"
  note h = ram_halfword [OF assms(1)]
  let ?c = "ucast (read_mem 2 (shm (mem s)) (ram_offset ?h)) :: u16" and ?sh = "8 * unat (a AND 1)"
  let ?new = "(?c AND NOT (push_bit ?sh 0xFF)) OR push_bit ?sh (ucast v)"
  have r: "ram_region ?h \<in> {2, 3}" using assms(1) h(2) by simp
  have rd: "mem_read 2 ?h s = (read_mem 2 (shm (mem s)) (ram_offset ?h), s)"
    using mem_read_ram [OF assms(2), of 2 ?h] r h(1) by simp
  obtain s' where s': "mem_write 2 ?h (ucast ?new) s = Some s'" "stored 2 ?h (ucast ?new) s s'"
    by (rule mem_write_ram [OF _ assms(2,3), of 2 ?h]) (use r h in simp_all)
  have b: "unat (a AND 1) = unat a mod 2" using unat_and_mask [of a 1] by (simp add: mask_eq_exp_minus_1)
  have "shm (mem s') = (shm (mem s))(ram_offset a := v)"
    using s'(2) merge_halfword [of "unat a mod 2" "ram_offset ?h" "shm (mem s)" v] by (simp add: stored_def b h(3))
  moreover have "uncomp_write_byte a v s = Some s'"
    unfolding uncomp_write_byte_def Let_def rd prod.case by (rule s'(1))
  ultimately show ?thesis using s'(2) by (auto simp: stored_def)
qed

lemma ram_byte:
  assumes "ram_block 1 a n" "i < n"
  shows "ram_region (a + of_nat i) \<in> {2, 3}" "ram_offset (a + of_nat i) = ram_offset a + i"
  using ram_block_elem(5,3) [OF assms] by simp_all

lemma write_next_byte:
  assumes "bytes_stored b xs s t" "ram_block 1 b n" "length xs < n"
  shows "\<exists>t'. uncomp_write_byte (b + of_nat (length xs)) v t = Some t' \<and> bytes_stored b (xs @ [v]) s t'"
proof -
  have "mmu_ok t" "jit_ok (jit t)" using assms(1) by (simp_all add: bytes_stored_def)
  from uncomp_write_byte_ram [OF ram_byte(1) [OF assms(2,3)] this, of v] ram_byte(2) [OF assms(2,3)] assms(1)
  show ?thesis by (auto simp: bytes_stored_def put_bytes_snoc intro: ram_frame_trans)
qed

lemma read_u8_ram:
  assumes "ram_block 1 a n" "i < n" "mmu_ok t"
  shows "read_u8 (a + of_nat i) t = (shm (mem t) (ram_offset a + i), t)"
proof -
  have "align_addr 1 (a + of_nat i) = a + of_nat i" using align_ram_elem [OF assms(1,2)] by simp
  then have "mem_read 1 (a + of_nat i) t = (read_mem 1 (shm (mem t)) (ram_offset a + i), t)"
    using mem_read_ram [OF assms(3), of 1 "a + of_nat i"] ram_byte [OF assms(1,2)] by simp
  then show ?thesis by (simp add: read_u8_def read_mem_def ucast_ucast_u8)
qed

text \<open>The compressed data \<open>xs\<close> lies from byte \<open>src\<close> of the source run on; the output run is disjoint.\<close>

definition source_holds :: "u32 \<Rightarrow> nat \<Rightarrow> u8 list \<Rightarrow> emu \<Rightarrow> bool" where
  "source_holds a src xs s \<longleftrightarrow> (\<forall>j < length xs. shm (mem s) (ram_offset a + src + j) = xs ! j)"

text \<open>The \<open>m\<close> bytes read and the \<open>n\<close> bytes written lie in main memory and do not overlap.\<close>

definition decomp_runs :: "u32 \<Rightarrow> nat \<Rightarrow> u32 \<Rightarrow> nat \<Rightarrow> bool" where
  "decomp_runs a m b n \<longleftrightarrow> ram_block 1 a m \<and> ram_block 1 b n
     \<and> (ram_offset a + m \<le> ram_offset b \<or> ram_offset b + n \<le> ram_offset a)"

lemma read_source:
  assumes runs: "decomp_runs a m b n" and "bytes_stored b out s t" "length out \<le> n" "source_holds a src xs s" "src + length xs \<le> m" "j < length xs"
  shows "read_u8 (a + of_nat (src + j)) t = (xs ! j, t)"
proof -
  have "src + j < m" using assms(5,6) by simp
  moreover have "mmu_ok t" using assms(2) by (simp add: bytes_stored_def)
  moreover have "shm (mem t) (ram_offset a + (src + j)) = xs ! j"
    using assms by (auto simp: decomp_runs_def bytes_stored_def put_bytes_def source_holds_def add.assoc)
  ultimately show ?thesis using read_u8_ram [of a m "src + j" t] runs by (simp add: decomp_runs_def)
qed

lemma write_bytes:
  assumes "bytes_stored b out s t" "ram_block 1 b n" "length out + length vs \<le> n"
    and "\<And>i t. i < length vs \<Longrightarrow> bytes_stored b (out @ take i vs) s t \<Longrightarrow>
      g i t = uncomp_write_byte (b + of_nat (length out) + of_nat i) (vs ! i) t"
  shows "\<exists>t'. foldM g [0..<length vs] t = Some t' \<and> bytes_stored b (out @ vs) s t'"
proof -
  have "\<exists>t'. foldM g [0..<k] t = Some t' \<and> bytes_stored b (out @ take k vs) s t'" if "k \<le> length vs" for k
    using that
  proof (induction k)
    case (Suc k)
    then obtain u where u: "foldM g [0..<k] t = Some u" "bytes_stored b (out @ take k vs) s u" by auto
    have "b + of_nat (length out) + of_nat k = b + of_nat (length (out @ take k vs))" using Suc.prems by (simp add: add.assoc)
    then obtain u' where "g k u = Some u'" "bytes_stored b ((out @ take k vs) @ [vs ! k]) s u'"
      using write_next_byte [OF u(2) assms(2), of "vs ! k"] assms(3) assms(4) [OF _ u(2)] Suc.prems by auto
    then show ?case using u(1) Suc.prems by (auto simp: foldM_upt_Suc take_Suc_conv_app_nth simp del: upt_Suc)
  qed (use assms(1) in simp)
  then show ?thesis by force
qed

section \<open>Run length\<close>

text \<open>The reference decoder on a byte list: \<open>n\<close> is the number of bytes still to produce. A block may
  run past the end, as in the code; \<open>None\<close> is input that ends too early.\<close>

function rl_decode :: "nat \<Rightarrow> u8 list \<Rightarrow> u8 list option" where
  "rl_decode n xs =
     (if n = 0 then Some []
      else case xs of
        [] \<Rightarrow> None
      | f # ys \<Rightarrow>
          (let k = unat (f AND 0x7F) in
           if bit f 7 then
             (case ys of [] \<Rightarrow> None
              | v # zs \<Rightarrow> map_option ((@) (replicate (k + 3) v)) (rl_decode (n - (k + 3)) zs))
           else if length ys < k + 1 then None
           else map_option ((@) (take (k + 1) ys)) (rl_decode (n - (k + 1)) (drop (k + 1) ys))))"
  by auto
termination by (relation "measure fst") auto

declare rl_decode.simps [simp del]

lemma source_holds_drop:
  "source_holds a src xs s \<Longrightarrow> k \<le> length xs \<Longrightarrow> source_holds a (src + k) (drop k xs) s"
  by (auto simp: source_holds_def add.assoc)

lemma bit_7_and: "((f :: u8) AND 0x80 = 0) = (\<not> bit f 7)"
  using and_bit_eq_0_iff [of f 7] by (simp add: push_bit_eq_mult)

lemma rl_run_stored:
  assumes "bytes_stored b out s t" "ram_block 1 b n" "length out + k \<le> n"
  shows "\<exists>u. rl_run b (length out) k v t = Some u \<and> bytes_stored b (out @ replicate k v) s u"
  using write_bytes [OF assms(1,2), of "replicate k v" "\<lambda>i. uncomp_write_byte (b + of_nat (length out) + of_nat i) v"] assms(3)
  by (simp add: rl_run_def)

lemma rl_literal_stored:
  assumes runs: "decomp_runs a m b n" and "bytes_stored b out s t" "source_holds a src vs s" "src + length vs \<le> m"
    and "length out + length vs \<le> n"
  shows "\<exists>u. rl_literal a b src (length out) (length vs) t = Some u \<and> bytes_stored b (out @ vs) s u"
proof -
  let ?g = "\<lambda>i t. let (v, t) = read_u8 (a + of_nat src + of_nat i) t
                  in uncomp_write_byte (b + of_nat (length out) + of_nat i) v t"
  have "?g i u = uncomp_write_byte (b + of_nat (length out) + of_nat i) (vs ! i) u"
    if "i < length vs" "bytes_stored b (out @ take i vs) s u" for i u
  proof -
    have "read_u8 (a + of_nat (src + i)) u = (vs ! i, u)"
      using that assms(5) by (intro read_source [OF runs that(2) _ assms(3,4)]) auto
    then show ?thesis by (simp add: add.assoc)
  qed
  then show ?thesis
    using write_bytes [OF assms(2) _ assms(5), where g = ?g] runs by (simp add: decomp_runs_def rl_literal_def)
qed

text \<open>The loop continues the output from any point as the reference decoder does.\<close>

lemma rl_loop_decodes:
  assumes runs: "decomp_runs a m b n"
  shows "rl_decode k xs = Some rest \<Longrightarrow> k = out_len - length out \<Longrightarrow> source_holds a src xs s \<Longrightarrow> src + length xs \<le> m
    \<Longrightarrow> length out + length rest \<le> n \<Longrightarrow> bytes_stored b out s t \<Longrightarrow>
    \<exists>t'. rl_loop out_len a b src (length out) t = Some t' \<and> bytes_stored b (out @ rest) s t'"
proof (induction k xs arbitrary: rest out src t rule: rl_decode.induct)
  case (1 k xs)
  have dst: "ram_block 1 b n" using runs by (simp add: decomp_runs_def)
  show ?case
  proof (cases "k = 0")
    case True
    then show ?thesis using "1.prems" by (simp add: rl_decode.simps [of 0] rl_loop.simps [of out_len])
  next
    case False
    then obtain f ys where xs: "xs = f # ys"
      using "1.prems"(1) by (cases xs) (auto simp: rl_decode.simps [of k])
    define low where "low = unat (f AND 0x7F)"
    have rf: "read_u8 (a + of_nat src) t = (f, t)"
      using read_source [OF runs "1.prems"(6) _ "1.prems"(3,4), of 0] "1.prems"(5) by (simp add: xs)
    show ?thesis
    proof (cases "bit f 7")
      case run: True
      then obtain v zs rest' where ys: "ys = v # zs" "rl_decode (k - (low + 3)) zs = Some rest'"
          "rest = replicate (low + 3) v @ rest'"
        using "1.prems"(1) False by (auto simp: rl_decode.simps [of k] xs Let_def low_def split: list.splits)
      have rv: "read_u8 (a + of_nat (src + 1)) t = (v, t)"
        using read_source [OF runs "1.prems"(6) _ "1.prems"(3,4), of 1] "1.prems"(5) by (simp add: xs ys(1))
      obtain u where u: "rl_run b (length out) (low + 3) v t = Some u" "bytes_stored b (out @ replicate (low + 3) v) s u"
        using rl_run_stored [OF "1.prems"(6) dst, of "low + 3" v] "1.prems"(5) ys(3) by auto
      have "\<exists>t'. rl_loop out_len a b (src + 2) (length (out @ replicate (low + 3) v)) u = Some t'
          \<and> bytes_stored b ((out @ replicate (low + 3) v) @ rest') s t'"
        by (rule "1.IH" (1) [OF False xs refl run ys(1)])
          (use ys "1.prems" u(2) source_holds_drop [OF "1.prems"(3), of 2] in \<open>simp_all add: xs low_def\<close>)
      then show ?thesis
        using False "1.prems"(2) rf rv u(1) run ys(3)
        by (auto simp: rl_loop.simps [of out_len a b src] Let_def low_def bit_7_and simp del: replicate_Suc)
    next
      case lit: False
      let ?vs = "take (low + 1) ys"
      obtain rest' where ys: "low + 1 \<le> length ys" "rl_decode (k - (low + 1)) (drop (low + 1) ys) = Some rest'"
          "rest = ?vs @ rest'"
        using "1.prems"(1) False lit by (auto simp: rl_decode.simps [of k] xs Let_def low_def split: if_splits)
      have len: "length ?vs = low + 1" using ys(1) by simp
      have "source_holds a (src + 1) ?vs s" using "1.prems"(3) by (auto simp: source_holds_def xs)
      then obtain u where u: "rl_literal a b (src + 1) (length out) (low + 1) t = Some u" "bytes_stored b (out @ ?vs) s u"
        using rl_literal_stored [OF runs "1.prems"(6), of "src + 1" ?vs] "1.prems"(4,5) ys(1,3) len by (auto simp: xs)
      have "\<exists>t'. rl_loop out_len a b (src + (low + 2)) (length (out @ ?vs)) u = Some t' \<and> bytes_stored b ((out @ ?vs) @ rest') s t'"
        by (rule "1.IH" (2) [OF False xs refl lit])
          (use ys "1.prems" u(2) len source_holds_drop [OF "1.prems"(3), of "low + 2"] in \<open>simp_all add: xs low_def\<close>)
      then show ?thesis
        using False "1.prems"(2) rf u(1) lit ys(3) len
        by (auto simp: rl_loop.simps [of out_len a b src] Let_def low_def bit_7_and)
    qed
  qed
qed

text \<open>What both decompression calls assume: the 32-bit header at r0 with the output length in its upper
  24 bits, the compressed data \<open>xs\<close> behind it, room for \<open>n\<close> bytes at r1.\<close>

definition decomp_input :: "u8 list \<Rightarrow> nat \<Rightarrow> emu \<Rightarrow> bool" where
  "decomp_input xs n s \<longleftrightarrow> mmu_ok s \<and> jit_ok (jit s) \<and> unat (reg 0 s) mod 4 = 0
     \<and> decomp_runs (reg 0 s) (4 + length xs) (reg 1 s) n \<and> source_holds (reg 0 s) 4 xs s"

definition decomp_len :: "emu \<Rightarrow> nat" where
  "decomp_len s = unat (drop_bit 8 (read_mem 4 (shm (mem s)) (ram_offset (reg 0 s))))"

lemma decomp_header:
  assumes "decomp_input xs n s"
  shows "mem_read 4 (reg 0 s) s = (read_mem 4 (shm (mem s)) (ram_offset (reg 0 s)), s)"
proof -
  have r: "ram_region (reg 0 s) \<in> {2, 3}" using assms by (simp add: decomp_input_def decomp_runs_def ram_block_def)
  have "align_addr 4 (reg 0 s) = reg 0 s"
    using assms ram_addr_less [OF r] by (intro align_addr_id) (simp_all add: decomp_input_def)
  then show ?thesis using mem_read_ram [of s 4 "reg 0 s"] r assms by (simp add: decomp_input_def)
qed

lemma bytes_stored_start: "mmu_ok s \<Longrightarrow> jit_ok (jit s) \<Longrightarrow> bytes_stored b [] s s"
  by (auto simp: bytes_stored_def put_bytes_def fun_eq_iff)

text \<open>
  Run-length decompression. When the reference decoder, given the length in the header, decodes
  the data behind it to \<open>out\<close>, the call returns (so its loop ends) and the output area holds exactly
  \<open>out\<close>; no other byte of memory and no register changes. The bytes are written through 16-bit
  read-modify-write cycles at odd and even addresses alike.
\<close>

theorem runlen_decodes:
  assumes "decomp_input xs (length out) s" "rl_decode (decomp_len s) xs = Some out"
  shows "\<exists>s'. runlen_uncomp s = Some s' \<and> shm (mem s') = put_bytes (ram_offset (reg 1 s)) out (shm (mem s))
    \<and> regs s' = regs s"
proof -
  have ok: "decomp_runs (reg 0 s) (4 + length xs) (reg 1 s) (length out)" "source_holds (reg 0 s) 4 xs s"
      "bytes_stored (reg 1 s) [] s s"
    using assms(1) by (simp_all add: decomp_input_def bytes_stored_start)
  obtain s' where "rl_loop (decomp_len s) (reg 0 s) (reg 1 s) 4 0 s = Some s'" "bytes_stored (reg 1 s) out s s'"
    using rl_loop_decodes [OF ok(1) assms(2), of _ "[]", OF _ ok(2) _ _ ok(3)] by auto
  then show ?thesis
    by (auto simp: runlen_uncomp_def decomp_header [OF assms(1)] decomp_len_def bytes_stored_def ram_frameD [of s s'])
qed

section \<open>LZ77\<close>

text \<open>The reference decoder: a back-reference copies \<open>k\<close> bytes one by one from \<open>off\<close> bytes before the
  end, so it may read what it has just written; a reference before the start is an error.\<close>

fun lz_copy :: "nat \<Rightarrow> nat \<Rightarrow> u8 list \<Rightarrow> u8 list" where
  "lz_copy 0 off out = out"
| "lz_copy (Suc k) off out = lz_copy k off (out @ [out ! (length out - off)])"

definition lz_offset :: "u8 \<Rightarrow> u8 \<Rightarrow> nat" where
  "lz_offset v1 v2 = 1 + 256 * (unat v1 mod 16) + unat v2"

text \<open>The items one flag byte announces; \<open>True\<close> when the output reached \<open>n\<close> bytes before an item.\<close>

fun lz_group :: "bool list \<Rightarrow> nat \<Rightarrow> u8 list \<Rightarrow> u8 list \<Rightarrow> (bool \<times> u8 list \<times> u8 list) option" where
  "lz_group [] n out xs = Some (False, out, xs)"
| "lz_group (f # fs) n out xs =
     (if n \<le> length out then Some (True, out, xs)
      else if f then
        (case xs of
           v1 # v2 # ys \<Rightarrow>
             (if length out < lz_offset v1 v2 then None
              else lz_group fs n (lz_copy (3 + unat v1 div 16) (lz_offset v1 v2) out) ys)
         | _ \<Rightarrow> None)
      else (case xs of v # ys \<Rightarrow> lz_group fs n (out @ [v]) ys | [] \<Rightarrow> None))"

lemma length_lz_copy [simp]: "length (lz_copy k off out) = length out + k"
  by (induction k arbitrary: out) simp_all

lemma lz_group_shape:
  "lz_group fs n out xs = Some (fin, out', xs') \<Longrightarrow>
     length out \<le> length out' \<and> (\<exists>j \<le> length xs. xs' = drop j xs)"
proof (induction fs n out xs arbitrary: fin out' xs' rule: lz_group.induct)
  case (2 f fs n out xs)
  consider "n \<le> length out" | v1 v2 ys where "\<not> n \<le> length out" "f" "xs = v1 # v2 # ys" "\<not> length out < lz_offset v1 v2"
    | v ys where "\<not> n \<le> length out" "\<not> f" "xs = v # ys"
    using "2.prems" by (auto split: if_splits list.splits)
  then show ?case
  proof cases
    case 1
    then show ?thesis using "2.prems" by (auto intro: exI [of _ 0])
  next
    case (2 v1 v2 ys)
    with "2.IH"(1) [OF 2(1,2,3) refl 2(4), of fin out' xs'] "2.prems"
    obtain j where "j \<le> length ys" "xs' = drop j ys" "length out \<le> length out'" by auto
    then show ?thesis using 2(3) by (auto intro!: exI [of _ "Suc (Suc j)"])
  next
    case (3 v ys)
    with "2.IH"(2) [OF 3, of fin out' xs'] "2.prems"
    obtain j where "j \<le> length ys" "xs' = drop j ys" "length out \<le> length out'" by auto
    then show ?thesis using 3(3) by (auto intro!: exI [of _ "Suc j"])
  qed
qed (auto intro: exI [of _ 0])

definition flag_bits :: "u8 \<Rightarrow> bool list" where
  "flag_bits f = map (\<lambda>j. bit f (7 - j)) [0..<8]"

function lz_decode :: "nat \<Rightarrow> u8 list \<Rightarrow> u8 list \<Rightarrow> u8 list option" where
  "lz_decode n out xs =
     (case xs of
        [] \<Rightarrow> None
      | f # ys \<Rightarrow>
          (case lz_group (flag_bits f) n out ys of
             None \<Rightarrow> None
           | Some (fin, out, zs) \<Rightarrow> if fin then Some out else lz_decode n out zs))"
  by auto
termination
  by (relation "measure (\<lambda>(n, out, xs). length xs)") (auto dest!: lz_group_shape)

declare lz_decode.simps [simp del]

lemma lz_token:
  fixes v1 v2 :: u8
  shows "1 + push_bit 8 (ucast v1 AND 0xF) + ucast v2 = (of_nat (lz_offset v1 v2) :: u32)"
    "unat (drop_bit 4 v1 AND 0xF) = unat v1 div 16"
proof -
  have "unat (ucast v1 AND 0xF :: u32) = unat v1 mod 16"
    using unat_and_mask [of "ucast v1 :: u32" 4]
    by (simp add: mask_eq_exp_minus_1 unsigned_ucast_eq take_bit_eq_mod mod_mod_cancel)
  then have "(ucast v1 AND 0xF :: u32) = of_nat (unat v1 mod 16)" by (metis of_nat_unat ucast_id)
  moreover have "(ucast v2 :: u32) = of_nat (unat v2)" by simp
  ultimately show "1 + push_bit 8 (ucast v1 AND 0xF) + ucast v2 = (of_nat (lz_offset v1 v2) :: u32)"
    by (simp add: lz_offset_def push_bit_eq_mult mult.commute)
  have "unat v1 div 16 < 16" using unsigned_less [of v1] by (intro less_mult_imp_div_less) simp
  then show "unat (drop_bit 4 v1 AND 0xF) = unat v1 div 16"
    using unat_and_mask [of "drop_bit 4 v1" 4] by (simp add: mask_eq_exp_minus_1 unat_drop_bit_eq drop_bit_eq_div [of 4 "unat v1"])
qed

lemma lz_back_stored:
  assumes "ram_block 1 b n" "1 \<le> off" "off \<le> length out" "length out + k \<le> n" "bytes_stored b out s t"
  shows "\<exists>t'. lz_back k b (length out) (of_nat off) t = Some t' \<and> bytes_stored b (lz_copy k off out) s t'"
  using assms(3-5)
proof (induction k arbitrary: out t)
  case (Suc k)
  let ?i = "length out - off"
  have i: "?i < n" "b + of_nat (length out) - of_nat off = b + of_nat ?i" "?i < length out"
    using Suc.prems assms(2) by (simp_all add: of_nat_diff)
  have "shm (mem t) (ram_offset b + ?i) = out ! ?i" using Suc.prems(3) i(3) by (simp add: bytes_stored_def put_bytes_def)
  moreover have "mmu_ok t" using Suc.prems(3) by (simp add: bytes_stored_def)
  ultimately have "read_u8 (b + of_nat (length out) - of_nat off) t = (out ! ?i, t)"
    unfolding i(2) using read_u8_ram [OF assms(1) i(1)] by simp
  moreover obtain u where "uncomp_write_byte (b + of_nat (length out)) (out ! ?i) t = Some u" "bytes_stored b (out @ [out ! ?i]) s u"
    using write_next_byte [OF Suc.prems(3) assms(1), of "out ! ?i"] Suc.prems(2) by auto
  ultimately show ?case using Suc.IH [of "out @ [out ! ?i]" u] Suc.prems by simp
qed simp

text \<open>The item loop follows the reference; the \<open>k\<close> flags left are the bits 7 down of the shifted byte.\<close>

lemma flag_step:
  fixes fl :: u16
  assumes "Suc k \<le> 8"
  shows "map (\<lambda>j. bit fl (7 - j)) [0..<Suc k] = bit fl 7 # map (\<lambda>j. bit (push_bit 1 fl) (7 - j)) [0..<k]"
    "(push_bit 1 fl AND 0x100 = 0) = (\<not> bit fl 7)"
proof -
  have "bit fl (7 - Suc j) = bit (push_bit 1 fl) (7 - j)" if "j < k" for j
    using that assms by (auto simp: bit_push_bit_iff simp del: push_bit_Suc)
  then show "map (\<lambda>j. bit fl (7 - j)) [0..<Suc k] = bit fl 7 # map (\<lambda>j. bit (push_bit 1 fl) (7 - j)) [0..<k]"
    unfolding map_upt_Suc by simp
  have "(push_bit 1 fl AND push_bit 8 1 = 0) = (\<not> bit (push_bit 1 fl) 8)" by (rule and_bit_eq_0_iff)
  then show "(push_bit 1 fl AND 0x100 = 0) = (\<not> bit fl 7)" by (simp add: bit_push_bit_iff del: push_bit_Suc One_nat_def)
qed

lemma lz_items_group:
  assumes runs: "decomp_runs a m b n"
  shows "lz_group (map (\<lambda>j. bit fl (7 - j)) [0..<k]) out_len out xs = Some (fin, out', xs') \<Longrightarrow> k \<le> 8
    \<Longrightarrow> source_holds a src xs s \<Longrightarrow> src + length xs \<le> m \<Longrightarrow> length out' \<le> n \<Longrightarrow> bytes_stored b out s t \<Longrightarrow>
    \<exists>t'. lz_items k fl out_len a b src (length out) t = Some (fin, src + (length xs - length xs'), length out', t')
       \<and> bytes_stored b out' s t'"
proof (induction k arbitrary: fl out xs src t)
  case (Suc k)
  have dst: "ram_block 1 b n" using runs by (simp add: decomp_runs_def)
  note fl = flag_step [OF Suc.prems(2), of fl]
  note grp = Suc.prems(1) [unfolded fl(1) lz_group.simps]
  have len: "length out \<le> n" using lz_group_shape [OF Suc.prems(1)] Suc.prems(5) by simp
  note rd = read_source [OF runs Suc.prems(6) len Suc.prems(3,4)]
  show ?case
  proof (cases "out_len \<le> length out")
    case True
    then show ?thesis using grp Suc.prems(6) by auto
  next
    case more: False
    show ?thesis
    proof (cases "bit fl 7")
      case True
      then obtain v1 v2 ys where ys: "xs = v1 # v2 # ys" "lz_offset v1 v2 \<le> length out"
          "lz_group (map (\<lambda>j. bit (push_bit 1 fl) (7 - j)) [0..<k]) out_len (lz_copy (3 + unat v1 div 16) (lz_offset v1 v2) out) ys
             = Some (fin, out', xs')"
        using grp more by (auto split: list.splits if_splits)
      note sh = lz_group_shape [OF ys(3)]
      have r: "read_u8 (a + of_nat src) t = (v1, t)" "read_u8 (a + of_nat (src + 1)) t = (v2, t)"
        using rd [of 0] rd [of 1] ys(1) by simp_all
      obtain u where u: "lz_back (3 + unat v1 div 16) b (length out) (of_nat (lz_offset v1 v2)) t = Some u"
          "bytes_stored b (lz_copy (3 + unat v1 div 16) (lz_offset v1 v2) out) s u"
        using lz_back_stored [OF dst _ ys(2) _ Suc.prems(6), of "3 + unat v1 div 16"] sh Suc.prems(5)
        by (auto simp: lz_offset_def)
      obtain t' where "lz_items k (push_bit 1 fl) out_len a b (src + 2) (length out + (3 + unat v1 div 16)) u
            = Some (fin, src + 2 + (length ys - length xs'), length out', t')" "bytes_stored b out' s t'"
        using Suc.IH [OF ys(3) _ _ _ Suc.prems(5) u(2), of "src + 2"] Suc.prems(2-4) source_holds_drop [OF Suc.prems(3), of 2]
        by (auto simp: ys(1))
      moreover have "src + 2 + (length ys - length xs') = src + (length xs - length xs')" using sh by (auto simp: ys(1))
      ultimately show ?thesis
        using more True r u(1) fl(2) unfolding lz_items.simps Let_def
        by (simp only: lz_token prod.case if_False) simp
    next
      case lit: False
      then obtain v ys where ys: "xs = v # ys"
          "lz_group (map (\<lambda>j. bit (push_bit 1 fl) (7 - j)) [0..<k]) out_len (out @ [v]) ys = Some (fin, out', xs')"
        using grp more by (auto split: list.splits if_splits)
      note sh = lz_group_shape [OF ys(2)]
      obtain u where u: "uncomp_write_byte (b + of_nat (length out)) v t = Some u" "bytes_stored b (out @ [v]) s u"
        using write_next_byte [OF Suc.prems(6) dst, of v] sh Suc.prems(5) by auto
      obtain t' where "lz_items k (push_bit 1 fl) out_len a b (src + 1) (length out + 1) u
            = Some (fin, src + 1 + (length ys - length xs'), length out', t')" "bytes_stored b out' s t'"
        using Suc.IH [OF ys(2) _ _ _ Suc.prems(5) u(2), of "src + 1"] Suc.prems(2-4) source_holds_drop [OF Suc.prems(3), of 1]
        by (auto simp: ys(1))
      moreover have "src + 1 + (length ys - length xs') = src + (length xs - length xs')" using sh by (auto simp: ys(1))
      ultimately show ?thesis
        using more lit rd [of 0] u(1) fl(2) by (simp add: ys(1) Let_def)
    qed
  qed
qed simp

lemma lz_decode_grows: "lz_decode n out xs = Some res \<Longrightarrow> length out \<le> length res"
proof (induction n out xs rule: lz_decode.induct)
  case (1 n out xs)
  then obtain f ys fin out' zs where ys: "xs = f # ys" "lz_group (flag_bits f) n out ys = Some (fin, out', zs)"
      "(if fin then Some out' else lz_decode n out' zs) = Some res"
    by (auto simp: lz_decode.simps [of n out xs] split: list.splits option.splits)
  then show ?case using lz_group_shape [OF ys(2)] "1.IH" [OF ys(1,2) refl refl] by (cases fin) auto
qed

lemma flag_bits_u16: "map (\<lambda>j. bit (ucast f :: u16) (7 - j)) [0..<8] = flag_bits f"
  unfolding flag_bits_def by (rule map_cong) (auto simp: bit_ucast_iff)

lemma lz_loop_decodes:
  assumes runs: "decomp_runs a m b n"
  shows "lz_decode out_len out xs = Some res \<Longrightarrow> source_holds a src xs s \<Longrightarrow> src + length xs \<le> m
    \<Longrightarrow> length res \<le> n \<Longrightarrow> bytes_stored b out s t \<Longrightarrow>
    \<exists>t'. lz_loop out_len a b src (length out) t = Some t' \<and> bytes_stored b res s t'"
proof (induction out_len out xs arbitrary: src t rule: lz_decode.induct)
  case (1 out_len out xs)
  then obtain f ys fin out' zs where ys: "xs = f # ys" "lz_group (flag_bits f) out_len out ys = Some (fin, out', zs)"
      "(if fin then Some out' else lz_decode out_len out' zs) = Some res"
    by (auto simp: lz_decode.simps [of out_len out xs] split: list.splits option.splits)
  have grow: "length out' \<le> n" "length out \<le> length out'"
    using ys(3) "1.prems"(4) lz_decode_grows [of out_len out' zs res] lz_group_shape [OF ys(2)] by (auto split: if_splits)
  have rf: "read_u8 (a + of_nat src) t = (f, t)"
    using read_source [OF runs "1.prems"(5) _ "1.prems"(2,3), of 0] grow by (simp add: ys(1))
  obtain j where j: "zs = drop j ys" "j \<le> length ys" using lz_group_shape [OF ys(2)] by blast
  obtain u where u: "lz_items 8 (ucast f) out_len a b (src + 1) (length out) t
        = Some (fin, src + 1 + (length ys - length zs), length out', u)" "bytes_stored b out' s u"
    using lz_items_group [OF runs, of "ucast f" 8, unfolded flag_bits_u16, OF ys(2), of "src + 1"] grow(1)
      source_holds_drop [OF "1.prems"(2), of 1] "1.prems"(3,5) by (auto simp: ys(1))
  show ?case
  proof (cases fin)
    case True
    then show ?thesis using ys(3) u rf by (auto simp: lz_loop.simps [of out_len a b src "length out"])
  next
    case False
    have "\<exists>t'. lz_loop out_len a b (src + Suc j) (length out') u = Some t' \<and> bytes_stored b res s t'"
      by (rule "1.IH" [OF ys(1,2) refl refl False])
        (use ys False u(2) j "1.prems" source_holds_drop [OF "1.prems"(2), of "Suc j"] in simp_all)
    moreover have "src + Suc j = src + 1 + (length ys - length zs)" using j by simp
    ultimately show ?thesis using False u(1) rf by (simp add: lz_loop.simps [of out_len a b src "length out"])
  qed
qed

text \<open>
  C24: LZ77 decompression. When the reference decoder, given the length in the header, decodes the
  data behind it to \<open>out\<close>, the call returns and the output area holds exactly \<open>out\<close>, overlapping
  back-references included; no other byte of memory and no register changes. (A final item may
  exceed the length, in the code and in the reference alike.)
\<close>

theorem lz77_decodes:
  assumes "decomp_input xs (length out) s" "lz_decode (decomp_len s) [] xs = Some out"
  shows "\<exists>s'. lz77_uncomp s = Some s' \<and> shm (mem s') = put_bytes (ram_offset (reg 1 s)) out (shm (mem s))
    \<and> regs s' = regs s"
proof -
  have ok: "decomp_runs (reg 0 s) (4 + length xs) (reg 1 s) (length out)" "source_holds (reg 0 s) 4 xs s"
      "bytes_stored (reg 1 s) [] s s"
    using assms(1) by (simp_all add: decomp_input_def bytes_stored_start)
  obtain s' where "lz_loop (decomp_len s) (reg 0 s) (reg 1 s) 4 0 s = Some s'" "bytes_stored (reg 1 s) out s s'"
    using lz_loop_decodes [OF ok(1) assms(2) ok(2) _ _ ok(3)] by auto
  then show ?thesis
    by (auto simp: lz77_uncomp_def decomp_header [OF assms(1)] decomp_len_def bytes_stored_def ram_frameD [of s s'])
qed

text \<open>A compressed block at the start of EWRAM, unpacked to an odd address of IWRAM.\<close>

definition decomp_sample :: "u8 \<Rightarrow> u8 \<Rightarrow> u8 list \<Rightarrow> emu" where
  "decomp_sample ty len xs =
     upd_reg 1 0x03000001 (upd_reg 0 0x02000000 (upd_shm (put_bytes P_EWRAM_OFFSET ([ty, len, 0, 0] @ xs)) emu_mapped))"

lemma decomp_sample_simps:
  "reg 0 (decomp_sample ty len xs) = 0x02000000" "reg 1 (decomp_sample ty len xs) = 0x03000001"
  "mem (decomp_sample ty len xs) = mem (upd_shm (put_bytes P_EWRAM_OFFSET ([ty, len, 0, 0] @ xs)) emu_mapped)"
  "jit (decomp_sample ty len xs) = jit_init" "cart (decomp_sample ty len xs) = cart emu_mapped"
  by (simp_all add: decomp_sample_def reg_def upd_reg_def upd_regs_def get_reg_def set_reg_def
      emu_mapped_def mmu_update_all_def upd_mem_def emu_new_def)

lemma ram_offset_samples: "ram_offset 0x02000000 = P_EWRAM_OFFSET" "ram_offset 0x03000001 = P_IWRAM_OFFSET + 1"
  by (simp_all add: ram_offset_def ram_region_def)

lemma decomp_sample_input:
  assumes "length xs \<le> 16" "n \<le> 16"
  shows "decomp_input xs n (decomp_sample ty len xs)"
proof -
  have "mmu_ok (decomp_sample ty len xs)"
    using emu_mapped_ok(1) by (simp add: mmu_ok_def decomp_sample_simps upd_shm_def upd_mem_def)
  moreover have "decomp_runs 0x02000000 (4 + length xs) 0x03000001 n"
    using assms by (simp add: decomp_runs_def ram_block_def ram_len_def ram_region_def ram_offset_samples P_IWRAM_OFFSET_def EWRAM_SIZE_def)
  moreover have "source_holds 0x02000000 4 xs (decomp_sample ty len xs)"
    by (simp add: source_holds_def decomp_sample_simps ram_offset_samples put_bytes_def nth_append)
  ultimately show ?thesis by (simp add: decomp_input_def decomp_sample_simps jit_ok_def jit_init_def del: One_nat_def)
qed

lemma take_bit_unat_u8: "take_bit 32 (unat (w :: u8)) = unat w"
  using unsigned_less [where 'a = nat, of w] by (intro take_bit_nat_eq_self) simp

lemma decomp_sample_len: "decomp_len (decomp_sample ty len xs) = unat len"
proof -
  have "read_mem 4 (put_bytes P_EWRAM_OFFSET ([ty, len, 0, 0] @ xs) m) P_EWRAM_OFFSET = ucast ty OR push_bit 8 (ucast len)" for m
    by (simp add: read_mem_def put_bytes_def nth_append numeral_eq_Suc)
  moreover have "drop_bit 8 (ucast ty OR push_bit 8 (ucast len)) = (ucast len :: u32)"
  proof (rule bit_word_eqI)
    fix n
    show "bit (drop_bit 8 (ucast ty OR push_bit 8 (ucast len)) :: u32) n = bit (ucast len :: u32) n"
      using bit_imp_le_length [of ty "8 + n"] bit_imp_le_length [of len n]
      by (auto simp: bit_drop_bit_eq bit_or_iff bit_push_bit_iff bit_ucast_iff)
  qed
  ultimately show ?thesis
    by (simp add: decomp_len_def decomp_sample_simps ram_offset_samples unsigned_ucast_eq take_bit_unat_u8)
qed

theorem runlen_decodes_witness:
  "\<exists>s'. runlen_uncomp (decomp_sample 0x30 5 [0x82, 0xAB]) = Some s'
     \<and> shm (mem s') = put_bytes (P_IWRAM_OFFSET + 1) [0xAB, 0xAB, 0xAB, 0xAB, 0xAB] (shm (mem (decomp_sample 0x30 5 [0x82, 0xAB])))"
proof -
  have "rl_decode 5 [0x82, 0xAB] = Some [0xAB, 0xAB, 0xAB, 0xAB, 0xAB]"
    by code_simp
  then show ?thesis
    using runlen_decodes [of "[0x82, 0xAB]" "[0xAB, 0xAB, 0xAB, 0xAB, 0xAB]" "decomp_sample 0x30 5 [0x82, 0xAB]"]
      decomp_sample_input [of "[0x82, 0xAB]" "length [0xAB, 0xAB, 0xAB, 0xAB, 0xAB :: u8]" "0x30" 5]
    by (auto simp: decomp_sample_len decomp_sample_simps ram_offset_samples simp del: One_nat_def)
qed

theorem lz77_decodes_witness:
  "\<exists>s'. lz77_uncomp (decomp_sample 0x10 4 [0x40, 0xCD, 0, 0]) = Some s'
     \<and> shm (mem s') = put_bytes (P_IWRAM_OFFSET + 1) [0xCD, 0xCD, 0xCD, 0xCD] (shm (mem (decomp_sample 0x10 4 [0x40, 0xCD, 0, 0])))"
proof -
  have "lz_decode 4 [] [0x40, 0xCD, 0, 0] = Some [0xCD, 0xCD, 0xCD, 0xCD]"
    by code_simp
  then show ?thesis
    using lz77_decodes [of "[0x40, 0xCD, 0, 0]" "[0xCD, 0xCD, 0xCD, 0xCD]" "decomp_sample 0x10 4 [0x40, 0xCD, 0, 0]"]
      decomp_sample_input [of "[0x40, 0xCD, 0, 0]" "length [0xCD, 0xCD, 0xCD, 0xCD :: u8]" "0x10" 4]
    by (auto simp: decomp_sample_len decomp_sample_simps ram_offset_samples simp del: One_nat_def)
qed

section \<open>Soft reset\<close>

lemma memset_ram:
  assumes "ram_block sz a n" "mmu_ok s" "jit_ok (jit s)" "align_addr sz addr = a"
  shows "\<exists>s'. mem_write_multiple_memset sz addr v n s = Some s' \<and> block_stored sz a (\<lambda>_. v) n s s'"
proof (cases "get_shm_offset True a s \<noteq> 0")
  case True
  have "get_shm_offset True a s = ram_offset a"
    using assms(1) get_shm_offset_write [OF assms(2) _ True] by (simp add: ram_block_def)
  then show ?thesis using True assms(2-4)
    by (auto simp: mem_write_multiple_memset_def Let_def block_stored_def block_store_def)
next
  case False
  have "\<exists>s'. foldM (\<lambda>i. io_write sz (a + of_nat (i * sz)) v) [0..<n] s = Some s' \<and> block_stored sz a (\<lambda>_. v) n s s'"
  proof (rule foldM_block_stored [OF assms(1-3)])
    fix i t
    assume i: "i < n" and t: "block_stored sz a (\<lambda>_. v) i s t"
    obtain t' where "io_write sz (a + of_nat (i * sz)) v t = Some t'" "stored sz (a + of_nat (i * sz)) v t t'"
      by (rule io_write_ram [OF _ _ _ ram_block_elem(5,4) [OF assms(1) i]])
        (use t assms(1) in \<open>auto simp: block_stored_def ram_block_def\<close>)
    then show "\<exists>t'. io_write sz (a + of_nat (i * sz)) v t = Some t' \<and> stored sz (a + of_nat (i * sz)) v t t'" by blast
  qed
  then show ?thesis using False assms(4) by (auto simp: mem_write_multiple_memset_def Let_def simp del: of_nat_mult)
qed

text \<open>
  The soft reset always restarts the cartridge. It clears the 512 bytes at the top of IWRAM before
  it reads the return flag that lies inside them, so the flag's value never matters; the registers
  r0 to r12 are cleared and the CPU is in system mode with interrupts masked. Called from user or
  system mode it leaves the stack pointer as it is: the new one goes to the bank only.
\<close>

theorem soft_reset_ignores_flag:
  assumes "mmu_ok s" "jit_ok (jit s)"
  shows "\<exists>s'. soft_reset s = Some s' \<and> reg_pc (regs s') = 0x08000000 \<and> cpsr (regs s') = 0xDF
    \<and> shm (mem s') = block_store 1 (P_IWRAM_OFFSET + 0x7E00) (\<lambda>_. 0) 0x200 (shm (mem s))
    \<and> (is_user_mode (cpsr_mode (cpsr (regs s))) \<longrightarrow>
        (\<forall>i < 13. gp_regs (regs s') i = 0) \<and> reg_sp (regs s') = reg_sp (regs s))"
proof -
  have al: "align_addr 1 0x3007E00 = 0x3007E00" "align_addr 1 0x3007FFA = 0x3007FFA" by (simp_all add: align_addr_def)
  have off: "ram_offset 0x3007E00 = P_IWRAM_OFFSET + 0x7E00" "ram_offset 0x3007FFA = P_IWRAM_OFFSET + 0x7E00 + 0x1FA * 1"
    by (simp_all add: ram_offset_def ram_region_def)
  have "ram_block 1 0x3007E00 0x200" by (simp add: ram_block_def ram_len_def ram_region_def)
  then obtain t where t: "mem_write_multiple_memset 1 0x3007E00 0 0x200 s = Some t" "block_stored 1 0x3007E00 (\<lambda>_. 0) 0x200 s t"
    using memset_ram [OF _ assms al(1)] by blast
  have "mem_read 1 0x3007FFA t = (read_mem 1 (shm (mem t)) (ram_offset 0x3007FFA), t)"
    using mem_read_ram [of t 1 "0x3007FFA"] t(2) al(2) by (simp add: block_stored_def ram_region_def)
  also have "read_mem 1 (shm (mem t)) (ram_offset 0x3007FFA) = trunc_size 1 0"
  proof -
    have "shm (mem t) = block_store 1 (P_IWRAM_OFFSET + 0x7E00) (\<lambda>_. 0) 0x200 (shm (mem s))"
      using t(2) by (simp only: block_stored_def off(1))
    then show ?thesis unfolding off(2) by (simp only:) (rule read_block_store; simp)
  qed
  finally have rd: "mem_read 1 0x3007FFA t = (0, t)" by (simp add: trunc_size_def)
  have rg: "regs t = regs s" using t(2) by (simp add: block_stored_def ram_frameD [of s t])
  have m: "cpsr_mode 0xDF = 0x1F" by (simp add: cpsr_mode_def field_def)
  let ?s' = "thread_set_cpsr 0xDF False (upd_regs (\<lambda>r. r\<lparr>user := (user r)\<lparr>u_sp := 0x03007F00, u_lr := 0x08000000\<rparr>,
                                  irq := \<lparr>m_sp = 0x03007FA0, m_lr = 0, m_spsr = 0\<rparr>,
                                  svc := \<lparr>m_sp = 0x03007FE0, m_lr = 0, m_spsr = 0\<rparr>,
                                  gp_regs := (\<lambda>_. 0), reg_pc := 0x08000000\<rparr>) t)"
  have "soft_reset s = Some ?s'" by (simp add: soft_reset_def t(1) rd Let_def del: One_nat_def)
  moreover have "shm (mem ?s') = block_store 1 (P_IWRAM_OFFSET + 0x7E00) (\<lambda>_. 0) 0x200 (shm (mem s))"
    using t(2) by (simp add: block_stored_def off(1) upd_regs_def)
  ultimately show ?thesis
    by (auto simp: upd_regs_def rg m is_user_mode_def switch_mode_def thread_set_cpsr_mode_slow_def save_mode_def
        load_mode_def load_high_def save_high_def save_user_high_def Let_def)
qed

theorem soft_reset_ignores_flag_witness:
  "let s = upd_shm (\<lambda>m. m(P_IWRAM_OFFSET + 0x7FFA := 1)) irq_sample
   in shm (mem s) (P_IWRAM_OFFSET + 0x7FFA) \<noteq> 0 \<and> (\<exists>s'. soft_reset s = Some s' \<and> reg_pc (regs s') = 0x08000000
        \<and> reg_sp (regs s') = 0x03007F00 \<and> gp_regs (regs s') 7 = 0)"
proof -
  let ?s = "upd_shm (\<lambda>m. m(P_IWRAM_OFFSET + 0x7FFA := 1)) irq_sample"
  have "jit emu_mapped = jit_init" by (simp add: emu_mapped_def mmu_update_all_def upd_mem_def emu_new_def)
  then have "jit_ok (jit ?s)" by (simp add: jit_ok_def jit_init_def irq_sample_def)
  moreover have "mmu_ok ?s" using emu_mapped_ok(1) by (simp add: irq_sample_def mmu_ok_def upd_shm_def upd_mem_def)
  moreover have "regs ?s = regs irq_sample" by (simp add: upd_shm_def upd_mem_def)
  moreover have "cpsr_mode (cpsr (regs irq_sample)) = 0x1F" "reg_sp (regs irq_sample) = 0x03007F00"
    by (simp_all add: irq_sample_def cpsr_mode_def field_def)
  ultimately show ?thesis
    using soft_reset_ignores_flag [of ?s] by (fastforce simp: Let_def is_user_mode_def)
qed

section \<open>Calls that are not there\<close>

text \<open>
  Every one of the 256 call numbers is dispatched. The bit-unpack, Huffman and the two difference
  filters abort the emulator in every state; the sound-driver, music and multiboot calls and every
  number from 0x20 on return with nothing changed but the value the BIOS area reads as.
\<close>

theorem swi_missing_calls:
  "(unat c \<in> {0x10, 0x13, 0x16, 0x17, 0x18} \<longrightarrow> swi h c s = None)
   \<and> (unat c \<in> {0x1A, 0x1B, 0x1C, 0x1D, 0x1E} \<or> 0x20 \<le> unat c \<longrightarrow> swi h c s = Some (set_open_bus 0xE3A02004 s))"
proof -
  have table: "k \<in> {0x10, 0x13, 0x16, 0x17, 0x18} \<Longrightarrow> swi_func h (GBA_SWI_LOOKUP_TABLE ! k) t = None"
    "k \<in> {0x1A, 0x1B, 0x1C, 0x1D, 0x1E} \<union> {0x20..<40} \<Longrightarrow> GBA_SWI_LOOKUP_TABLE ! k = Unknown" for k t
    by (auto simp: GBA_SWI_LOOKUP_TABLE_def numeral_eq_Suc less_Suc_eq le_Suc_eq)
  have len: "length GBA_SWI_LOOKUP_TABLE = 40" by (simp add: GBA_SWI_LOOKUP_TABLE_def)
  have "min (unat c) 39 = (if unat c < 40 then unat c else 39)" by auto
  then show ?thesis unfolding swi_def len using table(1) [of "unat c"] table(2) [of "unat c"] table(2) [of 39] by auto
qed

theorem swi_missing_calls_witness:
  "\<forall>h. swi h 0x13 emu_new = None \<and> swi h 0xFF emu_new = Some (set_open_bus 0xE3A02004 emu_new)"
proof
  fix h
  show "swi h 0x13 emu_new = None \<and> swi h 0xFF emu_new = Some (set_open_bus 0xE3A02004 emu_new)"
    using swi_missing_calls [of "0x13" h emu_new] swi_missing_calls [of "0xFF" h emu_new] by simp
qed

end
