(* ===== verification/ThumbLaws.thy ===== *)
theory ThumbLaws
  imports InterpThumb BiosLaws
begin

text \<open>
  Laws of the Thumb interpreter (\<open>InterpThumb\<close>). The seven shift handlers compute the same function as the ARM shifter, whose
  reference on unbounded integers is \<open>shift_ref\<close>; and a procedure frame made by \<open>push_lr_t\<close> is taken
  down by \<open>pop_pc_t\<close>, whatever ran in between, as long as it kept the stack pointer and the frame.
\<close>

section \<open>Operand fields\<close>

lemma unat_field16: "unat (ucast (drop_bit k opcode AND mask n :: u16) :: u32) = unat opcode div 2 ^ k mod 2 ^ n"
proof -
  have "unat (drop_bit k opcode AND mask n) < 2 ^ 16" using unsigned_less [of "drop_bit k opcode AND mask n"] by simp
  then have "unat (ucast (drop_bit k opcode AND mask n :: u16) :: u32) = unat (drop_bit k opcode AND mask n)"
    by (simp add: unsigned_ucast_eq take_bit_nat_eq_self)
  then show ?thesis by (simp only: unat_and_mask unat_drop_bit_eq drop_bit_eq_div [where 'a = nat])
qed

lemma low_masks: "(0x7 :: u16) = mask 3" "(0x1F :: u16) = mask 5" "(0xFF :: u16) = mask 8" "(0xFF :: u32) = mask 8"
  by (simp_all add: mask_eq_exp_minus_1)

lemma unat_t_fields:
  "unat (t_rd opcode) = unat opcode mod 8" "unat (t_rs opcode) = unat opcode div 8 mod 8"
  "unat (t_imm5 opcode) = unat opcode div 64 mod 32" "unat (t_imm8 opcode) = unat opcode mod 256"
  using unat_field16 [of 0 opcode 3] unat_field16 [of 3 opcode 3] unat_field16 [of 6 opcode 5] unat_field16 [of 0 opcode 8]
  unfolding t_rd_def t_rs_def t_imm5_def t_imm8_def low_masks by simp_all

lemma reg_frame [simp]:
  "ctx_cpsr (upd_reg i v s) = ctx_cpsr s" if "i \<le> 15"
  using that by (simp add: ctx_cpsr_def upd_reg_def upd_regs_def set_reg_def)

lemma ctx_low: "unat i < 15 \<Longrightarrow> ctx_reg ia i s = reg (unat i) s"
  by (auto simp: ctx_reg_def)

section \<open>Shifts\<close>

lemma set_nzc_eq:
  "set_nzc r (of_bool c) s = ctx_set_cpsr (with_flags (bit r 31) (r = 0) c (bit (ctx_cpsr s) 28) (ctx_cpsr s)) s"
proof -
  have "ctx_cpsr (set_nzc r (of_bool c) s) = with_flags (bit r 31) (r = 0) c (bit (ctx_cpsr s) 28) (ctx_cpsr s)"
    by (rule bit_word_eqI)
      (auto simp: set_nzc_def Let_def bit_with_flags bit_or_iff bit_and_iff bit_not_iff bit_push_of_bool)
  then show ?thesis by (simp add: set_nzc_def Let_def)
qed

text \<open>A Thumb shift as the architecture defines it: the register gets the result, N, Z and C describe it,
  and V keeps its value.\<close>

definition shift_t_ref :: "shift_form \<Rightarrow> u32 \<Rightarrow> nat \<Rightarrow> u32 \<Rightarrow> emu \<Rightarrow> inst_result \<times> emu" where
  "shift_t_ref f v n rd s =
     (let w = ctx_cpsr s; (r, c) = shift_ref f v n (bit w 29)
      in (Continue 1, ctx_set_cpsr (with_flags (bit r 31) (r = 0) c (bit w 28) w) (upd_reg (unat rd) r s)))"

lemma shift_t_ref_set:
  assumes "unat rd \<le> 15"
  shows "shift_t_ref f v n rd s =
    (let (r, c) = shift_ref f v n (bit (ctx_cpsr s) 29) in (Continue 1, set_nzc r (of_bool c) (ctx_set_reg rd r s)))"
  using assms by (simp add: shift_t_ref_def set_nzc_eq ctx_set_reg_def Let_def split: prod.split)

lemma set_nz_nzc: "set_nz r s = set_nzc r (of_bool (bit (ctx_cpsr s) 29)) s"
  by (simp add: set_nz_eq set_nzc_eq)

lemma t_rd_le: "unat (t_rd opcode) \<le> 15"
  unfolding unat_t_fields using mod_less_divisor [of 8 "unat opcode"] by linarith

lemma imm5_less: "unat (t_imm5 opcode) < 32"
  unfolding unat_t_fields by simp

lemma cpsr_t: "ctx_cpsr (ctx_set_reg (t_rd opcode) v s) = ctx_cpsr s"
  by (simp add: ctx_set_reg_def t_rd_le)

lemmas shift_t_simps = shift_t_ref_set [OF t_rd_le] Let_def lsl_ref_bits lsr_ref_bits asr_ref_bits drop_bit_and_one
  set_nz_nzc cpsr_t

lemma imm_shifts:
  "lsl_imm_t ia opcode s = shift_t_ref Lli (ctx_reg ia (t_rs opcode) s) (unat (t_imm5 opcode)) (t_rd opcode) s"
  "lsr_imm_t ia opcode s = shift_t_ref Lri (ctx_reg ia (t_rs opcode) s) (unat (t_imm5 opcode)) (t_rd opcode) s"
  "asr_imm_t ia opcode s = shift_t_ref Ari (ctx_reg ia (t_rs opcode) s) (unat (t_imm5 opcode)) (t_rd opcode) s"
  using imm5_less [of opcode]
  by (simp_all add: lsl_imm_t_def lsr_imm_t_def asr_imm_t_def shift_t_simps shifted_out)

lemma reg_shifts:
  fixes s opcode ia
  defines "n \<equiv> unat (ctx_reg ia (t_rs opcode) s AND 0xFF)"
  shows "lsl_dp_t ia opcode s = shift_t_ref Llr (ctx_reg ia (t_rd opcode) s) n (t_rd opcode) s"
    "lsr_dp_t ia opcode s = shift_t_ref Lrr (ctx_reg ia (t_rd opcode) s) n (t_rd opcode) s"
    "asr_dp_t ia opcode s = shift_t_ref Arr (ctx_reg ia (t_rd opcode) s) n (t_rd opcode) s"
proof -
  note d = n_def [symmetric]
  consider (zero) "n = 0" | (small) "n < 32" "0 < n" | (word) "n = 32" | (big) "32 < n" by linarith
  note amounts = this
  show "lsl_dp_t ia opcode s = shift_t_ref Llr (ctx_reg ia (t_rd opcode) s) n (t_rd opcode) s"
    by (cases rule: amounts) (simp_all add: lsl_dp_t_def shift_t_simps d shifted_out and_one_of_bool bit_drop_bit_eq)
  show "lsr_dp_t ia opcode s = shift_t_ref Lrr (ctx_reg ia (t_rd opcode) s) n (t_rd opcode) s"
    by (cases rule: amounts) (simp_all add: lsr_dp_t_def shift_t_simps d shifted_out)
  show "asr_dp_t ia opcode s = shift_t_ref Arr (ctx_reg ia (t_rd opcode) s) n (t_rd opcode) s"
    by (cases rule: amounts) (simp_all add: asr_dp_t_def shift_t_simps d shifted_out)
qed

lemma ror_shift:
  fixes s opcode ia
  defines "n \<equiv> unat (ctx_reg ia (t_rs opcode) s AND 0xFF)"
  shows "ror_dp_t ia opcode s = shift_t_ref Rrr (ctx_reg ia (t_rd opcode) s) n (t_rd opcode) s"
proof -
  let ?a = "ctx_reg ia (t_rs opcode) s AND 0xFF"
  have m: "(0x1F :: u32) = mask 5" by (simp add: mask_eq_exp_minus_1)
  have r: "word_rotr (unat (?a AND 0x1F)) v = word_rotr n v" for v :: u32
    unfolding m unat_and_mask n_def using rotr_mod by simp
  have c: "bit v (unat ((?a - 1) AND 0x1F)) = bit (word_rotr n v) 31" if "?a \<noteq> 0" for v :: u32
  proof -
    have "unat (?a - 1) = n - 1" "0 < n" unfolding n_def using that by (simp_all add: unat_minus_one unat_gt_0)
    then show ?thesis unfolding m unat_and_mask by (simp add: rotr_31)
  qed
  have z: "(?a = 0) = (n = 0)" by (simp add: n_def unat_eq_0)
  show ?thesis
  proof (cases "n = 0")
    case True
    then show ?thesis using z r
      by (simp add: ror_dp_t_def shift_t_simps ror_ref_def rotr_0)
  next
    case False
    then show ?thesis using z r c
      by (simp add: ror_dp_t_def shift_t_simps ror_ref_def)
  qed
qed

text \<open>
  The seven Thumb shifts are the ARM shifter. Each of them, whose handler works out result and carry
  in its own way, delivers for every amount (0 to 31 in the opcode with 0 meaning 32 for the right
  shifts, 0 to 255 in a register) the result and the last bit shifted out of the reference on unbounded
  integers, writes the result to the destination, sets N, Z and C from it and leaves V and everything
  else alone.
\<close>
theorem thumb_shifts_exact:
  fixes s opcode ia
  defines "by_imm \<equiv> \<lambda>f. shift_t_ref f (ctx_reg ia (t_rs opcode) s) (unat (t_imm5 opcode)) (t_rd opcode) s"
    and "by_register \<equiv> \<lambda>f. shift_t_ref f (ctx_reg ia (t_rd opcode) s) (unat (ctx_reg ia (t_rs opcode) s AND 0xFF)) (t_rd opcode) s"
  shows "lsl_imm_t ia opcode s = by_imm Lli \<and> lsr_imm_t ia opcode s = by_imm Lri \<and> asr_imm_t ia opcode s = by_imm Ari
     \<and> lsl_dp_t ia opcode s = by_register Llr \<and> lsr_dp_t ia opcode s = by_register Lrr \<and> asr_dp_t ia opcode s = by_register Arr
     \<and> ror_dp_t ia opcode s = by_register Rrr"
  unfolding by_imm_def by_register_def by (simp only: imm_shifts reg_shifts ror_shift simp_thms)

section \<open>Register lists\<close>

lemma listed_bits: "listed n w = filter (bit w) [0..<n]"
  unfolding listed_def by (rule filter_cong) (use and_bit_eq_0_iff [of w] in auto)

lemma set_listed: "set (listed n w) = {i. i < n \<and> bit w i}"
  by (auto simp: listed_bits)

lemma count_listed: "count_ones w = length (listed n w)" if "\<And>i. bit w i \<Longrightarrow> i < n" "n \<le> 32" for w :: u32
proof -
  have "[0..<32] = [0..<n] @ [n..<32]" using upt_add_eq_append [of 0 n "32 - n"] that(2) by simp
  moreover have "filter (bit w) [n..<32] = []" using that(1) by (force simp: filter_empty_conv)
  ultimately show ?thesis by (simp add: count_ones_def listed_bits)
qed

lemma bit_imm8: "bit (t_imm8 opcode) i \<Longrightarrow> i < 8"
  unfolding t_imm8_def low_masks by (simp only: bit_unsigned_iff bit_and_iff bit_mask_iff)

lemma zip_map_self: "zip xs (map f xs @ ys) = map (\<lambda>x. (x, f x)) xs"
  by (induction xs) simp_all

text \<open>Only the registers differ.\<close>

definition regs_only :: "emu \<Rightarrow> emu \<Rightarrow> bool" where
  "regs_only s t \<longleftrightarrow> t = s\<lparr>regs := regs t\<rparr>"

lemma regs_only_refl [simp]: "regs_only s s"
  by (simp add: regs_only_def)

lemma regs_only_upd_reg [simp]: "regs_only s (upd_reg i v t) = regs_only s t"
proof -
  have "(t = s\<lparr>regs := regs t\<rparr>) = (t\<lparr>regs := r\<rparr> = s\<lparr>regs := r\<rparr>)" for r by (cases s; cases t) auto
  then show ?thesis by (simp add: regs_only_def upd_reg_def upd_regs_def)
qed

lemma regs_onlyD: "mem t = mem s" "cart t = cart s" "jit t = jit s" if "regs_only s t"
  using that [unfolded regs_only_def, THEN arg_cong, of mem] that [unfolded regs_only_def, THEN arg_cong, of cart]
    that [unfolded regs_only_def, THEN arg_cong, of jit] by simp_all

lemma regs_only_ok: "mmu_ok t = mmu_ok s" if "regs_only s t"
  by (simp add: mmu_ok_def regs_onlyD [OF that])

lemma fold_upd_reg:
  assumes "\<forall>i \<in> set is. i \<le> 15"
  shows "(j \<le> 15 \<longrightarrow> reg j (fold (\<lambda>(i, v). upd_reg i v) (map (\<lambda>i. (i, f i)) is) s) = (if j \<in> set is then f j else reg j s))
    \<and> (regs_only t s \<longrightarrow> regs_only t (fold (\<lambda>(i, v). upd_reg i v) (map (\<lambda>i. (i, f i)) is) s))"
  using assms by (induction "is" arbitrary: s) (auto simp: reg_upd_reg)

lemma scatter_low:
  assumes "j \<le> 15"
  shows "reg j (scatter w (map f (listed 8 w) @ ys) s) = (if j < 8 \<and> bit w j then f j else reg j s)"
    "regs_only s (scatter w (map f (listed 8 w) @ ys) s)"
  using assms fold_upd_reg [of "listed 8 w" j f s s] by (simp_all add: scatter_def zip_map_self set_listed)

section \<open>A block stored and read back\<close>

text \<open>What a block store leaves in main memory is what a block load at the same address delivers in any
  later state that kept those bytes.\<close>

lemma block_round_trip:
  assumes "mmu_ok s" "jit_ok (jit s)" "ram_block 4 a (length vs)"
  obtains s' where "mem_write_multiple_slice 4 a (Buf vs) s = Some s'" "ram_frame s s'" "mmu_ok s'" "jit_ok (jit s')"
    "\<And>t. mmu_ok t \<Longrightarrow> (\<And>k. ram_offset a \<le> k \<Longrightarrow> k < ram_offset a + length vs * 4 \<Longrightarrow> shm (mem t) k = shm (mem s') k)
       \<Longrightarrow> mem_read_multiple_slice True 4 a (length vs) t = (vs, t)"
proof -
  have r: "ram_region a \<in> {2, 3}" "unat a mod 4 = 0" using assms(3) by (simp_all add: ram_block_def)
  have al: "align_addr 4 a = a" using align_addr_id [of 4 a] r ram_addr_less [OF r(1)] by simp
  obtain s' where s': "mem_write_multiple_slice 4 a (Buf vs) s = Some s'" "block_stored 4 a (\<lambda>i. vs ! i) (length vs) s s'"
    using write_multiple_buf [OF assms(3,1,2) al] by blast
  have "mem_read_multiple_slice True 4 a (length vs) t = (vs, t)"
    if ok: "mmu_ok t"
      and keep: "\<And>k. ram_offset a \<le> k \<Longrightarrow> k < ram_offset a + length vs * 4 \<Longrightarrow> shm (mem t) k = shm (mem s') k" for t
  proof -
    have "read_mem 4 (shm (mem t)) (ram_offset a + i * 4) = vs ! i" if "i < length vs" for i
    proof -
      have "read_mem 4 (shm (mem t)) (ram_offset a + i * 4) = read_mem 4 (shm (mem s')) (ram_offset a + i * 4)"
        by (rule read_mem_cong) (simp, rule keep, use that in linarith, use that in linarith)
      then show ?thesis
        using s'(2) read_block_store [of 4 i "length vs" "ram_offset a" "\<lambda>i. vs ! i"] that by (simp add: block_stored_def)
    qed
    then have "map (\<lambda>i. read_mem 4 (shm (mem t)) (ram_offset a + i * 4)) [0..<length vs] = vs"
      by (intro nth_equalityI) simp_all
    then show ?thesis using read_multiple_ram [OF assms(3) ok al, of True] by simp
  qed
  then show thesis using that [OF s'(1)] s'(2) by (simp add: block_stored_def)
qed

section \<open>Procedure frames\<close>

lemma count_imm8: "count_ones (t_imm8 opcode) = length (listed 8 (t_imm8 opcode))"
  by (rule count_listed) (simp_all add: bit_imm8)

lemma gather_low: "gather ia w (upd_reg 13 v s) = map (\<lambda>i. reg i s) (listed 8 w)"
proof -
  have "ctx_reg ia (of_nat i) (upd_reg 13 v s) = reg i s" if "i \<in> set (listed 8 w)" for i
  proof -
    have "i < 8" using that by (simp add: set_listed)
    then have "unat (of_nat i :: u32) = i" by (intro unat_of_nat_u32) simp
    then show ?thesis using \<open>i < 8\<close> by (simp add: ctx_low reg_upd_reg)
  qed
  then show ?thesis by (simp add: gather_def)
qed

lemma ctx_13: "ctx_reg ia 13 s = reg 13 s" "ctx_reg ia 14 s = reg 14 s" "ctx_set_reg 13 v s = upd_reg 13 v s"
  by (simp_all add: ctx_reg_def ctx_set_reg_def)

text \<open>
  C16: the frame of a Thumb procedure. \<open>PUSH {rlist, lr}\<close> onto a stack in main memory succeeds, lowers the
  stack pointer by four bytes for each register and changes no other register. In every later state in
  which the stack pointer has that value again and the bytes of the frame are untouched,
  \<open>POP {rlist, pc}\<close> returns to the address that was in the link register, in Thumb state, gives every
  listed register and the stack pointer the value they had before the push, and changes nothing else.
\<close>
theorem call_frame_restored:
  fixes s ia opcode
  defines "w \<equiv> t_imm8 opcode"
  defines "n \<equiv> count_ones w + 1"
  defines "a \<equiv> reg 13 s - of_nat n * 4"
  assumes "mmu_ok s" "jit_ok (jit s)" "ram_block 4 a n"
  shows "\<exists>s'. push_lr_t ia opcode s = Some (ContinueStore (1 + of_nat n), s')
    \<and> (\<forall>i \<le> 15. reg i s' = (if i = 13 then a else reg i s)) \<and> mmu_ok s' \<and> jit_ok (jit s')
    \<and> (\<forall>t ia' op'. t_imm8 op' = w \<and> mmu_ok t \<and> reg 13 t = a
          \<and> (\<forall>k. ram_offset a \<le> k \<and> k < ram_offset a + n * 4 \<longrightarrow> shm (mem t) k = shm (mem s') k) \<longrightarrow>
         (\<exists>t'. pop_pc_t ia' op' t = Some (BranchReturn (of_nat n + 2) ((reg 14 s AND NOT 1) OR 1), t') \<and> regs_only t t'
            \<and> (\<forall>i \<le> 15. reg i t' = (if i = 13 \<or> i < 8 \<and> bit w i then reg i s else reg i t))))"
proof -
  let ?vs = "map (\<lambda>i. reg i s) (listed 8 w) @ [reg 14 s]" and ?s1 = "upd_reg 13 a s"
  have n: "length ?vs = n" "count_ones w = length (listed 8 w)" by (simp_all add: n_def w_def count_imm8)
  have lr: "?vs ! (n - 1) = reg 14 s" by (simp add: n(1) [symmetric] nth_append)
  have v: "gather ia w ?s1 @ [ctx_reg ia 14 ?s1] = ?vs" by (simp add: gather_low ctx_13 reg_upd_reg)
  have ok: "mmu_ok ?s1" "jit_ok (jit ?s1)" using assms(4,5) by (simp_all add: mmu_ok_def upd_reg_def upd_regs_def)
  obtain s' where s': "mem_write_multiple_slice 4 a (Buf ?vs) ?s1 = Some s'" "ram_frame ?s1 s'" "mmu_ok s'" "jit_ok (jit s')"
    and reread: "\<And>t. mmu_ok t \<Longrightarrow> (\<And>k. ram_offset a \<le> k \<Longrightarrow> k < ram_offset a + n * 4 \<Longrightarrow> shm (mem t) k = shm (mem s') k)
       \<Longrightarrow> mem_read_multiple_slice True 4 a n t = (?vs, t)"
    using block_round_trip [of ?s1 a ?vs, OF ok] assms(6) unfolding n(1) by blast
  have push: "push_lr_t ia opcode s = Some (ContinueStore (1 + of_nat n), s')"
    unfolding push_lr_t_def Let_def w_def [symmetric] n_def [symmetric] ctx_13 a_def [symmetric] v [unfolded ctx_13]
    using s'(1) by simp
  have "reg i s' = (if i = 13 then a else reg i s)" if "i \<le> 15" for i
    using ram_frameD(1) [OF s'(2)] that by (simp add: reg_def [of i s'] reg_def [of i ?s1, symmetric] reg_upd_reg)
  moreover have "\<exists>t'. pop_pc_t ia' op' t = Some (BranchReturn (of_nat n + 2) ((reg 14 s AND NOT 1) OR 1), t') \<and> regs_only t t'
      \<and> (\<forall>i \<le> 15. reg i t' = (if i = 13 \<or> i < 8 \<and> bit w i then reg i s else reg i t))"
    if "t_imm8 op' = w" "mmu_ok t" "reg 13 t = a"
      and keep: "\<forall>k. ram_offset a \<le> k \<and> k < ram_offset a + n * 4 \<longrightarrow> shm (mem t) k = shm (mem s') k" for t ia' op'
  proof -
    let ?t' = "upd_reg 13 (reg 13 s) (scatter w ?vs t)"
    have "mem_read_multiple_slice True 4 a n t = (?vs, t)" using reread that(2) keep by blast
    moreover have "a + of_nat n * 4 = reg 13 s" by (simp add: a_def)
    ultimately have "pop_pc_t ia' op' t = Some (BranchReturn (of_nat n + 2) ((reg 14 s AND NOT 1) OR 1), ?t')"
      unfolding pop_pc_t_def Let_def that(1) n_def [symmetric] ctx_13 that(3) using lr by simp
    moreover have "reg i ?t' = (if i = 13 \<or> i < 8 \<and> bit w i then reg i s else reg i t)" if "i \<le> 15" for i
      using that by (simp add: reg_upd_reg scatter_low)
    ultimately show ?thesis using scatter_low(2) [of 0] by auto
  qed
  ultimately show ?thesis using push s'(3,4) by blast
qed

definition frame_sample :: emu where
  "frame_sample = upd_reg 14 0x08000101 (upd_reg 13 0x03007F00 (upd_reg 5 9 (upd_reg 4 7 emu_mapped)))"

lemma frame_sample_ok: "mmu_ok frame_sample" "jit_ok (jit frame_sample)"
    "reg 13 frame_sample = 0x03007F00" "reg 14 frame_sample = 0x08000101" "reg 4 frame_sample = 7"
proof -
  have "jit emu_mapped = jit_init" by (simp add: emu_mapped_def mmu_update_all_def upd_mem_def emu_new_def)
  then show "jit_ok (jit frame_sample)"
    by (simp add: jit_ok_def jit_init_def frame_sample_def upd_reg_def upd_regs_def)
  show "mmu_ok frame_sample"
    using emu_mapped_ok(1) by (simp add: frame_sample_def mmu_ok_def upd_reg_def upd_regs_def)
  show "reg 13 frame_sample = 0x03007F00" "reg 14 frame_sample = 0x08000101" "reg 4 frame_sample = 7"
    by (simp_all add: frame_sample_def reg_upd_reg)
qed

text \<open>\<open>PUSH {r4, r5, lr}\<close> and \<open>POP {r4, r5, pc}\<close>.\<close>

theorem call_frame_restored_witness:
  "\<exists>s' t'. push_lr_t 0x08000200 0xB530 frame_sample = Some (ContinueStore 4, s') \<and> reg 13 s' = 0x03007EF4
     \<and> pop_pc_t 0x08000220 0xBD30 s' = Some (BranchReturn 5 0x08000101, t') \<and> reg 13 t' = 0x03007F00 \<and> reg 4 t' = 7"
proof -
  have w: "t_imm8 0xB530 = 0x30" "t_imm8 0xBD30 = 0x30" by (simp_all add: t_imm8_def)
  have c: "count_ones (0x30 :: u32) = 2" by (simp add: count_ones_def upt_rec)
  have a: "reg 13 frame_sample - of_nat (2 + 1) * 4 = 0x03007EF4" by (simp add: frame_sample_ok)
  have r: "ram_block 4 0x03007EF4 (2 + 1)" by (simp add: ram_block_def ram_len_def ram_region_def)
  obtain s' where s': "push_lr_t 0x08000200 0xB530 frame_sample = Some (ContinueStore (1 + of_nat (2 + 1)), s')"
      "\<forall>i \<le> 15. reg i s' = (if i = 13 then 0x03007EF4 else reg i frame_sample)" "mmu_ok s'"
    and p: "\<forall>t ia' op'. t_imm8 op' = 0x30 \<and> mmu_ok t \<and> reg 13 t = 0x03007EF4
          \<and> (\<forall>k. ram_offset 0x03007EF4 \<le> k \<and> k < ram_offset 0x03007EF4 + (2 + 1) * 4 \<longrightarrow> shm (mem t) k = shm (mem s') k) \<longrightarrow>
         (\<exists>t'. pop_pc_t ia' op' t = Some (BranchReturn (of_nat (2 + 1) + 2) ((reg 14 frame_sample AND NOT 1) OR 1), t') \<and> regs_only t t'
            \<and> (\<forall>i \<le> 15. reg i t' = (if i = 13 \<or> i < 8 \<and> bit (0x30 :: u32) i then reg i frame_sample else reg i t)))"
    using call_frame_restored [where s = frame_sample and opcode = "0xB530" and ia = "0x08000200", unfolded w c a,
        OF frame_sample_ok(1,2) r] by blast
  have "reg 13 s' = 0x03007EF4" using s'(2) by simp
  with p [rule_format, of "0xBD30" s' "0x08000220"] w(2) s'(3) obtain t' where
    "pop_pc_t 0x08000220 0xBD30 s' = Some (BranchReturn (of_nat (2 + 1) + 2) ((reg 14 frame_sample AND NOT 1) OR 1), t')"
    "\<forall>i \<le> 15. reg i t' = (if i = 13 \<or> i < 8 \<and> bit (0x30 :: u32) i then reg i frame_sample else reg i s')"
    by blast
  then show ?thesis using s'(1,2) by (auto simp: frame_sample_ok)
qed

end
