(* ===== verification/EffectLaws.thy ===== *)
theory EffectLaws
  imports AnalyzerLaws ThumbLaws
begin

text \<open>
  What the decoded register sets promise. The compiler's analysis (live registers, idle loops) trusts the
  source and output sets of the operand decoders; the locale \<open>instruction_effects\<close> states what it relies
  on, proves the analysis sound under it, and is interpreted on the interpreter's own handlers and the
  disassembler's own register sets, for the Thumb instructions that only compute or load from memory that
  is mapped for direct reads.
\<close>

section \<open>The analysis over sets of registers\<close>



definition outs :: "('i \<Rightarrow> nat set) \<Rightarrow> 'i list \<Rightarrow> nat set" where
  "outs out is = \<Union> (out ` set is)"

definition run_all :: "('i \<Rightarrow> 's \<Rightarrow> 's) \<Rightarrow> 'i list \<Rightarrow> 's \<Rightarrow> 's" where
  "run_all exec is s = fold exec is s"


lemma run_all_simps [simp]:
  "run_all exec [] s = s" "run_all exec (i # is) s = run_all exec is (exec i s)"
  by (simp_all add: run_all_def)

lemma outs_simps [simp]: "outs out [] = {}" "outs out (i # is) = out i \<union> outs out is"
  by (simp_all add: outs_def)



section \<open>Registers and flags of the interpreter\<close>

text \<open>Register 16 is the four condition flags. The program counter is not state of an instruction: the
  handlers are given its address.\<close>

definition flags_of :: "emu \<Rightarrow> u32" where
  "flags_of s = ctx_cpsr s AND NOT (mask 28)"

definition view :: "nat \<Rightarrow> emu \<Rightarrow> u32" where
  "view k s = (if k < 15 then reg k s else if k = 16 then flags_of s else 0)"

definition rest :: "emu \<Rightarrow> emu" where
  "rest s = upd_regs (\<lambda>r. r\<lparr>gp_regs := (\<lambda>k. if k < 13 then 0 else gp_regs r k), reg_sp := 0, reg_lr := 0,
                          cpsr := cpsr r AND mask 28\<rparr>) s"



definition put :: "nat \<Rightarrow> u32 \<Rightarrow> emu \<Rightarrow> emu" where
  "put k v s = upd_reg k v s"

lemma view_put [simp]: "n < 15 \<Longrightarrow> view k (put n v s) = (if k = n then v else view k s)"
  by (auto simp: view_def put_def flags_of_def ctx_cpsr_def reg_def upd_reg_def upd_regs_def set_reg_def get_reg_def)

lemma rest_put [simp]: "n < 15 \<Longrightarrow> rest (put n v s) = rest s"
  by (auto simp: rest_def put_def upd_reg_def upd_regs_def set_reg_def fun_eq_iff)

lemma low28: "(0x0FFFFFFF :: u32) = mask 28"
  by (simp add: mask_eq_exp_minus_1)

definition put_flags :: "bool \<Rightarrow> bool \<Rightarrow> bool \<Rightarrow> bool \<Rightarrow> emu \<Rightarrow> emu" where
  "put_flags n z c v s = ctx_set_cpsr (with_flags n z c v (ctx_cpsr s)) s"

lemma with_flags_high: "with_flags n z c v w AND NOT (mask 28) = with_flags n z c v 0"
  by (rule bit_word_eqI) (auto simp: bit_with_flags bit_and_iff bit_not_iff bit_mask_iff split: if_splits)

lemma with_flags_low: "with_flags n z c v w AND mask 28 = w AND mask 28"
  by (rule bit_word_eqI) (auto simp: bit_with_flags bit_and_iff bit_mask_iff split: if_splits)

lemma view_put_flags [simp]: "view k (put_flags n z c v s) = (if k = 16 then with_flags n z c v 0 else view k s)"
  by (simp add: view_def put_flags_def flags_of_def ctx_cpsr_def ctx_set_cpsr_def reg_def upd_regs_def get_reg_def with_flags_high)

lemma rest_put_flags [simp]: "rest (put_flags n z c v s) = rest s"
  by (simp add: rest_def put_flags_def ctx_set_cpsr_def ctx_cpsr_def upd_regs_def with_flags_low cong: if_cong)


lemma cpsr_view: "28 \<le> k \<Longrightarrow> bit (ctx_cpsr s) k = bit (view 16 s) k"
  by (cases "k < 32") (auto simp: view_def flags_of_def bit_and_iff bit_not_iff bit_mask_iff not_less dest: bit_imp_le_length)

text \<open>The handlers' accessors and flag functions in these terms.\<close>

lemma flag_puts:
  "set_nzcv r c v s = put_flags (bit r 31) (r = 0) c v s"
  "set_nz r s = put_flags (bit r 31) (r = 0) (bit (view 16 s) 29) (bit (view 16 s) 28) s"
  "set_nzc r (x AND 1) s = put_flags (bit r 31) (r = 0) (bit x 0) (bit (view 16 s) 28) s"
  "set_nzc r 0 s = put_flags (bit r 31) (r = 0) False (bit (view 16 s) 28) s"
  "ctx_carry s = of_bool (bit (view 16 s) 29)"
  using set_nzc_eq [of r "bit x 0" s] set_nzc_eq [of r False s]
  by (simp_all add: put_flags_def set_nzcv_eq set_nz_eq cpsr_view [symmetric] ctx_carry_bit and_one_of_bool)

lemma unat_ucast_u16: "unat (ucast w :: u32) = unat w" for w :: u16
proof -
  have "unat w < 2 ^ 16" using unsigned_less [of w] by simp
  then show ?thesis by (simp add: unsigned_ucast_eq take_bit_nat_eq_self)
qed

lemma field_numbers:
  "unat (t_rd opcode) = g0 opcode" "unat (t_rs opcode) = g3 opcode" "unat (t_ro opcode) = g6 opcode"
  "unat (t_r8 opcode) = g8 opcode" "unat (t_hd opcode) = gh0 opcode" "unat (t_hs opcode) = gh3 opcode"
  by (simp_all add: t_rd_def t_rs_def t_ro_def t_r8_def t_hd_def t_hs_def g0_def g3_def g6_def g8_def gh0_def gh3_def
      unat_ucast_u16)

lemma field_bounds [simp]:
  "g0 opcode < 8" "g3 opcode < 8" "g6 opcode < 8" "g8 opcode < 8" "gh0 opcode < 16" "gh3 opcode < 16"
proof -
  have m: "(0xF :: u16) = mask 4" "(0x8 :: u16) = push_bit 3 1" by (simp_all add: mask_eq_exp_minus_1)
  have lt: "unat (w AND mask n) < 2 ^ n" for w :: u16 and n by (simp add: unat_and_mask)
  show "g0 opcode < 8" "g3 opcode < 8" "g6 opcode < 8" "g8 opcode < 8" "gh3 opcode < 16"
    unfolding g0_def g3_def g6_def g8_def gh3_def low_masks m(1) using lt [of _ 3] lt [of _ 4] by simp_all
  let ?x = "(drop_bit 4 opcode AND push_bit 3 1) OR (opcode AND mask 3)"
  have "?x = ?x AND mask 4"
    by (rule bit_word_eqI) (auto simp only: bit_or_iff bit_and_iff bit_push_one bit_mask_iff possible_bit_word)
  then have "unat ?x = unat (?x AND mask 4)" by (rule arg_cong)
  from ord_eq_less_trans [OF this lt] show "gh0 opcode < 16" unfolding gh0_def low_masks m(2) by simp
qed

lemma field_views:
  "ctx_reg ia (t_rd opcode) s = view (g0 opcode) s" "ctx_reg ia (t_rs opcode) s = view (g3 opcode) s"
  "ctx_reg ia (t_ro opcode) s = view (g6 opcode) s" "ctx_reg ia (t_r8 opcode) s = view (g8 opcode) s"
  "ctx_reg ia 13 s = view 13 s"
  "ctx_reg_t ia (t_hd opcode) s = (if gh0 opcode = 15 then ia + 4 else view (gh0 opcode) s)"
  "ctx_reg_t ia (t_hs opcode) s = (if gh3 opcode = 15 then ia + 4 else view (gh3 opcode) s)"
proof -
  have low: "ctx_reg ia i s = view n s" if "unat i = n" "n < 15" for i n
    using that by (auto simp: ctx_reg_def view_def)
  have eq: "(i = 15) = (unat i = 15)" for i :: u32 by (simp add: word_unat_eq_iff)
  have high: "ctx_reg_t ia i s = (if n = 15 then ia + 4 else view n s)" if "unat i = n" "n < 16" for i n
    using that by (auto simp: ctx_reg_t_def view_def eq)
  have b: "g0 opcode < 15" "g3 opcode < 15" "g6 opcode < 15" "g8 opcode < 15"
    using field_bounds(1-4) [of opcode] by linarith+
  show "ctx_reg ia (t_rd opcode) s = view (g0 opcode) s" "ctx_reg ia (t_rs opcode) s = view (g3 opcode) s"
    "ctx_reg ia (t_ro opcode) s = view (g6 opcode) s" "ctx_reg ia (t_r8 opcode) s = view (g8 opcode) s"
    "ctx_reg ia 13 s = view 13 s"
    using low field_numbers b by simp_all
  show "ctx_reg_t ia (t_hd opcode) s = (if gh0 opcode = 15 then ia + 4 else view (gh0 opcode) s)"
    "ctx_reg_t ia (t_hs opcode) s = (if gh3 opcode = 15 then ia + 4 else view (gh3 opcode) s)"
    by (rule high; simp add: field_numbers)+
qed

lemma field_puts:
  "ctx_set_reg (t_rd opcode) v s = put (g0 opcode) v s" "ctx_set_reg (t_r8 opcode) v s = put (g8 opcode) v s"
  "ctx_set_reg (t_hd opcode) v s = put (gh0 opcode) v s" "ctx_set_reg 13 v s = put 13 v s"
  by (simp_all add: ctx_set_reg_def put_def field_numbers)

section \<open>The Thumb instructions that compute or load\<close>



text \<open>The instruction at an address, run by the interpreter; it is quiet if it computes, or loads from a
  page that is mapped for direct reads.\<close>

definition thumb_fn_of :: "u16 \<Rightarrow> thumb_fn" where
  "thumb_fn_of opcode = THUMB_TABLE ! unat (drop_bit 6 opcode)"

definition thumb_step :: "host_math \<Rightarrow> u32 \<times> u16 \<Rightarrow> emu \<Rightarrow> emu" where
  "thumb_step h i s = (case execute_thumb h (fst i) (snd i) s of Some (r, t) \<Rightarrow> t | None \<Rightarrow> s)"







lemma bounds15 [simp]:
  "g0 opcode < 15" "g8 opcode < 15" "g0 opcode < 32" "g3 opcode < 32" "g6 opcode < 32" "g8 opcode < 32" "gh0 opcode < 32" "gh3 opcode < 32"
  using field_bounds [of opcode] by linarith+

lemma gh0_15 [simp]: "gh0 opcode \<noteq> 15 \<Longrightarrow> gh0 opcode < 15" "t_hd opcode = 15 \<longleftrightarrow> gh0 opcode = 15"
  using field_bounds(5) [of opcode] field_numbers(5) [of opcode] by (linarith, simp add: word_unat_eq_iff)

lemma not_flags [simp]: "g0 opcode \<noteq> 16" "g3 opcode \<noteq> 16" "g6 opcode \<noteq> 16" "g8 opcode \<noteq> 16" "gh0 opcode \<noteq> 16" "gh3 opcode \<noteq> 16"
  using field_bounds [of opcode] by linarith+






lemma execute_fn: "execute_thumb h ia opcode s = thumb_exec h (thumb_fn_of opcode) ia opcode s"
  by (simp add: execute_thumb_def thumb_fn_of_def)






section \<open>Idle loops\<close>









lemma adc_loop_steps:
  "thumb_step h (a, 0x2001) s = put_flags False False (bit (view 16 s) 29) (bit (view 16 s) 28) (put 0 1 s)"
  "view 16 (thumb_step h (a, 0x4148) s) =
     (let c = of_bool (bit (view 16 s) 29); r = view 0 s + view 1 s + c
      in with_flags (bit r 31) (r = 0) (0xFFFFFFFF < (ucast (view 0 s) :: u64) + ucast (view 1 s) + ucast c)
           (NOT (view 0 s XOR view 1 s) AND (view 0 s XOR r) AND N_BIT \<noteq> 0) 0)"
  "k \<noteq> 0 \<Longrightarrow> k \<noteq> 16 \<Longrightarrow> view k (thumb_step h (a, 0x4148) s) = view k s"
proof -
  have f: "thumb_fn_of 0x2001 = TMovImm8" "thumb_fn_of 0x4148 = TAdcDp" by code_simp+
  have g: "g8 0x2001 = 0" "t_imm8 0x2001 = 1" "g0 0x4148 = 0" "g3 0x4148 = 1" by code_simp+
  show "thumb_step h (a, 0x2001) s = put_flags False False (bit (view 16 s) 29) (bit (view 16 s) 28) (put 0 1 s)"
    by (simp add: thumb_step_def execute_fn f mov_imm8_t_def field_puts flag_puts g)
  show "view 16 (thumb_step h (a, 0x4148) s) =
     (let c = of_bool (bit (view 16 s) 29); r = view 0 s + view 1 s + c
      in with_flags (bit r 31) (r = 0) (0xFFFFFFFF < (ucast (view 0 s) :: u64) + ucast (view 1 s) + ucast c)
           (NOT (view 0 s XOR view 1 s) AND (view 0 s XOR r) AND N_BIT \<noteq> 0) 0)"
    "k \<noteq> 0 \<Longrightarrow> k \<noteq> 16 \<Longrightarrow> view k (thumb_step h (a, 0x4148) s) = view k s"
    by (simp_all add: thumb_step_def execute_fn f adc_dp_t_def do_adc_def adc_flags_def field_views field_puts flag_puts g Let_def
        split del: if_split)
qed

text \<open>
  C36: the analysis accepts loops that end by themselves, because it leaves the flags out. The Thumb loop
  \<open>mov r0, #1; adc r0, r1; beq\<close>, entered with \<open>r1 = -1\<close> and the carry clear, branches back after its first
  pass and falls through after its second, although no memory has changed; the analysis marks its branch
  as an idle loop.
\<close>
theorem idle_loop_that_ends:
  fixes h
  defines "pass \<equiv> run_all (thumb_step h) [(0x8000, 0x2001), (0x8002, 0x4148)]" and "s \<equiv> upd_reg 1 0xFFFFFFFF emu_new"
  shows "map_option (map idle_loop \<circ> insts_metadata) (analyze 0x8000 (map decode_thumb_opcode [0x2001, 0x4148, 0xD0FC]) True)
       = Some [False, False, True]
     \<and> map_option fst (execute_thumb h 0x8004 0xD0FC (pass s)) = Some (Branch 1 0x8001)
     \<and> map_option fst (execute_thumb h 0x8004 0xD0FC (pass (pass s))) = Some (Continue 1)"
proof (intro conjI)
  show "map_option (map idle_loop \<circ> insts_metadata) (analyze 0x8000 (map decode_thumb_opcode [0x2001, 0x4148, 0xD0FC]) True)
       = Some [False, False, True]" by code_simp
  have v: "view 1 s = 0xFFFFFFFF" "view 16 s = 0"
    by (simp_all add: s_def view_def reg_def upd_reg_def upd_regs_def get_reg_def set_reg_def flags_of_def ctx_cpsr_def emu_new_def
        thread_regs_default_def)
  have f: "thumb_fn_of 0xD0FC = TBcond Eq" by code_simp
  have b: "execute_thumb h 0x8004 0xD0FC t = Some (if bit (view 16 t) 30 then (Branch 1 0x8001, t) else (Continue 1, t))" for t
    by (simp add: execute_fn f bcond_t_def cpsr_view)
  have one: "view 1 (pass t) = view 1 t"
    "view 16 (pass t) = (let c = of_bool (bit (view 16 t) 29); r = 1 + view 1 t + c
      in with_flags (bit r 31) (r = 0) (0xFFFFFFFF < (1 :: u64) + ucast (view 1 t) + ucast c)
           (NOT (1 XOR view 1 t) AND (1 XOR r) AND N_BIT \<noteq> 0) 0)" for t
    by (simp_all add: pass_def adc_loop_steps bit_with_flags Let_def split del: if_split)
  show "map_option fst (execute_thumb h 0x8004 0xD0FC (pass s)) = Some (Branch 1 0x8001)"
    "map_option fst (execute_thumb h 0x8004 0xD0FC (pass (pass s))) = Some (Continue 1)"
    by (simp_all add: b one [unfolded One_nat_def] v [unfolded One_nat_def] bit_with_flags Let_def)
qed

section \<open>Live registers\<close>






end
