(* ===== verification/Raster.thy ===== *)
theory Raster
  imports Memory
begin

text \<open>
  The software rasteriser of \<open>src/src/core/ppu.rs\<close> (module \<open>soft_ppu\<close>): the background layers, layer
  selection and composition of a scanline. Object drawing and the frame loop are in \<open>RasterObj\<close>. A line
  buffer is a function from the pixel; a lane of a vector register is the value at one pixel, so a
  vector operation is written for one lane and applied at every pixel. Reads of the snapshot are by
  index; \<open>RasterBg\<close> shows that a folded address always lies inside video memory.
\<close>

section \<open>Buffers\<close>

abbreviation DISPLAY_WIDTH :: nat where "DISPLAY_WIDTH \<equiv> 240"
abbreviation DISPLAY_HEIGHT :: nat where "DISPLAY_HEIGHT \<equiv> 160"

type_synonym line = "nat \<Rightarrow> u16"

record obj_line =
  ol_color :: line
  ol_prio :: "nat \<Rightarrow> u8"
  ol_semi :: "nat \<Rightarrow> u8"

record obj_layer =
  l_obj :: obj_line
  win_mask :: "nat \<Rightarrow> u8"
  backdrop :: u16
  l_bld_cnt :: u16
  l_bld_alpha :: u16
  l_bld_y :: u16
  l_forced_blank :: bool
  any_semi :: bool

record bg_half =
  half_bg :: "nat \<Rightarrow> line"
  half_active :: "nat \<Rightarrow> bool"
  half_prio :: "nat \<Rightarrow> u16"

record bg_candidate =
  cand_line :: line
  cand_bg :: nat
  cand_prio :: u16

definition KEY_NONE :: u16 where "KEY_NONE = 0xFFFF"

record selection =
  top_color :: line
  top_key :: line
  bottom_color :: line
  bottom_key :: line

definition obj_layer_default :: obj_layer where
  "obj_layer_default = \<lparr>l_obj = \<lparr>ol_color = (\<lambda>_. 0), ol_prio = (\<lambda>_. 0), ol_semi = (\<lambda>_. 0)\<rparr>, win_mask = (\<lambda>_. 0x3F), backdrop = 0,
     l_bld_cnt = 0, l_bld_alpha = 0, l_bld_y = 0, l_forced_blank = False, any_semi = False\<rparr>"

definition bg_half_default :: bg_half where
  "bg_half_default = \<lparr>half_bg = (\<lambda>_ _. 0), half_active = (\<lambda>_. False), half_prio = (\<lambda>_. 0)\<rparr>"

definition selection_new :: selection where
  "selection_new = \<lparr>top_color = (\<lambda>_. 0), top_key = (\<lambda>_. KEY_NONE), bottom_color = (\<lambda>_. 0), bottom_key = (\<lambda>_. KEY_NONE)\<rparr>"

text \<open>A loop over the pixels of a line that writes each pixel of \<open>[a..<b]\<close>, and \<open>fill\<close>.\<close>

definition fill_span :: "nat \<Rightarrow> nat \<Rightarrow> 'a \<Rightarrow> (nat \<Rightarrow> 'a) \<Rightarrow> nat \<Rightarrow> 'a" where
  "fill_span a b v f = (\<lambda>x. if a \<le> x \<and> x < b then v else f x)"

abbreviation fill_line :: "'a \<Rightarrow> (nat \<Rightarrow> 'a) \<Rightarrow> nat \<Rightarrow> 'a" where
  "fill_line \<equiv> fill_span 0 DISPLAY_WIDTH"

definition obj_key :: "u8 \<Rightarrow> u16" where
  "obj_key prio = push_bit 4 (ucast prio)"

definition bg_key :: "u16 \<Rightarrow> nat \<Rightarrow> u16" where
  "bg_key prio bg = push_bit 4 prio OR (of_nat bg + 1)"

definition LAYER_OBJ :: nat where "LAYER_OBJ = 4"
definition LAYER_BACKDROP :: nat where "LAYER_BACKDROP = 5"

definition key_layer :: "u16 \<Rightarrow> nat" where
  "key_layer key =
     (if key = KEY_NONE then LAYER_BACKDROP else if key AND 0xF = 0 then LAYER_OBJ else unat (key AND 0xF) - 1)"

section \<open>Display control (gpu.rs)\<close>

definition dc_bg_mode :: "u16 \<Rightarrow> nat" where "dc_bg_mode c = unat (c AND 7)"
definition dc_frame_select :: "u16 \<Rightarrow> bool" where "dc_frame_select c = bit c 4"
definition dc_obj_mapping_1d :: "u16 \<Rightarrow> bool" where "dc_obj_mapping_1d c = bit c 6"
definition dc_forced_blank :: "u16 \<Rightarrow> bool" where "dc_forced_blank c = bit c 7"
definition dc_display_bg :: "u16 \<Rightarrow> nat \<Rightarrow> bool" where "dc_display_bg c bg = bit c (8 + bg)"
definition dc_display_obj :: "u16 \<Rightarrow> bool" where "dc_display_obj c = bit c 12"
definition dc_window0 :: "u16 \<Rightarrow> bool" where "dc_window0 c = bit c 13"
definition dc_window1 :: "u16 \<Rightarrow> bool" where "dc_window1 c = bit c 14"
definition dc_obj_window :: "u16 \<Rightarrow> bool" where "dc_obj_window c = bit c 15"

section \<open>Reads of the snapshot\<close>

definition vram_index :: "u32 \<Rightarrow> nat" where
  "vram_index offset = unat (vram_offset offset)"

definition read_vram16 :: "(nat \<Rightarrow> u8) \<Rightarrow> u32 \<Rightarrow> u16" where
  "read_vram16 vram offset = ucast (read_mem 2 vram (vram_index offset))"

definition read_pal16 :: "(nat \<Rightarrow> u8) \<Rightarrow> nat \<Rightarrow> u16" where
  "read_pal16 pal index = ucast (read_mem 2 pal (2 * index))"

definition read_row64 :: "(nat \<Rightarrow> u8) \<Rightarrow> nat \<Rightarrow> u64" where
  "read_row64 vram row = fold (\<lambda>i w. w OR push_bit (8 * i) (ucast (vram (row + i)))) [0..<8] 0"

section \<open>Text backgrounds\<close>

definition char_base :: "u16 \<Rightarrow> u32" where "char_base cnt = push_bit 14 (ucast (drop_bit 2 cnt AND 3))"
definition screen_base :: "u16 \<Rightarrow> u32" where "screen_base cnt = push_bit 11 (ucast (drop_bit 8 cnt AND 0x1F))"

definition text_y :: "ppu_regs \<Rightarrow> nat \<Rightarrow> u32 \<Rightarrow> u32" where
  "text_y pr bg ln = (ln + ucast (bg_v_ofs pr bg)) AND (if bit (drop_bit 14 (bg_cnt pr bg) AND 3) 1 then 511 else 255)"

definition text_x_mask :: "ppu_regs \<Rightarrow> nat \<Rightarrow> u32" where
  "text_x_mask pr bg = (if bit (drop_bit 14 (bg_cnt pr bg) AND 3) 0 then 511 else 255)"

text \<open>The address of the map entry for \<open>x\<close> on the row of \<open>y\<close>.\<close>

definition text_entry_addr :: "ppu_regs \<Rightarrow> nat \<Rightarrow> u32 \<Rightarrow> u32 \<Rightarrow> u32" where
  "text_entry_addr pr bg y x =
     (let cnt = bg_cnt pr bg;
          row_block = screen_base cnt
            + (if y \<ge> 256 then (if bit (drop_bit 14 cnt AND 3) 0 then 0x1000 else 0x800) else 0);
          row_tile = ((y AND 255) div 8) * 32;
          block = row_block + (if x \<ge> 256 then 0x800 else 0)
      in block + (row_tile + (x AND 255) div 8) * 2)"

definition text_tile_y :: "u16 \<Rightarrow> u32 \<Rightarrow> u32" where
  "text_tile_y entry y = (if bit entry 11 then 7 - (y AND 7) else y AND 7)"

text \<open>The offset of the tile row of a map entry.\<close>

definition text_row_addr :: "u16 \<Rightarrow> u16 \<Rightarrow> u32 \<Rightarrow> u32" where
  "text_row_addr cnt entry y =
     (if bit cnt 7 then char_base cnt + ucast (entry AND 0x3FF) * 64 + text_tile_y entry y * 8
      else char_base cnt + ucast (entry AND 0x3FF) * 32 + text_tile_y entry y * 4)"

text \<open>One tile run: \<open>run\<close> pixels from \<open>px\<close>, whose first one is texel \<open>first_tx\<close> of the tile row.\<close>

definition text_run :: "gpu_mem_buf \<Rightarrow> u16 \<Rightarrow> u16 \<Rightarrow> u32 \<Rightarrow> nat \<Rightarrow> nat \<Rightarrow> nat \<Rightarrow> line \<Rightarrow> line" where
  "text_run buf cnt entry y first_tx px run out =
     (let row = vram_index (text_row_addr cnt entry y);
          texel = (\<lambda>i. let tx = first_tx + i in if bit entry 10 then 7 - tx else tx)
      in if bit cnt 7 then
           (let row64 = read_row64 (buf_vram buf) row
            in if row64 = 0 then out
               else fold (\<lambda>i out. let index = (ucast (drop_bit (texel i * 8) row64) :: u8)
                                  in if index \<noteq> 0 then out(px + i := read_pal16 (buf_pal buf) (unat index) OR 0x8000) else out)
                      [0..<run] out)
         else
           (let row32 = read_mem 4 (buf_vram buf) row; pal_bank = unat (drop_bit 12 entry AND 0xF)
            in if row32 = 0 then out
               else fold (\<lambda>i out. let index = drop_bit (texel i * 4) row32 AND 0xF
                                  in if index \<noteq> 0
                                     then out(px + i := read_pal16 (buf_pal buf) (pal_bank * 16 + unat index) OR 0x8000) else out)
                      [0..<run] out))"

function text_loop :: "gpu_mem_buf \<Rightarrow> ppu_regs \<Rightarrow> nat \<Rightarrow> u32 \<Rightarrow> nat \<Rightarrow> line \<Rightarrow> line" where
  "text_loop buf pr bg y px out =
     (if DISPLAY_WIDTH \<le> px then out
      else (let x = (of_nat px + ucast (bg_h_ofs pr bg)) AND text_x_mask pr bg;
                entry = read_vram16 (buf_vram buf) (text_entry_addr pr bg y x);
                first_tx = unat (x AND 7);
                run = min (8 - first_tx) (DISPLAY_WIDTH - px)
            in text_loop buf pr bg y (px + run) (text_run buf (bg_cnt pr bg) entry y first_tx px run out)))"
  by pat_completeness auto

lemma low3_less: "unat (w AND 7) < 8" for w :: u32
proof -
  have "(7 :: u32) = mask 3" by (simp add: mask_eq_exp_minus_1)
  then show ?thesis by (simp only: unat_and_mask) simp
qed

termination text_loop
proof (relation "measure (\<lambda>(buf, pr, bg, y, px, out). DISPLAY_WIDTH - px)")
  fix px :: nat and x first_tx :: u32
  show "wf (measure (\<lambda>(buf, pr, bg, y, px, out). DISPLAY_WIDTH - px))" by simp
next
  fix buf :: gpu_mem_buf and pr :: ppu_regs and bg px run first_tx :: nat and y x :: u32 and out :: line and entry :: u16
  assume "\<not> DISPLAY_WIDTH \<le> px" "first_tx = unat (x AND 7)" "run = min (8 - first_tx) (DISPLAY_WIDTH - px)"
  then have "0 < run" "px < DISPLAY_WIDTH" using low3_less [of x] by simp_all
  then show "((buf, pr, bg, y, px + run, text_run buf (bg_cnt pr bg) entry y first_tx px run out), (buf, pr, bg, y, px, out))
      \<in> measure (\<lambda>(buf, pr, bg, y, px, out). DISPLAY_WIDTH - px)" by simp
qed

declare text_loop.simps [simp del]

definition draw_text_bg :: "gpu_mem_buf \<Rightarrow> ppu_regs \<Rightarrow> nat \<Rightarrow> u32 \<Rightarrow> line \<Rightarrow> line" where
  "draw_text_bg buf pr bg ln out = text_loop buf pr bg (text_y pr bg ln) 0 out"

section \<open>Affine backgrounds\<close>

definition affine_size :: "u16 \<Rightarrow> u32" where
  "affine_size cnt = push_bit (unat (drop_bit 14 cnt AND 3)) 128"

definition affine_tile_addr :: "u16 \<Rightarrow> u32 \<Rightarrow> u32 \<Rightarrow> u32" where
  "affine_tile_addr cnt x y = screen_base cnt + (y div 8) * (affine_size cnt div 8) + (x div 8)"

definition affine_texel_addr :: "u16 \<Rightarrow> u8 \<Rightarrow> u32 \<Rightarrow> u32 \<Rightarrow> u32" where
  "affine_texel_addr cnt tile x y = char_base cnt + ucast tile * 64 + (y AND 7) * 8 + (x AND 7)"

definition affine_step :: "gpu_mem_buf \<Rightarrow> ppu_regs \<Rightarrow> nat \<Rightarrow> nat \<Rightarrow> u32 \<times> u32 \<times> line \<Rightarrow> u32 \<times> u32 \<times> line" where
  "affine_step buf pr bg px st =
     (let (cx, cy, out) = st; cnt = bg_cnt pr bg; i = bg - 2; size = affine_size cnt;
          x = signed_drop_bit 8 cx; y = signed_drop_bit 8 cy;
          cx = cx + scast (bg_pa pr i); cy = cy + scast (bg_pc pr i);
          inside = (bit cnt 13 \<or> \<not> (sint x < 0 \<or> sint x \<ge> sint size \<or> sint y < 0 \<or> sint y \<ge> sint size));
          x = (if bit cnt 13 then x AND (size - 1) else x); y = (if bit cnt 13 then y AND (size - 1) else y)
      in if \<not> inside then (cx, cy, out)
         else (let tile = buf_vram buf (vram_index (affine_tile_addr cnt x y));
                   index = buf_vram buf (vram_index (affine_texel_addr cnt tile x y))
               in (cx, cy, if index = 0 then out else out(px := read_pal16 (buf_pal buf) (unat index) OR 0x8000))))"

definition draw_affine_bg :: "gpu_mem_buf \<Rightarrow> ppu_regs \<Rightarrow> nat \<Rightarrow> line \<Rightarrow> line" where
  "draw_affine_bg buf pr bg out =
     snd (snd (fold (affine_step buf pr bg) [0..<DISPLAY_WIDTH] (internal_x pr (bg - 2), internal_y pr (bg - 2), out)))"

section \<open>Bitmap backgrounds\<close>

definition bitmap_width :: "nat \<Rightarrow> int" where "bitmap_width mode = (if mode = 5 then 160 else 240)"
definition bitmap_height :: "nat \<Rightarrow> int" where "bitmap_height mode = (if mode = 5 then 128 else 160)"

definition bitmap_page :: "nat \<Rightarrow> u16 \<Rightarrow> u32" where
  "bitmap_page mode dc = (if mode \<noteq> 3 \<and> dc_frame_select dc then 0xA000 else 0)"

text \<open>The fast path for an unscaled, unrotated bitmap; the slices it takes start at \<open>base\<close>.\<close>

definition bitmap_fast :: "gpu_mem_buf \<Rightarrow> ppu_regs \<Rightarrow> nat \<Rightarrow> u16 \<Rightarrow> line \<Rightarrow> line" where
  "bitmap_fast buf pr mode dc out =
     (let w = bitmap_width mode; y = sint (signed_drop_bit 8 (internal_y pr 0)); x0 = sint (signed_drop_bit 8 (internal_x pr 0))
      in if y < 0 \<or> y \<ge> bitmap_height mode then out
         else (let px_start = nat (min (max (- x0) 0) (int DISPLAY_WIDTH)); px_end = nat (max 0 (min (w - x0) (int DISPLAY_WIDTH)))
               in if px_start \<ge> px_end then out
                  else if mode = 4 then
                    (let base = unat (bitmap_page mode dc) + nat (y * w) + nat (x0 + int px_start)
                     in fold (\<lambda>i out. let index = buf_vram buf (base + i)
                                      in if index \<noteq> 0 then out(px_start + i := read_pal16 (buf_pal buf) (unat index) OR 0x8000) else out)
                          [0..<px_end - px_start] out)
                  else
                    (let base = unat (bitmap_page mode dc) + nat (y * w) * 2 + nat (x0 + int px_start) * 2
                     in fold (\<lambda>i out. out(px_start + i := ucast (read_mem 2 (buf_vram buf) (base + 2 * i)) OR 0x8000))
                          [0..<px_end - px_start] out)))"

definition bitmap_step :: "gpu_mem_buf \<Rightarrow> ppu_regs \<Rightarrow> nat \<Rightarrow> u16 \<Rightarrow> nat \<Rightarrow> u32 \<times> u32 \<times> line \<Rightarrow> u32 \<times> u32 \<times> line" where
  "bitmap_step buf pr mode dc px st =
     (let (cx, cy, out) = st; x = sint (signed_drop_bit 8 cx); y = sint (signed_drop_bit 8 cy);
          cx = cx + scast (bg_pa pr 0); cy = cy + scast (bg_pc pr 0)
      in if x < 0 \<or> x \<ge> bitmap_width mode \<or> y < 0 \<or> y \<ge> bitmap_height mode then (cx, cy, out)
         else (let pixel_index = word_of_int (y * bitmap_width mode + x) :: u32
               in (cx, cy,
                   if mode = 4 then
                     (let index = buf_vram buf (vram_index (bitmap_page mode dc + pixel_index))
                      in if index = 0 then out else out(px := read_pal16 (buf_pal buf) (unat index) OR 0x8000))
                   else out(px := read_vram16 (buf_vram buf) (bitmap_page mode dc + pixel_index * 2) OR 0x8000))))"

definition bitmap_walk :: "gpu_mem_buf \<Rightarrow> ppu_regs \<Rightarrow> nat \<Rightarrow> u16 \<Rightarrow> line \<Rightarrow> line" where
  "bitmap_walk buf pr mode dc out =
     snd (snd (fold (bitmap_step buf pr mode dc) [0..<DISPLAY_WIDTH] (internal_x pr 0, internal_y pr 0, out)))"

definition draw_bitmap_bg :: "gpu_mem_buf \<Rightarrow> ppu_regs \<Rightarrow> nat \<Rightarrow> u16 \<Rightarrow> line \<Rightarrow> line" where
  "draw_bitmap_bg buf pr mode dc out =
     (if bg_pa pr 0 = 0x100 \<and> bg_pc pr 0 = 0 then bitmap_fast buf pr mode dc out else bitmap_walk buf pr mode dc out)"

section \<open>A pair of layers\<close>

text \<open>The match on mode and background: how a background is drawn, \<open>None\<close> if it is not.\<close>

definition draw_bg :: "gpu_mem_buf \<Rightarrow> ppu_regs \<Rightarrow> u16 \<Rightarrow> u32 \<Rightarrow> nat \<Rightarrow> line \<Rightarrow> line option" where
  "draw_bg buf pr dc ln bg out =
     (let mode = dc_bg_mode dc; out = fill_line 0 out
      in if mode = 0 \<or> (mode = 1 \<and> bg < 2) then Some (draw_text_bg buf pr bg ln out)
         else if (mode = 1 \<and> bg = 2) \<or> (mode = 2 \<and> 2 \<le> bg) then Some (draw_affine_bg buf pr bg out)
         else if 3 \<le> mode \<and> mode \<le> 5 \<and> bg = 2 then Some (draw_bitmap_bg buf pr mode dc out)
         else None)"

definition draw_bgs :: "gpu_mem_buf \<Rightarrow> ppu_regs \<Rightarrow> u16 \<Rightarrow> u32 \<Rightarrow> nat \<Rightarrow> bg_half \<Rightarrow> bg_half" where
  "draw_bgs buf pr dc ln base half =
     (let half = half\<lparr>half_active := (\<lambda>_. False)\<rparr>
      in if dc_forced_blank dc then half
         else fold (\<lambda>i half.
                let bg = base + i
                in if \<not> dc_display_bg dc bg then half
                   else (case draw_bg buf pr dc ln bg (half_bg half i) of
                           None \<Rightarrow> half
                         | Some ln' \<Rightarrow> half\<lparr>half_bg := (half_bg half)(i := ln'), half_active := (half_active half)(i := True),
                                        half_prio := (half_prio half)(i := bg_cnt pr bg AND 3)\<rparr>)) [0, 1] half)"

section \<open>Layer selection\<close>

text \<open>The pixels of one lane or loop pass: top colour, top key, bottom colour, bottom key.\<close>

type_synonym picked = "u16 \<times> u16 \<times> u16 \<times> u16"

text \<open>The walk of \<open>select_layers_scalar\<close>: \<open>Inl\<close> while it goes on, with the number of layers filled; \<open>Inr\<close>
  after the break of \<open>take!\<close>.\<close>

definition take_layer :: "u16 \<Rightarrow> u16 \<Rightarrow> (nat \<times> picked) + picked \<Rightarrow> (nat \<times> picked) + picked" where
  "take_layer color key st =
     (case st of Inr p \<Rightarrow> Inr p
      | Inl (filled, tc, tk, bc, bk) \<Rightarrow> if filled = 0 then Inl (1, color, key, bc, bk) else Inr (tc, tk, color, key))"

fun walk :: "obj_line \<Rightarrow> u8 \<Rightarrow> nat \<Rightarrow> bg_candidate list \<Rightarrow> bool \<Rightarrow> (nat \<times> picked) + picked \<Rightarrow> picked" where
  "walk obj m x cs pending (Inr p) = p"
| "walk obj m x [] pending (Inl st) =
     (case (if pending then take_layer (ol_color obj x AND 0x7FFF) (obj_key (ol_prio obj x)) (Inl st) else Inl st) of
        Inl (filled, p) \<Rightarrow> p | Inr p \<Rightarrow> p)"
| "walk obj m x (c # cs) pending (Inl st) =
     (let now = pending \<and> ucast (ol_prio obj x) \<le> cand_prio c;
          st = (if now then take_layer (ol_color obj x AND 0x7FFF) (obj_key (ol_prio obj x)) (Inl st) else Inl st);
          px = cand_line c x;
          st = (if bit m (cand_bg c) \<and> bit px 15 then take_layer (px AND 0x7FFF) (bg_key (cand_prio c) (cand_bg c)) st else st)
      in walk obj m x cs (pending \<and> \<not> now) st)"

definition select_scalar_px :: "bg_candidate list \<Rightarrow> obj_line \<Rightarrow> (nat \<Rightarrow> u8) \<Rightarrow> nat \<Rightarrow> picked" where
  "select_scalar_px bgs obj m x =
     walk obj (m x) x bgs (bit (m x) 4 \<and> bit (ol_color obj x) 15) (Inl (0, 0, KEY_NONE, 0, KEY_NONE))"

definition store_picked :: "(nat \<Rightarrow> picked) \<Rightarrow> selection \<Rightarrow> selection" where
  "store_picked f sel =
     (let upd = (\<lambda>g old x. if x < DISPLAY_WIDTH then g (f x) else old x)
      in \<lparr>top_color = upd fst (top_color sel), top_key = upd (\<lambda>p. fst (snd p)) (top_key sel),
          bottom_color = upd (\<lambda>p. fst (snd (snd p))) (bottom_color sel), bottom_key = upd (\<lambda>p. snd (snd (snd p))) (bottom_key sel)\<rparr>)"

definition select_layers_scalar :: "bg_candidate list \<Rightarrow> obj_line \<Rightarrow> (nat \<Rightarrow> u8) \<Rightarrow> selection \<Rightarrow> selection" where
  "select_layers_scalar bgs obj m sel = store_picked (select_scalar_px bgs obj m) sel"

text \<open>One lane of \<open>select_layers_neon\<close>: a comparison is a mask, \<open>vbslq\<close> picks by it. The state is best colour
  and key, second colour and key.\<close>

definition lane_insert :: "u16 \<Rightarrow> u16 \<Rightarrow> picked \<Rightarrow> picked" where
  "lane_insert color key st =
     (let (best_color, best, second_color, second) = st; lt_best = key < best; lt_second = key < second;
          second' = (if lt_best then best else if lt_second then key else second);
          second_color' = (if lt_best then best_color else if lt_second then color else second_color)
      in (if lt_best then color else best_color, if lt_best then key else best, second_color', second'))"

definition select_neon_lane :: "bg_candidate list \<Rightarrow> obj_line \<Rightarrow> (nat \<Rightarrow> u8) \<Rightarrow> nat \<Rightarrow> picked" where
  "select_neon_lane bgs obj m x =
     (let color = ol_color obj x;
          key = (if bit color 15 \<and> bit (m x) 4 then push_bit 4 (ucast (ol_prio obj x)) else KEY_NONE);
          st = lane_insert (color AND 0x7FFF) key (0, KEY_NONE, 0, KEY_NONE)
      in fold (\<lambda>c. let color = cand_line c x;
                       key = (if bit color 15 \<and> bit (m x) (cand_bg c) then bg_key (cand_prio c) (cand_bg c) else KEY_NONE)
                   in lane_insert (color AND 0x7FFF) key) bgs st)"

definition select_layers_neon :: "bg_candidate list \<Rightarrow> obj_line \<Rightarrow> (nat \<Rightarrow> u8) \<Rightarrow> selection \<Rightarrow> selection" where
  "select_layers_neon bgs obj m sel = store_picked (select_neon_lane bgs obj m) sel"

section \<open>Colours\<close>

definition channel :: "nat \<Rightarrow> u16 \<Rightarrow> u32" where
  "channel i c = ucast (drop_bit (5 * i) c AND 0x1F)"

definition pack555 :: "u32 \<Rightarrow> u32 \<Rightarrow> u32 \<Rightarrow> u16" where
  "pack555 r g b = ucast (r OR push_bit 5 g OR push_bit 10 b)"

definition blend_channel :: "u32 \<Rightarrow> u32 \<Rightarrow> u32 \<Rightarrow> u32 \<Rightarrow> u32" where
  "blend_channel c1 c2 eva evb = min (drop_bit 4 (c1 * eva + c2 * evb)) 31"

definition alpha_blend :: "u16 \<Rightarrow> u16 \<Rightarrow> u32 \<Rightarrow> u32 \<Rightarrow> u16" where
  "alpha_blend c1 c2 eva evb =
     pack555 (blend_channel (channel 0 c1) (channel 0 c2) eva evb)
       (blend_channel (channel 1 c1) (channel 1 c2) eva evb) (blend_channel (channel 2 c1) (channel 2 c2) eva evb)"

definition bright_channel :: "u32 \<Rightarrow> bool \<Rightarrow> u32 \<Rightarrow> u32" where
  "bright_channel evy up c = (if up then c + drop_bit 4 ((31 - c) * evy) else c - drop_bit 4 (c * evy))"

definition brightness :: "u16 \<Rightarrow> u32 \<Rightarrow> bool \<Rightarrow> u16" where
  "brightness color evy up =
     pack555 (bright_channel evy up (channel 0 color)) (bright_channel evy up (channel 1 color)) (bright_channel evy up (channel 2 color))"

definition abgr8_from_555 :: "u32 \<Rightarrow> u32" where
  "abgr8_from_555 c =
     (push_bit 3 (c AND 0x1F) OR push_bit 6 (c AND 0x3E0)) OR (push_bit 9 (c AND 0x7C00) OR 0xFF000000)"

definition convert_555_line :: "line \<Rightarrow> (nat \<Rightarrow> u32) \<Rightarrow> nat \<Rightarrow> u32" where
  "convert_555_line src fb = (\<lambda>x. if x < DISPLAY_WIDTH then abgr8_from_555 (ucast (src x)) else fb x)"

definition top_to_abgr :: "selection \<Rightarrow> u16 \<Rightarrow> (nat \<Rightarrow> u32) \<Rightarrow> nat \<Rightarrow> u32" where
  "top_to_abgr sel bd fb =
     (\<lambda>x. if x < DISPLAY_WIDTH then abgr8_from_555 (ucast (if top_key sel x = KEY_NONE then bd else top_color sel x)) else fb x)"

section \<open>Composition\<close>

definition bg_order :: "bg_half \<Rightarrow> bg_half \<Rightarrow> bg_candidate list" where
  "bg_order bg01 bg23 =
     concat (map (\<lambda>prio. concat (map (\<lambda>bg.
       let (half, i) = (if bg < 2 then (bg01, bg) else (bg23, bg - 2))
       in if half_active half i \<and> half_prio half i = prio
          then [\<lparr>cand_line = half_bg half i, cand_bg = bg, cand_prio = prio\<rparr>] else []) [0..<4])) [0, 1, 2, 3])"

definition compose_pixel :: "obj_layer \<Rightarrow> selection \<Rightarrow> nat \<Rightarrow> u16" where
  "compose_pixel objs sel x =
     (let bld_mode = drop_bit 6 (l_bld_cnt objs) AND 3;
          eva = ucast (min (l_bld_alpha objs AND 0x1F) 16); evb = ucast (min (drop_bit 8 (l_bld_alpha objs) AND 0x1F) 16);
          evy = ucast (min (l_bld_y objs AND 0x1F) 16);
          tk = top_key sel x; bk = bottom_key sel x;
          tc = (if tk = KEY_NONE then backdrop objs else top_color sel x);
          bc = (if bk = KEY_NONE then backdrop objs else bottom_color sel x);
          top_layer = key_layer tk; bottom_layer = key_layer bk;
          top_semi = (top_layer = LAYER_OBJ \<and> ol_semi (l_obj objs) x \<noteq> 0);
          effects_ok = bit (win_mask objs x) 5;
          first_target = bit (l_bld_cnt objs) top_layer; second_target = bit (l_bld_cnt objs) (8 + bottom_layer)
      in if top_semi \<and> second_target \<and> effects_ok then alpha_blend tc bc eva evb
         else if effects_ok \<and> first_target then
           (if bld_mode = 1 \<and> second_target then alpha_blend tc bc eva evb
            else if bld_mode = 2 then brightness tc evy True
            else if bld_mode = 3 then brightness tc evy False
            else tc)
         else tc)"

definition compose_scanline :: "obj_layer \<Rightarrow> bg_half \<Rightarrow> bg_half \<Rightarrow> (nat \<Rightarrow> u32) \<Rightarrow> selection \<Rightarrow> (nat \<Rightarrow> u32) \<times> selection" where
  "compose_scanline objs bg01 bg23 fb sel =
     (if l_forced_blank objs then (fill_line 0xFFFFFFFF fb, sel)
      else (let sel = select_layers_neon (bg_order bg01 bg23) (l_obj objs) (win_mask objs) sel
            in (if drop_bit 6 (l_bld_cnt objs) AND 3 = 0 \<and> (\<not> any_semi objs \<or> l_bld_cnt objs AND 0x3F00 = 0)
                then top_to_abgr sel (backdrop objs) fb
                else convert_555_line (\<lambda>x. if x < DISPLAY_WIDTH then compose_pixel objs sel x else 0) fb, sel)))"

end
