(* ===== verification/RasterObj.thy ===== *)
theory RasterObj
  imports Raster
begin

text \<open>
  The rest of the rasteriser of \<open>src/src/core/ppu.rs\<close>: the decoded object list, object drawing, the window
  mask, a whole scanline, and one core's share of a frame (\<open>rasterize_half\<close> of \<open>src/src/core/gpu.rs\<close>).
  Object geometry, which stays within a few hundred pixels, is in \<open>int\<close> and \<open>nat\<close>.
\<close>

section \<open>Decoded objects\<close>

definition OBJ_SIZES :: "(nat \<times> nat) list list" where
  "OBJ_SIZES =
     [[(8, 8), (16, 16), (32, 32), (64, 64)], [(16, 8), (32, 8), (32, 16), (64, 32)], [(8, 16), (8, 32), (16, 32), (32, 64)]]"

text \<open>The bits of \<open>flags\<close>: affine, semi-transparent, window, 8bpp, horizontal and vertical flip.\<close>

record decoded_obj =
  ox :: int
  oy :: int
  obj_w :: nat
  obj_h :: nat
  bound_w :: nat
  bound_h :: nat
  base_tile :: nat
  stride_1d :: nat
  o_pa :: u16
  o_pb :: u16
  o_pc :: u16
  o_pd :: u16
  o_prio :: u8
  pal_bank :: nat
  flags :: u8

record oam_scratch =
  oam_objs :: "nat \<Rightarrow> decoded_obj"
  oam_counts :: "nat \<Rightarrow> nat"
  oam_lists :: "nat \<Rightarrow> nat \<Rightarrow> nat"
  base_line :: nat

definition obj_zero :: decoded_obj where
  "obj_zero = \<lparr>ox = 0, oy = 0, obj_w = 0, obj_h = 0, bound_w = 0, bound_h = 0, base_tile = 0, stride_1d = 0,
     o_pa = 0, o_pb = 0, o_pc = 0, o_pd = 0, o_prio = 0, pal_bank = 0, flags = 0\<rparr>"

definition oam_scratch_new :: oam_scratch where
  "oam_scratch_new = \<lparr>oam_objs = (\<lambda>_. obj_zero), oam_counts = (\<lambda>_. 0), oam_lists = (\<lambda>_ _. 0), base_line = 0\<rparr>"

definition oam16 :: "(nat \<Rightarrow> u8) \<Rightarrow> nat \<Rightarrow> u16" where
  "oam16 oam a = ucast (read_mem 2 oam a)"

definition pack_flags :: "bool \<Rightarrow> nat \<Rightarrow> bool \<Rightarrow> bool \<Rightarrow> bool \<Rightarrow> u8" where
  "pack_flags affine gfx_mode is_8bpp hf vf =
     (if affine then 1 else 0) OR (if gfx_mode = 1 then push_bit 1 1 else 0) OR (if gfx_mode = 2 then push_bit 2 1 else 0)
     OR (if is_8bpp then push_bit 3 1 else 0) OR (if hf then push_bit 4 1 else 0) OR (if vf then push_bit 5 1 else 0)"

text \<open>The body of the loop of \<open>decode\<close> for one entry: the decoded object and the lines it covers in
  \<open>[start..<stop]\<close>, or \<open>None\<close> where the source continues.\<close>

definition decode_entry :: "(nat \<Rightarrow> u8) \<Rightarrow> int \<Rightarrow> int \<Rightarrow> nat \<Rightarrow> (decoded_obj \<times> int \<times> int) option" where
  "decode_entry oam start stop k =
     (let attr0 = oam16 oam (k * 8); attr1 = oam16 oam (k * 8 + 2); attr2 = oam16 oam (k * 8 + 4);
          affine = bit attr0 8; gfx_mode = unat (drop_bit 10 attr0 AND 3); shape = unat (drop_bit 14 attr0 AND 3)
      in if (\<not> affine \<and> bit attr0 9) \<or> gfx_mode = 3 \<or> shape = 3 then None
         else (let (w, h) = OBJ_SIZES ! shape ! unat (drop_bit 14 attr1 AND 3);
                   double = affine \<and> bit attr0 9;
                   (bw, bh) = (if double then (w * 2, h * 2) else (w, h));
                   y = int (unat (attr0 AND 0xFF)); y = (if y + int bh > 256 then y - 256 else y);
                   y0 = max y start; y1 = min (y + int bh) stop;
                   x = int (unat (attr1 AND 0x1FF)); x = (if x \<ge> int DISPLAY_WIDTH then x - 512 else x)
               in if y0 \<ge> y1 \<or> x + int bw \<le> 0 then None
                  else (let is_8bpp = bit attr0 13; group = unat (drop_bit 9 attr1 AND 0x1F) * 32;
                            (pa, pb, pc, pd) = (if affine then (oam16 oam (group + 6), oam16 oam (group + 14), oam16 oam (group + 22), oam16 oam (group + 30))
                                                else (0x100, 0, 0, 0x100))
                        in Some (\<lparr>ox = x, oy = y, obj_w = w, obj_h = h, bound_w = bw, bound_h = bh,
                                  base_tile = unat (attr2 AND 0x3FF), stride_1d = (w div 8) * (if is_8bpp then 2 else 1),
                                  o_pa = pa, o_pb = pb, o_pc = pc, o_pd = pd, o_prio = ucast (drop_bit 10 attr2 AND 3),
                                  pal_bank = unat (drop_bit 12 attr2 AND 0xF),
                                  flags = pack_flags affine gfx_mode is_8bpp (\<not> affine \<and> bit attr1 12) (\<not> affine \<and> bit attr1 13)\<rparr>,
                                 y0, y1))))"

definition push_slot :: "nat \<Rightarrow> nat \<Rightarrow> oam_scratch \<Rightarrow> oam_scratch" where
  "push_slot slot li s =
     s\<lparr>oam_lists := (oam_lists s)(li := (oam_lists s li)(oam_counts s li := slot)),
       oam_counts := (oam_counts s)(li := oam_counts s li + 1)\<rparr>"

definition decode_step :: "(nat \<Rightarrow> u8) \<Rightarrow> nat \<Rightarrow> nat \<Rightarrow> nat \<Rightarrow> nat \<times> oam_scratch \<Rightarrow> nat \<times> oam_scratch" where
  "decode_step oam start stop k st =
     (case decode_entry oam (int start) (int stop) k of
        None \<Rightarrow> st
      | Some (obj, y0, y1) \<Rightarrow>
          (let (decoded, s) = st; s = s\<lparr>oam_objs := (oam_objs s)(decoded := obj)\<rparr>
           in (decoded + 1, fold (\<lambda>ln. push_slot decoded (ln - start)) [nat y0..<nat y1] s)))"

definition oam_decode :: "(nat \<Rightarrow> u8) \<Rightarrow> nat \<Rightarrow> nat \<Rightarrow> oam_scratch \<Rightarrow> oam_scratch" where
  "oam_decode oam start stop s =
     snd (fold (decode_step oam start stop) [0..<128]
       (0, s\<lparr>base_line := start, oam_counts := fill_span 0 (stop - start) 0 (oam_counts s)\<rparr>))"

section \<open>Drawing objects\<close>

text \<open>What \<open>draw_objects\<close> writes: the line, the object window and whether a semi-transparent pixel landed.\<close>

record obj_draw =
  d_obj :: obj_line
  d_window :: "nat \<Rightarrow> bool"
  d_semi :: bool

definition plot :: "(nat \<Rightarrow> u8) \<Rightarrow> decoded_obj \<Rightarrow> nat \<Rightarrow> u8 \<Rightarrow> obj_draw \<Rightarrow> obj_draw" where
  "plot pal b sx index st =
     (if index = 0 then st
      else if bit (flags b) 2 then st\<lparr>d_window := (d_window st)(sx := True)\<rparr>
      else if \<not> bit (ol_color (d_obj st) sx) 15 \<or> o_prio b < ol_prio (d_obj st) sx then
        (let color = (if bit (flags b) 3 then read_pal16 pal (256 + unat index) else read_pal16 pal (256 + pal_bank b * 16 + unat index));
             semi = of_bool (bit (flags b) 1)
         in st\<lparr>d_obj := \<lparr>ol_color = (ol_color (d_obj st))(sx := color OR 0x8000), ol_prio = (ol_prio (d_obj st))(sx := o_prio b),
                        ol_semi = (ol_semi (d_obj st))(sx := semi)\<rparr>,
               d_semi := d_semi st \<or> semi \<noteq> 0\<rparr>)
      else st)"

definition tile_step :: "decoded_obj \<Rightarrow> nat" where "tile_step b = (if bit (flags b) 3 then 2 else 1)"
definition row_stride :: "u16 \<Rightarrow> decoded_obj \<Rightarrow> nat" where "row_stride dc b = (if dc_obj_mapping_1d dc then stride_1d b else 32)"

definition tile_addr :: "nat \<Rightarrow> u32" where
  "tile_addr tile = 0x10000 + (of_nat tile AND 0x3FF) * 32"

definition affine_texel :: "(nat \<Rightarrow> u8) \<Rightarrow> u16 \<Rightarrow> decoded_obj \<Rightarrow> int \<Rightarrow> int \<Rightarrow> u8" where
  "affine_texel vram dc b local_x local_y =
     (let cx = local_x - int (bound_w b) div 2; cy = local_y - int (bound_h b) div 2;
          tx = (sint (o_pa b) * cx + sint (o_pb b) * cy) div 256 + int (obj_w b) div 2;
          ty = (sint (o_pc b) * cx + sint (o_pd b) * cy) div 256 + int (obj_h b) div 2
      in if tx < 0 \<or> tx \<ge> int (obj_w b) \<or> ty < 0 \<or> ty \<ge> int (obj_h b) then 0
         else (let tx = nat tx; ty = nat ty; tile = base_tile b + ty div 8 * row_stride dc b + tx div 8 * tile_step b
               in if bit (flags b) 3 then vram (vram_index (tile_addr tile + of_nat (ty mod 8) * 8 + of_nat (tx mod 8)))
                  else (drop_bit (tx mod 2 * 4) (vram (vram_index (tile_addr tile + of_nat (ty mod 8) * 4 + of_nat (tx mod 8) div 2)))
                        AND 0xF)))"

definition draw_affine_obj :: "gpu_mem_buf \<Rightarrow> u16 \<Rightarrow> int \<Rightarrow> decoded_obj \<Rightarrow> obj_draw \<Rightarrow> obj_draw" where
  "draw_affine_obj buf dc ln b st =
     (let x_start = max (- ox b) 0; x_end = min (int (bound_w b)) (int DISPLAY_WIDTH - ox b)
      in fold (\<lambda>local_x. plot (buf_pal buf) b (nat (ox b + local_x)) (affine_texel (buf_vram buf) dc b local_x (ln - oy b)))
           [x_start..x_end - 1] st)"

text \<open>The texture row of a regular object, and one run of texels of a tile row.\<close>

definition obj_row :: "decoded_obj \<Rightarrow> int \<Rightarrow> nat" where
  "obj_row b local_y = nat (if bit (flags b) 5 then int (obj_h b) - 1 - local_y else local_y)"

definition obj_run :: "gpu_mem_buf \<Rightarrow> decoded_obj \<Rightarrow> nat \<Rightarrow> nat \<Rightarrow> nat \<Rightarrow> nat \<Rightarrow> nat \<Rightarrow> obj_draw \<Rightarrow> obj_draw" where
  "obj_run buf b tile ty tx0 sx run st =
     (let tx = (\<lambda>i. if bit (flags b) 4 then tx0 - i else tx0 + i)
      in if bit (flags b) 3 then
           (let row64 = read_row64 (buf_vram buf) (vram_index (tile_addr tile + of_nat (ty mod 8) * 8))
            in if row64 = 0 then st
               else fold (\<lambda>i. plot (buf_pal buf) b (sx + i) (ucast (drop_bit (tx i mod 8 * 8) row64))) [0..<run] st)
         else
           (let row32 = read_mem 4 (buf_vram buf) (vram_index (tile_addr tile + of_nat (ty mod 8) * 4))
            in if row32 = 0 then st
               else fold (\<lambda>i. plot (buf_pal buf) b (sx + i) (ucast (drop_bit (tx i mod 8 * 4) row32 AND 0xF))) [0..<run] st))"

function obj_loop :: "gpu_mem_buf \<Rightarrow> u16 \<Rightarrow> decoded_obj \<Rightarrow> nat \<Rightarrow> int \<Rightarrow> int \<Rightarrow> obj_draw \<Rightarrow> obj_draw" where
  "obj_loop buf dc b ty local_x x_end st =
     (if x_end \<le> local_x then st
      else (let tx0 = nat (if bit (flags b) 4 then int (obj_w b) - 1 - local_x else local_x);
                in_tile = (if bit (flags b) 4 then tx0 mod 8 + 1 else 8 - tx0 mod 8);
                run = min in_tile (nat (x_end - local_x));
                tile = base_tile b + ty div 8 * row_stride dc b + tx0 div 8 * tile_step b
            in obj_loop buf dc b ty (local_x + int run) x_end (obj_run buf b tile ty tx0 (nat (ox b + local_x)) run st)))"
  by pat_completeness auto

termination obj_loop
proof (relation "measure (\<lambda>(buf, dc, b, ty, local_x, x_end, st). nat (x_end - local_x))")
  fix buf :: gpu_mem_buf and dc :: u16 and b :: decoded_obj and ty tx0 in_tile run tile :: nat and local_x x_end :: int and st :: obj_draw
  assume "\<not> x_end \<le> local_x" "in_tile = (if bit (flags b) 4 then tx0 mod 8 + 1 else 8 - tx0 mod 8)"
    "run = min in_tile (nat (x_end - local_x))"
  moreover have "0 < 8 - tx0 mod 8" by simp
  ultimately have "0 < run" by auto
  with \<open>\<not> x_end \<le> local_x\<close>
  show "((buf, dc, b, ty, local_x + int run, x_end, obj_run buf b tile ty tx0 (nat (ox b + local_x)) run st),
      (buf, dc, b, ty, local_x, x_end, st)) \<in> measure (\<lambda>(buf, dc, b, ty, local_x, x_end, st). nat (x_end - local_x))"
    by simp
qed simp

declare obj_loop.simps [simp del]

definition draw_regular_obj :: "gpu_mem_buf \<Rightarrow> u16 \<Rightarrow> int \<Rightarrow> decoded_obj \<Rightarrow> obj_draw \<Rightarrow> obj_draw" where
  "draw_regular_obj buf dc ln b st =
     obj_loop buf dc b (obj_row b (ln - oy b)) (max (- ox b) 0) (min (int (obj_w b)) (int DISPLAY_WIDTH - ox b)) st"

definition draw_obj :: "gpu_mem_buf \<Rightarrow> u16 \<Rightarrow> int \<Rightarrow> decoded_obj \<Rightarrow> obj_draw \<Rightarrow> obj_draw" where
  "draw_obj buf dc ln b st =
     (if 3 \<le> dc_bg_mode dc \<and> base_tile b < 512 then st
      else if bit (flags b) 0 then draw_affine_obj buf dc ln b st else draw_regular_obj buf dc ln b st)"

definition line_objs :: "oam_scratch \<Rightarrow> nat \<Rightarrow> decoded_obj list" where
  "line_objs oam li = map (\<lambda>n. oam_objs oam (oam_lists oam li n)) [0..<oam_counts oam li]"

definition draw_objects :: "gpu_mem_buf \<Rightarrow> u16 \<Rightarrow> nat \<Rightarrow> oam_scratch \<Rightarrow> obj_draw \<Rightarrow> obj_draw" where
  "draw_objects buf dc ln oam st = fold (draw_obj buf dc (int ln)) (line_objs oam (ln - base_line oam)) st"

section \<open>Windows and the object layer\<close>

definition window_covers :: "ppu_regs \<Rightarrow> nat \<Rightarrow> nat \<Rightarrow> bool" where
  "window_covers pr w ln =
     (let y1 = unat (drop_bit 8 (win_v pr w)); y2 = unat (win_v pr w AND 0xFF)
      in if y1 \<le> y2 then y1 \<le> ln \<and> ln < y2 else y1 \<le> ln \<or> ln < y2)"

definition apply_window :: "ppu_regs \<Rightarrow> nat \<Rightarrow> nat \<Rightarrow> (nat \<Rightarrow> u8) \<Rightarrow> nat \<Rightarrow> u8" where
  "apply_window pr w ln m =
     (if \<not> window_covers pr w ln then m
      else (let x1 = unat (drop_bit 8 (win_h pr w)); x2 = unat (win_h pr w AND 0xFF);
                v = ucast (drop_bit (w * 8) (win_in pr)) AND 0x3F
            in if x1 \<le> x2 then fill_span x1 (min x2 DISPLAY_WIDTH) v m
               else fill_span x1 DISPLAY_WIDTH v (fill_span 0 (min x2 DISPLAY_WIDTH) v m)))"

definition window_mask :: "ppu_regs \<Rightarrow> u16 \<Rightarrow> nat \<Rightarrow> (nat \<Rightarrow> bool) \<Rightarrow> (nat \<Rightarrow> u8) \<Rightarrow> nat \<Rightarrow> u8" where
  "window_mask pr dc ln obj_window m =
     (if \<not> (dc_window0 dc \<or> dc_window1 dc \<or> dc_obj_window dc) then fill_line 0x3F m
      else (let m = fill_line (ucast (win_out pr) AND 0x3F) m;
                m = (if dc_obj_window dc
                     then (\<lambda>x. if x < DISPLAY_WIDTH \<and> obj_window x then ucast (drop_bit 8 (win_out pr)) AND 0x3F else m x) else m);
                m = (if dc_window1 dc then apply_window pr 1 ln m else m)
            in if dc_window0 dc then apply_window pr 0 ln m else m))"

definition draw_objs :: "gpu_mem_buf \<Rightarrow> ppu_regs \<Rightarrow> u16 \<Rightarrow> nat \<Rightarrow> obj_layer \<Rightarrow> oam_scratch \<Rightarrow> obj_layer" where
  "draw_objs buf pr dc ln out oam =
     (let out = out\<lparr>l_forced_blank := dc_forced_blank dc, backdrop := read_pal16 (buf_pal buf) 0 AND 0x7FFF,
                    l_bld_cnt := bld_cnt pr, l_bld_alpha := bld_alpha pr, l_bld_y := bld_y pr, any_semi := False\<rparr>
      in if dc_forced_blank dc then out
         else (let st = \<lparr>d_obj = (l_obj out)\<lparr>ol_color := fill_line 0 (ol_color (l_obj out))\<rparr>, d_window = (\<lambda>_. False), d_semi = False\<rparr>;
                   st = (if dc_display_obj dc then draw_objects buf dc ln oam st else st)
               in out\<lparr>l_obj := d_obj st, any_semi := d_semi st, win_mask := window_mask pr dc ln (d_window st) (win_mask out)\<rparr>))"

section \<open>Scanlines and frames\<close>

record raster_scratch =
  rs_obj :: obj_layer
  rs_bg01 :: bg_half
  rs_bg23 :: bg_half
  rs_sel :: selection
  rs_oam :: oam_scratch

definition raster_scratch_new :: raster_scratch where
  "raster_scratch_new = \<lparr>rs_obj = obj_layer_default, rs_bg01 = bg_half_default, rs_bg23 = bg_half_default, rs_sel = selection_new,
     rs_oam = oam_scratch_new\<rparr>"

definition begin_frame :: "gpu_mem_buf \<Rightarrow> nat \<Rightarrow> nat \<Rightarrow> raster_scratch \<Rightarrow> raster_scratch" where
  "begin_frame buf start stop scratch = scratch\<lparr>rs_oam := oam_decode (buf_oam buf) start stop (rs_oam scratch)\<rparr>"

definition draw_scanline :: "gpu_mem_buf \<Rightarrow> ppu_regs \<Rightarrow> u16 \<Rightarrow> nat \<Rightarrow> raster_scratch \<times> (nat \<Rightarrow> u32) \<Rightarrow> raster_scratch \<times> (nat \<Rightarrow> u32)" where
  "draw_scanline buf pr dc ln st =
     (let (sc, fb) = st; objs = draw_objs buf pr dc ln (rs_obj sc) (rs_oam sc);
          bg01 = draw_bgs buf pr dc (of_nat ln) 0 (rs_bg01 sc); bg23 = draw_bgs buf pr dc (of_nat ln) 2 (rs_bg23 sc);
          (fb, sel) = compose_scanline objs bg01 bg23 fb (rs_sel sc)
      in (sc\<lparr>rs_obj := objs, rs_bg01 := bg01, rs_bg23 := bg23, rs_sel := sel\<rparr>, fb))"

text \<open>A half's pixel buffer holds its rows one after another.\<close>

definition draw_row :: "gpu_mem_buf \<Rightarrow> (nat \<Rightarrow> u16 \<times> ppu_regs) \<Rightarrow> nat \<Rightarrow> nat \<Rightarrow> raster_scratch \<times> (nat \<Rightarrow> u32) \<Rightarrow> raster_scratch \<times> (nat \<Rightarrow> u32)" where
  "draw_row buf pr start ln st =
     (let (sc, fb) = st; row = (ln - start) * DISPLAY_WIDTH; (dc, pp) = pr ln;
          (sc, fb_line) = draw_scanline buf pp dc ln (sc, \<lambda>x. fb (row + x))
      in (sc, \<lambda>k. if row \<le> k \<and> k < row + DISPLAY_WIDTH then fb_line (k - row) else fb k))"

definition rasterize_half :: "renderer \<Rightarrow> nat \<Rightarrow> nat \<Rightarrow> raster_scratch \<times> (nat \<Rightarrow> u32) \<Rightarrow> raster_scratch \<times> (nat \<Rightarrow> u32)" where
  "rasterize_half rn half slot st =
     (let (sc, fb) = st; start = half * (DISPLAY_HEIGHT div 2); stop = start + DISPLAY_HEIGHT div 2; buf = slot_mem rn slot
      in fold (draw_row buf (slot_regs rn slot) start) [start..<stop] (begin_frame buf start stop sc, fb))"

end
