(* ===== verification/RasterLaws.thy ===== *)
theory RasterLaws
  imports Raster
begin

text \<open>
  Laws of composition: the vectorised layer selection is the ordered walk over the layers, and the
  arithmetic of alpha blending and brightness on 5-bit channels.
\<close>

section \<open>Layer selection\<close>

text \<open>The layers that show at a pixel, as colour and key, and where the object goes among them.\<close>

definition cand_key :: "bg_candidate \<Rightarrow> u16" where
  "cand_key c = bg_key (cand_prio c) (cand_bg c)"

definition opaque_at :: "u8 \<Rightarrow> nat \<Rightarrow> bg_candidate \<Rightarrow> bool" where
  "opaque_at m x c = (bit m (cand_bg c) \<and> bit (cand_line c x) 15)"

definition visible :: "u8 \<Rightarrow> nat \<Rightarrow> bg_candidate list \<Rightarrow> (u16 \<times> u16) list" where
  "visible m x cs = map (\<lambda>c. (cand_line c x AND 0x7FFF, cand_key c)) (filter (opaque_at m x) cs)"

fun merge :: "'a \<times> u16 \<Rightarrow> ('a \<times> u16) list \<Rightarrow> ('a \<times> u16) list" where
  "merge o1 [] = [o1]"
| "merge o1 (v # vs) = (if snd o1 < snd v then o1 # v # vs else v # merge o1 vs)"

fun front_two :: "(u16 \<times> u16) list \<Rightarrow> picked" where
  "front_two [] = (0, KEY_NONE, 0, KEY_NONE)"
| "front_two [(c, k)] = (c, k, 0, KEY_NONE)"
| "front_two ((c, k) # (d, l) # vs) = (c, k, d, l)"

definition the_picked :: "(nat \<times> picked) + picked \<Rightarrow> picked" where
  "the_picked st = (case st of Inl (n, p) \<Rightarrow> p | Inr p \<Rightarrow> p)"

abbreviation take_all :: "(u16 \<times> u16) list \<Rightarrow> (nat \<times> picked) + picked \<Rightarrow> (nat \<times> picked) + picked" where
  "take_all \<equiv> fold (\<lambda>(c, k). take_layer c k)"

lemma take_all_done [simp]: "take_all vs (Inr p) = Inr p"
  by (induction vs) (auto simp: take_layer_def)

lemma take_all_front: "the_picked (take_all vs (Inl (0, 0, KEY_NONE, 0, KEY_NONE))) = front_two vs"
  by (cases vs rule: front_two.cases) (auto simp: take_layer_def the_picked_def)

text \<open>Candidates in walk order: ascending keys below \<open>KEY_NONE\<close> that compare with objects as priorities do.\<close>

definition ordered :: "bg_candidate list \<Rightarrow> bool" where
  "ordered cs \<longleftrightarrow> sorted_wrt (\<lambda>c d. cand_key c < cand_key d) cs
     \<and> (\<forall>c \<in> set cs. cand_key c < KEY_NONE \<and> (\<forall>p :: u8. (ucast p \<le> cand_prio c) = (obj_key p < cand_key c)) \<and> (\<forall>p. obj_key p \<noteq> cand_key c))"

definition obj_entry :: "obj_line \<Rightarrow> nat \<Rightarrow> u16 \<times> u16" where
  "obj_entry obj x = (ol_color obj x AND 0x7FFF, obj_key (ol_prio obj x))"

lemma merge_first: "\<forall>v \<in> set vs. snd o1 < snd v \<Longrightarrow> merge o1 vs = o1 # vs"
  by (cases vs) auto

lemma visible_key: "v \<in> set (visible m x cs) \<Longrightarrow> \<exists>c \<in> set cs. snd v = cand_key c"
  by (auto simp: visible_def)

lemma walk_merge:
  assumes "ordered cs"
  shows "walk obj m x cs pending st =
    the_picked (take_all (if pending then merge (obj_entry obj x) (visible m x cs) else visible m x cs) st)"
  using assms
proof (induction cs arbitrary: pending st)
  case Nil
  show ?case
  proof (cases st)
    case (Inl a)
    then show ?thesis by (auto simp: visible_def obj_entry_def the_picked_def split: sum.split)
  qed (simp add: the_picked_def)
next
  case (Cons c cs)
  have o1: "ordered cs" and lt: "\<forall>d \<in> set cs. cand_key c < cand_key d"
    and cmp: "(ucast (ol_prio obj x) \<le> cand_prio c) = (obj_key (ol_prio obj x) < cand_key c)"
    using Cons.prems by (auto simp: ordered_def)
  have vc: "visible m x (c # cs) = (if opaque_at m x c then [(cand_line c x AND 0x7FFF, cand_key c)] else []) @ visible m x cs"
    by (simp add: visible_def)
  show ?case
  proof (cases st)
    case (Inl a)
    have now: "merge (obj_entry obj x) (visible m x (c # cs)) = obj_entry obj x # visible m x (c # cs)"
      if "obj_key (ol_prio obj x) < cand_key c"
    proof (rule merge_first)
      show "\<forall>v \<in> set (visible m x (c # cs)). snd (obj_entry obj x) < snd v"
        using that lt visible_key [of _ m x "c # cs"] by (fastforce simp: obj_entry_def)
    qed
    show ?thesis
      using now by (cases "pending \<and> obj_key (ol_prio obj x) < cand_key c")
        (auto simp: Inl cmp Cons.IH [OF o1] vc obj_entry_def opaque_at_def cand_key_def Let_def)
  qed (simp add: the_picked_def)
qed

lemma none_max [simp]: "\<not> KEY_NONE < k"
proof -
  have "unat k < 2 ^ 16" using unsigned_less [of k] by simp
  then have "k \<le> KEY_NONE" by (simp add: KEY_NONE_def word_le_nat_alt)
  then show ?thesis by simp
qed

lemma insert_none [simp]: "lane_insert c KEY_NONE st = st"
  by (cases st) (simp add: lane_insert_def Let_def)

abbreviation insert_all :: "(u16 \<times> u16) list \<Rightarrow> picked \<Rightarrow> picked" where
  "insert_all \<equiv> fold (\<lambda>(c, k). lane_insert c k)"

lemma neon_visible:
  "select_neon_lane bgs obj m x =
     insert_all (visible (m x) x bgs)
       (if bit (ol_color obj x) 15 \<and> bit (m x) 4 then lane_insert (fst (obj_entry obj x)) (snd (obj_entry obj x)) (0, KEY_NONE, 0, KEY_NONE)
        else (0, KEY_NONE, 0, KEY_NONE))"
proof -
  have "fold (\<lambda>c. let color = cand_line c x; key = (if bit color 15 \<and> bit (m x) (cand_bg c) then bg_key (cand_prio c) (cand_bg c) else KEY_NONE)
           in lane_insert (color AND 0x7FFF) key) bgs st = insert_all (visible (m x) x bgs) st" for st
    by (induction bgs arbitrary: st) (simp_all add: visible_def opaque_at_def cand_key_def Let_def)
  then show ?thesis by (simp add: select_neon_lane_def obj_entry_def obj_key_def Let_def)
qed

lemma insert_later: "\<forall>v \<in> set vs. sk \<le> snd v \<Longrightarrow> bk \<le> sk \<Longrightarrow> insert_all vs (b, bk, s, sk) = (b, bk, s, sk)"
proof (induction vs)
  case (Cons v vs)
  then show ?case by (cases v) (auto simp: lane_insert_def Let_def not_less)
qed simp

lemma insert_front:
  assumes "sorted_wrt (\<lambda>v w. snd v < snd w) vs" "\<forall>v \<in> set vs. snd v < KEY_NONE"
  shows "insert_all vs (0, KEY_NONE, 0, KEY_NONE) = front_two vs"
proof (cases vs rule: front_two.cases)
  case (3 c k d l ws)
  then show ?thesis using assms by (auto simp: lane_insert_def Let_def intro!: insert_later)
qed (use assms in \<open>auto simp: lane_insert_def Let_def\<close>)

lemma insert_merge:
  assumes "sorted_wrt (\<lambda>v w. snd v < snd w) vs" "\<forall>v \<in> set vs. snd v < KEY_NONE \<and> snd v \<noteq> ok" "ok < KEY_NONE"
  shows "insert_all vs (lane_insert oc ok (0, KEY_NONE, 0, KEY_NONE)) = front_two (merge (oc, ok) vs)"
proof (cases vs rule: front_two.cases)
  case (3 c k d l ws)
  consider "ok < k" | "k < ok" "ok < l" | "l < ok" using assms(2) 3 by (metis fst_conv list.set_intros linorder_neqE snd_conv)
  then show ?thesis
    using assms 3 by cases (auto simp: lane_insert_def Let_def intro!: insert_later)
qed (use assms in \<open>auto simp: lane_insert_def Let_def\<close>)

lemma select_neon_lane_eq:
  assumes "ordered bgs"
  shows "select_neon_lane bgs obj m x = select_scalar_px bgs obj m x"
proof -
  let ?vs = "visible (m x) x bgs"
  have s: "sorted_wrt (\<lambda>v w. snd v < snd w) ?vs"
    using assms by (simp add: visible_def ordered_def sorted_wrt_map sorted_wrt_filter)
  have k: "\<forall>v \<in> set ?vs. snd v < KEY_NONE \<and> snd v \<noteq> obj_key (ol_prio obj x)"
    using assms visible_key [of _ "m x" x bgs] by (fastforce simp: ordered_def)
  have "obj_key p < KEY_NONE" for p
  proof -
    have "\<not> bit (obj_key p) 0" by (simp add: obj_key_def bit_push_bit_iff)
    moreover have "bit KEY_NONE 0" by (simp add: KEY_NONE_def)
    ultimately have "obj_key p \<noteq> KEY_NONE" by metis
    then show ?thesis by (metis linorder_neqE none_max)
  qed
  then show ?thesis
    using insert_front [OF s] insert_merge [OF s k] k
    by (auto simp: neon_visible select_scalar_px_def walk_merge [OF assms] take_all_front obj_entry_def)
qed

section \<open>The candidates of a line are in walk order\<close>

lemma bg_key_num: "unat (bg_key prio bg) = 16 * unat prio + bg + 1" if "prio \<in> {0, 1, 2, 3}" "bg < 4"
proof -
  have "bg = 0 \<or> bg = 1 \<or> bg = 2 \<or> bg = 3" using that(2) by linarith
  then show ?thesis using that(1) by (auto simp: bg_key_def)
qed

lemma unat_ucast_u8: "unat (ucast p :: u16) = unat p" for p :: u8
proof -
  have "unat p < 2 ^ 8" using unsigned_less [of p] by simp
  then show ?thesis by (simp add: unsigned_ucast_eq take_bit_nat_eq_self)
qed

lemma obj_key_num: "unat (obj_key p) = 16 * unat p"
proof -
  have "unat p < 2 ^ 8" using unsigned_less [of p] by simp
  then have "unat (ucast p :: u16) = unat p" "16 * unat p < 2 ^ 16" using unat_ucast_u8 by simp_all
  then show ?thesis by (simp add: obj_key_def push_bit_eq_mult unat_word_ariths mult.commute)
qed

text \<open>The candidate of a priority and a background, and whether it is one.\<close>

definition cand_at :: "bg_half \<Rightarrow> bg_half \<Rightarrow> u16 \<times> nat \<Rightarrow> bg_candidate" where
  "cand_at bg01 bg23 pb = (let (half, i) = (if snd pb < 2 then (bg01, snd pb) else (bg23, snd pb - 2))
     in \<lparr>cand_line = half_bg half i, cand_bg = snd pb, cand_prio = fst pb\<rparr>)"

definition is_cand :: "bg_half \<Rightarrow> bg_half \<Rightarrow> u16 \<times> nat \<Rightarrow> bool" where
  "is_cand bg01 bg23 pb = (let (half, i) = (if snd pb < 2 then (bg01, snd pb) else (bg23, snd pb - 2))
     in half_active half i \<and> half_prio half i = fst pb)"

lemma bg_order_filter:
  "bg_order bg01 bg23 = map (cand_at bg01 bg23) (filter (is_cand bg01 bg23) (List.product [0, 1, 2, 3] [0..<4]))"
proof -
  have cell: "(let (half, i) = (if bg < 2 then (bg01, bg) else (bg23, bg - 2))
       in if half_active half i \<and> half_prio half i = prio
          then [\<lparr>cand_line = half_bg half i, cand_bg = bg, cand_prio = prio\<rparr>] else [])
      = (if is_cand bg01 bg23 (prio, bg) then [cand_at bg01 bg23 (prio, bg)] else [])" for prio bg
    by (simp add: is_cand_def cand_at_def Let_def)
  have row: "concat (map (\<lambda>bg. if is_cand bg01 bg23 (prio, bg) then [cand_at bg01 bg23 (prio, bg)] else []) bs)
      = map (cand_at bg01 bg23) (filter (is_cand bg01 bg23) (map (Pair prio) bs))" for prio bs
    by (induction bs) simp_all
  show ?thesis unfolding bg_order_def cell row by (simp add: product_concat_map)
qed

lemma bg_order_sorted: "ordered (bg_order bg01 bg23)"
proof -
  have key: "cand_key (cand_at bg01 bg23 pb) = bg_key (fst pb) (snd pb)" "cand_prio (cand_at bg01 bg23 pb) = fst pb" for pb
    by (simp_all add: cand_key_def cand_at_def Let_def)
  have "sorted_wrt (\<lambda>a b. bg_key (fst a) (snd a) < bg_key (fst b) (snd b)) (List.product [0, 1, 2, 3] [0..<4])" by code_simp
  then have s: "sorted_wrt (\<lambda>c d. cand_key c < cand_key d) (bg_order bg01 bg23)"
    unfolding bg_order_filter by (simp only: sorted_wrt_map key sorted_wrt_filter)
  have "cand_key c < KEY_NONE \<and> (\<forall>p :: u8. (ucast p \<le> cand_prio c) = (obj_key p < cand_key c)) \<and> (\<forall>p. obj_key p \<noteq> cand_key c)"
    if c: "c \<in> set (bg_order bg01 bg23)" for c
  proof -
    obtain pb where "c = cand_at bg01 bg23 pb" "pb \<in> set (List.product [0, 1, 2, 3] [0..<4])"
      using c unfolding bg_order_filter by auto
    then obtain prio bg where k: "cand_key c = bg_key prio bg" "cand_prio c = prio" and r: "prio \<in> {0, 1, 2, 3}" "bg < 4"
      by (cases pb) (auto simp: key)
    have n: "unat (cand_key c) = 16 * unat prio + bg + 1" using bg_key_num [OF r] k by simp
    have "unat (ucast p :: u16) = unat p" for p :: u8 by (rule unat_ucast_u8)
    then have "(ucast p \<le> prio) = (obj_key p < cand_key c)" for p :: u8
      using n r(2) obj_key_num [of p] by (auto simp: word_le_nat_alt word_less_nat_alt)
    moreover have "obj_key p \<noteq> cand_key c" for p
    proof -
      have "16 * unat p \<noteq> 16 * unat prio + bg + 1" using r(2) by presburger
      then show ?thesis using n obj_key_num [of p] by metis
    qed
    moreover have "unat prio \<le> 3" using r(1) by auto
    then have "cand_key c < KEY_NONE" using n r(2) by (simp add: word_less_nat_alt KEY_NONE_def)
    ultimately show ?thesis using k by blast
  qed
  with s show ?thesis by (simp add: ordered_def)
qed

lemma neon_selection_eq:
  "select_layers_neon (bg_order bg01 bg23) obj m sel = select_layers_scalar (bg_order bg01 bg23) obj m sel"
  unfolding select_layers_neon_def select_layers_scalar_def select_neon_lane_eq [OF bg_order_sorted, abs_def] by (rule refl)

text \<open>
  C31: the vectorised layer selection is the ordered walk. For whatever the two background halves, the object
  line and the window mask hold, the running minimum over sort keys, eight pixels at a time, leaves the same
  top and bottom layers, colours and keys, at every pixel of the line as the walk over the backgrounds in
  order of priority that splices in the object by its per-pixel priority.
\<close>
theorem neon_selection_exact:
  "select_layers_neon (bg_order bg01 bg23) obj m sel = select_layers_scalar (bg_order bg01 bg23) obj m sel"
  by (rule neon_selection_eq)

section \<open>Colours\<close>

lemma channel_le: "unat (channel i c) \<le> 31"
proof -
  have m: "(0x1F :: u16) = mask 5" by (simp add: mask_eq_exp_minus_1)
  have u: "unat (ucast w :: u32) = unat w" for w :: u16
  proof -
    have "unat w < 2 ^ 16" using unsigned_less [of w] by simp
    then show ?thesis by (simp add: unsigned_ucast_eq take_bit_nat_eq_self)
  qed
  have "unat (drop_bit (5 * i) c AND 0x1F) < 2 ^ 5" unfolding m unat_and_mask by simp
  then show ?thesis unfolding channel_def u by simp
qed

lemma bit_low5: "unat r \<le> 31 \<Longrightarrow> bit (r :: u32) n \<Longrightarrow> n < 5"
proof (rule ccontr)
  assume "unat r \<le> 31" "bit r n" "\<not> n < 5"
  then have "bit (unat r) n" by (simp add: bit_unsigned_iff)
  moreover have "unat r < 2 ^ 5" using \<open>unat r \<le> 31\<close> by simp
  then have "take_bit 5 (unat r) = unat r" by (simp add: take_bit_nat_eq_self)
  ultimately have "bit (take_bit 5 (unat r)) n" by simp
  then show False using \<open>\<not> n < 5\<close> by (simp add: bit_take_bit_iff)
qed

lemma channel_pack555:
  assumes "unat r \<le> 31" "unat g \<le> 31" "unat b \<le> 31"
  shows "channel 0 (pack555 r g b) = r" "channel 1 (pack555 r g b) = g" "channel 2 (pack555 r g b) = b" "\<not> bit (pack555 r g b) 15"
proof -
  have m: "bit (0x1F :: u16) n = (n < 5)" for n
  proof -
    have "(0x1F :: u16) = mask 5" by (simp add: mask_eq_exp_minus_1)
    then show ?thesis by (simp only: bit_mask_iff) auto
  qed
  note low = bit_low5 [OF assms(1)] bit_low5 [OF assms(2)] bit_low5 [OF assms(3)]
  have bits: "bit (channel i c) n = (n < 5 \<and> bit c (5 * i + n))" for i c n
    unfolding channel_def bit_unsigned_iff bit_and_iff m bit_drop_bit_eq comp_def by auto
  have packed: "bit (pack555 r g b) n = (n < 16 \<and> (bit r n \<or> 5 \<le> n \<and> bit g (n - 5) \<or> 10 \<le> n \<and> bit b (n - 10)))" for n
    by (auto simp: pack555_def bit_unsigned_iff bit_or_iff bit_push_bit_iff)
  show "channel 0 (pack555 r g b) = r"
  proof (rule bit_word_eqI)
    fix n
    show "bit (channel 0 (pack555 r g b)) n = bit r n" using low(1) [of n] by (auto simp: bits packed)
  qed
  show "channel 1 (pack555 r g b) = g"
  proof (rule bit_word_eqI)
    fix n
    have "\<not> bit r (5 + n)" using low(1) [of "5 + n"] by auto
    then show "bit (channel 1 (pack555 r g b)) n = bit g n" using low(2) [of n] by (auto simp: bits packed)
  qed
  show "channel 2 (pack555 r g b) = b"
  proof (rule bit_word_eqI)
    fix n
    have "\<not> bit r (10 + n)" "\<not> bit g (10 + n - 5)" using low(1) [of "10 + n"] low(2) [of "10 + n - 5"] by auto
    then show "bit (channel 2 (pack555 r g b)) n = bit b n" using low(3) [of n] by (auto simp: bits packed)
  qed
  show "\<not> bit (pack555 r g b) 15" using low(1) [of 15] low(2) [of 10] low(3) [of 5] by (auto simp: packed)
qed

lemma unat_drop4: "unat (drop_bit 4 w) = unat w div 16" for w :: u32
  unfolding unat_drop_bit_eq by (simp add: drop_bit_eq_div)

lemma unat_mult_small: "unat a * unat b < 2 ^ 32 \<Longrightarrow> unat (a * b) = unat a * unat b" for a b :: u32
  by (simp add: unat_word_ariths)

lemma unat_blend:
  assumes "unat c1 \<le> 31" "unat c2 \<le> 31" "unat eva \<le> 16" "unat evb \<le> 16"
  shows "unat (blend_channel c1 c2 eva evb) = min ((unat c1 * unat eva + unat c2 * unat evb) div 16) 31"
proof -
  have "unat c1 * unat eva \<le> 31 * 16" "unat c2 * unat evb \<le> 31 * 16" using assms by (intro mult_le_mono; simp)+
  then have "unat (c1 * eva + c2 * evb) = unat c1 * unat eva + unat c2 * unat evb"
    by (simp add: unat_word_ariths)
  then have "unat (drop_bit 4 (c1 * eva + c2 * evb)) = (unat c1 * unat eva + unat c2 * unat evb) div 16"
    by (simp only: unat_drop4)
  then show ?thesis unfolding blend_channel_def min_def word_le_nat_alt by simp
qed

lemma unat_bright:
  assumes "unat c \<le> 31" "unat evy \<le> 16"
  shows "unat (bright_channel evy up c) =
    (if up then unat c + (31 - unat c) * unat evy div 16 else unat c - unat c * unat evy div 16)" (is "_ = ?v")
proof -
  have d: "unat (31 - c) = 31 - unat c" using assms(1) by (simp add: unat_sub word_le_nat_alt)
  have m: "(31 - unat c) * unat evy \<le> (31 - unat c) * 16" "unat c * unat evy \<le> unat c * 16" using assms(2) by simp_all
  then have small: "(31 - unat c) * unat evy \<le> 496" "unat c * unat evy \<le> 496" using assms(1) by linarith+
  have "unat (31 - c) * unat evy < 2 ^ 32" unfolding d using small(1) by simp
  then have up: "unat (drop_bit 4 ((31 - c) * evy)) = (31 - unat c) * unat evy div 16"
    by (simp only: unat_drop4 unat_mult_small d)
  have "unat c * unat evy < 2 ^ 32" using small(2) by simp
  then have down: "unat (drop_bit 4 (c * evy)) = unat c * unat evy div 16" by (simp only: unat_drop4 unat_mult_small)
  have le: "(31 - unat c) * unat evy div 16 \<le> 31 - unat c" "unat c * unat evy div 16 \<le> unat c"
    using div_le_mono [OF m(1), of 16] div_le_mono [OF m(2), of 16] by simp_all
  show ?thesis
  proof (cases up)
    case True
    have "unat c + (31 - unat c) * unat evy div 16 < 2 ^ 32" using le(1) assms(1) by simp
    then show ?thesis using True up by (simp add: bright_channel_def unat_word_ariths)
  next
    case False
    then show ?thesis using down le(2) by (simp add: bright_channel_def unat_sub word_le_nat_alt)
  qed
qed

lemma channels_of_pack:
  assumes "\<And>i. unat (f i) \<le> 31"
  shows "i < 3 \<Longrightarrow> channel i (pack555 (f 0) (f 1) (f 2)) = f i" "\<not> bit (pack555 (f 0) (f 1) (f 2)) 15"
proof -
  note p = channel_pack555 [OF assms [of 0] assms [of 1] assms [of 2]]
  show "\<not> bit (pack555 (f 0) (f 1) (f 2)) 15" by (rule p(4))
  assume "i < 3"
  then have "i = 0 \<or> i = 1 \<or> i = 2" by linarith
  then show "channel i (pack555 (f 0) (f 1) (f 2)) = f i" using p by auto
qed

lemma blend_channels:
  assumes "i < 3" "unat eva \<le> 16" "unat evb \<le> 16" "unat evy \<le> 16"
  shows "unat (channel i (alpha_blend c1 c2 eva evb))
      = min ((unat (channel i c1) * unat eva + unat (channel i c2) * unat evb) div 16) 31"
    and "unat (channel i (brightness c1 evy up)) = (let v = unat (channel i c1)
      in if up then v + (31 - v) * unat evy div 16 else v - v * unat evy div 16)"
    and "unat (channel i (brightness c1 evy up)) \<le> 31"
    and "\<not> bit (alpha_blend c1 c2 eva evb) 15 \<and> \<not> bit (brightness c1 evy up) 15"
proof -
  note blend = unat_blend [OF channel_le channel_le assms(2,3)] and bright = unat_bright [OF channel_le assms(4)]
  have b: "unat (blend_channel (channel i c1) (channel i c2) eva evb) \<le> 31" for i unfolding blend by simp
  have r: "unat (bright_channel evy up (channel i c1)) \<le> 31" for i
  proof -
    have "(31 - unat (channel i c1)) * unat evy \<le> (31 - unat (channel i c1)) * 16" using assms(4) by simp
    then have "(31 - unat (channel i c1)) * unat evy div 16 \<le> 31 - unat (channel i c1)"
      using div_le_mono [of _ "(31 - unat (channel i c1)) * 16" 16] by fastforce
    then show ?thesis unfolding bright using channel_le [of i c1] by auto
  qed
  note pb = channels_of_pack [of "\<lambda>i. blend_channel (channel i c1) (channel i c2) eva evb", OF b]
    and pr = channels_of_pack [of "\<lambda>i. bright_channel evy up (channel i c1)", OF r]
  show "unat (channel i (alpha_blend c1 c2 eva evb))
      = min ((unat (channel i c1) * unat eva + unat (channel i c2) * unat evb) div 16) 31"
    unfolding alpha_blend_def pb(1) [OF assms(1)] by (rule blend)
  show "unat (channel i (brightness c1 evy up)) = (let v = unat (channel i c1)
      in if up then v + (31 - v) * unat evy div 16 else v - v * unat evy div 16)"
    unfolding brightness_def pr(1) [OF assms(1)] Let_def by (rule bright)
  show "unat (channel i (brightness c1 evy up)) \<le> 31" unfolding brightness_def pr(1) [OF assms(1)] by (rule r)
  show "\<not> bit (alpha_blend c1 c2 eva evb) 15 \<and> \<not> bit (brightness c1 evy up) 15"
    unfolding alpha_blend_def brightness_def using pb(2) pr(2) by blast
qed

text \<open>
  C34: blending computes every 5-bit channel of the result as the hardware's formula does, with no
  wrap in the 32-bit arithmetic and no carry from one channel into the next: alpha blending gives
  \<open>(top * eva + bottom * evb) / 16\<close> cut off at 31; brightening moves each channel the fraction
  \<open>evy / 16\<close> of its distance to 31, darkening the same fraction of its value, so both stay in
  \<open>0..31\<close>; bit 15 of the result is clear. Coefficients are at most 16, which
  \<open>compose_scanline\<close> ensures by its \<open>min(16)\<close>.
\<close>

theorem blend_channels_exact:
  assumes "i < 3" "unat eva \<le> 16" "unat evb \<le> 16" "unat evy \<le> 16"
  shows "unat (channel i (alpha_blend c1 c2 eva evb))
        = min ((unat (channel i c1) * unat eva + unat (channel i c2) * unat evb) div 16) 31
    \<and> unat (channel i (brightness c1 evy up)) = (let v = unat (channel i c1)
         in if up then v + (31 - v) * unat evy div 16 else v - v * unat evy div 16)
    \<and> unat (channel i (brightness c1 evy up)) \<le> 31
    \<and> \<not> bit (alpha_blend c1 c2 eva evb) 15 \<and> \<not> bit (brightness c1 evy up) 15"
  using blend_channels [OF assms] by blast

lemma blend_channels_exact_witness:
  "unat (channel 1 (alpha_blend 0x7FFF 0x03E0 8 16)) = 31 \<and> unat (channel 0 (alpha_blend 0x7FFF 0x03E0 8 16)) = 15
    \<and> unat (channel 0 (brightness 0x000A 8 True)) = 20"
proof -
  have c: "channel 1 0x7FFF = 31" "channel 1 0x03E0 = 31" "channel 0 0x7FFF = 31" "channel 0 0x03E0 = 0" "channel 0 0x000A = 10"
    by code_simp+
  show ?thesis
    using blend_channels_exact [of 1 8 16 0 "0x7FFF" "0x03E0"] blend_channels_exact [of 0 8 16 0 "0x7FFF" "0x03E0"]
      blend_channels_exact [where i = 0 and eva = 8 and evb = 16 and evy = 8 and ?c1.0 = "0x000A" and up = True]
    by (simp add: c [unfolded One_nat_def])
qed

end
