(* ===== verification/RasterBg.thy ===== *)
theory RasterBg
  imports Raster MemoryLaws
begin

text \<open>
  Laws of the backgrounds: how an address folds into video memory, that the run-wise drawing of a text
  background is a lookup per pixel, and that the fast path for bitmaps is the general one.
\<close>

section \<open>Addresses in video memory\<close>

lemma mod_in_block: "n mod 8 + i < 8 \<Longrightarrow> 8 dvd N \<Longrightarrow> (n + i) mod N = n mod N + i" for n i N :: nat
proof (cases "N = 0")
  case False
  assume a: "n mod 8 + i < 8" "8 dvd N"
  then obtain k where k: "N = 8 * k" by blast
  have "n mod N = 8 * (n div 8 mod k) + n mod 8" unfolding k by (simp add: mod_mult2_eq)
  moreover have "n div 8 mod k < k" using k False by simp
  ultimately have "n mod N + i < N" using a(1) k by linarith
  then show ?thesis by (metis mod_add_left_eq mod_less)
qed simp

lemma vram_index_eq: "vram_index a = (let n = unat a mod 131072 in if n < 65536 then n else 65536 + n mod 32768)"
  using unat_vram_offset [of a] by (simp add: vram_index_def Let_def mod_mod_cancel)

lemma vram_index_less: "vram_index a < 0x18000"
  by (simp add: vram_index_eq Let_def)

lemma unat_add_block: "unat (a + of_nat i) = unat a + i" if "unat a mod 8 + i < 8" for a :: u32
proof -
  have "unat a < 2 ^ 32" using unsigned_less [of a] by simp
  then have "(unat a + i) mod 2 ^ 32 = unat a + i" using mod_in_block [OF that, of "2 ^ 32"] by simp
  moreover have "i < 8" using that by linarith
  ultimately show ?thesis by (simp add: unat_word_ariths unat_of_nat)
qed

lemma div_block: "(n + i) div 8 = n div 8" if "n mod 8 + i < 8" for n i :: nat
proof -
  have "n + i = (n mod 8 + i) + n div 8 * 8" by simp
  then have "(n + i) div 8 = n div 8 + (n mod 8 + i) div 8" by (simp only: div_mult_self1)
  then show ?thesis using that by simp
qed

lemma below_block: "(n + i < 8 * k) = (n < 8 * k)" if "n mod 8 + i < 8" for n i k :: nat
proof -
  have "(m < 8 * k) = (m div 8 < k)" for m by (simp add: div_less_iff_less_mult mult.commute)
  then show ?thesis by (simp only: div_block [OF that])
qed

lemma vram_index_block: "vram_index (a + of_nat i) = vram_index a + i" if "unat a mod 8 + i < 8"
proof -
  let ?n = "unat a mod 131072"
  have n: "unat (a + of_nat i) mod 131072 = ?n + i" unfolding unat_add_block [OF that] by (rule mod_in_block [OF that]) simp
  have b: "?n mod 8 + i < 8" using that by (simp add: mod_mod_cancel)
  note below_block [OF b, of 8192, simplified]
  moreover have "(?n + i) mod 32768 = ?n mod 32768 + i" by (rule mod_in_block [OF b]) simp
  ultimately show ?thesis unfolding vram_index_eq n Let_def by simp
qed

lemma fold_pixels:
  "fold (\<lambda>i out. if c i then out(px + i := v i) else out) [0..<n] out =
     (\<lambda>p. if px \<le> p \<and> p < px + n \<and> c (p - px) then v (p - px) else out p)"
  by (induction n) (auto simp: fun_eq_iff less_Suc_eq)

lemma fold_all_pixels:
  "fold (\<lambda>i out. out(px + i := v i)) [0..<n] out = (\<lambda>p. if px \<le> p \<and> p < px + n then v (p - px) else out p)"
  using fold_pixels [of "\<lambda>_. True" px v n out] by simp

lemma less_8_cases: "t < 8 \<Longrightarrow> t = 0 \<or> t = 1 \<or> t = 2 \<or> t = 3 \<or> t = 4 \<or> t = 5 \<or> t = 6 \<or> t = (7 :: nat)"
  by linarith

lemma bit_fold_or: "bit (fold (\<lambda>i w. w OR f i) xs w) j = (bit w j \<or> (\<exists>i \<in> set xs. bit (f i) j))"
  by (induction xs arbitrary: w) (auto simp: bit_or_iff)

lemma bit_byte:
  assumes "8 * t + n < LENGTH('a)" "n < 8"
  shows "bit (push_bit (8 * i) (ucast b :: 'a::len word)) (8 * t + n) = (i = t \<and> bit (b :: u8) n)"
proof -
  consider "i < t" | "i = t" | "t < i" by linarith
  then show ?thesis
  proof cases
    case 1
    then have "8 \<le> 8 * t + n - 8 * i" by linarith
    then have "\<not> bit b (8 * t + n - 8 * i)" using bit_imp_le_length [of b] by fastforce
    then show ?thesis using 1 by (simp add: bit_push_bit_iff bit_unsigned_iff)
  next
    case 2
    then show ?thesis using assms by (simp add: bit_push_bit_iff bit_unsigned_iff)
  next
    case 3
    then show ?thesis using assms by (simp add: bit_push_bit_iff)
  qed
qed

lemma row64_byte: "ucast (drop_bit (t * 8) (read_row64 m a)) = m (a + t)" if "t < 8"
proof (rule bit_word_eqI)
  fix n
  assume n: "n < LENGTH(8)"
  have "bit (read_row64 m a) (8 * t + n) = bit (m (a + t)) n"
    unfolding read_row64_def bit_fold_or using that n by (auto simp: bit_byte)
  then show "bit (ucast (drop_bit (t * 8) (read_row64 m a)) :: u8) n = bit (m (a + t)) n"
    using n by (simp add: bit_unsigned_iff bit_drop_bit_eq mult.commute add.commute)
qed

lemma bit_row32: "bit (read_mem 4 m a) (8 * t + n) = bit (m (a + t)) n" if "t < 4" "n < 8"
proof -
  have "t = 0 \<or> t = 1 \<or> t = 2 \<or> t = 3" using that by linarith
  moreover have "read_mem 4 m a = push_bit (8 * 0) (ucast (m a)) OR push_bit (8 * 1) (ucast (m (a + 1)))
      OR push_bit (8 * 2) (ucast (m (a + 2))) OR push_bit (8 * 3) (ucast (m (a + 3)))"
    by (simp add: read_mem_def)
  moreover have "8 * t + n < LENGTH(32)" using that by simp
  ultimately show ?thesis using that(2) by (auto simp only: bit_or_iff bit_byte add_0_right)
qed

lemma bit_nibble_mask: "bit (0xF :: 'a::len word) n = (n < 4 \<and> n < LENGTH('a))"
proof -
  have m: "(0xF :: 'a word) = mask 4" by (simp add: mask_eq_exp_minus_1)
  show ?thesis unfolding m bit_mask_iff by auto
qed

lemma row32_nibble:
  assumes "t < 8"
  shows "drop_bit (t * 4) (read_mem 4 m a) AND 0xF = ucast (drop_bit (t mod 2 * 4) (m (a + t div 2)) AND 0xF)"
proof (rule bit_word_eqI)
  fix n
  assume n: "n < LENGTH(32)"
  have "t = 2 * (t div 2) + t mod 2" by simp
  then have "t * 4 + n = 8 * (t div 2) + (t mod 2 * 4 + n)" by linarith
  moreover have "t mod 2 * 4 + n < 8" if "n < 4" using that by linarith
  ultimately have "bit (read_mem 4 m a) (t * 4 + n) = bit (m (a + t div 2)) (t mod 2 * 4 + n)" if "n < 4"
    using bit_row32 [of "t div 2" "t mod 2 * 4 + n" m a] assms that by (simp add: add.assoc)
  then show "bit (drop_bit (t * 4) (read_mem 4 m a) AND 0xF) n
      = bit (ucast (drop_bit (t mod 2 * 4) (m (a + t div 2)) AND 0xF) :: u32) n"
    using n unfolding bit_and_iff bit_drop_bit_eq bit_unsigned_iff bit_nibble_mask comp_def by auto
qed

section \<open>Text backgrounds\<close>

text \<open>One pixel of a text background, looked up on its own: 0 is transparent.\<close>

definition text_texel :: "gpu_mem_buf \<Rightarrow> u16 \<Rightarrow> u16 \<Rightarrow> u32 \<Rightarrow> nat \<Rightarrow> u16" where
  "text_texel buf cnt entry y tx =
     (let tx = (if bit entry 10 then 7 - tx else tx)
      in if bit cnt 7 then
           (let index = buf_vram buf (vram_index (text_row_addr cnt entry y + of_nat tx))
            in if index = 0 then 0 else read_pal16 (buf_pal buf) (unat index) OR 0x8000)
         else
           (let index = drop_bit (tx mod 2 * 4) (buf_vram buf (vram_index (text_row_addr cnt entry y + of_nat (tx div 2)))) AND 0xF
            in if index = 0 then 0 else read_pal16 (buf_pal buf) (unat (drop_bit 12 entry AND 0xF) * 16 + unat index) OR 0x8000))"

definition text_x :: "ppu_regs \<Rightarrow> nat \<Rightarrow> nat \<Rightarrow> u32" where
  "text_x pr bg px = (of_nat px + ucast (bg_h_ofs pr bg)) AND text_x_mask pr bg"

definition text_pixel :: "gpu_mem_buf \<Rightarrow> ppu_regs \<Rightarrow> nat \<Rightarrow> u32 \<Rightarrow> nat \<Rightarrow> u16" where
  "text_pixel buf pr bg y px =
     (let x = text_x pr bg px
      in text_texel buf (bg_cnt pr bg) (read_vram16 (buf_vram buf) (text_entry_addr pr bg y x)) y (unat (x AND 7)))"

definition put_opaque :: "nat \<Rightarrow> nat \<Rightarrow> (nat \<Rightarrow> u16) \<Rightarrow> line \<Rightarrow> line" where
  "put_opaque a b f out = (\<lambda>p. if a \<le> p \<and> p < b \<and> f p \<noteq> 0 then f p else out p)"

lemma or_8000 [simp]: "(w :: u16) OR 0x8000 \<noteq> 0"
proof -
  have "bit ((w :: u16) OR 0x8000) 15" by (simp add: bit_or_iff)
  then show ?thesis by (auto simp del: or_eq_0_iff)
qed

lemma mult_aligned: "unat (k * 8 :: u32) mod 8 = 0" "unat (k * 4 :: u32) mod 4 = 0"
  by (simp_all add: unat_word_ariths mod_mod_cancel)

lemma row_aligned:
  "bit cnt 7 \<Longrightarrow> unat (text_row_addr cnt entry y) mod 8 = 0"
  "\<not> bit cnt 7 \<Longrightarrow> unat (text_row_addr cnt entry y) mod 4 = 0"
proof -
  let ?c = "ucast (drop_bit 2 cnt AND 3) :: u32"
  have c: "char_base cnt = ?c * 16384" by (simp add: char_base_def push_bit_eq_mult)
  show "unat (text_row_addr cnt entry y) mod 8 = 0" if "bit cnt 7"
  proof -
    have "text_row_addr cnt entry y = (?c * 2048 + ucast (entry AND 0x3FF) * 8 + text_tile_y entry y) * 8"
      using that by (simp add: text_row_addr_def c algebra_simps)
    then show ?thesis using mult_aligned(1) by metis
  qed
  show "unat (text_row_addr cnt entry y) mod 4 = 0" if "\<not> bit cnt 7"
  proof -
    have "text_row_addr cnt entry y = (?c * 4096 + ucast (entry AND 0x3FF) * 8 + text_tile_y entry y) * 4"
      using that by (simp add: text_row_addr_def c algebra_simps)
    then show ?thesis using mult_aligned(2) by metis
  qed
qed

lemma fold_texels:
  assumes "\<And>index. h index \<noteq> 0"
  shows "fold (\<lambda>i out. let index = g i in if index \<noteq> 0 then out(px + i := h index) else out) [0..<n] out
    = put_opaque px (px + n) (\<lambda>p. let index = g (p - px) in if index = 0 then 0 else h index) out"
  unfolding Let_def fold_pixels put_opaque_def using assms by (auto simp: fun_eq_iff)

lemma put_opaque_cong:
  "(\<And>p. a \<le> p \<Longrightarrow> p < b \<Longrightarrow> f p = g p) \<Longrightarrow> put_opaque a b f out = put_opaque a b g out"
  by (auto simp: put_opaque_def fun_eq_iff)

lemma put_opaque_transparent: "(\<And>p. f p = 0) \<Longrightarrow> put_opaque a b f out = out"
  by (simp add: put_opaque_def)

lemma put_opaque_append:
  "a \<le> b \<Longrightarrow> b \<le> c \<Longrightarrow> put_opaque b c f (put_opaque a b f out) = put_opaque a c f out"
  by (auto simp: put_opaque_def fun_eq_iff)

lemma byte_index: "unat (ucast w :: u32) = unat w" "ucast w = (0 :: u32) \<longleftrightarrow> w = 0" for w :: u8
proof -
  have "unat w < 2 ^ 8" using unsigned_less [of w] by simp
  then show u: "unat (ucast w :: u32) = unat w" by (simp add: unsigned_ucast_eq take_bit_nat_eq_self)
  show "ucast w = (0 :: u32) \<longleftrightarrow> w = 0" unfolding word_unat_eq_iff u by simp
qed

abbreviation flip_tx :: "u16 \<Rightarrow> nat \<Rightarrow> nat" where
  "flip_tx entry tx \<equiv> (if bit entry 10 then 7 - tx else tx)"

lemma texel_row8:
  assumes "bit cnt 7" "tx < 8"
  shows "text_texel buf cnt entry y tx =
    (let index = (ucast (drop_bit (flip_tx entry tx * 8) (read_row64 (buf_vram buf) (vram_index (text_row_addr cnt entry y)))) :: u8)
     in if index = 0 then 0 else read_pal16 (buf_pal buf) (unat index) OR 0x8000)"
proof -
  have t: "flip_tx entry tx < 8" using assms(2) by auto
  have "vram_index (text_row_addr cnt entry y + of_nat (flip_tx entry tx)) = vram_index (text_row_addr cnt entry y) + flip_tx entry tx"
    by (rule vram_index_block) (simp only: row_aligned(1) [OF assms(1)] t add_0)
  then show ?thesis unfolding row64_byte [OF t] text_texel_def Let_def using assms(1) by simp
qed

lemma half_block: "n mod 8 + t div 2 < 8" if "n mod 4 = 0" "t < 8" for n t :: nat
proof -
  have "n mod 8 mod 4 = 0" using that(1) by (simp add: mod_mod_cancel)
  with less_8_cases [of "n mod 8"] have "n mod 8 \<le> 4" by auto
  moreover have "t div 2 < 4" using that(2) by (simp add: div_less_iff_less_mult)
  ultimately show ?thesis by simp
qed

lemma texel_row4:
  assumes "\<not> bit cnt 7" "tx < 8"
  shows "text_texel buf cnt entry y tx =
    (let index = drop_bit (flip_tx entry tx * 4) (read_mem 4 (buf_vram buf) (vram_index (text_row_addr cnt entry y))) AND 0xF
     in if index = 0 then 0 else read_pal16 (buf_pal buf) (unat (drop_bit 12 entry AND 0xF) * 16 + unat index) OR 0x8000)"
proof -
  have t: "flip_tx entry tx < 8" using assms(2) by auto
  have "unat (text_row_addr cnt entry y) mod 8 + flip_tx entry tx div 2 < 8"
    using row_aligned(2) [OF assms(1), of entry y] by (rule half_block [OF _ t])
  then have "vram_index (text_row_addr cnt entry y + of_nat (flip_tx entry tx div 2))
      = vram_index (text_row_addr cnt entry y) + flip_tx entry tx div 2" by (rule vram_index_block)
  then show ?thesis unfolding row32_nibble [OF t] text_texel_def Let_def byte_index using assms(1) by simp
qed

lemma text_run_pixels:
  assumes "first_tx + run \<le> 8"
  shows "text_run buf cnt entry y first_tx px run out =
    put_opaque px (px + run) (\<lambda>p. text_texel buf cnt entry y (first_tx + (p - px))) out"
proof (cases "bit cnt 7")
  case True
  let ?row = "read_row64 (buf_vram buf) (vram_index (text_row_addr cnt entry y))"
  let ?f = "\<lambda>p. let index = (ucast (drop_bit (flip_tx entry (first_tx + (p - px)) * 8) ?row) :: u8)
    in if index = 0 then 0 else read_pal16 (buf_pal buf) (unat index) OR 0x8000"
  have "text_run buf cnt entry y first_tx px run out = (if ?row = 0 then out else put_opaque px (px + run) ?f out)"
    unfolding text_run_def Let_def using True
    by (simp only: if_True fold_texels [of "\<lambda>index. read_pal16 (buf_pal buf) (unat index) OR 0x8000", OF or_8000, unfolded Let_def])
  also have "\<dots> = put_opaque px (px + run) ?f out"
    using put_opaque_transparent [of ?f] by (simp add: Let_def)
  also have "\<dots> = put_opaque px (px + run) (\<lambda>p. text_texel buf cnt entry y (first_tx + (p - px))) out"
    by (rule put_opaque_cong, rule texel_row8 [symmetric, OF True]) (use assms in linarith)
  finally show ?thesis .
next
  case False
  let ?row = "read_mem 4 (buf_vram buf) (vram_index (text_row_addr cnt entry y))"
  let ?h = "\<lambda>index. read_pal16 (buf_pal buf) (unat (drop_bit 12 entry AND 0xF) * 16 + unat index) OR 0x8000"
  let ?f = "\<lambda>p. let index = drop_bit (flip_tx entry (first_tx + (p - px)) * 4) ?row AND 0xF in if index = 0 then 0 else ?h (index :: u32)"
  have "text_run buf cnt entry y first_tx px run out = (if ?row = 0 then out else put_opaque px (px + run) ?f out)"
    unfolding text_run_def Let_def using False by (simp only: if_False fold_texels [of ?h, OF or_8000, unfolded Let_def])
  also have "\<dots> = put_opaque px (px + run) ?f out"
    using put_opaque_transparent [of ?f] by (simp add: Let_def)
  also have "\<dots> = put_opaque px (px + run) (\<lambda>p. text_texel buf cnt entry y (first_tx + (p - px))) out"
    by (rule put_opaque_cong, rule texel_row4 [symmetric, OF False]) (use assms in linarith)
  finally show ?thesis .
qed

lemma unat_and_exp: "unat (w AND 7) = unat w mod 8" "unat (w AND 255) = unat w mod 256" "unat (w AND 511) = unat w mod 512" for w :: u32
proof -
  have m: "(7 :: u32) = mask 3" "(255 :: u32) = mask 8" "(511 :: u32) = mask 9" by (simp_all add: mask_eq_exp_minus_1)
  show "unat (w AND 7) = unat w mod 8" "unat (w AND 255) = unat w mod 256" "unat (w AND 511) = unat w mod 512"
    unfolding m unat_and_mask by simp_all
qed

lemma block_arith:
  fixes n i :: nat
  assumes "n mod 8 + i < 8"
  shows "(256 \<le> n + i) = (256 \<le> n)" "(n + i) mod 256 div 8 = n mod 256 div 8" "(n + i) mod 8 = n mod 8 + i"
proof -
  show "(256 \<le> n + i) = (256 \<le> n)" using below_block [OF assms, of 32] by auto
  show "(n + i) mod 8 = n mod 8 + i" using assms by (rule mod_in_block) simp
  have m: "(n + i) mod 256 = n mod 256 + i" using assms by (rule mod_in_block) simp
  have "n mod 256 mod 8 + i < 8" using assms by (simp add: mod_mod_cancel)
  then show "(n + i) mod 256 div 8 = n mod 256 div 8" unfolding m by (rule div_block)
qed

lemma text_entry_block:
  assumes "unat x mod 8 + i < 8"
  shows "text_entry_addr pr bg y (x + of_nat i) = text_entry_addr pr bg y x"
proof -
  note u = unat_add_block [OF assms]
  have "(256 \<le> x + of_nat i) = (256 \<le> x)" unfolding word_le_nat_alt u using block_arith(1) [OF assms] by simp
  moreover have "(x + of_nat i AND 255) div 8 = (x AND 255) div 8"
    unfolding word_unat_eq_iff unat_div unat_and_exp u using block_arith(2) [OF assms] by simp
  ultimately show ?thesis by (simp only: text_entry_addr_def Let_def)
qed

lemma text_x_block:
  assumes "unat (text_x pr bg px AND 7) + i < 8"
  shows "text_x pr bg (px + i) = text_x pr bg px + of_nat i" "unat (text_x pr bg px) mod 8 + i < 8"
proof -
  let ?w = "of_nat px + ucast (bg_h_ofs pr bg) :: u32"
  define N :: nat where "N = (if bit (drop_bit 14 (bg_cnt pr bg) AND 3) 0 then 512 else 256)"
  have N: "\<And>w :: u32. unat (w AND text_x_mask pr bg) = unat w mod N" "8 dvd N"
    unfolding text_x_mask_def N_def by (simp_all add: unat_and_exp)
  have w: "unat ?w mod 8 + i < 8" using assms N by (simp add: text_x_def unat_and_exp(1) mod_mod_cancel)
  have x: "unat (text_x pr bg px) = unat ?w mod N" by (simp add: text_x_def N)
  show b: "unat (text_x pr bg px) mod 8 + i < 8" using assms by (simp add: unat_and_exp(1))
  have "unat (text_x pr bg (px + i)) = unat (?w + of_nat i) mod N" by (simp add: text_x_def N algebra_simps)
  also have "\<dots> = unat ?w mod N + i" unfolding unat_add_block [OF w] by (rule mod_in_block [OF w N(2)])
  also have "\<dots> = unat (text_x pr bg px + of_nat i)" unfolding unat_add_block [OF b] x ..
  finally show "text_x pr bg (px + i) = text_x pr bg px + of_nat i" by (simp add: word_unat_eq_iff)
qed

lemma text_pixel_run:
  assumes "unat (text_x pr bg px AND 7) + i < 8"
  shows "text_pixel buf pr bg y (px + i) =
    text_texel buf (bg_cnt pr bg) (read_vram16 (buf_vram buf) (text_entry_addr pr bg y (text_x pr bg px))) y (unat (text_x pr bg px AND 7) + i)"
proof -
  note b = text_x_block [OF assms]
  have "unat (text_x pr bg px + of_nat i AND 7) = unat (text_x pr bg px AND 7) + i"
    unfolding unat_and_exp(1) unat_add_block [OF b(2)] by (rule block_arith(3) [OF b(2)])
  then show ?thesis by (simp add: text_pixel_def Let_def b(1) text_entry_block [OF b(2)])
qed

lemma text_loop_pixels:
  "px \<le> DISPLAY_WIDTH \<Longrightarrow> text_loop buf pr bg y px out = put_opaque px DISPLAY_WIDTH (text_pixel buf pr bg y) out"
proof (induction buf pr bg y px out rule: text_loop.induct)
  case (1 buf pr bg y px out)
  show ?case
  proof (cases "DISPLAY_WIDTH \<le> px")
    case True
    then have "text_loop buf pr bg y px out = out" by (subst text_loop.simps) simp
    then show ?thesis using True by (auto simp: put_opaque_def fun_eq_iff)
  next
    case False
    let ?x = "text_x pr bg px" and ?e = "read_vram16 (buf_vram buf) (text_entry_addr pr bg y (text_x pr bg px))"
    let ?run = "min (8 - unat (?x AND 7)) (DISPLAY_WIDTH - px)"
    let ?out = "text_run buf (bg_cnt pr bg) ?e y (unat (?x AND 7)) px ?run out"
    have step: "text_loop buf pr bg y px out = text_loop buf pr bg y (px + ?run) ?out"
      using False by (subst text_loop.simps) (simp add: text_x_def Let_def)
    also have "\<dots> = put_opaque (px + ?run) DISPLAY_WIDTH (text_pixel buf pr bg y) ?out"
      by (rule "1.IH" [OF False refl refl refl refl, folded text_x_def]) (use False in simp)
    also have "?out = put_opaque px (px + ?run) (text_pixel buf pr bg y) out"
    proof -
      have "?out = put_opaque px (px + ?run) (\<lambda>p. text_texel buf (bg_cnt pr bg) ?e y (unat (?x AND 7) + (p - px))) out"
        using low3_less [of ?x] by (intro text_run_pixels) linarith
      also have "\<dots> = put_opaque px (px + ?run) (text_pixel buf pr bg y) out"
      proof (rule put_opaque_cong)
        fix p
        assume p: "px \<le> p" "p < px + ?run"
        then have "unat (?x AND 7) + (p - px) < 8" using low3_less [of ?x] by linarith
        from text_pixel_run [OF this, of buf y] p(1)
        show "text_texel buf (bg_cnt pr bg) ?e y (unat (?x AND 7) + (p - px)) = text_pixel buf pr bg y p" by simp
      qed
      finally show ?thesis .
    qed
    also have "put_opaque (px + ?run) DISPLAY_WIDTH (text_pixel buf pr bg y) (put_opaque px (px + ?run) (text_pixel buf pr bg y) out)
        = put_opaque px DISPLAY_WIDTH (text_pixel buf pr bg y) out"
      by (rule put_opaque_append) (use False in linarith)+
    finally show ?thesis .
  qed
qed

text \<open>
  C14: a text background is drawn exactly as looking up every pixel on its own would draw it: pixel
  \<open>px\<close> of the line takes the map entry for its own scrolled position and one texel of that tile, with
  the entry's flips, its palette bank in 16-colour mode, and index 0 transparent. The source instead
  walks runs of up to eight pixels, reads a map entry and a tile row once per run, fetches the row as
  one 32 or 64-bit word and shifts the indices out of it, and skips a run whose row is zero; a run
  starts in the middle of a tile when the scroll is not a multiple of 8, wraps at the map's edge, and
  its row may lie in the folded part of video memory. No read is outside the snapshot.
\<close>

theorem text_background_exact:
  "draw_text_bg buf pr bg ln out = put_opaque 0 DISPLAY_WIDTH (text_pixel buf pr bg (text_y pr bg ln)) out
     \<and> vram_index a < 0x18000"
  unfolding draw_text_bg_def by (simp only: text_loop_pixels [OF le0] vram_index_less)

section \<open>The fast path of bitmap backgrounds\<close>

lemma sint_drop8: "sint (signed_drop_bit 8 w) = sint w div 256" for w :: u32
  by (simp add: sint_signed_drop_bit_eq drop_bit_eq_div)

lemma sint_bounds: "- (2 ^ 31) \<le> sint w" "sint w < 2 ^ 31" for w :: u32
  using sint_greater_eq [of w] sint_less [of w] by simp_all

lemma sint_step:
  fixes w :: u32
  assumes "p < DISPLAY_WIDTH"
  shows "sint (w + of_nat p * 256) = (if sint w + 256 * int p < 2 ^ 31 then sint w + 256 * int p else sint w + 256 * int p - 2 ^ 32)"
proof -
  let ?s = "sint w + 256 * int p"
  have "w + of_nat p * 256 = word_of_int ?s" by (simp add: mult.commute)
  then have "sint (w + of_nat p * 256) = sint (word_of_int ?s :: u32)" by (rule arg_cong)
  also have "\<dots> = (?s + 2 ^ 31) mod 2 ^ 32 - 2 ^ 31" unfolding int_word_sint by simp
  finally have m: "sint (w + of_nat p * 256) = (?s + 2 ^ 31) mod 2 ^ 32 - 2 ^ 31" .
  have b: "0 \<le> ?s + 2 ^ 31" "?s < 2 ^ 32" using sint_bounds [of w] assms by simp_all
  show ?thesis
  proof (cases "?s < 2 ^ 31")
    case True
    then have "(?s + 2 ^ 31) mod 2 ^ 32 = ?s + 2 ^ 31" using b(1) by (intro mod_pos_pos_trivial) simp_all
    then show ?thesis using True m by simp
  next
    case False
    have "(?s + 2 ^ 31) mod 2 ^ 32 = (?s + 2 ^ 31 - 2 ^ 32) mod 2 ^ 32" by (rule minus_mod_self2 [symmetric])
    also have "\<dots> = ?s + 2 ^ 31 - 2 ^ 32" using False b(2) by (intro mod_pos_pos_trivial) simp_all
    finally show ?thesis using False m by simp
  qed
qed

text \<open>Stepping by one texel in 24.8 fixed point moves the texel by one, until it leaves the bitmap for good.\<close>

lemma texel_step:
  fixes w :: u32
  assumes "p < DISPLAY_WIDTH" "n \<le> 240"
  shows "(0 \<le> sint (w + of_nat p * 256) div 256 \<and> sint (w + of_nat p * 256) div 256 < n) = (0 \<le> sint w div 256 + int p \<and> sint w div 256 + int p < n)"
    and "0 \<le> sint w div 256 + int p \<Longrightarrow> sint w div 256 + int p < n \<Longrightarrow> sint (w + of_nat p * 256) div 256 = sint w div 256 + int p"
proof -
  let ?s = "sint w + 256 * int p"
  have d: "?s div 256 = sint w div 256 + int p" by simp
  have "sint (w + of_nat p * 256) div 256 = sint w div 256 + int p \<or> sint (w + of_nat p * 256) div 256 < 0 \<and> 240 \<le> sint w div 256 + int p"
  proof (cases "?s < 2 ^ 31")
    case True
    then show ?thesis using sint_step [OF assms(1), of w] d by simp
  next
    case False
    then have "sint (w + of_nat p * 256) = ?s - 2 ^ 32" using sint_step [OF assms(1), of w] by simp
    moreover have "?s - 2 ^ 32 < 0" using sint_bounds [of w] assms(1) by simp
    moreover have "(240 * 256) div 256 \<le> ?s div 256" using False by (intro zdiv_mono1) simp_all
    ultimately show ?thesis unfolding d [symmetric] by (simp add: div_neg_pos_less0)
  qed
  then show "(0 \<le> sint (w + of_nat p * 256) div 256 \<and> sint (w + of_nat p * 256) div 256 < n) = (0 \<le> sint w div 256 + int p \<and> sint w div 256 + int p < n)"
    "0 \<le> sint w div 256 + int p \<Longrightarrow> sint w div 256 + int p < n \<Longrightarrow> sint (w + of_nat p * 256) div 256 = sint w div 256 + int p"
    using assms(2) by linarith+
qed

lemma vram_index_low: "vram_index (word_of_int (int a)) = a" if "a < 0x18000"
proof -
  have "unat (word_of_int (int a) :: u32) = a" using that by (simp add: unat_of_nat)
  then have v: "vram_index (word_of_int (int a)) = (if a < 65536 then a else 65536 + a mod 32768)"
    using that by (simp add: vram_index_eq Let_def)
  show ?thesis
  proof (cases "a < 65536")
    case False
    define j where "j = a - 65536"
    have a: "a = j + 2 * 32768" "j < 32768" using False that by (simp_all add: j_def)
    have "(j + 2 * 32768) mod 32768 = j mod 32768" by (rule mod_mult_self1)
    then have "a mod 32768 = j" using a by simp
    then show ?thesis using v False a(1) by simp
  qed (use v in simp)
qed

text \<open>The colour of one texel of a bitmap, or 0 for a transparent one.\<close>

definition bitmap_texel :: "gpu_mem_buf \<Rightarrow> nat \<Rightarrow> u16 \<Rightarrow> int \<Rightarrow> int \<Rightarrow> u16" where
  "bitmap_texel buf mode dc x y =
     (let i = nat (y * bitmap_width mode + x); page = unat (bitmap_page mode dc)
      in if mode = 4 then (let index = buf_vram buf (page + i) in if index = 0 then 0 else read_pal16 (buf_pal buf) (unat index) OR 0x8000)
         else ucast (read_mem 2 (buf_vram buf) (page + 2 * i)) OR 0x8000)"

definition on_bitmap :: "nat \<Rightarrow> int \<Rightarrow> int \<Rightarrow> bool" where
  "on_bitmap mode x y \<longleftrightarrow> 0 \<le> x \<and> x < bitmap_width mode \<and> 0 \<le> y \<and> y < bitmap_height mode"

definition bitmap_pixel :: "gpu_mem_buf \<Rightarrow> ppu_regs \<Rightarrow> nat \<Rightarrow> u16 \<Rightarrow> nat \<Rightarrow> u16" where
  "bitmap_pixel buf pr mode dc p =
     (let x = sint (internal_x pr 0) div 256 + int p; y = sint (internal_y pr 0) div 256
      in if on_bitmap mode x y then bitmap_texel buf mode dc x y else 0)"

lemma bitmap_index:
  assumes "mode \<in> {3, 4, 5}" "on_bitmap mode x y"
  shows "vram_index (bitmap_page mode dc + (if mode = 4 then 1 else 2) * word_of_int (y * bitmap_width mode + x))
    = unat (bitmap_page mode dc) + (if mode = 4 then 1 else 2) * nat (y * bitmap_width mode + x)"
proof -
  define i where "i = nat (y * bitmap_width mode + x)"
  have "y * bitmap_width mode + x < bitmap_height mode * bitmap_width mode" "0 \<le> y * bitmap_width mode + x"
  proof -
    have "(y + 1) * bitmap_width mode \<le> bitmap_height mode * bitmap_width mode"
      using assms(2) by (intro mult_right_mono) (auto simp: on_bitmap_def bitmap_width_def)
    then show "y * bitmap_width mode + x < bitmap_height mode * bitmap_width mode" using assms(2) by (simp add: on_bitmap_def algebra_simps)
    show "0 \<le> y * bitmap_width mode + x" using assms(2) by (simp add: on_bitmap_def bitmap_width_def)
  qed
  then have i: "y * bitmap_width mode + x = int i" "i < (if mode = 5 then 20480 else 38400)"
    by (auto simp: i_def bitmap_width_def bitmap_height_def)
  have page: "unat (bitmap_page mode dc) = (if mode \<noteq> 3 \<and> dc_frame_select dc then 0xA000 else 0)" by (simp add: bitmap_page_def)
  have n: "unat (bitmap_page mode dc) + (if mode = 4 then 1 else 2) * i < 0x18000"
    using assms(1) i(2) unfolding page by auto
  have "bitmap_page mode dc + (if mode = 4 then 1 else 2) * word_of_int (int i)
      = word_of_int (int (unat (bitmap_page mode dc) + (if mode = 4 then 1 else 2) * i))"
    by (simp add: bitmap_page_def)
  then show ?thesis unfolding i(1) nat_int using vram_index_low [OF n] by simp
qed

lemma bitmap_step_pixel:
  assumes "mode \<in> {3, 4, 5}" "bg_pa pr 0 = 0x100" "bg_pc pr 0 = 0" "p < DISPLAY_WIDTH"
  shows "bitmap_step buf pr mode dc p (internal_x pr 0 + of_nat p * 256, internal_y pr 0, out) =
    (internal_x pr 0 + of_nat (Suc p) * 256, internal_y pr 0,
     if bitmap_pixel buf pr mode dc p \<noteq> 0 then out(p := bitmap_pixel buf pr mode dc p) else out)"
proof -
  let ?cx = "internal_x pr 0 + of_nat p * 256 :: u32" and ?x = "sint (internal_x pr 0) div 256 + int p" and ?y = "sint (internal_y pr 0) div 256"
  have w: "bitmap_width mode \<le> 240" by (simp add: bitmap_width_def)
  note t = texel_step [OF assms(4) w, of "internal_x pr 0"]
  have stepped: "?cx + scast (bg_pa pr 0) = internal_x pr 0 + of_nat (Suc p) * 256" "internal_y pr 0 + scast (bg_pc pr 0) = internal_y pr 0"
    unfolding assms(2,3) by (simp_all add: algebra_simps)
  have outside: "(sint ?cx div 256 < 0 \<or> sint ?cx div 256 \<ge> bitmap_width mode \<or> ?y < 0 \<or> ?y \<ge> bitmap_height mode) = (\<not> on_bitmap mode ?x ?y)"
    using t(1) unfolding on_bitmap_def by linarith
  show ?thesis
  proof (cases "on_bitmap mode ?x ?y")
    case False
    then have "bitmap_pixel buf pr mode dc p = 0" by (simp add: bitmap_pixel_def Let_def)
    then show ?thesis unfolding bitmap_step_def Let_def sint_drop8 prod.case outside stepped using False by simp
  next
    case True
    then have x: "sint ?cx div 256 = ?x" using t(2) by (simp add: on_bitmap_def)
    have nn: "\<not> \<not> on_bitmap mode ?x ?y" using True by simp
    note index = bitmap_index [OF assms(1) True, of dc]
    have v: "bitmap_pixel buf pr mode dc p = bitmap_texel buf mode dc ?x ?y" using True by (simp add: bitmap_pixel_def Let_def)
    have "bitmap_step buf pr mode dc p (?cx, internal_y pr 0, out) = (internal_x pr 0 + of_nat (Suc p) * 256, internal_y pr 0,
        if mode = 4 then (let index = buf_vram buf (vram_index (bitmap_page mode dc + word_of_int (?y * bitmap_width mode + ?x)))
             in if index = 0 then out else out(p := read_pal16 (buf_pal buf) (unat index) OR 0x8000))
        else out(p := read_vram16 (buf_vram buf) (bitmap_page mode dc + word_of_int (?y * bitmap_width mode + ?x) * 2) OR 0x8000))"
      unfolding bitmap_step_def Let_def sint_drop8 prod.case outside stepped if_not_P [OF nn] unfolding x by (rule refl)
    also have "\<dots> = (internal_x pr 0 + of_nat (Suc p) * 256, internal_y pr 0,
        if bitmap_texel buf mode dc ?x ?y \<noteq> 0 then out(p := bitmap_texel buf mode dc ?x ?y) else out)"
    proof (cases "mode = 4")
      case True
      then show ?thesis using index by (simp add: bitmap_texel_def Let_def)
    next
      case False
      then show ?thesis using index by (simp add: bitmap_texel_def Let_def read_vram16_def mult.commute)
    qed
    finally show ?thesis unfolding v .
  qed
qed

lemma put_opaque_Suc: "put_opaque 0 (Suc n) f out = (if f n \<noteq> 0 then (put_opaque 0 n f out)(n := f n) else put_opaque 0 n f out)"
  by (auto simp: put_opaque_def fun_eq_iff less_Suc_eq)

lemma bitmap_walk_pixels:
  assumes "mode \<in> {3, 4, 5}" "bg_pa pr 0 = 0x100" "bg_pc pr 0 = 0" "n \<le> DISPLAY_WIDTH"
  shows "fold (bitmap_step buf pr mode dc) [0..<n] (internal_x pr 0, internal_y pr 0, out)
    = (internal_x pr 0 + of_nat n * 256, internal_y pr 0, put_opaque 0 n (bitmap_pixel buf pr mode dc) out)"
  using assms(4)
proof (induction n)
  case (Suc n)
  then have "fold (bitmap_step buf pr mode dc) [0..<Suc n] (internal_x pr 0, internal_y pr 0, out)
      = bitmap_step buf pr mode dc n (internal_x pr 0 + of_nat n * 256, internal_y pr 0, put_opaque 0 n (bitmap_pixel buf pr mode dc) out)"
    by simp
  then show ?case unfolding put_opaque_Suc using bitmap_step_pixel [OF assms(1-3), of n] Suc.prems by simp
qed (simp add: put_opaque_def)

lemma bitmap_fast_pixels:
  assumes "mode \<in> {3, 4, 5}"
  shows "bitmap_fast buf pr mode dc out = put_opaque 0 DISPLAY_WIDTH (bitmap_pixel buf pr mode dc) out"
proof -
  define y where "y = sint (internal_y pr 0) div 256"
  define x0 where "x0 = sint (internal_x pr 0) div 256"
  let ?w = "bitmap_width mode"
  define a where "a = nat (min (max (- x0) 0) (int DISPLAY_WIDTH))"
  define b where "b = nat (max 0 (min (?w - x0) (int DISPLAY_WIDTH)))"
  have v: "bitmap_pixel buf pr mode dc p = (if on_bitmap mode (x0 + int p) y then bitmap_texel buf mode dc (x0 + int p) y else 0)" for p
    by (simp add: bitmap_pixel_def x0_def y_def Let_def)
  show ?thesis
  proof (cases "y < 0 \<or> y \<ge> bitmap_height mode")
    case True
    then have "bitmap_pixel buf pr mode dc p = 0" for p by (auto simp: v on_bitmap_def)
    then show ?thesis using True put_opaque_transparent unfolding bitmap_fast_def Let_def sint_drop8 y_def by simp
  next
    case y: False
    have range: "p < DISPLAY_WIDTH \<and> on_bitmap mode (x0 + int p) y \<longleftrightarrow> a \<le> p \<and> p < b" for p
      using y unfolding on_bitmap_def a_def b_def by (auto simp: bitmap_width_def)
    have i: "nat (y * ?w) + nat (x0 + int a) + (p - a) = nat (y * ?w + (x0 + int p))" if "a \<le> p" "p < b" for p
    proof -
      have "0 \<le> y * ?w" using y by (simp add: bitmap_width_def)
      moreover have "0 \<le> x0 + int a" using that by (auto simp: a_def b_def)
      ultimately show ?thesis using that(1) by linarith
    qed
    have fast: "bitmap_fast buf pr mode dc out = (\<lambda>p. if a \<le> p \<and> p < b \<and> bitmap_texel buf mode dc (x0 + int p) y \<noteq> 0
        then bitmap_texel buf mode dc (x0 + int p) y else out p)"
    proof (cases "b \<le> a")
      case True
      then show ?thesis using y unfolding bitmap_fast_def Let_def sint_drop8 y_def [symmetric] x0_def [symmetric] a_def [symmetric] b_def [symmetric]
        by (auto simp: fun_eq_iff)
    next
      case ab: False
      then have p: "a \<le> p \<and> p < a + (b - a) \<longleftrightarrow> a \<le> p \<and> p < b" for p by auto
      show ?thesis
      proof (cases "mode = 4")
        case True
        have "bitmap_fast buf pr mode dc out = (\<lambda>p. if a \<le> p \<and> p < a + (b - a)
              \<and> buf_vram buf (unat (bitmap_page mode dc) + nat (y * ?w) + nat (x0 + int a) + (p - a)) \<noteq> 0
            then read_pal16 (buf_pal buf) (unat (buf_vram buf (unat (bitmap_page mode dc) + nat (y * ?w) + nat (x0 + int a) + (p - a)))) OR 0x8000 else out p)"
          using y ab True unfolding bitmap_fast_def Let_def sint_drop8 y_def [symmetric] x0_def [symmetric] a_def [symmetric] b_def [symmetric]
          by (simp only: if_False if_True fold_pixels simp_thms)
        also have "\<dots> = (\<lambda>p. if a \<le> p \<and> p < b \<and> bitmap_texel buf mode dc (x0 + int p) y \<noteq> 0
            then bitmap_texel buf mode dc (x0 + int p) y else out p)"
          using i True by (auto simp: fun_eq_iff bitmap_texel_def Let_def p add.assoc)
        finally show ?thesis .
      next
        case False
        have "bitmap_fast buf pr mode dc out = (\<lambda>p. if a \<le> p \<and> p < a + (b - a)
            then ucast (read_mem 2 (buf_vram buf) (unat (bitmap_page mode dc) + nat (y * ?w) * 2 + nat (x0 + int a) * 2 + 2 * (p - a))) OR 0x8000 else out p)"
          using y ab False unfolding bitmap_fast_def Let_def sint_drop8 y_def [symmetric] x0_def [symmetric] a_def [symmetric] b_def [symmetric]
          by (simp only: if_False if_True fold_all_pixels simp_thms)
        also have "\<dots> = (\<lambda>p. if a \<le> p \<and> p < b \<and> bitmap_texel buf mode dc (x0 + int p) y \<noteq> 0
            then bitmap_texel buf mode dc (x0 + int p) y else out p)"
        proof (rule ext)
          fix q
          have "nat (y * ?w) * 2 + nat (x0 + int a) * 2 + 2 * (q - a) = 2 * nat (y * ?w + (x0 + int q))" if "a \<le> q" "q < b"
            using i [OF that] by linarith
          then show "(if a \<le> q \<and> q < a + (b - a)
              then ucast (read_mem 2 (buf_vram buf) (unat (bitmap_page mode dc) + nat (y * ?w) * 2 + nat (x0 + int a) * 2 + 2 * (q - a))) OR 0x8000 else out q)
            = (if a \<le> q \<and> q < b \<and> bitmap_texel buf mode dc (x0 + int q) y \<noteq> 0 then bitmap_texel buf mode dc (x0 + int q) y else out q)"
            using False by (simp add: p bitmap_texel_def Let_def add.assoc)
        qed
        finally show ?thesis .
      qed
    qed
    show ?thesis unfolding fast put_opaque_def v using range by (auto simp: fun_eq_iff)
  qed
qed

text \<open>
  C32: the fast path for bitmap backgrounds draws the line that the general path draws. When the matrix
  steps by exactly one texel along the line (\<open>pa\<close> is 1.0 and \<open>pc\<close> is 0), copying the visible span of the
  bitmap row - clipped by the signed reference point, read straight out of the snapshot at a computed
  base, with no mirroring of the address - gives pixel by pixel what walking the fixed-point
  coordinates through the bounds test and the folded address gives, in modes 3, 4 and 5, for either
  frame and every start, including starts near the ends of the 32-bit range where the walk wraps.
\<close>

theorem bitmap_fast_exact:
  assumes "mode \<in> {3, 4, 5}" "bg_pa pr 0 = 0x100" "bg_pc pr 0 = 0"
  shows "bitmap_fast buf pr mode dc out = bitmap_walk buf pr mode dc out"
  unfolding bitmap_walk_def bitmap_walk_pixels [OF assms order_refl] bitmap_fast_pixels [OF assms(1)] by simp

lemma bitmap_fast_exact_witness:
  "\<forall>buf out. bitmap_fast buf (ppu_regs_new\<lparr>internal_x := \<lambda>_. 0x7FFFF800, internal_y := \<lambda>_. 0x400\<rparr>) 5 0x10 out
     = bitmap_walk buf (ppu_regs_new\<lparr>internal_x := \<lambda>_. 0x7FFFF800, internal_y := \<lambda>_. 0x400\<rparr>) 5 0x10 out"
  by (intro allI bitmap_fast_exact) (simp_all add: ppu_regs_new_def)

end
