(* ===== verification/RasterFrame.thy ===== *)
theory RasterFrame
  imports RasterObj RasterLaws RasterBg
begin

text \<open>
  Laws of scanlines and frames: the composition of a line by whichever path, the object lists of a band of
  lines, and that a frame is drawn line by line with nothing left over from other lines or frames.
\<close>

section \<open>The composition of a scanline\<close>

definition known_key :: "bool \<Rightarrow> u16 \<Rightarrow> bool" where
  "known_key obj k \<longleftrightarrow> k = KEY_NONE \<or> (\<exists>prio \<in> {0, 1, 2, 3}. \<exists>bg < 4. k = bg_key prio bg) \<or> obj \<and> (\<exists>p. k = push_bit 4 (ucast (p :: u8)))"

lemma lane_insert_known:
  assumes "known_key o1 key" "known_key o1 (fst (snd st))" "known_key o1 (snd (snd (snd st)))"
  shows "known_key o1 (fst (snd (lane_insert color key st)))" "known_key o1 (snd (snd (snd (lane_insert color key st))))"
  using assms by (auto simp: lane_insert_def Let_def split: prod.splits)

lemma neon_keys_known:
  assumes "\<forall>c \<in> set cs. cand_prio c \<in> {0, 1, 2, 3} \<and> cand_bg c < 4"
  shows "known_key (bit (ol_color obj x) 15) (fst (snd (select_neon_lane cs obj m x)))"
    "known_key (bit (ol_color obj x) 15) (snd (snd (snd (select_neon_lane cs obj m x))))"
proof -
  let ?K = "known_key (bit (ol_color obj x) 15)"
  let ?step = "\<lambda>c. let color = cand_line c x; key = (if bit color 15 \<and> bit (m x) (cand_bg c) then bg_key (cand_prio c) (cand_bg c) else KEY_NONE)
     in lane_insert (color AND 0x7FFF) key"
  have fold: "?K (fst (snd (fold ?step cs st))) \<and> ?K (snd (snd (snd (fold ?step cs st))))"
    if "?K (fst (snd st))" "?K (snd (snd (snd st)))" for st
    using assms that
  proof (induction cs arbitrary: st)
    case (Cons c cs)
    have "?K (if bit (cand_line c x) 15 \<and> bit (m x) (cand_bg c) then bg_key (cand_prio c) (cand_bg c) else KEY_NONE)"
      using Cons.prems(1) unfolding known_key_def by auto
    then show ?case using Cons lane_insert_known [of "bit (ol_color obj x) 15"] by (simp add: Let_def del: insert_iff)
  qed simp
  let ?k = "if bit (ol_color obj x) 15 \<and> bit (m x) 4 then push_bit 4 (ucast (ol_prio obj x)) else KEY_NONE"
  have k: "?K ?k" "?K KEY_NONE" unfolding known_key_def by auto
  show "?K (fst (snd (select_neon_lane cs obj m x)))" "?K (snd (snd (snd (select_neon_lane cs obj m x))))"
    unfolding select_neon_lane_def Let_def
    using fold [OF lane_insert_known [OF k(1), of "(0, KEY_NONE, 0, KEY_NONE)"], unfolded Let_def] k(2) by simp_all
qed

lemma unat_and_F: "unat (k AND 0xF) = unat k mod 16" for k :: u16
proof -
  have "(0xF :: u16) = mask 4" by (simp add: mask_eq_exp_minus_1)
  then show ?thesis by (simp only: unat_and_mask) simp
qed

lemma known_key_layer:
  assumes "known_key ob k"
  shows "key_layer k < 6" "key_layer k = LAYER_OBJ \<Longrightarrow> ob"
proof -
  consider "k = KEY_NONE" | prio bg where "prio \<in> {0, 1, 2, 3}" "bg < 4" "k = bg_key prio bg" | p where "ob" "k = obj_key p"
    using assms unfolding known_key_def obj_key_def by blast
  then have "key_layer k < 6 \<and> (key_layer k = LAYER_OBJ \<longrightarrow> ob)"
  proof cases
    case 1
    then show ?thesis by (simp add: key_layer_def LAYER_BACKDROP_def LAYER_OBJ_def)
  next
    case (2 prio bg)
    have "unat prio \<le> 3" using 2(1) by auto
    have "unat (k AND 0xF) = bg + 1" unfolding unat_and_F 2(3) bg_key_num [OF 2(1,2)] using 2(2) by simp
    moreover have "k \<noteq> KEY_NONE" using bg_key_num [OF 2(1,2)] 2(2,3) \<open>unat prio \<le> 3\<close> by (auto simp: KEY_NONE_def word_unat_eq_iff)
    ultimately show ?thesis using 2(2) by (auto simp: key_layer_def LAYER_OBJ_def word_unat_eq_iff)
  next
    case (3 p)
    have "unat (k AND 0xF) = 0" unfolding unat_and_F 3(2) obj_key_num by simp
    moreover have "k \<noteq> KEY_NONE"
    proof
      assume "k = KEY_NONE"
      then have "16 * unat p = 65535" using obj_key_num [of p] 3(2) by (simp add: KEY_NONE_def)
      then have "(16 * unat p) mod 16 = 65535 mod 16" by simp
      then show False by simp
    qed
    ultimately show ?thesis using 3(1) by (simp add: key_layer_def LAYER_OBJ_def word_unat_eq_iff)
  qed
  then show "key_layer k < 6" "key_layer k = LAYER_OBJ \<Longrightarrow> ob" by auto
qed

text \<open>A pixel keeps its top colour where nothing on the line can blend.\<close>

lemma compose_pixel_plain:
  assumes "drop_bit 6 (l_bld_cnt objs) AND 3 = 0" "\<not> any_semi objs \<or> l_bld_cnt objs AND 0x3F00 = 0"
    and semi: "bit (ol_color (l_obj objs) x) 15 \<Longrightarrow> ol_semi (l_obj objs) x \<noteq> 0 \<Longrightarrow> any_semi objs"
    and keys: "known_key (bit (ol_color (l_obj objs) x) 15) (top_key sel x)" "known_key (bit (ol_color (l_obj objs) x) 15) (bottom_key sel x)"
  shows "compose_pixel objs sel x = (if top_key sel x = KEY_NONE then backdrop objs else top_color sel x)"
proof -
  have target: "\<not> bit (l_bld_cnt objs) (8 + key_layer (bottom_key sel x))" if "l_bld_cnt objs AND 0x3F00 = 0"
  proof
    assume b: "bit (l_bld_cnt objs) (8 + key_layer (bottom_key sel x))"
    have "key_layer (bottom_key sel x) \<in> {0, 1, 2, 3, 4, 5}" using known_key_layer(1) [OF keys(2)] by auto
    then have "bit (0x3F00 :: u16) (8 + key_layer (bottom_key sel x))" by auto
    then have "bit (l_bld_cnt objs AND 0x3F00) (8 + key_layer (bottom_key sel x))" using b by (simp only: bit_and_iff)
    then show False using that by simp
  qed
  have "\<not> (key_layer (top_key sel x) = LAYER_OBJ \<and> ol_semi (l_obj objs) x \<noteq> 0 \<and> bit (l_bld_cnt objs) (8 + key_layer (bottom_key sel x)))"
    using known_key_layer(2) [OF keys(1)] semi target assms(2) by blast
  then show ?thesis unfolding compose_pixel_def Let_def assms(1) by auto
qed

lemma bg_order_layers: "c \<in> set (bg_order bg01 bg23) \<Longrightarrow> cand_prio c \<in> {0, 1, 2, 3} \<and> cand_bg c < 4"
proof -
  assume "c \<in> set (bg_order bg01 bg23)"
  then obtain pb where "c = cand_at bg01 bg23 pb" "pb \<in> set (List.product [0, 1, 2, 3] [0..<4])" unfolding bg_order_filter by auto
  moreover have "cand_prio (cand_at bg01 bg23 pb) = fst pb" "cand_bg (cand_at bg01 bg23 pb) = snd pb"
    by (simp_all add: cand_at_def Let_def)
  ultimately show ?thesis by auto
qed

lemma compose_scanline_general:
  assumes "\<And>x. x < DISPLAY_WIDTH \<Longrightarrow> bit (ol_color (l_obj objs) x) 15 \<Longrightarrow> ol_semi (l_obj objs) x \<noteq> 0 \<Longrightarrow> any_semi objs"
  shows "fst (compose_scanline objs bg01 bg23 fb sel) =
    (if l_forced_blank objs then fill_line 0xFFFFFFFF fb
     else convert_555_line (compose_pixel objs (select_layers_scalar (bg_order bg01 bg23) (l_obj objs) (win_mask objs) sel)) fb)"
proof -
  let ?sel = "select_layers_neon (bg_order bg01 bg23) (l_obj objs) (win_mask objs) sel"
  have plain: "compose_pixel objs ?sel x = (if top_key ?sel x = KEY_NONE then backdrop objs else top_color ?sel x)"
    if "drop_bit 6 (l_bld_cnt objs) AND 3 = 0" "\<not> any_semi objs \<or> l_bld_cnt objs AND 0x3F00 = 0" "x < DISPLAY_WIDTH" for x
    using that(1,2) assms [OF that(3)] neon_keys_known [of "bg_order bg01 bg23" "l_obj objs" x "win_mask objs"] bg_order_layers [of _ bg01 bg23]
    by (intro compose_pixel_plain) (simp_all add: select_layers_neon_def store_picked_def that(3) del: insert_iff)
  have "top_to_abgr ?sel (backdrop objs) fb = convert_555_line (compose_pixel objs ?sel) fb"
    if "drop_bit 6 (l_bld_cnt objs) AND 3 = 0" "\<not> any_semi objs \<or> l_bld_cnt objs AND 0x3F00 = 0"
    using plain [OF that] by (simp add: top_to_abgr_def convert_555_line_def fun_eq_iff)
  then show ?thesis
    unfolding compose_scanline_def neon_selection_eq [symmetric]
    by (auto simp: Let_def convert_555_line_def fun_eq_iff)
qed

section \<open>Objects write pixels of the line only\<close>

text \<open>Whatever two runs share before the objects of a line are drawn, and a plot of the same texel at a
  pixel of the line keeps, they share afterwards.\<close>

definition kept :: "(obj_draw \<Rightarrow> obj_draw \<Rightarrow> bool) \<Rightarrow> (obj_draw \<Rightarrow> obj_draw) \<Rightarrow> bool" where
  "kept R f \<longleftrightarrow> (\<forall>s t. R s t \<longrightarrow> R (f s) (f t))"

lemma kept_fold: "(\<And>x. x \<in> set xs \<Longrightarrow> kept R (f x)) \<Longrightarrow> kept R (fold f xs)"
  by (induction xs) (auto simp: kept_def)

lemma kept_id: "kept R (\<lambda>s. s)"
  by (simp add: kept_def)

lemma kept_if: "kept R f \<Longrightarrow> kept R g \<Longrightarrow> kept R (\<lambda>s. if c then f s else g s)"
  by (simp add: kept_def)

lemma kept_obj_run:
  assumes "\<And>x i. x < DISPLAY_WIDTH \<Longrightarrow> kept R (plot (buf_pal buf) b x i)" "sx + run \<le> DISPLAY_WIDTH"
  shows "kept R (obj_run buf b tile ty tx0 sx run)"
proof -
  have f: "kept R (fold (\<lambda>i. plot (buf_pal buf) b (sx + i) (g i)) [0..<run])" for g
    by (rule kept_fold, rule assms(1)) (use assms(2) in auto)
  show ?thesis unfolding obj_run_def Let_def by (intro kept_if kept_id f)
qed

lemma kept_obj_loop:
  assumes "\<And>x i. x < DISPLAY_WIDTH \<Longrightarrow> kept R (plot (buf_pal buf) b x i)"
    "x_end \<le> int DISPLAY_WIDTH - ox b" "- ox b \<le> local_x" "R s t"
  shows "R (obj_loop buf dc b ty local_x x_end s) (obj_loop buf dc b ty local_x x_end t)"
  using assms(2-)
proof (induction "nat (x_end - local_x)" arbitrary: local_x s t rule: less_induct)
  case less
  show ?case
  proof (cases "x_end \<le> local_x")
    case True
    then show ?thesis using less.prems(3) by (simp add: obj_loop.simps [of _ _ _ _ _ _ s] obj_loop.simps [of _ _ _ _ _ _ t])
  next
    case False
    define tx0 where "tx0 = nat (if bit (flags b) 4 then int (obj_w b) - 1 - local_x else local_x)"
    define run where "run = min (if bit (flags b) 4 then tx0 mod 8 + 1 else 8 - tx0 mod 8) (nat (x_end - local_x))"
    define tile where "tile = base_tile b + ty div 8 * row_stride dc b + tx0 div 8 * tile_step b"
    let ?run = "obj_run buf b tile ty tx0 (nat (ox b + local_x)) run"
    have step: "obj_loop buf dc b ty local_x x_end st = obj_loop buf dc b ty (local_x + int run) x_end (?run st)" for st
      using False by (subst obj_loop.simps) (simp add: Let_def tx0_def run_def tile_def)
    have pos: "0 < 8 - tx0 mod 8" by simp
    then have run: "0 < run" "run \<le> nat (x_end - local_x)" using False by (auto simp: run_def)
    then have "nat (ox b + local_x) + run \<le> DISPLAY_WIDTH" using less.prems(1,2) False by linarith
    from kept_obj_run [OF assms(1) this] have "R (?run s) (?run t)" using less.prems(3) unfolding kept_def by blast
    moreover have "nat (x_end - (local_x + int run)) < nat (x_end - local_x)" "- ox b \<le> local_x + int run"
      using run False less.prems(2) by linarith+
    ultimately show ?thesis unfolding step by (intro less.hyps less.prems(1))
  qed
qed

lemma kept_draw_obj:
  assumes "\<And>x i. x < DISPLAY_WIDTH \<Longrightarrow> kept R (plot (buf_pal buf) b x i)"
  shows "kept R (draw_obj buf dc ln b)"
proof -
  have "kept R (draw_affine_obj buf dc ln b)"
    unfolding draw_affine_obj_def Let_def by (rule kept_fold, rule assms) auto
  moreover have "kept R (draw_regular_obj buf dc ln b)"
    unfolding kept_def draw_regular_obj_def using kept_obj_loop [OF assms] by simp
  ultimately show ?thesis unfolding draw_obj_def by (intro kept_if kept_id)
qed

lemma kept_draw_objects:
  assumes "\<And>b x i. x < DISPLAY_WIDTH \<Longrightarrow> kept R (plot (buf_pal buf) b x i)"
  shows "kept R (draw_objects buf dc ln oam)"
  unfolding draw_objects_def by (rule kept_fold) (rule kept_draw_obj [OF assms])

text \<open>A semi-transparent pixel has raised the flag of its line.\<close>

definition semi_known :: "obj_draw \<Rightarrow> bool" where
  "semi_known s \<longleftrightarrow> (\<forall>x < DISPLAY_WIDTH. bit (ol_color (d_obj s) x) 15 \<longrightarrow> ol_semi (d_obj s) x \<noteq> 0 \<longrightarrow> d_semi s)"

lemma semi_known_plot: "kept (\<lambda>s _. semi_known s) (plot pal b x i)"
  by (auto simp: kept_def plot_def semi_known_def Let_def)

definition objs_start :: "obj_layer \<Rightarrow> obj_draw" where
  "objs_start out = \<lparr>d_obj = (l_obj out)\<lparr>ol_color := fill_line 0 (ol_color (l_obj out))\<rparr>, d_window = (\<lambda>_. False), d_semi = False\<rparr>"

definition objs_drawn :: "gpu_mem_buf \<Rightarrow> u16 \<Rightarrow> nat \<Rightarrow> obj_layer \<Rightarrow> oam_scratch \<Rightarrow> obj_draw" where
  "objs_drawn buf dc ln out oam = (if dc_display_obj dc then draw_objects buf dc ln oam (objs_start out) else objs_start out)"

lemma draw_objs_drawn:
  assumes "\<not> dc_forced_blank dc"
  shows "draw_objs buf pr dc ln out oam = (let st = objs_drawn buf dc ln out oam in
    \<lparr>l_obj = d_obj st, win_mask = window_mask pr dc ln (d_window st) (win_mask out), backdrop = read_pal16 (buf_pal buf) 0 AND 0x7FFF,
     l_bld_cnt = bld_cnt pr, l_bld_alpha = bld_alpha pr, l_bld_y = bld_y pr, l_forced_blank = False, any_semi = d_semi st\<rparr>)"
  using assms by (cases "dc_display_obj dc") (simp_all add: draw_objs_def objs_drawn_def objs_start_def Let_def)

lemma kept_objs_drawn:
  assumes "\<And>b x i. x < DISPLAY_WIDTH \<Longrightarrow> kept R (plot (buf_pal buf) b x i)" "R (objs_start out) (objs_start out')"
  shows "R (objs_drawn buf dc ln out oam) (objs_drawn buf dc ln out' oam)"
  using kept_draw_objects [of R buf, OF assms(1)] assms(2) unfolding objs_drawn_def kept_def by simp

lemma draw_objs_semi:
  assumes "x < DISPLAY_WIDTH" "\<not> dc_forced_blank dc" "bit (ol_color (l_obj (draw_objs buf pr dc ln out oam)) x) 15"
    "ol_semi (l_obj (draw_objs buf pr dc ln out oam)) x \<noteq> 0"
  shows "any_semi (draw_objs buf pr dc ln out oam)"
proof -
  have "semi_known (objs_start out)" by (auto simp: semi_known_def fill_span_def objs_start_def)
  then have "semi_known (objs_drawn buf dc ln out oam)"
    by (rule kept_objs_drawn [where R = "\<lambda>s _. semi_known s", OF semi_known_plot])
  then show ?thesis using assms by (simp add: draw_objs_drawn Let_def semi_known_def)
qed

lemma scanline_composed_eq:
  "snd (draw_scanline buf pr dc ln (sc, fb)) =
    (let objs = draw_objs buf pr dc ln (rs_obj sc) (rs_oam sc);
         bgs = bg_order (draw_bgs buf pr dc (of_nat ln) 0 (rs_bg01 sc)) (draw_bgs buf pr dc (of_nat ln) 2 (rs_bg23 sc));
         sel = select_layers_scalar bgs (l_obj objs) (win_mask objs) (rs_sel sc)
     in if dc_forced_blank dc then fill_line 0xFFFFFFFF fb else convert_555_line (compose_pixel objs sel) fb)"
proof -
  define objs where "objs = draw_objs buf pr dc ln (rs_obj sc) (rs_oam sc)"
  let ?b0 = "draw_bgs buf pr dc (of_nat ln) 0 (rs_bg01 sc)" and ?b2 = "draw_bgs buf pr dc (of_nat ln) 2 (rs_bg23 sc)"
  have fb: "l_forced_blank objs = dc_forced_blank dc" unfolding objs_def by (simp add: draw_objs_def Let_def)
  have line: "snd (draw_scanline buf pr dc ln (sc, fb)) = fst (compose_scanline objs ?b0 ?b2 fb (rs_sel sc))"
    unfolding draw_scanline_def objs_def by (simp add: Let_def split: prod.splits)
  show ?thesis
  proof (cases "dc_forced_blank dc")
    case True
    then show ?thesis unfolding line by (simp add: compose_scanline_def fb)
  next
    case False
    have "fst (compose_scanline objs ?b0 ?b2 fb (rs_sel sc)) = (if l_forced_blank objs then fill_line 0xFFFFFFFF fb
        else convert_555_line (compose_pixel objs (select_layers_scalar (bg_order ?b0 ?b2) (l_obj objs) (win_mask objs) (rs_sel sc))) fb)"
      by (rule compose_scanline_general) (use draw_objs_semi [OF _ False] objs_def in blast)
    then show ?thesis unfolding line Let_def fb objs_def [symmetric] .
  qed
qed

text \<open>
  C13: a scanline is composed pixel by pixel as the blending rules say, by whichever path it is
  drawn. Whatever the scratch buffers hold from earlier lines, each pixel of the line that
  \<open>draw_scanline\<close> writes is: white under forced blank, else the colour that the blending decision
  gives for the layers that the ordered walk over the line's backgrounds and objects selects there.
  The vectorised selection and the fast path that skips blending are not observable; the fast path is
  right because a semi-transparent pixel on the line has always raised \<open>any_semi\<close>.
\<close>

theorem scanline_composed:
  "snd (draw_scanline buf pr dc ln (sc, fb)) =
    (let objs = draw_objs buf pr dc ln (rs_obj sc) (rs_oam sc);
         bgs = bg_order (draw_bgs buf pr dc (of_nat ln) 0 (rs_bg01 sc)) (draw_bgs buf pr dc (of_nat ln) 2 (rs_bg23 sc));
         sel = select_layers_scalar bgs (l_obj objs) (win_mask objs) (rs_sel sc)
     in if dc_forced_blank dc then fill_line 0xFFFFFFFF fb else convert_555_line (compose_pixel objs sel) fb)"
  by (rule scanline_composed_eq)

section \<open>The object lists of a band\<close>

text \<open>What \<open>decode_entry\<close> computes does not depend on the band but for the rows it is cut to.\<close>

lemma decode_entry_shape:
  obtains (hidden) "\<And>start stop. decode_entry oam start stop k = None"
  | (rows) obj y y' where "\<And>start stop. decode_entry oam start stop k =
      (if max y start \<ge> min y' stop then None else Some (obj, max y start, min y' stop))"
proof -
  let ?a0 = "oam16 oam (k * 8)" and ?a1 = "oam16 oam (k * 8 + 2)"
  obtain w h where size: "OBJ_SIZES ! unat (drop_bit 14 ?a0 AND 3) ! unat (drop_bit 14 ?a1 AND 3) = (w, h)" by (meson surj_pair)
  obtain bw bh where bound: "(if bit ?a0 8 \<and> bit ?a0 9 then (w * 2, h * 2) else (w, h)) = (bw, bh)" by (meson surj_pair)
  obtain pa pb pc pd where mat: "(if bit ?a0 8 then (oam16 oam (unat (drop_bit 9 ?a1 AND 0x1F) * 32 + 6), oam16 oam (unat (drop_bit 9 ?a1 AND 0x1F) * 32 + 14),
      oam16 oam (unat (drop_bit 9 ?a1 AND 0x1F) * 32 + 22), oam16 oam (unat (drop_bit 9 ?a1 AND 0x1F) * 32 + 30)) else (0x100, 0, 0, 0x100)) = (pa, pb, pc, pd)"
    by (metis prod_cases4)
  show thesis
  proof (cases "(\<not> bit ?a0 8 \<and> bit ?a0 9) \<or> unat (drop_bit 10 ?a0 AND 3) = 3 \<or> unat (drop_bit 14 ?a0 AND 3) = 3")
    case True
    then show thesis by (intro hidden) (simp add: decode_entry_def Let_def)
  next
    case False
    define x where "x = (if int (unat (?a1 AND 0x1FF)) \<ge> int DISPLAY_WIDTH then int (unat (?a1 AND 0x1FF)) - 512 else int (unat (?a1 AND 0x1FF)))"
    define y where "y = (if int (unat (?a0 AND 0xFF)) + int bh > 256 then int (unat (?a0 AND 0xFF)) - 256 else int (unat (?a0 AND 0xFF)))"
    show thesis
    proof (cases "x + int bw \<le> 0")
      case True
      with False show thesis
        by (intro hidden) (simp only: decode_entry_def Let_def if_False size bound prod.case x_def [symmetric] disj_assoc if_True simp_thms)
    next
      case on: False
      show thesis
        by (rule rows [where y = y and y' = "y + int bh"])
          (simp only: decode_entry_def Let_def False on if_False size bound mat prod.case x_def [symmetric] y_def [symmetric] simp_thms)
    qed
  qed
qed

text \<open>The objects on one line, each entry decoded for that line alone, in table order.\<close>

definition objs_on_line :: "(nat \<Rightarrow> u8) \<Rightarrow> nat \<Rightarrow> nat list \<Rightarrow> decoded_obj list" where
  "objs_on_line oam ln ks = concat (map (\<lambda>k. case decode_entry oam (int ln) (int ln + 1) k of None \<Rightarrow> [] | Some (obj, _) \<Rightarrow> [obj]) ks)"

lemma objs_on_line_step:
  "objs_on_line oam ln (ks @ [k]) = objs_on_line oam ln ks @ (case decode_entry oam (int ln) (int ln + 1) k of None \<Rightarrow> [] | Some (obj, _) \<Rightarrow> [obj])"
  by (simp add: objs_on_line_def)

lemma decode_entry_line:
  assumes "start \<le> ln" "ln < stop"
  shows "(case decode_entry oam ln (ln + 1) k of None \<Rightarrow> [] | Some (obj, _) \<Rightarrow> [obj])
    = (case decode_entry oam start stop k of None \<Rightarrow> [] | Some (obj, y0, y1) \<Rightarrow> if y0 \<le> ln \<and> ln < y1 then [obj] else [])"
  by (rule decode_entry_shape [of oam k]) (use assms in \<open>auto\<close>)

lemma decode_entry_band: "decode_entry oam start stop k = Some (obj, y0, y1) \<Longrightarrow> start \<le> y0 \<and> y1 \<le> stop \<and> y0 < y1"
  by (rule decode_entry_shape [of oam k]) (auto split: if_splits)

lemma push_slots:
  "oam_counts (fold (\<lambda>ln. push_slot d (ln - start)) [a..<b] s) li = oam_counts s li + (if a - start \<le> li \<and> li < b - start then 1 else 0)" (is ?c)
  "oam_lists (fold (\<lambda>ln. push_slot d (ln - start)) [a..<b] s) li =
     (if a - start \<le> li \<and> li < b - start then (oam_lists s li)(oam_counts s li := d) else oam_lists s li)" (is ?l)
  "oam_objs (fold (\<lambda>ln. push_slot d (ln - start)) [a..<b] s) = oam_objs s"
  "base_line (fold (\<lambda>ln. push_slot d (ln - start)) [a..<b] s) = base_line s"
  if "start \<le> a"
proof -
  have "?c \<and> ?l \<and> oam_objs (fold (\<lambda>ln. push_slot d (ln - start)) [a..<b] s) = oam_objs s \<and> base_line (fold (\<lambda>ln. push_slot d (ln - start)) [a..<b] s) = base_line s"
  proof (induction b)
    case (Suc b)
    show ?case
    proof (cases "a \<le> b")
      case True
      then have "(li < Suc b - start) = (li < b - start \<or> li = b - start)" using that by auto
      then show ?thesis using Suc True by (auto simp: push_slot_def)
    qed (use that in auto)
  qed simp
  then show ?c ?l "oam_objs (fold (\<lambda>ln. push_slot d (ln - start)) [a..<b] s) = oam_objs s"
    "base_line (fold (\<lambda>ln. push_slot d (ln - start)) [a..<b] s) = base_line s" by blast+
qed

text \<open>After any number of entries the list of every line of the band is right, and names decoded slots only.\<close>

definition lists_right :: "(nat \<Rightarrow> u8) \<Rightarrow> nat \<Rightarrow> nat \<Rightarrow> nat \<Rightarrow> nat \<times> oam_scratch \<Rightarrow> bool" where
  "lists_right oam start stop k st \<longleftrightarrow> base_line (snd st) = start \<and> (\<forall>li < stop - start.
     line_objs (snd st) li = objs_on_line oam (start + li) [0..<k] \<and> (\<forall>n < oam_counts (snd st) li. oam_lists (snd st) li n < fst st))"

lemma lists_right_step:
  assumes "lists_right oam start stop k st"
  shows "lists_right oam start stop (Suc k) (decode_step oam start stop k st)"
proof -
  obtain d s where st: "st = (d, s)" by fastforce
  have band: "(case decode_entry oam (int (start + li)) (int (start + li) + 1) k of None \<Rightarrow> [] | Some (obj, _) \<Rightarrow> [obj])
      = (case decode_entry oam (int start) (int stop) k of None \<Rightarrow> []
         | Some (obj, y0, y1) \<Rightarrow> if y0 \<le> int (start + li) \<and> int (start + li) < y1 then [obj] else [])" if "li < stop - start" for li
    by (rule decode_entry_line) (use that in auto)
  show ?thesis
  proof (cases "decode_entry oam (int start) (int stop) k")
    case None
    then have "decode_step oam start stop k st = st" by (simp add: decode_step_def)
    then show ?thesis using assms band None by (simp add: lists_right_def objs_on_line_step)
  next
    case (Some r)
    obtain obj y0 y1 where r: "r = (obj, y0, y1)" by (cases r)
    note b = decode_entry_band [OF Some [unfolded r]]
    then have a: "start \<le> nat y0" by linarith
    let ?s = "fold (\<lambda>ln. push_slot d (ln - start)) [nat y0..<nat y1] (s\<lparr>oam_objs := (oam_objs s)(d := obj)\<rparr>)"
    have step: "decode_step oam start stop k st = (d + 1, ?s)" by (simp add: decode_step_def Some r st)
    note push = push_slots [OF a]
    have "line_objs ?s li = objs_on_line oam (start + li) [0..<Suc k] \<and> (\<forall>n < oam_counts ?s li. oam_lists ?s li n < d + 1)"
      if li: "li < stop - start" for li
    proof -
      have old: "line_objs s li = objs_on_line oam (start + li) [0..<k]" "\<And>n. n < oam_counts s li \<Longrightarrow> oam_lists s li n < d"
        using assms li by (simp_all add: lists_right_def st)
      have covered: "(nat y0 - start \<le> li \<and> li < nat y1 - start) = (y0 \<le> int (start + li) \<and> int (start + li) < y1)"
        using b by linarith
      have same: "map (\<lambda>n. ((oam_objs s)(d := obj)) (oam_lists s li n)) [0..<oam_counts s li] = line_objs s li"
        unfolding line_objs_def by (rule map_cong [OF refl]) (use old(2) in \<open>auto simp: less_le\<close>)
      have new: "map (\<lambda>n. ((oam_objs s)(d := obj)) (((oam_lists s li)(oam_counts s li := d)) n)) [0..<oam_counts s li] = line_objs s li"
        unfolding same [symmetric] by (rule map_cong) auto
      have "line_objs ?s li = line_objs s li @ (if y0 \<le> int (start + li) \<and> int (start + li) < y1 then [obj] else [])"
      proof (cases "y0 \<le> int (start + li) \<and> int (start + li) < y1")
        case True
        have lists: "oam_lists ?s li = (oam_lists s li)(oam_counts s li := d)" "oam_counts ?s li = oam_counts s li + 1"
          "oam_objs ?s = (oam_objs s)(d := obj)"
          unfolding push covered if_P [OF True] by simp_all
        show ?thesis unfolding line_objs_def [of ?s] lists if_P [OF True] using new by simp
      next
        case False
        have lists: "oam_lists ?s li = oam_lists s li" "oam_counts ?s li = oam_counts s li" "oam_objs ?s = (oam_objs s)(d := obj)"
          unfolding push covered if_not_P [OF False] by simp_all
        show ?thesis unfolding line_objs_def [of ?s] lists if_not_P [OF False] using same by simp
      qed
      moreover have "oam_lists ?s li n < d + 1" if "n < oam_counts ?s li" for n
        using that old(2) [of n] unfolding push by (auto simp: less_Suc_eq split: if_splits)
      ultimately show ?thesis using band [OF li] by (simp add: objs_on_line_step old(1) Some r)
    qed
    moreover have "base_line ?s = start" using assms unfolding push by (simp add: lists_right_def st)
    ultimately show ?thesis unfolding step lists_right_def by simp
  qed
qed

lemma lists_right_all: "lists_right oam start stop (length ks) (fold (decode_step oam start stop) [0..<length ks] st)"
  if "lists_right oam start stop 0 st"
  using that by (induction ks) (simp_all add: lists_right_step)

lemma oam_lists_eq:
  assumes "start \<le> ln" "ln < stop"
  shows "line_objs (oam_decode oam start stop s) (ln - base_line (oam_decode oam start stop s)) = objs_on_line oam ln [0..<128]"
proof -
  let ?s = "s\<lparr>base_line := start, oam_counts := fill_span 0 (stop - start) 0 (oam_counts s)\<rparr>"
  have "lists_right oam start stop 0 (0, ?s)" by (simp add: lists_right_def line_objs_def objs_on_line_def fill_span_def)
  from lists_right_all [OF this, of "replicate 128 ()"]
  have r: "lists_right oam start stop 128 (fold (decode_step oam start stop) [0..<128] (0, ?s))" by simp
  then have "base_line (oam_decode oam start stop s) = start" by (simp add: lists_right_def oam_decode_def)
  moreover have "ln - start < stop - start" "start + (ln - start) = ln" using assms by auto
  ultimately show ?thesis using r by (simp add: lists_right_def oam_decode_def)
qed

text \<open>
  C33: decoding the objects for a band of lines puts on every line of the band exactly the objects that
  cover that line, in the order of the table, whatever the tables held from the frame before: the list
  of a line is what decoding all 128 entries for that line alone would give - off-screen and disabled
  entries left out, \<open>y\<close> wrapped at 256 and \<open>x\<close> at 512, a double-size box counted in full. So the two
  cores' halves of the screen agree with a single pass over the whole frame.
\<close>

theorem oam_lists_exact:
  assumes "start \<le> ln" "ln < stop"
  shows "line_objs (oam_decode oam start stop s) (ln - base_line (oam_decode oam start stop s)) = objs_on_line oam ln [0..<128]"
  by (rule oam_lists_eq [OF assms])

lemma oam_lists_exact_witness:
  "length (line_objs (oam_decode (\<lambda>_. 0) 0 80 oam_scratch_new) (3 - base_line (oam_decode (\<lambda>_. 0) 0 80 oam_scratch_new))) = 128"
proof -
  have e: "decode_entry (\<lambda>_. 0) 3 4 k \<noteq> None" for k
    by (simp add: decode_entry_def oam16_def read_mem_def OBJ_SIZES_def Let_def)
  have "length (objs_on_line (\<lambda>_. 0) 3 ks) = length ks" for ks
  proof (induction ks)
    case (Cons k ks)
    then show ?case using e [of k] by (auto simp: objs_on_line_def)
  qed (simp add: objs_on_line_def)
  then show ?thesis using oam_lists_exact [of 0 3 80 "\<lambda>_. 0" oam_scratch_new] by simp
qed

section \<open>What a scanline depends on\<close>

definition same_line :: "(nat \<Rightarrow> 'a) \<Rightarrow> (nat \<Rightarrow> 'a) \<Rightarrow> bool" where
  "same_line f g \<longleftrightarrow> (\<forall>x < DISPLAY_WIDTH. f x = g x)"

definition same_obj :: "obj_line \<Rightarrow> obj_line \<Rightarrow> bool" where
  "same_obj a b \<longleftrightarrow> (\<forall>x < DISPLAY_WIDTH. ol_color a x = ol_color b x
     \<and> (bit (ol_color b x) 15 \<longrightarrow> ol_prio a x = ol_prio b x \<and> ol_semi a x = ol_semi b x))"

definition same_draw :: "obj_draw \<Rightarrow> obj_draw \<Rightarrow> bool" where
  "same_draw s t \<longleftrightarrow> same_obj (d_obj s) (d_obj t) \<and> same_line (d_window s) (d_window t) \<and> d_semi s = d_semi t"

lemma same_draw_plot:
  assumes "x < DISPLAY_WIDTH"
  shows "kept same_draw (plot pal b x i)"
  unfolding kept_def
proof (intro allI impI)
  fix s t
  assume r: "same_draw s t"
  then have x: "ol_color (d_obj s) x = ol_color (d_obj t) x" "bit (ol_color (d_obj t) x) 15 \<Longrightarrow> ol_prio (d_obj s) x = ol_prio (d_obj t) x"
    using assms by (auto simp: same_draw_def same_obj_def)
  then have "(\<not> bit (ol_color (d_obj s) x) 15 \<or> o_prio b < ol_prio (d_obj s) x) = (\<not> bit (ol_color (d_obj t) x) 15 \<or> o_prio b < ol_prio (d_obj t) x)"
    by auto
  then show "same_draw (plot pal b x i s) (plot pal b x i t)"
    using r unfolding plot_def Let_def by (simp add: same_draw_def same_obj_def same_line_def)
qed

lemma same_line_if: "(c \<Longrightarrow> same_line f g) \<Longrightarrow> (\<not> c \<Longrightarrow> same_line f' g') \<Longrightarrow> same_line (if c then f else f') (if c then g else g')"
  by simp

lemma same_line_fill: "same_line f g \<Longrightarrow> same_line (fill_span a b v f) (fill_span a b v g)"
  by (simp add: same_line_def fill_span_def)

lemma same_line_cleared: "same_line (fill_line v f) (fill_line v g)"
  by (simp add: same_line_def fill_span_def)

lemma same_line_apply_window: "same_line m m' \<Longrightarrow> same_line (apply_window pr w ln m) (apply_window pr w ln m')"
  unfolding apply_window_def Let_def by (intro same_line_if same_line_fill)

lemma same_line_window:
  assumes "same_line w w'"
  shows "same_line (window_mask pr dc ln w m) (window_mask pr dc ln w' m')"
proof -
  have obj: "same_line (\<lambda>x. if x < DISPLAY_WIDTH \<and> w x then v else f x) (\<lambda>x. if x < DISPLAY_WIDTH \<and> w' x then v else g x)"
    if "same_line f g" for v :: u8 and f g using assms that by (simp add: same_line_def)
  show ?thesis unfolding window_mask_def Let_def
    by (intro same_line_if same_line_apply_window obj same_line_cleared)
qed

definition same_layer :: "obj_layer \<Rightarrow> obj_layer \<Rightarrow> bool" where
  "same_layer a b \<longleftrightarrow> same_obj (l_obj a) (l_obj b) \<and> same_line (win_mask a) (win_mask b) \<and> backdrop a = backdrop b
     \<and> l_bld_cnt a = l_bld_cnt b \<and> l_bld_alpha a = l_bld_alpha b \<and> l_bld_y a = l_bld_y b"

lemma draw_objs_same:
  assumes "line_objs oam (ln - base_line oam) = line_objs oam' (ln - base_line oam')" "\<not> dc_forced_blank dc"
  shows "same_layer (draw_objs buf pr dc ln out oam) (draw_objs buf pr dc ln out' oam')"
proof -
  have "objs_drawn buf dc ln out oam = objs_drawn buf dc ln out oam'" using assms(1) by (simp add: objs_drawn_def draw_objects_def)
  moreover have "same_draw (objs_start out) (objs_start out')"
    by (simp add: same_draw_def same_obj_def same_line_def objs_start_def fill_span_def)
  then have "same_draw (objs_drawn buf dc ln out oam') (objs_drawn buf dc ln out' oam')"
    by (rule kept_objs_drawn [where R = same_draw, rotated]) (rule same_draw_plot)
  ultimately have "same_draw (objs_drawn buf dc ln out oam) (objs_drawn buf dc ln out' oam')" by simp
  then have d: "same_obj (d_obj (objs_drawn buf dc ln out oam)) (d_obj (objs_drawn buf dc ln out' oam'))"
    "same_line (d_window (objs_drawn buf dc ln out oam)) (d_window (objs_drawn buf dc ln out' oam'))"
    unfolding same_draw_def by blast+
  show ?thesis
    unfolding draw_objs_drawn [OF assms(2)] same_layer_def Let_def obj_layer.select_convs
    by (intro conjI refl d(1) same_line_window d(2))
qed

lemma affine_same:
  assumes "same_line out out'"
  shows "same_line (draw_affine_bg buf pr bg out) (draw_affine_bg buf pr bg out')"
proof -
  let ?f = "fold (affine_step buf pr bg)"
  have "fst (?f xs (cx, cy, out)) = fst (?f xs (cx, cy, out')) \<and> fst (snd (?f xs (cx, cy, out))) = fst (snd (?f xs (cx, cy, out')))
      \<and> same_line (snd (snd (?f xs (cx, cy, out)))) (snd (snd (?f xs (cx, cy, out'))))" for xs cx cy
    using assms
  proof (induction xs arbitrary: cx cy out out')
    case (Cons x xs)
    obtain a b o1 where s: "affine_step buf pr bg x (cx, cy, out) = (a, b, o1)" by (metis prod_cases3)
    obtain o2 where t: "affine_step buf pr bg x (cx, cy, out') = (a, b, o2)" and "same_line o1 o2"
      using s Cons.prems by (auto simp: affine_step_def Let_def same_line_def split: if_splits)
    with Cons.IH show ?case by (simp add: s t)
  qed simp
  then show ?thesis by (simp add: draw_affine_bg_def)
qed

lemma bitmap_walk_same:
  assumes "same_line out out'"
  shows "same_line (bitmap_walk buf pr mode dc out) (bitmap_walk buf pr mode dc out')"
proof -
  let ?f = "fold (bitmap_step buf pr mode dc)"
  have "same_line (snd (snd (?f xs (cx, cy, out)))) (snd (snd (?f xs (cx, cy, out'))))" for xs cx cy
    using assms
  proof (induction xs arbitrary: cx cy out out')
    case (Cons x xs)
    obtain a b o1 where s: "bitmap_step buf pr mode dc x (cx, cy, out) = (a, b, o1)" by (metis prod_cases3)
    obtain o2 where t: "bitmap_step buf pr mode dc x (cx, cy, out') = (a, b, o2)" and "same_line o1 o2"
      using s Cons.prems by (auto simp: bitmap_step_def Let_def same_line_def split: if_splits)
    with Cons.IH show ?case by (simp add: s t)
  qed simp
  then show ?thesis by (simp add: bitmap_walk_def)
qed

lemma same_line_pixels:
  "same_line out out' \<Longrightarrow> same_line (\<lambda>p. if c p then v p else out p) (\<lambda>p. if c p then v p else out' p)"
  by (simp add: same_line_def)

lemma bitmap_fast_same:
  "same_line out out' \<Longrightarrow> same_line (bitmap_fast buf pr mode dc out) (bitmap_fast buf pr mode dc out')"
  unfolding bitmap_fast_def Let_def fold_pixels fold_all_pixels by (intro same_line_if same_line_pixels)

lemma draw_bg_same:
  "rel_option same_line (draw_bg buf pr dc ln bg out) (draw_bg buf pr dc ln bg out')"
proof -
  have clear: "same_line (fill_line 0 out) (fill_line 0 out')" by (simp add: same_line_def fill_span_def)
  then have "same_line (draw_text_bg buf pr bg ln (fill_line 0 out)) (draw_text_bg buf pr bg ln (fill_line 0 out'))"
    unfolding draw_text_bg_def text_loop_pixels [OF le0] by (simp add: same_line_def put_opaque_def)
  then show ?thesis
    using affine_same [OF clear] bitmap_walk_same [OF clear] bitmap_fast_same [OF clear] by (simp add: draw_bg_def draw_bitmap_bg_def Let_def)
qed

definition same_half :: "bg_half \<Rightarrow> bg_half \<Rightarrow> bool" where
  "same_half a b \<longleftrightarrow> half_active a = half_active b
     \<and> (\<forall>i. half_active b i \<longrightarrow> half_prio a i = half_prio b i \<and> same_line (half_bg a i) (half_bg b i))"

lemma draw_bgs_same:
  assumes "\<not> dc_forced_blank dc"
  shows "same_half (draw_bgs buf pr dc ln base half) (draw_bgs buf pr dc ln base half')"
proof -
  let ?step = "\<lambda>i half. let bg = base + i in if \<not> dc_display_bg dc bg then half
     else (case draw_bg buf pr dc ln bg (half_bg half i) of None \<Rightarrow> half
        | Some ln' \<Rightarrow> half\<lparr>half_bg := (half_bg half)(i := ln'), half_active := (half_active half)(i := True),
             half_prio := (half_prio half)(i := bg_cnt pr bg AND 3)\<rparr>)"
  have step: "same_half (?step i h) (?step i h')" if "same_half h h'" for i h h'
  proof (cases "draw_bg buf pr dc ln (base + i) (half_bg h i)")
    case None
    then have "draw_bg buf pr dc ln (base + i) (half_bg h' i) = None"
      using draw_bg_same [of buf pr dc ln "base + i" "half_bg h i" "half_bg h' i"] by (cases "draw_bg buf pr dc ln (base + i) (half_bg h' i)") auto
    with None that show ?thesis by (simp add: Let_def)
  next
    case (Some l)
    then obtain l' where "draw_bg buf pr dc ln (base + i) (half_bg h' i) = Some l'" "same_line l l'"
      using draw_bg_same [of buf pr dc ln "base + i" "half_bg h i" "half_bg h' i"] by (cases "draw_bg buf pr dc ln (base + i) (half_bg h' i)") auto
    with Some that show ?thesis by (simp add: same_half_def Let_def)
  qed
  have "same_half (half\<lparr>half_active := (\<lambda>_. False)\<rparr>) (half'\<lparr>half_active := (\<lambda>_. False)\<rparr>)" by (simp add: same_half_def)
  then have "same_half (fold ?step [0, 1] (half\<lparr>half_active := (\<lambda>_. False)\<rparr>)) (fold ?step [0, 1] (half'\<lparr>half_active := (\<lambda>_. False)\<rparr>))"
    by (simp only: fold.simps comp_apply id_apply) (intro step)
  then show ?thesis unfolding draw_bgs_def Let_def using assms by (simp only: if_False)
qed

definition same_cand :: "bg_candidate \<Rightarrow> bg_candidate \<Rightarrow> bool" where
  "same_cand c d \<longleftrightarrow> cand_bg c = cand_bg d \<and> cand_prio c = cand_prio d \<and> same_line (cand_line c) (cand_line d)"

lemma bg_order_same:
  assumes "same_half a a'" "same_half b b'"
  shows "list_all2 same_cand (bg_order a b) (bg_order a' b')"
proof -
  have "is_cand a b pb = is_cand a' b' pb" for pb
    using assms by (auto simp: is_cand_def same_half_def Let_def split: prod.splits if_splits)
  then have f: "is_cand a b = is_cand a' b'" by blast
  have "same_cand (cand_at a b pb) (cand_at a' b' pb)" if "is_cand a' b' pb" for pb
  proof (cases "snd pb < 2")
    case True
    then show ?thesis using assms(1) that by (simp add: same_cand_def cand_at_def is_cand_def same_half_def)
  next
    case False
    then show ?thesis using assms(2) that by (simp add: same_cand_def cand_at_def is_cand_def same_half_def)
  qed
  then show ?thesis unfolding bg_order_filter f list.rel_map by (intro list.rel_refl_strong) auto
qed

lemma select_same:
  assumes "list_all2 same_cand cs ds" "same_obj a b" "same_line m m'" "x < DISPLAY_WIDTH"
  shows "select_neon_lane cs a m x = select_neon_lane ds b m' x"
proof -
  have m: "m x = m' x" "ol_color a x = ol_color b x" "bit (ol_color b x) 15 \<Longrightarrow> ol_prio a x = ol_prio b x"
    using assms(2-4) by (auto simp: same_line_def same_obj_def)
  let ?f = "\<lambda>c. let color = cand_line c x; key = (if bit color 15 \<and> bit (m' x) (cand_bg c) then bg_key (cand_prio c) (cand_bg c) else KEY_NONE)
                   in lane_insert (color AND 0x7FFF) key"
  have "fold ?f cs st = fold ?f ds st" for st
    using assms(1)
  proof (induction arbitrary: st)
    case (Cons c cs d ds)
    then have "?f c = ?f d" using assms(4) by (simp add: same_cand_def same_line_def Let_def)
    then show ?case using Cons.IH by simp
  qed simp
  then show ?thesis unfolding select_neon_lane_def m(1,2) using m(3) by (simp add: Let_def)
qed

lemma store_picked_at:
  assumes "x < DISPLAY_WIDTH"
  shows "top_color (store_picked f sel) x = fst (f x)" "top_key (store_picked f sel) x = fst (snd (f x))"
    "bottom_color (store_picked f sel) x = fst (snd (snd (f x)))" "bottom_key (store_picked f sel) x = snd (snd (snd (f x)))"
  using assms by (simp_all add: store_picked_def)

lemma compose_same:
  assumes "same_layer a b" "x < DISPLAY_WIDTH" "f x = g x" "known_key (bit (ol_color (l_obj b) x) 15) (fst (snd (g x)))"
  shows "compose_pixel a (store_picked f sel) x = compose_pixel b (store_picked g sel') x"
proof -
  have layer: "backdrop a = backdrop b" "l_bld_cnt a = l_bld_cnt b" "l_bld_alpha a = l_bld_alpha b" "l_bld_y a = l_bld_y b" "win_mask a x = win_mask b x"
    using assms(1,2) by (simp_all add: same_layer_def same_line_def)
  have "(key_layer (fst (snd (g x))) = LAYER_OBJ \<and> ol_semi (l_obj a) x \<noteq> 0) = (key_layer (fst (snd (g x))) = LAYER_OBJ \<and> ol_semi (l_obj b) x \<noteq> 0)"
    using known_key_layer(2) [OF assms(4)] assms(1,2) by (auto simp: same_layer_def same_obj_def)
  then show ?thesis unfolding compose_pixel_def store_picked_at [OF assms(2)] layer assms(3) Let_def by simp
qed

text \<open>The line drawn depends on the scratch buffers through the objects decoded for the line only.\<close>

lemma draw_scanline_same:
  assumes "line_objs (rs_oam sc) (ln - base_line (rs_oam sc)) = line_objs (rs_oam sc') (ln - base_line (rs_oam sc'))" "x < DISPLAY_WIDTH"
  shows "snd (draw_scanline buf pr dc ln (sc, fb)) x = snd (draw_scanline buf pr dc ln (sc', fb')) x"
proof (cases "dc_forced_blank dc")
  case True
  then show ?thesis using assms(2) by (simp add: scanline_composed_eq Let_def fill_span_def)
next
  case False
  let ?a = "draw_objs buf pr dc ln (rs_obj sc) (rs_oam sc)" and ?b = "draw_objs buf pr dc ln (rs_obj sc') (rs_oam sc')"
  let ?cs = "bg_order (draw_bgs buf pr dc (of_nat ln) 0 (rs_bg01 sc)) (draw_bgs buf pr dc (of_nat ln) 2 (rs_bg23 sc))"
  let ?ds = "bg_order (draw_bgs buf pr dc (of_nat ln) 0 (rs_bg01 sc')) (draw_bgs buf pr dc (of_nat ln) 2 (rs_bg23 sc'))"
  have layer: "same_layer ?a ?b" by (rule draw_objs_same [OF assms(1) False])
  have cands: "list_all2 same_cand ?cs ?ds" by (intro bg_order_same draw_bgs_same False)
  have pick: "select_neon_lane ?cs (l_obj ?a) (win_mask ?a) x = select_neon_lane ?ds (l_obj ?b) (win_mask ?b) x"
    by (rule select_same [OF cands _ _ assms(2)]) (use layer in \<open>simp_all add: same_layer_def\<close>)
  have "compose_pixel ?a (store_picked (select_neon_lane ?cs (l_obj ?a) (win_mask ?a)) (rs_sel sc)) x
      = compose_pixel ?b (store_picked (select_neon_lane ?ds (l_obj ?b) (win_mask ?b)) (rs_sel sc')) x"
    by (rule compose_same [where f = "select_neon_lane ?cs (l_obj ?a) (win_mask ?a)" and g = "select_neon_lane ?ds (l_obj ?b) (win_mask ?b)",
          OF layer assms(2) pick]) (rule neon_keys_known(1), use bg_order_layers in blast)
  then show ?thesis using False assms(2)
    by (simp add: scanline_composed_eq Let_def convert_555_line_def neon_selection_eq [symmetric] select_layers_neon_def)
qed

section \<open>A core's half of a frame\<close>

text \<open>A line drawn on its own, with fresh buffers and the objects decoded for that line alone.\<close>

definition line_pixel :: "gpu_mem_buf \<Rightarrow> (nat \<Rightarrow> u16 \<times> ppu_regs) \<Rightarrow> nat \<Rightarrow> nat \<Rightarrow> u32" where
  "line_pixel buf pr ln x = snd (draw_scanline buf (snd (pr ln)) (fst (pr ln)) ln
     (raster_scratch_new\<lparr>rs_oam := oam_decode (buf_oam buf) ln (ln + 1) oam_scratch_new\<rparr>, \<lambda>_. 0)) x"

lemma draw_scanline_oam: "rs_oam (fst (draw_scanline buf pp dc ln st)) = rs_oam (fst st)"
  by (simp add: draw_scanline_def Let_def split: prod.splits)

lemma draw_scanline_outside:
  assumes "DISPLAY_WIDTH \<le> x"
  shows "snd (draw_scanline buf pp dc ln (sc, fb)) x = fb x"
  using assms by (simp add: scanline_composed_eq Let_def fill_span_def convert_555_line_def)

lemma draw_row_pixels:
  assumes "line_objs (rs_oam sc) (ln - base_line (rs_oam sc)) = objs_on_line (buf_oam buf) ln [0..<128]"
  shows "rs_oam (fst (draw_row buf pr start ln (sc, fb))) = rs_oam sc"
    "snd (draw_row buf pr start ln (sc, fb)) k = (if (ln - start) * DISPLAY_WIDTH \<le> k \<and> k < (ln - start) * DISPLAY_WIDTH + DISPLAY_WIDTH
       then line_pixel buf pr ln (k - (ln - start) * DISPLAY_WIDTH) else fb k)"
proof -
  let ?fb = "\<lambda>x. fb ((ln - start) * DISPLAY_WIDTH + x)"
  obtain dc pp where p: "pr ln = (dc, pp)" by fastforce
  obtain sc' l where d: "draw_scanline buf pp dc ln (sc, ?fb) = (sc', l)" by fastforce
  then have row: "draw_row buf pr start ln (sc, fb) = (sc', \<lambda>k. if (ln - start) * DISPLAY_WIDTH \<le> k \<and> k < (ln - start) * DISPLAY_WIDTH + DISPLAY_WIDTH
      then l (k - (ln - start) * DISPLAY_WIDTH) else fb k)"
    by (simp add: draw_row_def Let_def p)
  show "rs_oam (fst (draw_row buf pr start ln (sc, fb))) = rs_oam sc"
    using draw_scanline_oam [of buf pp dc ln "(sc, ?fb)"] unfolding row d by simp
  let ?new = "raster_scratch_new\<lparr>rs_oam := oam_decode (buf_oam buf) ln (ln + 1) oam_scratch_new\<rparr>"
  have "line_objs (rs_oam sc) (ln - base_line (rs_oam sc)) = line_objs (rs_oam ?new) (ln - base_line (rs_oam ?new))"
    using assms oam_lists_eq [of ln ln "ln + 1"] by simp
  then have "l x = line_pixel buf pr ln x" if "x < DISPLAY_WIDTH" for x
    using draw_scanline_same [OF _ that, of sc ln ?new buf pp dc ?fb "\<lambda>_. 0"] by (simp add: line_pixel_def p d)
  then show "snd (draw_row buf pr start ln (sc, fb)) k = (if (ln - start) * DISPLAY_WIDTH \<le> k \<and> k < (ln - start) * DISPLAY_WIDTH + DISPLAY_WIDTH
       then line_pixel buf pr ln (k - (ln - start) * DISPLAY_WIDTH) else fb k)"
    unfolding row by auto
qed

lemma row_split:
  assumes "n * DISPLAY_WIDTH \<le> k" "k < n * DISPLAY_WIDTH + DISPLAY_WIDTH"
  shows "k div DISPLAY_WIDTH = n" "k mod DISPLAY_WIDTH = k - n * DISPLAY_WIDTH"
proof -
  show d: "k div DISPLAY_WIDTH = n" by (rule div_nat_eqI) (use assms in simp_all)
  show "k mod DISPLAY_WIDTH = k - n * DISPLAY_WIDTH" unfolding minus_div_mult_eq_mod [symmetric] d ..
qed

lemma row_append:
  "(if n * DISPLAY_WIDTH \<le> k \<and> k < n * DISPLAY_WIDTH + DISPLAY_WIDTH then g n (k - n * DISPLAY_WIDTH)
    else if k < n * DISPLAY_WIDTH then g (k div DISPLAY_WIDTH) (k mod DISPLAY_WIDTH) else v)
   = (if k < Suc n * DISPLAY_WIDTH then g (k div DISPLAY_WIDTH) (k mod DISPLAY_WIDTH) else v)"
proof (cases "n * DISPLAY_WIDTH \<le> k \<and> k < n * DISPLAY_WIDTH + DISPLAY_WIDTH")
  case True
  then show ?thesis using row_split [of n k] by simp
next
  case False
  then have "(k < Suc n * DISPLAY_WIDTH) = (k < n * DISPLAY_WIDTH)" by auto
  then show ?thesis unfolding if_not_P [OF False] by simp
qed

lemma draw_rows:
  assumes "\<And>ln. start \<le> ln \<Longrightarrow> ln < stop \<Longrightarrow> line_objs (rs_oam sc) (ln - base_line (rs_oam sc)) = objs_on_line (buf_oam buf) ln [0..<128]"
    and "start + n \<le> stop"
  shows "rs_oam (fst (fold (draw_row buf pr start) [start..<start + n] (sc, fb))) = rs_oam sc \<and>
    snd (fold (draw_row buf pr start) [start..<start + n] (sc, fb)) = (\<lambda>k. if k < n * DISPLAY_WIDTH
      then line_pixel buf pr (start + k div DISPLAY_WIDTH) (k mod DISPLAY_WIDTH) else fb k)"
  using assms(2)
proof (induction n)
  case (Suc n)
  obtain s f where st: "fold (draw_row buf pr start) [start..<start + n] (sc, fb) = (s, f)" by fastforce
  with Suc have s: "rs_oam s = rs_oam sc" and f: "f = (\<lambda>k. if k < n * DISPLAY_WIDTH
      then line_pixel buf pr (start + k div DISPLAY_WIDTH) (k mod DISPLAY_WIDTH) else fb k)" by simp_all
  have objs: "line_objs (rs_oam s) (start + n - base_line (rs_oam s)) = objs_on_line (buf_oam buf) (start + n) [0..<128]"
    unfolding s by (rule assms(1)) (use Suc.prems in auto)
  note row = draw_row_pixels [OF objs, of pr start f]
  have step: "fold (draw_row buf pr start) [start..<start + Suc n] (sc, fb) = draw_row buf pr start (start + n) (s, f)"
    by (simp add: st)
  have "snd (draw_row buf pr start (start + n) (s, f)) = (\<lambda>k. if k < Suc n * DISPLAY_WIDTH
      then line_pixel buf pr (start + k div DISPLAY_WIDTH) (k mod DISPLAY_WIDTH) else fb k)"
    unfolding row(2) [abs_def] add_diff_cancel_left' unfolding f row_append [of n _ "\<lambda>i. line_pixel buf pr (start + i)"] by (rule refl)
  then show ?case unfolding step row(1) s by (intro conjI refl)
qed simp

text \<open>
  C12: each core's half of a frame is drawn line by line, each line as if it were alone. Pixel \<open>x\<close> of
  line \<open>ln\<close> in the buffer of the half is the one that drawing that single line gives, with fresh
  buffers and the objects decoded for it alone: no line leaves anything behind that a later one shows,
  nothing of an earlier frame shows through the scratch buffers or the pixel buffer that are used again,
  and neither half sees the other. Memory past the half's rows is left as it was.
\<close>

theorem frame_lines_independent:
  "snd (rasterize_half rn half slot (sc, fb)) = (\<lambda>k. if k < DISPLAY_HEIGHT div 2 * DISPLAY_WIDTH
     then line_pixel (slot_mem rn slot) (slot_regs rn slot) (half * (DISPLAY_HEIGHT div 2) + k div DISPLAY_WIDTH) (k mod DISPLAY_WIDTH) else fb k)"
proof -
  let ?buf = "slot_mem rn slot" and ?start = "half * (DISPLAY_HEIGHT div 2)"
  let ?stop = "?start + DISPLAY_HEIGHT div 2"
  have "line_objs (rs_oam (begin_frame ?buf ?start ?stop sc)) (ln - base_line (rs_oam (begin_frame ?buf ?start ?stop sc)))
      = objs_on_line (buf_oam ?buf) ln [0..<128]" if "?start \<le> ln" "ln < ?stop" for ln
    using oam_lists_eq [OF that] by (simp add: begin_frame_def)
  from draw_rows [where start = ?start and stop = ?stop and n = "DISPLAY_HEIGHT div 2", OF this order_refl, where pr = "slot_regs rn slot" and fb = fb]
  show ?thesis unfolding rasterize_half_def Let_def prod.case by (rule conjunct2)
qed

end
