(* ===== verification/Spec2Isabelle.thy ===== *)
theory Spec2Isabelle
  imports System InfoLaws EffectLaws RasterFrame
begin

text \<open>
  A verification development for a Game Boy Advance emulator (the Rust crate under \<open>src/src\<close>, with the
  register-table macros of \<open>src/macros\<close>). The emulator runs one guest processor. Guest code is executed
  by an interpreter or by a compiler that emits host code; both read and write guest memory through
  page tables over one shared block, with a region handler as the slow path. Devices (display,
  timers, DMA, sound, clock chip, save memory) change state when the guest writes their registers and
  when a scheduled event falls due; the cycle manager runs the due events between blocks of guest
  code, and an event may raise an interrupt, which the processor takes when its masks allow. Calls
  into the BIOS are replaced by host functions.

  \<^bold>\<open>State.\<close> The guest-visible state is the record \<open>emu\<close> (theory \<open>EmuState\<close>), with one field for each part of
  \<open>struct Emu\<close>. Operations take and return it. Release-build semantics: \<open>+\<close>, \<open>-\<close> and \<open>*\<close> wrap on the machine
  width (\<open>u8\<close> to \<open>u64\<close> are words), and an out-of-range index, a division by zero, \<open>todo!()\<close>, a null
  dereference or \<open>debug_panic!\<close> is the value \<open>None\<close>. A generic transfer \<open>T: Convert\<close> is a size in bytes, 1, 2
  or 4, with values in 32 bits.

  \<^bold>\<open>Theories and sources\<close> (below \<open>src/src\<close>):
  \<^item> \<open>Prelude\<close>: word types, integer intrinsics, shared lemmas.
  \<^item> \<open>CycleManager\<close> (\<open>core/cycle_manager.rs\<close>): the event queue as a bit set and an array of due cycles. Due
    selection, the queue invariant, drift-free periodic events, the rebase of the clock.
  \<^item> \<open>Rtc\<close> (\<open>core/rtc.rs\<close>), \<open>Cartridge\<close> (\<open>core/memory/cartridge.rs\<close>, \<open>cartridge_io.rs\<close>), \<open>Apu\<close> (\<open>core/apu.rs\<close>),
    \<open>JitMemory\<close> (\<open>jit/jit_memory.rs\<close>, \<open>jit/jit_memory_map.rs\<close>): devices and bookkeeping with their own state,
    each with its invariant and its protocol (clock chip transfers, flash and EEPROM sequences, sound
    queues, invalidation of compiled code).
  \<^item> \<open>EmuState\<close> (\<open>core/emu.rs\<close>), \<open>Cpu\<close> (\<open>core/cpu_regs.rs\<close>, \<open>core/thread_regs.rs\<close>, \<open>core/exception_handler.rs\<close>),
    \<open>Devices\<close> (\<open>core/timers.rs\<close>, \<open>core/input.rs\<close>, registers of \<open>core/memory/dma.rs\<close>), \<open>Gpu\<close> (\<open>core/gpu.rs\<close>, registers
    of \<open>core/ppu.rs\<close>): the operations on the whole machine state.
  \<^item> \<open>Io\<close> (\<open>core/memory/io_gba*.rs\<close>, \<open>src/macros\<close>): register tables and the lookup tables built from them.
  \<^item> \<open>Memory\<close>, \<open>MemoryLaws\<close>, \<open>Slices\<close> (\<open>core/memory/mem.rs\<close>, \<open>mmu.rs\<close>, \<open>regions.rs\<close>): bus, page tables, block
    transfers; the laws of main memory, video memory and of block copies.
  \<^item> \<open>Dma\<close> (\<open>core/memory/dma.rs\<close>), \<open>Bios\<close>, \<open>BiosLaws\<close> (\<open>core/hle/bios.rs\<close>): transfers and BIOS calls, with their
    refinement of reference decoders.
  \<^item> \<open>Events\<close> (dispatch part of \<open>core/cycle_manager.rs\<close>), \<open>System\<close> (\<open>lib.rs\<close>, \<open>savestate.rs\<close>): the event loop over
    all handlers, machine reset, boot and one iteration of the main loop.
  \<^item> \<open>InterpAlu\<close>, \<open>InterpMem\<close>, \<open>InterpThumb\<close>, \<open>Dispatch\<close> (\<open>jit/interpreter\<close>): every ARM and Thumb handler, the
    handler tables and the execution of one instruction; \<open>ThumbLaws\<close> has the laws of the Thumb half.
  \<^item> \<open>Disasm\<close> (\<open>jit/disassembler/lookup_table.rs\<close>, \<open>thumb/lookup_table_thumb.rs\<close>, \<open>jit/op.rs\<close>): the opcode tables
    of the compiler; \<open>DecodeLaws\<close> has the laws of decoding for both sets of tables.
  \<^item> \<open>InstInfo\<close>, \<open>InstThumb\<close> (\<open>jit/inst_info*.rs\<close>, the operand decoders of \<open>jit/disassembler\<close>, the register
    sets of \<open>src/vixl\<close>) and \<open>Analyzer\<close> (\<open>fill_jit_insts_buf\<close> of \<open>jit/jit_asm.rs\<close>, \<open>jit/analyzer\<close>): the compiler's
    front end. \<open>InfoLaws\<close>: decoded instructions are well formed. \<open>AnalyzerLaws\<close>: basic blocks and live
    registers are exact, and the front end returns. \<open>EffectLaws\<close> ties it to the interpreter: the decoded
    register sets are what the handlers read and write, dead registers are dead, idle loops are idle.
  \<^item> \<open>Raster\<close>, \<open>RasterObj\<close> (module \<open>soft_ppu\<close> of \<open>core/ppu.rs\<close>, \<open>rasterize_half\<close> of \<open>core/gpu.rs\<close>): the software
    rasteriser. \<open>RasterLaws\<close> (layer selection, blending), \<open>RasterBg\<close> (backgrounds) and \<open>RasterFrame\<close> (object
    lists, scanlines, a core's half of a frame): its fast paths are the plain definitions, and nothing of
    its reused buffers shows.

  \<^bold>\<open>Interfaces.\<close> The contracts between parts are locales, interpreted on the model's own definitions in the
  theory that provides them. So \<open>instruction_effects\<close> (theory \<open>EffectLaws\<close>) is what liveness and idle loops
  ask of an instruction - it changes only its outputs, which depend only on its sources - and is
  interpreted on the interpreter's Thumb handlers with the decoded register sets.

  \<^bold>\<open>Loops.\<close> \<open>run_due\<close>, the loop over due events, is a \<open>partial_function\<close> into \<open>option\<close>; that it returns is proved
  from a measure of the events still due. The decompression loops \<open>lz_loop\<close> and \<open>rl_loop\<close> are functions
  with a measure on the bytes still to write, the tile runs \<open>text_loop\<close> and \<open>obj_loop\<close> with one on the pixels
  left. \<open>fill_loop\<close>, which decodes a block, is a \<open>partial_function\<close>; that it returns on ARM code is proved from
  its limit of 500 instructions. Everything else is structural or bounded by a list. No definition
  uses fuel.

  \<^bold>\<open>Parameters.\<close> \<open>host_math\<close> is the floating-point arithmetic of the host (arc tangent, affine matrices); the
  main loop takes the execution of compiled code as an argument; the host clock is a field of the
  state, and so are the host addresses of the shared memory and of two buffers, because a transfer to a
  fixed address stores one of them (theory \<open>Dma\<close>).

  \<^bold>\<open>Not modelled.\<close> The compiler's code emission (\<open>jit/assembler\<close>, \<open>jit/emitter\<close>, the rest of \<open>jit/jit_asm.rs\<close>) and
  the host side of memory protection work on host machine code. The block loop of the interpreter, which
  charges cycles and hands over to compiled code, is not modelled; the execution of one instruction is.
  The vector instructions of the rasteriser are written for one lane. Savestate files, the user
  interface, settings, logging and network achievements are host input and output.
\<close>

end
